(* ===== verification/Prelude.thy ===== *)
theory Prelude
  imports Main "HOL-Library.Word"
begin

text \<open>
  The shared base of the development: the fixed-width integer types of the C sources, the flat
  byte memory that the kernel's C code reads and writes through pointers, its 64-bit little-endian
  accesses, and the lemmas on words, alignment and memory that the component theories use.
\<close>

unbundle bit_operations_syntax

section \<open>Integer types\<close>

type_synonym u8 = "8 word"
type_synonym u16 = "16 word"
type_synonym u32 = "32 word"
type_synonym u64 = "64 word"

named_theorems mem_simps \<open>reads after writes in the flat memory\<close>
named_theorems align_intros \<open>alignment of computed addresses\<close>

section \<open>The flat memory\<close>

text \<open>
  C pointers are 64-bit addresses.  The memory maps every address to the byte the C code sees
  there.  A 64-bit access touches eight consecutive bytes in little-endian order
  (\<open>word_rcat\<close> concatenates with the most significant byte first).
\<close>

type_synonym memory = "u64 \<Rightarrow> u8"

definition store64 :: "memory \<Rightarrow> u64 \<Rightarrow> u64 \<Rightarrow> memory" where
  "store64 m a v =
     (\<lambda>x. if unat (x - a) < 8 then ucast (drop_bit (8 * unat (x - a)) v) else m x)"

definition load64 :: "memory \<Rightarrow> u64 \<Rightarrow> u64" where
  "load64 m a = word_rcat (rev (map (\<lambda>i. m (a + word_of_nat i)) [0..<8]))"

definition aligned :: "nat \<Rightarrow> u64 \<Rightarrow> bool" where
  "aligned k a \<longleftrightarrow> 2 ^ k dvd unat a"

text \<open>Memory that a byte loop \<^verbatim>\<open>for (i = 0; i < n; i++) p[i] = v\<close> leaves behind.\<close>

primrec memset8 :: "memory \<Rightarrow> u64 \<Rightarrow> u8 \<Rightarrow> nat \<Rightarrow> memory" where
  "memset8 m p v 0 = m"
| "memset8 m p v (Suc n) = (memset8 m p v n)(p + word_of_nat n := v)"

text \<open>Memory that a loop over a \<^verbatim>\<open>uint64_t\<close> array leaves behind.\<close>

primrec fill64 :: "memory \<Rightarrow> u64 \<Rightarrow> (nat \<Rightarrow> u64) \<Rightarrow> nat \<Rightarrow> memory" where
  "fill64 m p f 0 = m"
| "fill64 m p f (Suc n) = store64 (fill64 m p f n) (p + 8 * word_of_nat n) (f n)"

section \<open>Words\<close>

lemma unat64_less: "unat (a :: u64) < 18446744073709551616"
  using unsigned_less[of a, where ?'a = nat] by simp

lemma unat_of_nat64: "n < 18446744073709551616 \<Longrightarrow> unat (word_of_nat n :: u64) = n"
  by (simp add: unsigned_of_nat take_bit_nat_eq_self)

lemma unat_add64:
  "unat a + unat b < 18446744073709551616 \<Longrightarrow> unat (a + b :: u64) = unat a + unat b"
  using unat_add_lem[of a b] by simp

lemma unat_sub64: "b \<le> a \<Longrightarrow> unat (a - b :: u64) = unat a - unat b"
  by (simp add: unat_sub)

lemma unat_add_nat64:
  "unat a + n < 18446744073709551616 \<Longrightarrow> unat (a + word_of_nat n :: u64) = unat a + n"
  using unat_add64[of a "word_of_nat n"] unat_of_nat64[of n] by simp

lemma word64_eqI: "unat a = unat b \<Longrightarrow> a = (b :: u64)"
  by (simp add: word_unat_eq_iff)

section \<open>Alignment\<close>

lemma unat_minus_shift:
  fixes x p :: u64
  assumes "n < 18446744073709551616"
  shows "unat (x - (p + word_of_nat n)) = (if n \<le> unat (x - p) then unat (x - p) - n else unat (x - p) + 18446744073709551616 - n)"
proof -
  have "x - (p + word_of_nat n) = (x - p) - word_of_nat n" by simp
  then have "unat (x - (p + word_of_nat n)) = unat ((x - p) - word_of_nat n)" by (rule arg_cong)
  also have "\<dots> = (if n \<le> unat (x - p) then unat (x - p) - n else unat (x - p) + 2 ^ 64 - n)"
    by (subst unat_sub_if') (simp only: unat_of_nat64[OF assms], simp)
  finally show ?thesis by simp
qed

lemma sint_small: "unat x < 2 ^ 31 \<Longrightarrow> sint (x :: u32) = int (unat x)"
proof -
  assume "unat x < 2 ^ 31"
  then have "int (unat x) < int (2 ^ 31)" by (simp only: of_nat_less_iff)
  then have "int (unat x) < 2 ^ 31" by (simp only: of_nat_power of_nat_numeral)
  then have "uint x < 2 ^ 31" by (simp only: uint_nat)
  moreover have "- (2 ^ 31) \<le> uint x" by (rule order_trans[OF _ unsigned_greater_eq]) simp
  ultimately have "signed_take_bit 31 (uint x) = uint x" by (intro signed_take_bit_int_eq_self)
  then show ?thesis by (simp add: sint_uint)
qed

lemma aligned_0 [simp, align_intros]: "aligned k 0"
  by (simp add: aligned_def)

lemma aligned_mono: "aligned k a \<Longrightarrow> j \<le> k \<Longrightarrow> aligned j a"
  unfolding aligned_def by (meson dvd_trans le_imp_power_dvd)

lemma aligned_add [align_intros]:
  assumes "aligned k a" "aligned k b" "k \<le> 64"
  shows "aligned k (a + b)"
proof -
  have "2 ^ k dvd (unat a + unat b) mod 2 ^ 64"
    using assms by (intro dvd_mod le_imp_power_dvd) (auto simp: aligned_def)
  then show ?thesis
    by (simp add: aligned_def unat_word_ariths)
qed

lemma aligned_diff [align_intros]:
  assumes "aligned k a" "aligned k b" "k \<le> 64"
  shows "aligned k (a - b)"
proof -
  have "2 ^ k dvd (2 ^ 64 :: nat)"
    using assms(3) by (rule le_imp_power_dvd)
  then show ?thesis
    using assms(1,2) unsigned_less[of b, where ?'a = nat]
    by (auto simp: aligned_def unat_sub_if' intro: dvd_diff_nat dvd_add)
qed

lemma aligned_mult [align_intros]:
  assumes "aligned k a" "k \<le> 64"
  shows "aligned k (a * b)"
proof -
  have "2 ^ k dvd (unat a * unat b) mod 2 ^ 64"
    using assms by (intro dvd_mod le_imp_power_dvd) (auto simp: aligned_def)
  then show ?thesis
    by (simp add: aligned_def unat_word_ariths)
qed

section \<open>Reads after writes\<close>

lemma bit_load64:
  assumes "n < 64"
  shows "bit (load64 m a) n = bit (m (a + word_of_nat (n div 8))) (n mod 8)"
proof -
  have "n div 8 < 8" using assms by simp
  then show ?thesis
    using assms
    by (simp add: load64_def word_rcat_def bit_simps
        bit_horner_sum_uint_exp_iff[where ?'a = 8, simplified])
qed

lemma load64_cong:
  assumes "\<And>i. i < 8 \<Longrightarrow> m (a + word_of_nat i) = m' (a + word_of_nat i)"
  shows "load64 m a = load64 m' a"
  unfolding load64_def using assms by (intro arg_cong[where f = word_rcat]) simp

lemma load64_store64_same [simp, mem_simps]: "load64 (store64 m a v) a = v"
proof (rule bit_word_eqI)
  fix n assume n: "n < LENGTH(64)"
  then have "n div 8 < 8" by simp
  with n show "bit (load64 (store64 m a v) a) n = bit v n"
    by (simp add: bit_load64 store64_def bit_simps unat_of_nat64)
qed

lemma unat_aligned_add:
  assumes "aligned 3 a" "i < 8"
  shows "unat (a + word_of_nat i) = unat a + i"
proof -
  obtain k where k: "unat a = 8 * k"
    using assms(1) by (auto simp: aligned_def)
  then have "k < 2305843009213693952"
    using unat64_less[of a] by simp
  then show ?thesis
    using k assms(2) by (intro unat_add_nat64) simp
qed

lemma aligned_bytes_differ:
  assumes "aligned 3 a" "aligned 3 b" "a \<noteq> b" "i < 8" "j < 8"
  shows "a + word_of_nat i \<noteq> b + word_of_nat j"
proof
  assume "a + word_of_nat i = b + word_of_nat j"
  then have "unat a + i = unat b + j"
    using unat_aligned_add[OF assms(1,4)] unat_aligned_add[OF assms(2,5)] by simp
  moreover have "8 dvd unat a" "8 dvd unat b"
    using assms(1,2) by (simp_all add: aligned_def)
  ultimately have "unat a = unat b"
    using assms(4,5) by presburger
  then have "a = b" by (rule word64_eqI)
  with assms(3) show False ..
qed

lemma load64_store64_other [mem_simps]:
  assumes "a \<noteq> b" "aligned 3 a" "aligned 3 b"
  shows "load64 (store64 m a v) b = load64 m b"
proof (rule load64_cong)
  fix i :: nat assume i: "i < 8"
  have "\<not> unat (b + word_of_nat i - a) < 8"
  proof
    assume "unat (b + word_of_nat i - a) < 8"
    then have "b + word_of_nat i \<noteq> a + word_of_nat (unat (b + word_of_nat i - a))"
      using aligned_bytes_differ[OF assms(3,2) assms(1)[symmetric] i] by blast
    then show False by simp
  qed
  then show "store64 m a v (b + word_of_nat i) = m (b + word_of_nat i)"
    by (simp add: store64_def)
qed

lemma memset8_apply:
  assumes "n \<le> 18446744073709551616"
  shows "memset8 m p v n x = (if unat (x - p) < n then v else m x)"
  using assms
proof (induction n)
  case (Suc n)
  have "x = p + word_of_nat n \<longleftrightarrow> unat (x - p) = n"
    using Suc.prems unat_of_nat64[of n] by (auto simp: word_unat_eq_iff[of "x - p"] algebra_simps)
  with Suc show ?case by auto
qed simp

lemma load64_fill64_other:
  assumes "aligned 3 p" "aligned 3 b" "\<And>i. i < n \<Longrightarrow> b \<noteq> p + 8 * word_of_nat i"
  shows "load64 (fill64 m p f n) b = load64 m b"
  using assms(3)
proof (induction n)
  case (Suc n)
  have "aligned 3 (p + 8 * word_of_nat n)"
    using assms(1) by (intro align_intros) (simp_all add: aligned_def)
  moreover have "p + 8 * word_of_nat n \<noteq> b"
    using Suc.prems[of n] by blast
  ultimately show ?case
    using Suc assms(2) by (simp add: load64_store64_other)
qed simp

lemma slot_inject:
  assumes "i < 2305843009213693952" "j < 2305843009213693952"
    "(p :: u64) + 8 * word_of_nat i = p + 8 * word_of_nat j"
  shows "i = j"
proof -
  have u: "unat (8 * word_of_nat k :: u64) = 8 * k" if "k < 2305843009213693952" for k
    using unat_of_nat64[of "8 * k"] that by simp
  have "8 * word_of_nat i = (8 * word_of_nat j :: u64)"
    using assms(3) by (simp only: add_left_cancel)
  then have "unat (8 * word_of_nat i :: u64) = unat (8 * word_of_nat j :: u64)"
    by (rule arg_cong)
  then show ?thesis
    unfolding u[OF assms(1)] u[OF assms(2)] by simp
qed

lemma load64_fill64_same:
  assumes "aligned 3 p" "i < n" "n \<le> 2305843009213693952"
  shows "load64 (fill64 m p f n) (p + 8 * word_of_nat i) = f i"
  using assms(2,3)
proof (induction n)
  case (Suc n)
  have al: "aligned 3 (p + 8 * word_of_nat k)" for k
    using assms(1) by (intro align_intros) (simp_all add: aligned_def)
  show ?case
  proof (cases "i = n")
    case False
    with Suc.prems have "p + 8 * word_of_nat n \<noteq> p + 8 * word_of_nat i"
      using slot_inject[of n i p] by auto
    then show ?thesis
      using Suc False al by (simp add: load64_store64_other)
  qed simp
qed simp

end
