(* ===== verification/Pmm.thy ===== *)
theory Pmm
  imports Prelude
begin

text \<open>
  The physical page-frame allocator of \<^verbatim>\<open>kernel/EarlyKernel/pmm.c\<close>: a bitmap with one bit per
  4 KiB frame of the first 4 GiB (0 = free, 1 = used) and two counters.  The theory has the
  bitmap primitives, \<open>pmm_init\<close>, \<open>pmm_alloc_page\<close> and \<open>pmm_free_page\<close>, the set of free frames as
  their abstraction, and the interface \<open>frame_allocator\<close> on which the virtual memory manager rests.
\<close>

section \<open>Data\<close>

abbreviation PAGE_SIZE :: u64 where
  "PAGE_SIZE \<equiv> 4096"

abbreviation PMM_MAX_PAGES :: nat where
  "PMM_MAX_PAGES \<equiv> 1048576"

abbreviation MULTIBOOT_MEMORY_AVAILABLE :: u32 where
  "MULTIBOOT_MEMORY_AVAILABLE \<equiv> 1"

record multiboot2_mmap_entry =
  me_addr :: u64
  me_len :: u64
  me_type :: u32
  me_zero :: u32

text \<open>
  The bitmap is the array \<^verbatim>\<open>pmm_bitmap[PMM_MAX_PAGES / 8]\<close>; every access below is guarded by
  \<^verbatim>\<open>page < PMM_MAX_PAGES\<close>, so the model keeps it as a function on the indices.
\<close>

record pmm_state =
  pmm_bitmap :: "nat \<Rightarrow> u8"
  total_pages :: u64
  used_pages :: u64

section \<open>Operations\<close>

definition bitmap_set :: "nat \<Rightarrow> pmm_state \<Rightarrow> pmm_state" where
  "bitmap_set page s =
     (if page < PMM_MAX_PAGES
      then s\<lparr>pmm_bitmap := (pmm_bitmap s)(page div 8 :=
              pmm_bitmap s (page div 8) OR push_bit (page mod 8) 1)\<rparr>
      else s)"

definition bitmap_clear :: "nat \<Rightarrow> pmm_state \<Rightarrow> pmm_state" where
  "bitmap_clear page s =
     (if page < PMM_MAX_PAGES
      then s\<lparr>pmm_bitmap := (pmm_bitmap s)(page div 8 :=
              pmm_bitmap s (page div 8) AND NOT (push_bit (page mod 8) 1))\<rparr>
      else s)"

definition bitmap_test :: "nat \<Rightarrow> pmm_state \<Rightarrow> bool" where
  "bitmap_test page s =
     (if page \<ge> PMM_MAX_PAGES then True
      else drop_bit (page mod 8) (pmm_bitmap s (page div 8)) AND 1 \<noteq> 0)"

text \<open>The inner loop of step 2 of \<^verbatim>\<open>pmm_init\<close>: frames \<open>p\<close> up to \<open>end_page\<close> become free.\<close>

function pmm_release :: "nat \<Rightarrow> nat \<Rightarrow> pmm_state \<Rightarrow> pmm_state" where
  "pmm_release p end_page s =
     (if p < end_page \<and> p < PMM_MAX_PAGES
      then pmm_release (p + 1) end_page
             (let s' = bitmap_clear p s in s'\<lparr>total_pages := total_pages s' + 1\<rparr>)
      else s)"
  by pat_completeness auto
termination
  by (relation "measure (\<lambda>(p, e, s). PMM_MAX_PAGES - p)") auto

declare pmm_release.simps [simp del]

definition entry_start_page :: "multiboot2_mmap_entry \<Rightarrow> u64" where
  "entry_start_page e = (me_addr e + PAGE_SIZE - 1) div PAGE_SIZE"

definition entry_end_page :: "multiboot2_mmap_entry \<Rightarrow> u64" where
  "entry_end_page e = (me_addr e + me_len e) div PAGE_SIZE"

fun pmm_add_entries :: "multiboot2_mmap_entry list \<Rightarrow> pmm_state \<Rightarrow> pmm_state" where
  "pmm_add_entries [] s = s"
| "pmm_add_entries (e # es) s =
     (if me_type e \<noteq> MULTIBOOT_MEMORY_AVAILABLE then pmm_add_entries es s
      else pmm_add_entries es
             (pmm_release (unat (entry_start_page e)) (unat (entry_end_page e)) s))"

text \<open>Step 3 of \<^verbatim>\<open>pmm_init\<close>: the frames below the kernel's end are reserved.\<close>

function pmm_reserve :: "nat \<Rightarrow> nat \<Rightarrow> pmm_state \<Rightarrow> pmm_state" where
  "pmm_reserve p kernel_end_page s =
     (if p < kernel_end_page \<and> p < PMM_MAX_PAGES
      then pmm_reserve (p + 1) kernel_end_page
             (if \<not> bitmap_test p s
              then let s' = bitmap_set p s
                   in s'\<lparr>used_pages := used_pages s' + 1, total_pages := total_pages s' - 1\<rparr>
              else s)
      else s)"
  by pat_completeness auto
termination
  by (relation "measure (\<lambda>(p, e, s). PMM_MAX_PAGES - p)") auto

declare pmm_reserve.simps [simp del]

definition pmm_init :: "multiboot2_mmap_entry list \<Rightarrow> u64 \<Rightarrow> pmm_state \<Rightarrow> pmm_state" where
  "pmm_init entries kernel_end_phys s =
     (let s1 = s\<lparr>pmm_bitmap := (\<lambda>_. 0xFF), total_pages := 0, used_pages := 0\<rparr>;
          s2 = pmm_add_entries entries s1;
          kernel_end_page = (kernel_end_phys + PAGE_SIZE - 1) div PAGE_SIZE
      in pmm_reserve 0 (unat kernel_end_page) s2)"

function pmm_scan :: "nat \<Rightarrow> pmm_state \<Rightarrow> u64 \<times> pmm_state" where
  "pmm_scan i s =
     (if i < PMM_MAX_PAGES
      then if \<not> bitmap_test i s
           then let s' = bitmap_set i s
                in (word_of_nat i * PAGE_SIZE,
                    s'\<lparr>used_pages := used_pages s' + 1, total_pages := total_pages s' - 1\<rparr>)
           else pmm_scan (i + 1) s
      else (0, s))"
  by pat_completeness auto
termination
  by (relation "measure (\<lambda>(i, s). PMM_MAX_PAGES - i)") auto

declare pmm_scan.simps [simp del]

definition pmm_alloc_page :: "pmm_state \<Rightarrow> u64 \<times> pmm_state" where
  "pmm_alloc_page s = pmm_scan 0 s"

definition pmm_free_page :: "u64 \<Rightarrow> pmm_state \<Rightarrow> pmm_state" where
  "pmm_free_page phys_addr s =
     (let page = unat (phys_addr div PAGE_SIZE)
      in if page < PMM_MAX_PAGES \<and> bitmap_test page s
         then let s' = bitmap_clear page s
              in s'\<lparr>used_pages := used_pages s' - 1, total_pages := total_pages s' + 1\<rparr>
         else s)"

definition pmm_get_total_pages :: "pmm_state \<Rightarrow> u64" where
  "pmm_get_total_pages s = total_pages s"

definition pmm_get_used_pages :: "pmm_state \<Rightarrow> u64" where
  "pmm_get_used_pages s = used_pages s"

definition pmm_get_free_pages :: "pmm_state \<Rightarrow> u64" where
  "pmm_get_free_pages s = total_pages s"

section \<open>The set of free frames\<close>

definition free_set :: "pmm_state \<Rightarrow> nat set" where
  "free_set s = {p. p < PMM_MAX_PAGES \<and> \<not> bitmap_test p s}"

definition free_frames :: "pmm_state \<Rightarrow> u64 set" where
  "free_frames s = (\<lambda>p. word_of_nat p * PAGE_SIZE) ` free_set s"

definition pmm_inv :: "pmm_state \<Rightarrow> bool" where
  "pmm_inv s \<longleftrightarrow> 0 \<notin> free_set s \<and> unat (total_pages s) = card (free_set s)"

lemma bitmap_test_bit:
  "bitmap_test p s \<longleftrightarrow> p \<ge> PMM_MAX_PAGES \<or> bit (pmm_bitmap s (p div 8)) (p mod 8)"
  by (simp add: bitmap_test_def and_one_eq bit_iff_odd_drop_bit mod_2_eq_odd)

lemma page_bit_eq: "p div 8 = q div 8 \<Longrightarrow> p mod 8 = q mod 8 \<Longrightarrow> p = (q :: nat)"
  by (metis div_mult_mod_eq)

lemma bitmap_test_set [simp]:
  "bitmap_test q (bitmap_set p s) \<longleftrightarrow> q = p \<or> bitmap_test q s"
  using page_bit_eq[of p q] by (auto simp: bitmap_test_bit bitmap_set_def bit_simps)

lemma bitmap_test_clear [simp]:
  "bitmap_test q (bitmap_clear p s) \<longleftrightarrow>
     (if q = p \<and> p < PMM_MAX_PAGES then False else bitmap_test q s)"
  using page_bit_eq[of p q] by (auto simp: bitmap_test_bit bitmap_clear_def bit_simps)

lemma bitmap_test_counters [simp]:
  "bitmap_test q (s\<lparr>total_pages := t\<rparr>) = bitmap_test q s"
  "bitmap_test q (s\<lparr>used_pages := t\<rparr>) = bitmap_test q s"
  by (simp_all add: bitmap_test_def)

lemma bitmap_frame [simp]:
  "total_pages (bitmap_set p s) = total_pages s" "used_pages (bitmap_set p s) = used_pages s"
  "total_pages (bitmap_clear p s) = total_pages s" "used_pages (bitmap_clear p s) = used_pages s"
  by (simp_all add: bitmap_set_def bitmap_clear_def)

lemma free_set_simps [simp]:
  "free_set (bitmap_set p s) = free_set s - {p}"
  "free_set (bitmap_clear p s) = (if p < PMM_MAX_PAGES then insert p (free_set s) else free_set s)"
  "free_set (s\<lparr>total_pages := t\<rparr>) = free_set s"
  "free_set (s\<lparr>used_pages := t\<rparr>) = free_set s"
  by (auto simp: free_set_def)

lemma finite_free_set [simp]: "finite (free_set s)"
  by (simp add: free_set_def)

lemma free_set_bound: "p \<in> free_set s \<Longrightarrow> p < PMM_MAX_PAGES"
  by (simp add: free_set_def)

lemma card_free_set: "card (free_set s) \<le> PMM_MAX_PAGES"
proof -
  have "free_set s \<subseteq> {..<PMM_MAX_PAGES}" by (auto simp: free_set_def)
  then show ?thesis using card_mono[of "{..<PMM_MAX_PAGES}" "free_set s"] by simp
qed

subsection \<open>Allocation\<close>

definition take_frame :: "nat \<Rightarrow> pmm_state \<Rightarrow> pmm_state" where
  "take_frame p s =
     (bitmap_set p s)\<lparr>used_pages := used_pages s + 1, total_pages := total_pages s - 1\<rparr>"

lemma pmm_scan_first_fit:
  "pmm_scan i s =
     (if \<exists>p \<ge> i. p \<in> free_set s
      then let p = (LEAST p. p \<ge> i \<and> p \<in> free_set s)
           in (word_of_nat p * PAGE_SIZE, take_frame p s)
      else (0, s))"
proof (induction i s rule: pmm_scan.induct)
  case (1 i s)
  show ?case
  proof (cases "i \<in> free_set s")
    case True
    then have "(LEAST p. p \<ge> i \<and> p \<in> free_set s) = i"
      by (intro Least_equality) auto
    then show ?thesis
      using True by (subst pmm_scan.simps) (auto simp: free_set_def take_frame_def Let_def)
  next
    case False
    have same: "(p \<ge> i + 1 \<and> p \<in> free_set s) = (p \<ge> i \<and> p \<in> free_set s)" for p
      using False by (metis Suc_eq_plus1 Suc_leI antisym_conv2 nat_le_linear not_less_eq_eq)
    show ?thesis
    proof (cases "i < PMM_MAX_PAGES")
      case True
      with False have "bitmap_test i s" by (simp add: free_set_def)
      with True 1 show ?thesis
        by (subst pmm_scan.simps) (simp only: same simp_thms if_True if_False)
    next
      case over: False
      then have none: "\<not> (\<exists>p \<ge> i. p \<in> free_set s)"
        using free_set_bound by fastforce
      show ?thesis
        unfolding if_not_P[OF none] using over by (subst pmm_scan.simps) simp
    qed
  qed
qed

lemma pmm_alloc_page_eq:
  "pmm_alloc_page s =
     (if free_set s = {} then (0, s)
      else (word_of_nat (Min (free_set s)) * PAGE_SIZE, take_frame (Min (free_set s)) s))"
proof -
  have "(LEAST p. p \<in> free_set s) = Min (free_set s)" if "free_set s \<noteq> {}"
    using that by (intro Least_equality) auto
  then show ?thesis
    unfolding pmm_alloc_page_def pmm_scan_first_fit by (auto simp: Let_def)
qed

lemma free_set_take_frame [simp]: "free_set (take_frame p s) = free_set s - {p}"
  by (simp add: take_frame_def)

lemma pmm_inv_take_frame:
  assumes "pmm_inv s" "p \<in> free_set s"
  shows "pmm_inv (take_frame p s)"
proof -
  have "0 < card (free_set s)"
    using assms(2) by (auto simp: card_gt_0_iff)
  then have "1 \<le> total_pages s"
    using assms(1) by (simp add: pmm_inv_def word_le_nat_alt)
  then show ?thesis
    using assms by (simp add: pmm_inv_def take_frame_def unat_sub)
qed

lemma frame_address_inject:
  assumes "p < PMM_MAX_PAGES" "q < PMM_MAX_PAGES"
    "(word_of_nat p * PAGE_SIZE :: u64) = word_of_nat q * PAGE_SIZE"
  shows "p = q"
proof -
  have "unat (word_of_nat r * PAGE_SIZE :: u64) = r * 4096" if "r < PMM_MAX_PAGES" for r
    using that unat_of_nat64[of "r * 4096"] by simp
  then show ?thesis using assms by (metis mult_cancel2 zero_neq_numeral)
qed

lemma unat_frame_address:
  "p < PMM_MAX_PAGES \<Longrightarrow> unat (word_of_nat p * PAGE_SIZE :: u64) = p * 4096"
  using unat_of_nat64[of "p * 4096"] by simp

lemma free_frames_take_frame:
  assumes "p \<in> free_set s"
  shows "free_frames (take_frame p s) = free_frames s - {word_of_nat p * PAGE_SIZE}"
proof -
  have "inj_on (\<lambda>p. word_of_nat p * PAGE_SIZE) (free_set s)"
    using frame_address_inject free_set_bound by (intro inj_onI) blast
  then show ?thesis
    using assms by (simp add: free_frames_def inj_on_image_set_diff[where C = "free_set s"])
qed

lemma free_frame_ok:
  assumes "pmm_inv s" "f \<in> free_frames s"
  shows "f \<noteq> 0 \<and> aligned 12 f \<and> unat f < 4294967296"
proof -
  obtain p where p: "p \<in> free_set s" "f = word_of_nat p * PAGE_SIZE"
    using assms(2) by (auto simp: free_frames_def)
  have "0 < p" using assms(1) p(1) by (cases p) (auto simp: pmm_inv_def)
  with p free_set_bound[OF p(1)] show ?thesis
    using unat_frame_address[of p] by (auto simp: aligned_def unat_eq_zero[symmetric] simp del: unat_eq_zero)
qed

subsection \<open>The allocator interface\<close>

text \<open>
  What a client of the frame allocator relies on: an allocation either returns 0 and changes
  nothing, or takes one frame out of the free frames; the free frames are non-null, page aligned
  and below 4 GiB (so that the identity map reaches them).
\<close>

locale frame_allocator =
  fixes alloc :: "'s \<Rightarrow> u64 \<times> 's"
    and frames :: "'s \<Rightarrow> u64 set"
    and inv :: "'s \<Rightarrow> bool"
  assumes alloc_none: "inv s \<Longrightarrow> frames s = {} \<Longrightarrow> alloc s = (0, s)"
    and alloc_some: "inv s \<Longrightarrow> frames s \<noteq> {} \<Longrightarrow>
      fst (alloc s) \<in> frames s \<and> frames (snd (alloc s)) = frames s - {fst (alloc s)}"
    and alloc_inv: "inv s \<Longrightarrow> inv (snd (alloc s))"
    and frame_ok: "inv s \<Longrightarrow> f \<in> frames s \<Longrightarrow> f \<noteq> 0 \<and> aligned 12 f \<and> unat f < 4294967296"
    and frames_finite: "finite (frames s)"
begin

lemma alloc_zero_iff: "inv s \<Longrightarrow> fst (alloc s) = 0 \<longleftrightarrow> frames s = {}"
  using alloc_none[of s] alloc_some[of s] frame_ok[of s] by (metis fst_conv)

lemma alloc_failed: "inv s \<Longrightarrow> fst (alloc s) = 0 \<Longrightarrow> snd (alloc s) = s"
  using alloc_zero_iff alloc_none by (metis snd_conv)

lemma alloc_fresh:
  assumes "inv s" "fst (alloc s) \<noteq> 0"
  shows "fst (alloc s) \<in> frames s" "fst (alloc s) \<notin> frames (snd (alloc s))"
    "frames (snd (alloc s)) \<subseteq> frames s" "aligned 12 (fst (alloc s))"
    "unat (fst (alloc s)) < 4294967296"
  using assms alloc_zero_iff[of s] alloc_some[of s] frame_ok[of s "fst (alloc s)"] by auto

end

primrec alloc_many :: "('s \<Rightarrow> u64 \<times> 's) \<Rightarrow> nat \<Rightarrow> 's \<Rightarrow> u64 list \<times> 's" where
  "alloc_many alloc 0 s = ([], s)"
| "alloc_many alloc (Suc n) s =
     (let (f, s') = alloc s; (fs, s'') = alloc_many alloc n s' in (f # fs, s''))"

context frame_allocator
begin

lemma alloc_many_distinct:
  assumes "inv s" "n \<le> card (frames s)"
  shows "length (fst (alloc_many alloc n s)) = n \<and> distinct (fst (alloc_many alloc n s))
    \<and> set (fst (alloc_many alloc n s)) \<subseteq> frames s
    \<and> frames (snd (alloc_many alloc n s)) = frames s - set (fst (alloc_many alloc n s))
    \<and> inv (snd (alloc_many alloc n s))"
  using assms
proof (induction n arbitrary: s)
  case (Suc n)
  obtain f s' where a: "alloc s = (f, s')" by fastforce
  have ne: "frames s \<noteq> {}" using Suc.prems(2) by auto
  have f: "f \<in> frames s" "frames s' = frames s - {f}" "inv s'"
    using alloc_some[OF Suc.prems(1) ne] alloc_inv[OF Suc.prems(1)] by (simp_all add: a)
  then have "n \<le> card (frames s')"
    using Suc.prems(2) frames_finite by simp
  note IH = Suc.IH[OF f(3) this]
  obtain fs s'' where m: "alloc_many alloc n s' = (fs, s'')" by fastforce
  then have eq: "alloc_many alloc (Suc n) s = (f # fs, s'')" by (simp add: a)
  have "f \<notin> set fs" using IH f(2) by (auto simp: m)
  then show ?case
    unfolding eq using IH f by (simp add: m) blast
qed simp

end

interpretation pa: frame_allocator pmm_alloc_page free_frames pmm_inv
proof unfold_locales
  fix s :: pmm_state and f :: u64
  show "finite (free_frames s)" by (simp add: free_frames_def)
  assume inv: "pmm_inv s"
  show "free_frames s = {} \<Longrightarrow> pmm_alloc_page s = (0, s)"
    by (simp add: free_frames_def pmm_alloc_page_eq)
  show "free_frames s \<noteq> {} \<Longrightarrow> fst (pmm_alloc_page s) \<in> free_frames s
      \<and> free_frames (snd (pmm_alloc_page s)) = free_frames s - {fst (pmm_alloc_page s)}"
    using free_frames_take_frame[of "Min (free_set s)" s] Min_in[of "free_set s"]
    by (auto simp: pmm_alloc_page_eq free_frames_def)
  show "pmm_inv (snd (pmm_alloc_page s))"
    using inv pmm_inv_take_frame[OF inv Min_in] by (auto simp: pmm_alloc_page_eq)
  show "f \<in> free_frames s \<Longrightarrow> f \<noteq> 0 \<and> aligned 12 f \<and> unat f < 4294967296"
    using inv by (rule free_frame_ok)
qed

subsection \<open>Release and initialisation\<close>

lemma pmm_inv_free_page:
  assumes "pmm_inv s" "4096 \<le> unat phys"
  shows "pmm_inv (pmm_free_page phys s)"
proof -
  let ?p = "unat (phys div PAGE_SIZE)"
  have p0: "?p \<noteq> 0" using assms(2) by (simp add: unat_div)
  have "card (free_set s) < 18446744073709551615"
    using card_free_set[of s] by simp
  then have "unat (total_pages s + 1) = unat (total_pages s) + 1"
    using assms(1) by (simp add: pmm_inv_def unat_add64)
  with p0 assms show ?thesis
    by (auto simp: pmm_free_page_def pmm_inv_def Let_def free_set_def[of s])
qed

lemma pmm_release_spec:
  "free_set (pmm_release p e s) = free_set s \<union> {p..<min e PMM_MAX_PAGES}
   \<and> total_pages (pmm_release p e s) = total_pages s + word_of_nat (min e PMM_MAX_PAGES - p)
   \<and> used_pages (pmm_release p e s) = used_pages s"
proof (induction p e s rule: pmm_release.induct)
  case (1 p e s)
  show ?case
  proof (cases "p < e \<and> p < PMM_MAX_PAGES")
    case True
    have "{p..<min e PMM_MAX_PAGES} = insert p {p + 1..<min e PMM_MAX_PAGES}"
      using True by auto
    moreover have "min e PMM_MAX_PAGES - p = Suc (min e PMM_MAX_PAGES - (p + 1))"
      using True by auto
    ultimately show ?thesis
      using 1 True by (subst (1 2 3) pmm_release.simps) (simp add: Let_def)
  qed (auto simp: pmm_release.simps[of p e s])
qed

definition entry_pages :: "multiboot2_mmap_entry \<Rightarrow> nat set" where
  "entry_pages e =
     (if me_type e = MULTIBOOT_MEMORY_AVAILABLE
      then {unat (entry_start_page e)..<min (unat (entry_end_page e)) PMM_MAX_PAGES} else {})"

fun entries_disjoint :: "multiboot2_mmap_entry list \<Rightarrow> bool" where
  "entries_disjoint [] = True"
| "entries_disjoint (e # es) =
     ((\<forall>f \<in> set es. entry_pages e \<inter> entry_pages f = {}) \<and> entries_disjoint es)"

lemma finite_entry_pages [simp]: "finite (entry_pages e)"
  by (simp add: entry_pages_def)

lemma pmm_add_entries_spec:
  "free_set (pmm_add_entries es s) = free_set s \<union> (\<Union>e \<in> set es. entry_pages e)
   \<and> total_pages (pmm_add_entries es s)
       = total_pages s + word_of_nat (\<Sum>e \<leftarrow> es. card (entry_pages e))
   \<and> used_pages (pmm_add_entries es s) = used_pages s"
proof (induction es arbitrary: s)
  case (Cons e es)
  then show ?case
    using pmm_release_spec[of "unat (entry_start_page e)" "unat (entry_end_page e)" s]
    by (simp add: entry_pages_def Un_assoc)
qed simp

lemma card_disjoint_entries:
  "entries_disjoint es \<Longrightarrow>
     card (\<Union>e \<in> set es. entry_pages e) = (\<Sum>e \<leftarrow> es. card (entry_pages e))"
proof (induction es)
  case (Cons e es)
  then have "entry_pages e \<inter> (\<Union>f \<in> set es. entry_pages f) = {}" by auto
  then show ?case using Cons by (simp add: card_Un_disjoint)
qed simp

lemma pmm_reserve_spec:
  "free_set (pmm_reserve p e s) = free_set s - {p..<e}
   \<and> total_pages (pmm_reserve p e s) = total_pages s - word_of_nat (card (free_set s \<inter> {p..<e}))
   \<and> used_pages (pmm_reserve p e s) = used_pages s + word_of_nat (card (free_set s \<inter> {p..<e}))"
proof (induction p e s rule: pmm_reserve.induct)
  case (1 p e s)
  show ?case
  proof (cases "p < e \<and> p < PMM_MAX_PAGES")
    case True
    let ?s = "if \<not> bitmap_test p s then take_frame p s else s"
    have s_eq: "(if \<not> bitmap_test p s
              then let s' = bitmap_set p s
                   in s'\<lparr>used_pages := used_pages s' + 1, total_pages := total_pages s' - 1\<rparr>
              else s) = ?s"
      by (simp add: take_frame_def Let_def)
    have step: "pmm_reserve p e s = pmm_reserve (p + 1) e ?s"
      using True pmm_reserve.simps[of p e s] unfolding s_eq by simp
    have IH: "free_set (pmm_reserve (p + 1) e ?s) = free_set ?s - {p + 1..<e}
       \<and> total_pages (pmm_reserve (p + 1) e ?s)
           = total_pages ?s - word_of_nat (card (free_set ?s \<inter> {p + 1..<e}))
       \<and> used_pages (pmm_reserve (p + 1) e ?s)
           = used_pages ?s + word_of_nat (card (free_set ?s \<inter> {p + 1..<e}))"
      using 1[OF True] unfolding s_eq .
    have range: "{p..<e} = insert p {p + 1..<e}" using True by auto
    show ?thesis
    proof (cases "p \<in> free_set s")
      case free: True
      then have s: "?s = take_frame p s" by (simp add: free_set_def)
      have "free_set s \<inter> {p..<e} = insert p ((free_set s - {p}) \<inter> {p + 1..<e})"
        using free range by auto
      then have "card (free_set s \<inter> {p..<e}) = Suc (card ((free_set s - {p}) \<inter> {p + 1..<e}))"
        by simp
      then show ?thesis
        using IH range unfolding step s by (auto simp: take_frame_def)
    next
      case used: False
      then have s: "?s = s" using True by (simp add: free_set_def)
      have "free_set s \<inter> {p..<e} = free_set s \<inter> {p + 1..<e}" "free_set s - {p..<e} = free_set s - {p + 1..<e}"
        using used range by auto
      then show ?thesis using IH unfolding step s by simp
    qed
  next
    case False
    then have "free_set s \<inter> {p..<e} = {}" by (auto simp: free_set_def)
    then show ?thesis using False by (auto simp: pmm_reserve.simps[of p e s])
  qed
qed

abbreviation kernel_pages :: "u64 \<Rightarrow> nat set" where
  "kernel_pages kernel_end_phys \<equiv> {0..<unat ((kernel_end_phys + PAGE_SIZE - 1) div PAGE_SIZE)}"

lemma pmm_init_spec:
  fixes k :: u64
  defines "avail es \<equiv> (\<Union>e \<in> set es. entry_pages e)"
  shows "free_set (pmm_init es k s) = avail es - kernel_pages k"
    and "used_pages (pmm_init es k s) = word_of_nat (card (avail es \<inter> kernel_pages k))"
    and "total_pages (pmm_init es k s) =
           word_of_nat (\<Sum>e \<leftarrow> es. card (entry_pages e))
           - word_of_nat (card (avail es \<inter> kernel_pages k))"
proof -
  let ?s1 = "s\<lparr>pmm_bitmap := \<lambda>_. 0xFF, total_pages := 0, used_pages := 0\<rparr>"
  have ff: "bit (0xFF :: u8) (q mod 8)" for q
  proof -
    have "(0xFF :: u8) = mask 8" by (simp add: mask_eq_exp_minus_1)
    moreover have "bit (mask 8 :: u8) (q mod 8)"
      by (simp only: bit_mask_iff) simp
    ultimately show ?thesis by simp
  qed
  have "free_set ?s1 = {}"
    using ff by (auto simp: free_set_def bitmap_test_bit)
  then show "free_set (pmm_init es k s) = avail es - kernel_pages k"
    and "used_pages (pmm_init es k s) = word_of_nat (card (avail es \<inter> kernel_pages k))"
    and "total_pages (pmm_init es k s) =
           word_of_nat (\<Sum>e \<leftarrow> es. card (entry_pages e))
           - word_of_nat (card (avail es \<inter> kernel_pages k))"
    using pmm_add_entries_spec[of es ?s1]
      pmm_reserve_spec[of 0 "unat ((k + PAGE_SIZE - 1) div PAGE_SIZE)" "pmm_add_entries es ?s1"]
    by (simp_all add: pmm_init_def Let_def avail_def)
qed

lemma page_ceil_pos:
  assumes "0 < k" "k \<le> 18446744073709547520"
  shows "0 < unat ((k + PAGE_SIZE - 1) div PAGE_SIZE)"
proof -
  have "unat (0xFFF + k) = unat (0xFFF :: u64) + unat k"
    using assms(2) by (intro unat_add64) (simp add: word_le_nat_alt)
  moreover have "0 < unat k" using assms(1) by (simp add: word_less_nat_alt)
  ultimately show ?thesis by (simp add: unat_div)
qed

lemma pmm_init_inv:
  assumes "entries_disjoint es" "0 < k" "k \<le> 18446744073709547520"
  shows "pmm_inv (pmm_init es k s)"
proof -
  let ?avail = "\<Union>e \<in> set es. entry_pages e"
  have sub: "?avail \<subseteq> {..<PMM_MAX_PAGES}" by (auto simp: entry_pages_def split: if_splits)
  have c: "card (?avail \<inter> kernel_pages k) \<le> card ?avail"
    by (intro card_mono) (auto intro: finite_subset[OF sub])
  have b: "card ?avail \<le> PMM_MAX_PAGES"
    using card_mono[OF _ sub] by simp
  have "total_pages (pmm_init es k s) = word_of_nat (card ?avail - card (?avail \<inter> kernel_pages k))"
    using c by (simp add: pmm_init_spec card_disjoint_entries[OF assms(1), symmetric] of_nat_diff)
  moreover have "card ?avail - card (?avail \<inter> kernel_pages k) = card (?avail - kernel_pages k)"
    by (simp add: card_Diff_subset_Int finite_subset[OF sub] Int_commute)
  ultimately have "unat (total_pages (pmm_init es k s)) = card (free_set (pmm_init es k s))"
    using b c by (simp add: pmm_init_spec(1) unat_of_nat64)
  then show ?thesis
    using page_ceil_pos[OF assms(2,3)] by (simp add: pmm_inv_def pmm_init_spec(1))
qed

lemma take_frame_free_page:
  assumes "p \<in> free_set s"
  shows "pmm_free_page (word_of_nat p * PAGE_SIZE) (take_frame p s) = s"
proof -
  have p: "p < PMM_MAX_PAGES" "\<not> bit (pmm_bitmap s (p div 8)) (p mod 8)"
    using assms by (simp_all add: free_set_def bitmap_test_bit)
  let ?b = "pmm_bitmap s (p div 8)"
  have byte: "(?b OR push_bit (p mod 8) 1) AND NOT (push_bit (p mod 8) 1) = ?b"
    using p(2) by (auto intro!: bit_word_eqI simp: bit_simps)
  have "unat (word_of_nat p * PAGE_SIZE div PAGE_SIZE :: u64) = p"
    using unat_frame_address[OF p(1)] by (simp add: unat_div)
  then show ?thesis
    using p(1) byte
    by (simp add: pmm_free_page_def take_frame_def Let_def bitmap_test_bit)
       (simp add: bitmap_clear_def bitmap_set_def bit_simps)
qed

section \<open>Properties\<close>

text \<open>A boot memory map with one usable region of 1 MiB below a kernel that ends at 0x3000.\<close>

definition pmm_example :: pmm_state where
  "pmm_example =
     pmm_init [\<lparr>me_addr = 0, me_len = 0x100000, me_type = 1, me_zero = 0\<rparr>] 0x3000
       \<lparr>pmm_bitmap = (\<lambda>_. 0), total_pages = 0, used_pages = 0\<rparr>"

lemma pmm_example_free: "free_set pmm_example = {3..<256}"
  by (auto simp: pmm_example_def pmm_init_spec entry_pages_def entry_start_page_def
      entry_end_page_def)

lemma pmm_example_inv: "pmm_inv pmm_example"
  unfolding pmm_example_def by (rule pmm_init_inv) simp_all

text \<open>
  \<^verbatim>\<open>pmm_init\<close> leaves exactly the frames of the usable map entries that lie above the kernel's
  end free; when the entries do not overlap, the free-page counter equals the number of free
  frames, frame 0 is never free, and \<open>used_pages\<close> counts the usable frames the kernel occupies.
\<close>

theorem pmm_init_correct:
  assumes "entries_disjoint es" "0 < k" "k \<le> 18446744073709547520"
  shows "free_set (pmm_init es k s) = (\<Union>e \<in> set es. entry_pages e) - kernel_pages k
    \<and> pmm_inv (pmm_init es k s)
    \<and> used_pages (pmm_init es k s)
        = word_of_nat (card ((\<Union>e \<in> set es. entry_pages e) \<inter> kernel_pages k))"
  using pmm_init_spec[of es k s] pmm_init_inv[OF assms] by simp

theorem pmm_init_correct_witness:
  "free_set pmm_example = entry_pages \<lparr>me_addr = 0, me_len = 0x100000, me_type = 1, me_zero = 0\<rparr>
     - kernel_pages 0x3000 \<and> pmm_inv pmm_example"
  using pmm_init_correct[of "[\<lparr>me_addr = 0, me_len = 0x100000, me_type = 1, me_zero = 0\<rparr>]" "0x3000"
      "\<lparr>pmm_bitmap = (\<lambda>_. 0), total_pages = 0, used_pages = 0\<rparr>"]
  by (simp add: pmm_example_def)

text \<open>
  C2: \<^verbatim>\<open>pmm_alloc_page\<close> returns 0 exactly when no frame is free and then changes nothing; otherwise
  it returns the address of the lowest free frame, which alone stops being free, and the counters
  stay exact.
\<close>

theorem pmm_alloc_lowest_frame:
  assumes "pmm_inv s"
  shows "(fst (pmm_alloc_page s) = 0 \<longleftrightarrow> free_set s = {})
    \<and> (free_set s = {} \<longrightarrow> snd (pmm_alloc_page s) = s)
    \<and> (free_set s \<noteq> {} \<longrightarrow>
         unat (fst (pmm_alloc_page s)) = Min (free_set s) * 4096
         \<and> free_set (snd (pmm_alloc_page s)) = free_set s - {Min (free_set s)}
         \<and> used_pages (snd (pmm_alloc_page s)) = used_pages s + 1)
    \<and> pmm_inv (snd (pmm_alloc_page s))"
proof -
  let ?p = "Min (free_set s)"
  have zero: "fst (pmm_alloc_page s) = 0 \<longleftrightarrow> free_set s = {}"
    using pa.alloc_zero_iff[OF assms] by (simp add: free_frames_def)
  have none: "snd (pmm_alloc_page s) = s" if "free_set s = {}"
    using that by (simp add: pmm_alloc_page_eq)
  have some: "unat (fst (pmm_alloc_page s)) = ?p * 4096
      \<and> free_set (snd (pmm_alloc_page s)) = free_set s - {?p}
      \<and> used_pages (snd (pmm_alloc_page s)) = used_pages s + 1" if "free_set s \<noteq> {}"
  proof -
    have p: "?p < PMM_MAX_PAGES"
      by (rule free_set_bound[OF Min_in[OF finite_free_set that]])
    have eq: "pmm_alloc_page s = (word_of_nat ?p * PAGE_SIZE, take_frame ?p s)"
      using that by (simp add: pmm_alloc_page_eq)
    show ?thesis
      unfolding eq fst_conv snd_conv unat_frame_address[OF p] free_set_take_frame
      by (simp add: take_frame_def)
  qed
  show ?thesis using zero none some pa.alloc_inv[OF assms] by blast
qed

theorem pmm_alloc_lowest_frame_witness:
  "pmm_inv pmm_example \<and> unat (fst (pmm_alloc_page pmm_example)) = 3 * 4096"
proof -
  have "Min {3..<256::nat} = 3" by (intro Min_eqI) auto
  then show ?thesis
    using pmm_alloc_lowest_frame[OF pmm_example_inv] pmm_example_inv
    by (simp add: pmm_example_free)
qed

text \<open>
  Freeing the frame that \<^verbatim>\<open>pmm_alloc_page\<close> just returned restores the allocator exactly:
  bitmap and both counters.
\<close>

theorem pmm_alloc_free_roundtrip:
  assumes "free_set s \<noteq> {}"
  shows "pmm_free_page (fst (pmm_alloc_page s)) (snd (pmm_alloc_page s)) = s"
  using assms take_frame_free_page[OF Min_in[OF finite_free_set assms]]
  by (simp add: pmm_alloc_page_eq)

theorem pmm_alloc_free_roundtrip_witness:
  "free_set pmm_example \<noteq> {}
   \<and> pmm_free_page (fst (pmm_alloc_page pmm_example)) (snd (pmm_alloc_page pmm_example))
       = pmm_example"
proof -
  have ne: "free_set pmm_example \<noteq> {}" by (simp add: pmm_example_free)
  show ?thesis
    using ne pmm_alloc_free_roundtrip[OF ne] by blast
qed

text \<open>
  As long as enough frames are free, a sequence of allocations succeeds every time and hands out
  pairwise distinct, non-null, page-aligned frames below 4 GiB, none of which stays free.
\<close>

theorem pmm_allocations_distinct:
  assumes "pmm_inv s" "n \<le> card (free_set s)"
  shows "length (fst (alloc_many pmm_alloc_page n s)) = n
    \<and> distinct (fst (alloc_many pmm_alloc_page n s))
    \<and> (\<forall>f \<in> set (fst (alloc_many pmm_alloc_page n s)).
         f \<noteq> 0 \<and> aligned 12 f \<and> unat f < 4294967296
         \<and> f \<notin> free_frames (snd (alloc_many pmm_alloc_page n s)))"
proof -
  have "inj_on (\<lambda>p. word_of_nat p * PAGE_SIZE :: u64) (free_set s)"
    using frame_address_inject free_set_bound by (intro inj_onI) blast
  then have "n \<le> card (free_frames s)"
    using assms(2) by (simp add: free_frames_def card_image)
  from pa.alloc_many_distinct[OF assms(1) this] show ?thesis
    using pa.frame_ok[OF assms(1)] by blast
qed

theorem pmm_allocations_distinct_witness:
  "pmm_inv pmm_example \<and> 253 \<le> card (free_set pmm_example)
   \<and> distinct (fst (alloc_many pmm_alloc_page 253 pmm_example))"
proof -
  have c: "253 \<le> card (free_set pmm_example)" by (simp add: pmm_example_free)
  show ?thesis
    using pmm_example_inv c pmm_allocations_distinct[OF pmm_example_inv c] by blast
qed

end
