(* ===== verification/Console.thy ===== *)
theory Console
  imports Prelude
begin

text \<open>
  The text console of \<^verbatim>\<open>kernel/EarlyKernel/tty.c\<close> with the serial port of
  \<^verbatim>\<open>kernel/EarlyKernel/uart.c\<close> beneath it.  Port writes are kept as a log in the order the code
  issues them.  The busy-wait for the UART's transmit register reads only hardware state and is
  not part of the model: a \<^verbatim>\<open>uart_putchar\<close> is its one write to the transmit register.  Screen
  memory is the 80 by 25 array at \<^verbatim>\<open>0xB8000\<close>.
\<close>

section \<open>Data\<close>

abbreviation VGA_WIDTH :: nat where "VGA_WIDTH \<equiv> 80"
abbreviation VGA_HEIGHT :: nat where "VGA_HEIGHT \<equiv> 25"

abbreviation VGA_BLACK :: u8 where "VGA_BLACK \<equiv> 0"
abbreviation VGA_GREEN :: u8 where "VGA_GREEN \<equiv> 2"
abbreviation VGA_RED :: u8 where "VGA_RED \<equiv> 4"
abbreviation VGA_BROWN :: u8 where "VGA_BROWN \<equiv> 6"
abbreviation VGA_LIGHT_GREY :: u8 where "VGA_LIGHT_GREY \<equiv> 7"

abbreviation COM1_BASE :: u16 where "COM1_BASE \<equiv> 0x3F8"

record console =
  term_row :: nat
  term_col :: nat
  term_color :: u8
  term_buffer :: "nat \<Rightarrow> u16"
  port_log :: "(u16 \<times> u8) list"

definition outb :: "u16 \<Rightarrow> u8 \<Rightarrow> console \<Rightarrow> console" where
  "outb port v c = c\<lparr>port_log := port_log c @ [(port, v)]\<rparr>"

section \<open>Serial port\<close>

definition uart_init :: "console \<Rightarrow> console" where
  "uart_init c =
     (let c = outb (COM1_BASE + 1) 0x00 c;
          c = outb (COM1_BASE + 3) 0x80 c;
          c = outb (COM1_BASE + 0) 0x01 c;
          c = outb (COM1_BASE + 1) 0x00 c;
          c = outb (COM1_BASE + 3) 0x03 c;
          c = outb (COM1_BASE + 2) (0x01 OR 0x02 OR 0x04) c
      in outb (COM1_BASE + 4) (0x01 OR 0x02 OR 0x08) c)"

definition uart_putchar :: "u8 \<Rightarrow> console \<Rightarrow> console" where
  "uart_putchar ch c = outb (COM1_BASE + 0) ch c"

section \<open>Screen\<close>

definition vga_color :: "u8 \<Rightarrow> u8 \<Rightarrow> u8" where
  "vga_color fg bg = fg OR push_bit 4 bg"

text \<open>\<^verbatim>\<open>char\<close> is signed, so the conversion to \<^verbatim>\<open>uint16_t\<close> sign-extends.\<close>

definition vga_entry :: "u8 \<Rightarrow> u8 \<Rightarrow> u16" where
  "vga_entry ch color = scast ch OR push_bit 8 (ucast color)"

definition tty_update_cursor :: "console \<Rightarrow> console" where
  "tty_update_cursor c =
     (let pos = word_of_nat (term_row c * VGA_WIDTH + term_col c) :: u16;
          c = outb 0x3D4 14 c;
          c = outb 0x3D5 (ucast (drop_bit 8 pos)) c;
          c = outb 0x3D4 15 c
      in outb 0x3D5 (ucast pos) c)"

text \<open>
  The two loops of \<^verbatim>\<open>tty_scroll\<close> copy row \<open>y + 1\<close> to row \<open>y\<close> from the top down, so every cell
  reads a source cell that has not been overwritten yet.
\<close>

primrec copy_row :: "nat \<Rightarrow> nat \<Rightarrow> (nat \<Rightarrow> u16) \<Rightarrow> (nat \<Rightarrow> u16)" where
  "copy_row y 0 b = b"
| "copy_row y (Suc x) b =
     (let b = copy_row y x b in b(y * VGA_WIDTH + x := b ((y + 1) * VGA_WIDTH + x)))"

primrec copy_rows :: "nat \<Rightarrow> (nat \<Rightarrow> u16) \<Rightarrow> (nat \<Rightarrow> u16)" where
  "copy_rows 0 b = b"
| "copy_rows (Suc y) b = copy_row y VGA_WIDTH (copy_rows y b)"

primrec fill_cells :: "nat \<Rightarrow> nat \<Rightarrow> u16 \<Rightarrow> (nat \<Rightarrow> u16) \<Rightarrow> (nat \<Rightarrow> u16)" where
  "fill_cells start 0 v b = b"
| "fill_cells start (Suc n) v b = (fill_cells start n v b)(start + n := v)"

definition tty_scroll :: "console \<Rightarrow> console" where
  "tty_scroll c =
     c\<lparr>term_buffer := fill_cells ((VGA_HEIGHT - 1) * VGA_WIDTH) VGA_WIDTH
         (vga_entry 32 (term_color c)) (copy_rows (VGA_HEIGHT - 1) (term_buffer c))\<rparr>"

definition tty_init :: "console \<Rightarrow> console" where
  "tty_init c =
     (let c = uart_init c;
          color = vga_color VGA_LIGHT_GREY VGA_BLACK;
          c = c\<lparr>term_row := 0, term_col := 0, term_color := color,
                term_buffer := fill_cells 0 (VGA_HEIGHT * VGA_WIDTH) (vga_entry 32 color)
                  (term_buffer c)\<rparr>
      in tty_update_cursor c)"

definition tty_setcolor :: "u8 \<Rightarrow> u8 \<Rightarrow> console \<Rightarrow> console" where
  "tty_setcolor fg bg c = c\<lparr>term_color := vga_color fg bg\<rparr>"

text \<open>The shared tail of both line-advance paths: \<^verbatim>\<open>if (++term_row == VGA_HEIGHT)\<close> and scroll.\<close>

definition advance_row :: "console \<Rightarrow> console" where
  "advance_row c =
     (let c = c\<lparr>term_row := term_row c + 1\<rparr>
      in if term_row c = VGA_HEIGHT then tty_scroll (c\<lparr>term_row := VGA_HEIGHT - 1\<rparr>) else c)"

definition tty_putchar :: "u8 \<Rightarrow> console \<Rightarrow> console" where
  "tty_putchar ch c =
     (let c = uart_putchar ch c
      in if ch = 10 then tty_update_cursor (advance_row (c\<lparr>term_col := 0\<rparr>))
         else if ch = 8 then
           if term_col c > 0
           then let c = c\<lparr>term_col := term_col c - 1\<rparr>;
                    c = c\<lparr>term_buffer := (term_buffer c)(term_row c * VGA_WIDTH + term_col c :=
                          vga_entry 32 (term_color c))\<rparr>
                in tty_update_cursor c
           else c
         else
           let c = c\<lparr>term_buffer := (term_buffer c)(term_row c * VGA_WIDTH + term_col c :=
                     vga_entry ch (term_color c))\<rparr>;
               c = c\<lparr>term_col := term_col c + 1\<rparr>;
               c = (if term_col c = VGA_WIDTH then advance_row (c\<lparr>term_col := 0\<rparr>) else c)
           in tty_update_cursor c)"

fun tty_print :: "string \<Rightarrow> console \<Rightarrow> console" where
  "tty_print [] c = c"
| "tty_print (ch # s) c =
     (if ch = CHR 0x00 then c else tty_print s (tty_putchar (of_char ch) c))"

definition hex_digit :: "nat \<Rightarrow> char" where
  "hex_digit n = ''0123456789ABCDEF'' ! n"

text \<open>\<^verbatim>\<open>for (i = 60; i >= 0; i -= 4)\<close>: sixteen digits, most significant first.\<close>

primrec hex_digits :: "nat \<Rightarrow> u64 \<Rightarrow> string" where
  "hex_digits 0 v = []"
| "hex_digits (Suc k) v = hex_digit (unat (drop_bit (4 * k) v AND 0xF)) # hex_digits k v"

definition tty_print_hex64 :: "u64 \<Rightarrow> console \<Rightarrow> console" where
  "tty_print_hex64 v c = tty_print (hex_digits 16 v) (tty_print ''0x'' c)"

text \<open>The digit loop of \<^verbatim>\<open>tty_print_dec\<close> fills the buffer from its end towards its start.\<close>

function dec_buffer :: "u32 \<Rightarrow> string \<Rightarrow> string" where
  "dec_buffer v buf =
     (if v = 0 then buf
      else dec_buffer (v div 10) (char_of (48 + unat (v mod 10)) # buf))"
  by pat_completeness auto
termination
  by (relation "measure (\<lambda>(v, buf). unat v)")
     (simp_all add: unat_div unat_gt_0)

declare dec_buffer.simps [simp del]

definition tty_print_dec :: "u32 \<Rightarrow> console \<Rightarrow> console" where
  "tty_print_dec v c =
     (if v = 0 then tty_putchar 48 c else tty_print (dec_buffer v []) c)"

section \<open>Cursor and screen\<close>

definition con_inv :: "console \<Rightarrow> bool" where
  "con_inv c \<longleftrightarrow> term_row c < VGA_HEIGHT \<and> term_col c < VGA_WIDTH"

lemma outb_fields [simp]:
  "term_row (outb p v c) = term_row c" "term_col (outb p v c) = term_col c"
  "term_color (outb p v c) = term_color c" "term_buffer (outb p v c) = term_buffer c"
  "port_log (outb p v c) = port_log c @ [(p, v)]"
  by (simp_all add: outb_def)

lemma tty_update_cursor_fields [simp]:
  "term_row (tty_update_cursor c) = term_row c" "term_col (tty_update_cursor c) = term_col c"
  "term_color (tty_update_cursor c) = term_color c"
  "term_buffer (tty_update_cursor c) = term_buffer c"
  by (simp_all add: tty_update_cursor_def Let_def)

lemma tty_scroll_fields [simp]:
  "term_row (tty_scroll c) = term_row c" "term_col (tty_scroll c) = term_col c"
  "term_color (tty_scroll c) = term_color c" "port_log (tty_scroll c) = port_log c"
  by (simp_all add: tty_scroll_def)

lemma advance_row_fields [simp]:
  "term_col (advance_row c) = term_col c" "term_color (advance_row c) = term_color c"
  "port_log (advance_row c) = port_log c"
  "term_row (advance_row c) =
     (if term_row c + 1 = VGA_HEIGHT then VGA_HEIGHT - 1 else term_row c + 1)"
  by (simp_all add: advance_row_def Let_def)

lemma copy_row_apply:
  "n \<le> VGA_WIDTH \<Longrightarrow> copy_row y n b i =
     (if y * VGA_WIDTH \<le> i \<and> i < y * VGA_WIDTH + n then b (i + VGA_WIDTH) else b i)"
proof (induction n arbitrary: i)
  case (Suc n)
  then show ?case
    by (auto simp: Let_def less_Suc_eq ac_simps)
qed auto

lemma copy_rows_apply: "copy_rows n b i = (if i < n * VGA_WIDTH then b (i + VGA_WIDTH) else b i)"
  by (induction n arbitrary: i) (auto simp: copy_row_apply)

lemma fill_cells_apply:
  "fill_cells start n v b i = (if start \<le> i \<and> i < start + n then v else b i)"
  by (induction n) (auto simp: less_Suc_eq)

lemma tty_scroll_buffer:
  "term_buffer (tty_scroll c) i =
     (if i < 24 * VGA_WIDTH then term_buffer c (i + VGA_WIDTH)
      else if i < 25 * VGA_WIDTH then vga_entry 32 (term_color c) else term_buffer c i)"
  by (simp add: tty_scroll_def fill_cells_apply copy_rows_apply)

lemma con_inv_putchar: "con_inv c \<Longrightarrow> con_inv (tty_putchar ch c)"
  by (auto simp: con_inv_def tty_putchar_def uart_putchar_def Let_def)

lemma con_inv_print: "con_inv c \<Longrightarrow> con_inv (tty_print s c)"
  by (induction s c rule: tty_print.induct) (auto simp: con_inv_putchar)

section \<open>Serial output\<close>

definition serial :: "console \<Rightarrow> u8 list" where
  "serial c = map snd (filter (\<lambda>(p, v). p = COM1_BASE) (port_log c))"

lemma serial_outb [simp]:
  "serial (outb p v c) = (if p = COM1_BASE then serial c @ [v] else serial c)"
  by (simp add: serial_def)

lemma serial_update [simp]:
  "serial (c\<lparr>term_row := r\<rparr>) = serial c" "serial (c\<lparr>term_col := r\<rparr>) = serial c"
  "serial (c\<lparr>term_color := k\<rparr>) = serial c" "serial (c\<lparr>term_buffer := b\<rparr>) = serial c"
  "serial (tty_update_cursor c) = serial c" "serial (advance_row c) = serial c"
  by (simp_all add: serial_def tty_update_cursor_def Let_def outb_def)

lemma serial_putchar [simp]: "serial (tty_putchar ch c) = serial c @ [ch]"
  by (simp add: tty_putchar_def uart_putchar_def Let_def)

lemma serial_print:
  "serial (tty_print s c) = serial c @ map of_char (takeWhile (\<lambda>ch. ch \<noteq> CHR 0x00) s)"
  by (induction s c rule: tty_print.induct) auto

section \<open>Number formatting\<close>

definition digit_value :: "char \<Rightarrow> nat" where
  "digit_value ch = (let n = of_char ch in if n \<le> 57 then n - 48 else n - 55)"

definition parse_digits :: "nat \<Rightarrow> string \<Rightarrow> nat" where
  "parse_digits b s = foldl (\<lambda>n ch. n * b + digit_value ch) 0 s"

lemma parse_digits_Cons_foldl:
  "foldl (\<lambda>n ch. n * b + digit_value ch) k s = k * b ^ length s + parse_digits b s"
proof (induction s arbitrary: k)
  case (Cons ch s)
  show ?case
    using Cons[of "k * b + digit_value ch"] Cons[of "digit_value ch"]
    by (simp add: parse_digits_def algebra_simps)
qed (simp add: parse_digits_def)

lemma parse_digits_Cons:
  "parse_digits b (ch # s) = digit_value ch * b ^ length s + parse_digits b s"
  using parse_digits_Cons_foldl[of b "digit_value ch" s] by (simp add: parse_digits_def)

lemma length_hex_digits [simp]: "length (hex_digits k v) = k"
  by (induction k) simp_all

lemma digit_value_hex: "n < 16 \<Longrightarrow> digit_value (hex_digit n) = n"
proof -
  have "\<forall>n < 16. digit_value (hex_digit n) = n" by code_simp
  then show "n < 16 \<Longrightarrow> digit_value (hex_digit n) = n" by simp
qed

lemma hex_digits_value: "parse_digits 16 (hex_digits k v) = unat v mod 16 ^ k"
proof (induction k)
  case (Suc k)
  have "unat (drop_bit (4 * k) v AND 0xF) = unat v div 16 ^ k mod 16"
  proof -
    have "drop_bit (4 * k) v AND 0xF = take_bit 4 (drop_bit (4 * k) v)"
      by (simp add: take_bit_eq_mask mask_eq_exp_minus_1)
    then have "unat (drop_bit (4 * k) v AND 0xF) = take_bit 4 (drop_bit (4 * k) (unat v))"
      by (simp only: unsigned_take_bit_eq unsigned_drop_bit_eq
          take_bit_nat_eq_self[OF unsigned_less])
    then show ?thesis
      by (simp add: take_bit_eq_mod drop_bit_eq_div power_mult)
  qed
  moreover have "unat v mod 16 ^ Suc k = unat v div 16 ^ k mod 16 * 16 ^ k + unat v mod 16 ^ k"
    by (simp add: mod_mult2_eq mult.commute[of 16])
  ultimately show ?case
    using Suc by (simp add: parse_digits_Cons digit_value_hex)
qed (simp add: parse_digits_def)

lemma digit_value_dec: "n < 10 \<Longrightarrow> digit_value (char_of (48 + n)) = n"
proof -
  have "\<forall>n < 10. digit_value (char_of (48 + n)) = n" by code_simp
  then show "n < 10 \<Longrightarrow> digit_value (char_of (48 + n)) = n" by simp
qed

lemma dec_buffer_value:
  "parse_digits 10 (dec_buffer v buf) = unat v * 10 ^ length buf + parse_digits 10 buf"
proof (induction v buf rule: dec_buffer.induct)
  case (1 v buf)
  show ?case
  proof (cases "v = 0")
    case False
    have dm: "unat (v div 10) = unat v div 10" "unat (v mod 10) = unat v mod 10"
      by (simp_all add: unat_div unat_mod)
    have "parse_digits 10 (dec_buffer v buf) = unat v div 10 * (10 * 10 ^ length buf)
        + (unat v mod 10 * 10 ^ length buf + parse_digits 10 buf)"
      using 1[OF False] False dec_buffer.simps[of v buf]
      by (simp only: dm if_False length_Cons parse_digits_Cons digit_value_dec[OF mod_less_divisor]
          zero_less_numeral power_Suc)
    also have "\<dots> = (unat v div 10 * 10 + unat v mod 10) * 10 ^ length buf + parse_digits 10 buf"
      by (simp only: distrib_right mult.assoc add.assoc)
    finally show ?thesis by simp
  qed (simp add: dec_buffer.simps)
qed

lemma dec_buffer_length: "length (dec_buffer v buf) \<le> length buf + 10"
proof -
  have "length (dec_buffer v buf) \<le> length buf + k" if "unat v < 10 ^ k" for k
    using that
  proof (induction k arbitrary: v buf)
    case (Suc k)
    then have "unat (v div 10) < 10 ^ k" by (simp add: unat_div)
    from Suc.IH[OF this, of "char_of (48 + unat (v mod 10)) # buf"] show ?case
      by (subst dec_buffer.simps) simp
  next
    case 0
    then have "v = 0" by (simp add: unat_eq_zero)
    then show ?case by (simp add: dec_buffer.simps[of 0])
  qed
  moreover have "unat v < 10 ^ 10"
    using unsigned_less[of v, where ?'a = nat] by simp
  ultimately show ?thesis by blast
qed

lemma dec_buffer_no_nul:
  "CHR 0x00 \<notin> set buf \<Longrightarrow> CHR 0x00 \<notin> set (dec_buffer v buf)"
proof (induction v buf rule: dec_buffer.induct)
  case (1 v buf)
  have "char_of (48 + unat (v mod 10)) \<noteq> CHR 0x00"
  proof
    assume "char_of (48 + unat (v mod 10)) = CHR 0x00"
    then have "of_char (char_of (48 + unat (v mod 10))) = (of_char (CHR 0x00) :: nat)"
      by (rule arg_cong)
    then have "(48 + unat (v mod 10)) mod 256 = 0" by simp
    moreover have "unat (v mod 10) < 10" by (simp add: unat_mod)
    ultimately show False by simp
  qed
  with 1 show ?case by (subst dec_buffer.simps) auto
qed

lemma tty_putchar_in_bounds:
  assumes "con_inv c" "2000 \<le> i"
  shows "term_buffer (tty_putchar ch c) i = term_buffer c i"
proof -
  have "term_row c * 80 + term_col c < 2000"
    using assms(1) by (simp add: con_inv_def)
  moreover have "term_row c * 80 + (term_col c - 1) < 2000"
    using calculation by linarith
  ultimately show ?thesis
    using assms
    by (auto simp: tty_putchar_def uart_putchar_def Let_def advance_row_def tty_scroll_buffer)
qed

section \<open>Properties\<close>

text \<open>
  C23: The cursor stays on the 80 by 25 screen whatever is printed, and no print touches memory
  beyond the 2000 cells of the screen.
\<close>

theorem tty_print_in_bounds:
  assumes "con_inv c"
  shows "con_inv (tty_print s c) \<and> (\<forall>i \<ge> 2000. term_buffer (tty_print s c) i = term_buffer c i)"
  using assms
  by (induction s c rule: tty_print.induct) (auto simp: con_inv_putchar tty_putchar_in_bounds)

theorem tty_print_in_bounds_witness:
  "con_inv \<lparr>term_row = 24, term_col = 79, term_color = 7, term_buffer = (\<lambda>_. 0), port_log = []\<rparr>
   \<and> con_inv (tty_print ''ok'' \<lparr>term_row = 24, term_col = 79, term_color = 7,
       term_buffer = (\<lambda>_. 0), port_log = []\<rparr>)"
  using tty_print_in_bounds[of "\<lparr>term_row = 24, term_col = 79, term_color = 7,
      term_buffer = (\<lambda>_. 0), port_log = []\<rparr>" "''ok''"]
  by (simp add: con_inv_def)

text \<open>
  Everything printed on the screen is mirrored on the serial line: a print appends exactly the
  characters of the C string, up to its terminating NUL, to the serial output.
\<close>

theorem tty_print_serial:
  "serial (tty_print s c) = serial c @ map of_char (takeWhile (\<lambda>ch. ch \<noteq> CHR 0x00) s)"
  by (rule serial_print)

text \<open>
  A line feed on the bottom row scrolls: every row moves up by one, the bottom row becomes
  blank in the current colour, and the cursor returns to its start.
\<close>

theorem tty_newline_scrolls:
  assumes "term_row c = 24"
  shows "term_row (tty_putchar 10 c) = 24 \<and> term_col (tty_putchar 10 c) = 0
    \<and> (\<forall>i < 1920. term_buffer (tty_putchar 10 c) i = term_buffer c (i + 80))
    \<and> (\<forall>i. 1920 \<le> i \<and> i < 2000 \<longrightarrow>
         term_buffer (tty_putchar 10 c) i = vga_entry 32 (term_color c))"
  using assms
  by (simp add: tty_putchar_def uart_putchar_def Let_def advance_row_def tty_scroll_buffer)

theorem tty_newline_scrolls_witness:
  "term_buffer (tty_putchar 10 \<lparr>term_row = 24, term_col = 3, term_color = 7,
     term_buffer = (\<lambda>i. word_of_nat i), port_log = []\<rparr>) 0 = 80"
  using tty_newline_scrolls[of "\<lparr>term_row = 24, term_col = 3, term_color = 7,
      term_buffer = (\<lambda>i. word_of_nat i), port_log = []\<rparr>"]
  by simp

text \<open>
  \<^verbatim>\<open>tty_print_dec\<close> and \<^verbatim>\<open>tty_print_hex64\<close> print the number they are given: reading the printed
  digits back gives the value, the decimal text has at most ten digits (so it fits the 16-byte
  buffer with its terminator), and the hexadecimal text is \<^verbatim>\<open>0x\<close> and sixteen digits.
\<close>

theorem tty_print_numbers:
  "(\<exists>ds. serial (tty_print_dec v c) = serial c @ map of_char ds
      \<and> parse_digits 10 ds = unat v \<and> length ds \<le> 10)
   \<and> (\<exists>hs. serial (tty_print_hex64 w c) = serial c @ map of_char (''0x'' @ hs)
      \<and> parse_digits 16 hs = unat w \<and> length hs = 16)"
proof (intro conjI)
  show "\<exists>ds. serial (tty_print_dec v c) = serial c @ map of_char ds
      \<and> parse_digits 10 ds = unat v \<and> length ds \<le> 10"
  proof (cases "v = 0")
    case True
    then show ?thesis
      by (intro exI[of _ "''0''"])
         (simp add: tty_print_dec_def parse_digits_def digit_value_def)
  next
    case False
    have tw: "takeWhile (\<lambda>ch. ch \<noteq> CHR 0x00) (dec_buffer v []) = dec_buffer v []"
      using dec_buffer_no_nul[of "[]" v] by (auto simp: takeWhile_eq_all_conv)
    have "serial (tty_print_dec v c) = serial c @ map of_char (dec_buffer v [])"
      using False by (simp only: tty_print_dec_def if_False serial_print tw)
    then show ?thesis
      using dec_buffer_value[of v "[]"] dec_buffer_length[of v "[]"]
      by (intro exI[of _ "dec_buffer v []"]) (simp add: parse_digits_def)
  qed
next
  have "hex_digit n \<noteq> CHR 0x00" if "n < 16" for n
  proof -
    have "\<forall>n < 16. hex_digit n \<noteq> CHR 0x00" by code_simp
    with that show ?thesis by simp
  qed
  moreover have "unat (x AND 0xF) < 16" for x :: u64
  proof -
    have "x AND 0xF = take_bit 4 x" by (simp add: take_bit_eq_mask mask_eq_exp_minus_1)
    then show ?thesis using take_bit_nat_less_exp[of 4 "unat x"]
      by (simp only: unsigned_take_bit_eq) simp
  qed
  ultimately have "\<forall>ch \<in> set (hex_digits k w). ch \<noteq> CHR 0x00" for k
    by (induction k) auto
  then have "takeWhile (\<lambda>ch. ch \<noteq> CHR 0x00) (hex_digits 16 w) = hex_digits 16 w"
    by (simp only: takeWhile_eq_all_conv)
  then show "\<exists>hs. serial (tty_print_hex64 w c) = serial c @ map of_char (''0x'' @ hs)
      \<and> parse_digits 16 hs = unat w \<and> length hs = 16"
    using hex_digits_value[of 16 w] unat64_less[of w]
    by (intro exI[of _ "hex_digits 16 w"])
       (simp only: tty_print_hex64_def serial_print length_hex_digits, simp)
qed

end
