(* ===== verification/Vmm.thy ===== *)
theory Vmm
  imports Pmm Console
begin

text \<open>
  The virtual memory manager of \<^verbatim>\<open>kernel/InitKernel/vmm.c\<close> and \<^verbatim>\<open>include/kernel/vmm.h\<close>: the
  four-level page tables, kept in memory and edited through the identity map.

  The memory of the state is the physical memory: the code reaches page tables and frames through
  the identity map, at their physical addresses.  What the hardware makes of the tables is the
  translation \<open>xlate\<close> of the next theory; the TLB invalidations have no effect beyond it.
\<close>

section \<open>Constants\<close>

abbreviation VMM_PAGE_SIZE :: u64 where "VMM_PAGE_SIZE \<equiv> 4096"

abbreviation VMM_PRESENT :: u64 where "VMM_PRESENT \<equiv> 0x1"
abbreviation VMM_WRITE :: u64 where "VMM_WRITE \<equiv> 0x2"
abbreviation VMM_USER :: u64 where "VMM_USER \<equiv> 0x4"
abbreviation VMM_PWT :: u64 where "VMM_PWT \<equiv> 0x8"
abbreviation VMM_PCD :: u64 where "VMM_PCD \<equiv> 0x10"
abbreviation VMM_PS :: u64 where "VMM_PS \<equiv> 0x80"
abbreviation VMM_XD :: u64 where "VMM_XD \<equiv> 0x8000000000000000"

abbreviation VMM_KERN_RW :: u64 where "VMM_KERN_RW \<equiv> VMM_PRESENT OR VMM_WRITE"
abbreviation VMM_KERN_RW_CD :: u64 where
  "VMM_KERN_RW_CD \<equiv> VMM_PRESENT OR VMM_WRITE OR VMM_PCD OR VMM_PWT"

abbreviation VMM_MMIO_BASE :: u64 where "VMM_MMIO_BASE \<equiv> 0xFFFFFFFFC0000000"
abbreviation VMM_HEAP_BASE :: u64 where "VMM_HEAP_BASE \<equiv> 0xFFFFFFFFA0000000"
abbreviation VMM_HEAP_SIZE :: u64 where "VMM_HEAP_SIZE \<equiv> 0x20000000"
abbreviation KERNEL_VMA :: u64 where "KERNEL_VMA \<equiv> 0xFFFFFFFF80000000"
abbreviation BOOT_PDPTE_A_ADDR :: u64 where "BOOT_PDPTE_A_ADDR \<equiv> 0x71000"

text \<open>Bits 12 to 51 of an entry: the frame address.\<close>

abbreviation PTE_ADDR_MASK :: u64 where "PTE_ADDR_MASK \<equiv> 0x000FFFFFFFFFF000"
abbreviation PDE_LARGE_MASK :: u64 where "PDE_LARGE_MASK \<equiv> 0x000FFFFFFFE00000"

text \<open>\<^verbatim>\<open>~(VMM_PAGE_SIZE - 1)\<close>\<close>

abbreviation PAGE_MASK :: u64 where "PAGE_MASK \<equiv> NOT 0xFFF"

section \<open>State\<close>

record vmm_state =
  con :: console
  pmm :: pmm_state
  mem :: memory
  s_pml4_phys :: u64
  s_pml4_virt :: u64
  s_mmio_next :: u64

section \<open>Address fields\<close>

definition vmm_pml4_index :: "u64 \<Rightarrow> u64" where
  "vmm_pml4_index vaddr = drop_bit 39 vaddr AND 0x1FF"

definition vmm_pdpte_index :: "u64 \<Rightarrow> u64" where
  "vmm_pdpte_index vaddr = drop_bit 30 vaddr AND 0x1FF"

definition vmm_pd_index :: "u64 \<Rightarrow> u64" where
  "vmm_pd_index vaddr = drop_bit 21 vaddr AND 0x1FF"

definition vmm_pt_index :: "u64 \<Rightarrow> u64" where
  "vmm_pt_index vaddr = drop_bit 12 vaddr AND 0x1FF"

definition vmm_page_offset :: "u64 \<Rightarrow> u64" where
  "vmm_page_offset vaddr = vaddr AND 0xFFF"

section \<open>Table access\<close>

definition frame_alloc :: "'a vmm_state_scheme \<Rightarrow> u64 \<times> 'a vmm_state_scheme" where
  "frame_alloc s = (let (f, p) = pmm_alloc_page (pmm s) in (f, s\<lparr>pmm := p\<rparr>))"

definition poke64 :: "u64 \<Rightarrow> u64 \<Rightarrow> 'a vmm_state_scheme \<Rightarrow> 'a vmm_state_scheme" where
  "poke64 a v s = s\<lparr>mem := store64 (mem s) a v\<rparr>"

definition clear_page :: "u64 \<Rightarrow> 'a vmm_state_scheme \<Rightarrow> 'a vmm_state_scheme" where
  "clear_page phys s = s\<lparr>mem := memset8 (mem s) phys 0 4096\<rparr>"

text \<open>
  The body that \<^verbatim>\<open>get_pdpte\<close>, \<^verbatim>\<open>get_pd\<close> and \<^verbatim>\<open>get_pt\<close> share once the slot of the entry is known: read
  the entry, return NULL (0) for a large page where that is checked, allocate a cleared table
  when the entry is absent and \<open>alloc\<close> is set, and return the table's address.
\<close>

definition get_table ::
  "bool \<Rightarrow> bool \<Rightarrow> u64 \<Rightarrow> 'a vmm_state_scheme \<Rightarrow> u64 \<times> 'a vmm_state_scheme" where
  "get_table check_ps alloc slot s =
     (let entry = load64 (mem s) slot
      in if check_ps \<and> entry AND VMM_PS \<noteq> 0 then (0, s)
         else if entry AND VMM_PRESENT = 0 then
           if \<not> alloc then (0, s)
           else let (phys, s) = frame_alloc s
                in if phys = 0 then (0, s)
                   else let s = clear_page phys s;
                            s = poke64 slot (phys OR VMM_PRESENT OR VMM_WRITE) s;
                            entry = load64 (mem s) slot
                        in (entry AND PTE_ADDR_MASK, s)
         else (entry AND PTE_ADDR_MASK, s))"

definition get_pdpte ::
  "u64 \<Rightarrow> bool \<Rightarrow> 'a vmm_state_scheme \<Rightarrow> u64 \<times> 'a vmm_state_scheme" where
  "get_pdpte vaddr alloc s = get_table False alloc (s_pml4_virt s + 8 * vmm_pml4_index vaddr) s"

definition get_pd :: "u64 \<Rightarrow> bool \<Rightarrow> 'a vmm_state_scheme \<Rightarrow> u64 \<times> 'a vmm_state_scheme" where
  "get_pd vaddr alloc s =
     (let (pdpte, s) = get_pdpte vaddr alloc s
      in if pdpte = 0 then (0, s)
         else get_table True alloc (pdpte + 8 * vmm_pdpte_index vaddr) s)"

definition get_pt :: "u64 \<Rightarrow> bool \<Rightarrow> 'a vmm_state_scheme \<Rightarrow> u64 \<times> 'a vmm_state_scheme" where
  "get_pt vaddr alloc s =
     (let (pd, s) = get_pd vaddr alloc s
      in if pd = 0 then (0, s)
         else get_table True alloc (pd + 8 * vmm_pd_index vaddr) s)"

section \<open>Mapping\<close>

text \<open>
  The first step of \<^verbatim>\<open>vmm_map_page\<close> on a 2 MiB entry: a new table of 512 small entries takes its
  place.  The result is the error code.
\<close>

definition split_large ::
  "u64 \<Rightarrow> u64 \<Rightarrow> 'a vmm_state_scheme \<Rightarrow> int \<times> 'a vmm_state_scheme" where
  "split_large slot pde s =
     (let (pt_phys, s) = frame_alloc s
      in if pt_phys = 0 then (- 1, s)
         else let s = clear_page pt_phys s;
                  base_phys = pde AND PDE_LARGE_MASK;
                  s = s\<lparr>mem := fill64 (mem s) pt_phys
                        (\<lambda>i. (base_phys + word_of_nat i * VMM_PAGE_SIZE)
                              OR (pde AND 0xFFF) OR VMM_PRESENT) 512\<rparr>
              in (0, poke64 slot (pt_phys OR VMM_PRESENT OR VMM_WRITE OR (pde AND VMM_USER)) s))"

definition vmm_map_page ::
  "u64 \<Rightarrow> u64 \<Rightarrow> u64 \<Rightarrow> 'a vmm_state_scheme \<Rightarrow> int \<times> 'a vmm_state_scheme" where
  "vmm_map_page phys virt flags s =
     (let phys = phys AND PAGE_MASK;
          virt = virt AND PAGE_MASK;
          (pd, s) = get_pd virt True s
      in if pd = 0 then (- 1, s)
         else
           let slot = pd + 8 * vmm_pd_index virt;
               pde = load64 (mem s) slot;
               (err, s) = (if pde AND VMM_PS \<noteq> 0 then split_large slot pde s else (0, s))
           in if err \<noteq> 0 then (- 1, s)
              else
                let (pt, s) = get_pt virt True s
                in if pt = 0 then (- 1, s)
                   else (0, poke64 (pt + 8 * vmm_pt_index virt)
                             ((phys AND PTE_ADDR_MASK) OR (flags AND 0xFFF AND NOT VMM_XD)) s))"

definition vmm_unmap_page :: "u64 \<Rightarrow> 'a vmm_state_scheme \<Rightarrow> 'a vmm_state_scheme" where
  "vmm_unmap_page virt s =
     (let virt = virt AND PAGE_MASK;
          (pt, s) = get_pt virt False s
      in if pt = 0 then s else poke64 (pt + 8 * vmm_pt_index virt) 0 s)"

definition vmm_get_phys :: "u64 \<Rightarrow> 'a vmm_state_scheme \<Rightarrow> u64" where
  "vmm_get_phys virt s =
     (let (pt, s) = get_pt virt False s
      in if pt = 0 then 0
         else let entry = load64 (mem s) (pt + 8 * vmm_pt_index virt)
              in if entry AND VMM_PRESENT = 0 then 0
                 else (entry AND PTE_ADDR_MASK) OR vmm_page_offset virt)"

definition vmm_change_flags :: "u64 \<Rightarrow> u64 \<Rightarrow> 'a vmm_state_scheme \<Rightarrow> 'a vmm_state_scheme" where
  "vmm_change_flags virt flags s =
     (let virt = virt AND PAGE_MASK;
          (pt, s) = get_pt virt False s
      in if pt = 0 then s
         else let slot = pt + 8 * vmm_pt_index virt;
                  old_entry = load64 (mem s) slot
              in poke64 slot
                   (((old_entry AND PTE_ADDR_MASK) OR (flags AND 0xFFF)) AND NOT VMM_XD) s)"

definition vmm_is_mapped :: "u64 \<Rightarrow> 'a vmm_state_scheme \<Rightarrow> bool" where
  "vmm_is_mapped virt s =
     (let (pt, s) = get_pt virt False s
      in if pt = 0 then False
         else load64 (mem s) (pt + 8 * vmm_pt_index virt) AND VMM_PRESENT \<noteq> 0)"

definition vmm_alloc_map :: "u64 \<Rightarrow> u64 \<Rightarrow> 'a vmm_state_scheme \<Rightarrow> int \<times> 'a vmm_state_scheme" where
  "vmm_alloc_map virt flags s =
     (let virt = virt AND PAGE_MASK;
          (phys, s) = frame_alloc s
      in if phys = 0 then (- 1, s)
         else vmm_map_page phys virt flags (clear_page phys s))"

text \<open>The loop of \<^verbatim>\<open>vmm_map_mmio\<close>; \<open>None\<close> when a page could not be mapped.\<close>

primrec map_mmio_pages ::
  "u64 \<Rightarrow> nat \<Rightarrow> nat \<Rightarrow> 'a vmm_state_scheme \<Rightarrow> bool \<times> 'a vmm_state_scheme" where
  "map_mmio_pages phys_start i 0 s = (True, s)"
| "map_mmio_pages phys_start i (Suc n) s =
     (let virt = s_mmio_next s;
          (r, s) = vmm_map_page (phys_start + word_of_nat i * VMM_PAGE_SIZE) virt VMM_KERN_RW_CD s
      in if r \<noteq> 0 then (False, s)
         else map_mmio_pages phys_start (i + 1) n
                (s\<lparr>s_mmio_next := s_mmio_next s + VMM_PAGE_SIZE\<rparr>))"

definition vmm_map_mmio ::
  "u64 \<Rightarrow> u64 \<Rightarrow> 'a vmm_state_scheme \<Rightarrow> u64 \<times> 'a vmm_state_scheme" where
  "vmm_map_mmio phys_addr sz s =
     (let phys_start = phys_addr AND PAGE_MASK;
          phys_end = (phys_addr + sz + VMM_PAGE_SIZE - 1) AND PAGE_MASK;
          page_count = (phys_end - phys_start) div VMM_PAGE_SIZE;
          virt_base = s_mmio_next s;
          (ok, s) = map_mmio_pages phys_start 0 (unat page_count) s
      in if ok then (virt_base + (phys_addr AND 0xFFF), s) else (0, s))"

section \<open>Initialisation\<close>

definition say :: "string \<Rightarrow> 'a vmm_state_scheme \<Rightarrow> 'a vmm_state_scheme" where
  "say str s = s\<lparr>con := tty_print str (con s)\<rparr>"

definition say_hex :: "u64 \<Rightarrow> 'a vmm_state_scheme \<Rightarrow> 'a vmm_state_scheme" where
  "say_hex v s = s\<lparr>con := tty_print_hex64 v (con s)\<rparr>"

definition paint :: "u8 \<Rightarrow> u8 \<Rightarrow> 'a vmm_state_scheme \<Rightarrow> 'a vmm_state_scheme" where
  "paint fg bg s = s\<lparr>con := tty_setcolor fg bg (con s)\<rparr>"

text \<open>The loop over the four gigabytes; the flag is false when a frame could not be allocated.\<close>

primrec identity_map ::
  "nat \<Rightarrow> nat \<Rightarrow> 'a vmm_state_scheme \<Rightarrow> bool \<times> 'a vmm_state_scheme" where
  "identity_map gb 0 s = (True, s)"
| "identity_map gb (Suc n) s =
     (let (pd_phys, s) = frame_alloc s
      in if pd_phys = 0
         then (False, say ''  ERROR: Failed to allocate PD for identity map\<newline>''
                        (paint VGA_RED VGA_BLACK s))
         else
           let s = s\<lparr>mem := fill64 (mem s) pd_phys
                     (\<lambda>i. (word_of_nat gb * 0x40000000 + word_of_nat i * 0x200000)
                           OR VMM_PRESENT OR VMM_WRITE OR VMM_USER OR VMM_PS) 512\<rparr>;
               s = poke64 (BOOT_PDPTE_A_ADDR + 8 * word_of_nat gb)
                     (pd_phys OR VMM_PRESENT OR VMM_WRITE OR VMM_USER) s
           in identity_map (gb + 1) n s)"

definition vmm_init :: "u64 \<Rightarrow> 'a vmm_state_scheme \<Rightarrow> 'a vmm_state_scheme" where
  "vmm_init cr3 s =
     (let s = say ''[..] Initializing Virtual Memory Manager...\<newline>'' s;
          s = s\<lparr>s_pml4_phys := cr3, s_pml4_virt := cr3\<rparr>;
          s = poke64 (s_pml4_virt s) (load64 (mem s) (s_pml4_virt s) OR VMM_USER) s;
          (ok, s) = identity_map 0 4 s
      in if \<not> ok then s
         else
           let s = say ''[OK] VMM initialized\<newline>'' s;
               s = say ''\<newline>'' (say_hex (s_pml4_phys s) (say ''  PML4 at phys='' s));
               s = say ''  Identity map: 0-4GB (2MB pages, user accessible)\<newline>'' s;
               s = say '' (boot.asm mapping preserved)\<newline>'' (say_hex KERNEL_VMA (say ''  Kernel: '' s));
               s = say '' (on-demand via PML4[511])\<newline>'' (say_hex VMM_HEAP_BASE (say ''  Heap:   '' s))
           in say '' (on-demand via PML4[511])\<newline>'' (say_hex VMM_MMIO_BASE (say ''  MMIO:   '' s)))"

end
