(* ===== verification/Heap.thy ===== *)
theory Heap
  imports Vmm
begin

text \<open>
  The kernel heap of \<^verbatim>\<open>kernel/InitKernel/heap.c\<close>: blocks with a 32-byte header (size and allocated
  flag, two free-list pointers, magic) and a 16-byte footer (size, magic), a doubly linked free
  list threaded through the free blocks, first-fit allocation with splitting and growth by whole
  pages.

  \<open>hmem\<close> is the memory as the heap code sees it at the heap's virtual addresses.  A successful
  \<^verbatim>\<open>vmm_alloc_map\<close> puts a zeroed frame of its own behind a page (shown for the virtual memory
  manager), so the page becomes zero here.  The interrupt flag that \<^verbatim>\<open>lock\<close> and \<^verbatim>\<open>unlock\<close> switch has no
  effect on a single execution and is left out.
\<close>

section \<open>Constants and state\<close>

abbreviation MAGIC_VALUE :: u64 where "MAGIC_VALUE \<equiv> 0xBEEFCAFE20161220"
abbreviation BLOCK_META_SIZE :: u64 where "BLOCK_META_SIZE \<equiv> 48"
abbreviation BLOCK_MIN_SIZE :: u64 where "BLOCK_MIN_SIZE \<equiv> 64"
abbreviation BLOCK_ALIGN :: u64 where "BLOCK_ALIGN \<equiv> 16"
abbreviation BLOCK_ALLOCATED :: u64 where "BLOCK_ALLOCATED \<equiv> 0x8000000000000000"
abbreviation BLOCK_SIZE_MASK :: u64 where "BLOCK_SIZE_MASK \<equiv> 0x7FFFFFFFFFFFFFFF"
abbreviation HEAP_MAX_ALLOC :: u64 where "HEAP_MAX_ALLOC \<equiv> 0x10000000"

record heap_state = vmm_state +
  hmem :: memory
  heap_start :: u64
  heap_max_size :: u64
  heap_mapped_size :: u64
  heap_allocated_bytes :: u64
  free_list_head :: u64

section \<open>Block fields\<close>

definition hpoke :: "u64 \<Rightarrow> u64 \<Rightarrow> 'a heap_state_scheme \<Rightarrow> 'a heap_state_scheme" where
  "hpoke a v s = s\<lparr>hmem := store64 (hmem s) a v\<rparr>"

definition blk_size :: "u64 \<Rightarrow> memory \<Rightarrow> u64" where
  "blk_size hdr m = load64 m hdr AND BLOCK_SIZE_MASK"

definition blk_set_size :: "u64 \<Rightarrow> u64 \<Rightarrow> bool \<Rightarrow> 'a heap_state_scheme \<Rightarrow> 'a heap_state_scheme" where
  "blk_set_size hdr sz alloc s =
     hpoke hdr ((sz AND BLOCK_SIZE_MASK) OR (if alloc then BLOCK_ALLOCATED else 0)) s"

definition blk_is_alloc :: "u64 \<Rightarrow> memory \<Rightarrow> bool" where
  "blk_is_alloc hdr m \<longleftrightarrow> load64 m hdr AND BLOCK_ALLOCATED \<noteq> 0"

definition blk_prev_free :: "u64 \<Rightarrow> memory \<Rightarrow> u64" where
  "blk_prev_free hdr m = load64 m (hdr + 8)"

definition blk_set_prev_free :: "u64 \<Rightarrow> u64 \<Rightarrow> 'a heap_state_scheme \<Rightarrow> 'a heap_state_scheme" where
  "blk_set_prev_free hdr p s = hpoke (hdr + 8) p s"

definition blk_next_free :: "u64 \<Rightarrow> memory \<Rightarrow> u64" where
  "blk_next_free hdr m = load64 m (hdr + 16)"

definition blk_set_next_free :: "u64 \<Rightarrow> u64 \<Rightarrow> 'a heap_state_scheme \<Rightarrow> 'a heap_state_scheme" where
  "blk_set_next_free hdr n s = hpoke (hdr + 16) n s"

definition blk_magic :: "u64 \<Rightarrow> memory \<Rightarrow> u64" where
  "blk_magic hdr m = load64 m (hdr + 24)"

definition blk_set_magic :: "u64 \<Rightarrow> 'a heap_state_scheme \<Rightarrow> 'a heap_state_scheme" where
  "blk_set_magic hdr s = hpoke (hdr + 24) MAGIC_VALUE s"

definition blk_prev_phys :: "u64 \<Rightarrow> 'a heap_state_scheme \<Rightarrow> u64" where
  "blk_prev_phys hdr s =
     (if hdr = heap_start s then 0
      else let prev_sz = load64 (hmem s) (hdr - 16)
           in if prev_sz = 0 \<or> prev_sz > heap_max_size s then 0 else hdr - prev_sz)"

definition blk_next_phys :: "u64 \<Rightarrow> memory \<Rightarrow> u64" where
  "blk_next_phys hdr m = hdr + blk_size hdr m"

definition set_footer :: "u64 \<Rightarrow> 'a heap_state_scheme \<Rightarrow> 'a heap_state_scheme" where
  "set_footer hdr s =
     (let sz = blk_size hdr (hmem s)
      in hpoke (hdr + sz - 16) sz (hpoke (hdr + sz - 8) MAGIC_VALUE s))"

definition check_footer :: "u64 \<Rightarrow> memory \<Rightarrow> bool" where
  "check_footer hdr m =
     (let sz = blk_size hdr m
      in load64 m (hdr + sz - 8) = MAGIC_VALUE \<and> load64 m (hdr + sz - 16) = load64 m hdr)"

section \<open>The free list\<close>

definition list_remove :: "u64 \<Rightarrow> 'a heap_state_scheme \<Rightarrow> 'a heap_state_scheme" where
  "list_remove hdr s =
     (let prev = blk_prev_free hdr (hmem s);
          nxt = blk_next_free hdr (hmem s);
          s = (if prev \<noteq> 0 then blk_set_next_free prev nxt s else s\<lparr>free_list_head := nxt\<rparr>);
          s = (if nxt \<noteq> 0 then blk_set_prev_free nxt prev s else s)
      in blk_set_next_free hdr 0 (blk_set_prev_free hdr 0 s))"

definition list_insert_head :: "u64 \<Rightarrow> 'a heap_state_scheme \<Rightarrow> 'a heap_state_scheme" where
  "list_insert_head hdr s =
     (let old = free_list_head s;
          s = blk_set_next_free hdr old (blk_set_prev_free hdr 0 s);
          s = (if old \<noteq> 0 then blk_set_prev_free old hdr s else s)
      in s\<lparr>free_list_head := hdr\<rparr>)"

section \<open>Merging\<close>

definition merge_next :: "u64 \<Rightarrow> 'a heap_state_scheme \<Rightarrow> u64 \<times> 'a heap_state_scheme" where
  "merge_next hdr s =
     (let sz = blk_size hdr (hmem s);
          nxt = hdr + sz
      in if nxt \<ge> heap_start s + heap_mapped_size s then (hdr, s)
         else if blk_is_alloc nxt (hmem s) then (hdr, s)
         else let s = list_remove nxt s;
                  new_sz = sz + blk_size nxt (hmem s)
              in (hdr, set_footer hdr (blk_set_magic hdr (blk_set_size hdr new_sz False s))))"

definition merge_prev :: "u64 \<Rightarrow> 'a heap_state_scheme \<Rightarrow> u64 \<times> 'a heap_state_scheme" where
  "merge_prev hdr s =
     (let prev = blk_prev_phys hdr s
      in if prev = 0 then (hdr, s)
         else if blk_is_alloc prev (hmem s) then (hdr, s)
         else let s = list_remove prev s;
                  new_sz = blk_size prev (hmem s) + blk_size hdr (hmem s)
              in (prev, set_footer prev (blk_set_magic prev (blk_set_size prev new_sz False s))))"

section \<open>Growth\<close>

text \<open>\<^verbatim>\<open>vmm_alloc_map\<close> of a heap page: on success the page is zero.\<close>

definition map_heap_page :: "u64 \<Rightarrow> 'a heap_state_scheme \<Rightarrow> int \<times> 'a heap_state_scheme" where
  "map_heap_page virt s =
     (let (r, s) = vmm_alloc_map virt VMM_KERN_RW s
      in if r \<noteq> 0 then (r, s)
         else (0, s\<lparr>hmem := memset8 (hmem s) (virt AND PAGE_MASK) 0 4096\<rparr>))"

partial_function (option) expand_loop ::
  "u64 \<Rightarrow> u64 \<Rightarrow> 'a heap_state_scheme \<Rightarrow> (bool \<times> 'a heap_state_scheme) option" where
  "expand_loop needed cur_end s =
     (if cur_end < needed then
        if cur_end \<ge> heap_start s + heap_max_size s then Some (False, s)
        else if fst (map_heap_page cur_end s) \<noteq> 0 then Some (False, snd (map_heap_page cur_end s))
        else expand_loop needed (cur_end + VMM_PAGE_SIZE)
               ((snd (map_heap_page cur_end s))
                  \<lparr>heap_mapped_size := heap_mapped_size (snd (map_heap_page cur_end s)) + VMM_PAGE_SIZE\<rparr>)
      else Some (True, s))"

definition expand_to :: "u64 \<Rightarrow> 'a heap_state_scheme \<Rightarrow> (bool \<times> 'a heap_state_scheme) option" where
  "expand_to needed s = expand_loop needed (heap_start s + heap_mapped_size s) s"

definition heap_init :: "u64 \<Rightarrow> u64 \<Rightarrow> 'a heap_state_scheme \<Rightarrow> 'a heap_state_scheme" where
  "heap_init start sz s =
     (let s = s\<lparr>heap_start := start, heap_max_size := sz, heap_mapped_size := 0,
                heap_allocated_bytes := 0, free_list_head := 0\<rparr>;
          (r, s) = map_heap_page start s
      in if r \<noteq> 0
         then say ''  HEAP: initial page map failed\<newline>'' (paint VGA_RED VGA_BLACK s)
         else
           let s = s\<lparr>heap_mapped_size := VMM_PAGE_SIZE\<rparr>;
               s = set_footer start (blk_set_magic start (blk_set_size start VMM_PAGE_SIZE False s))
           in list_insert_head start s)"

section \<open>Allocation\<close>

text \<open>The size of the block that holds \<open>size\<close> payload bytes.\<close>

definition block_total :: "u64 \<Rightarrow> u64" where
  "block_total sz =
     (let total = sz + BLOCK_META_SIZE;
          total = (total + BLOCK_ALIGN - 1) AND NOT (BLOCK_ALIGN - 1)
      in if total < BLOCK_MIN_SIZE then BLOCK_MIN_SIZE else total)"

partial_function (option) find_fit :: "u64 \<Rightarrow> u64 \<Rightarrow> memory \<Rightarrow> u64 option" where
  "find_fit tot best m =
     (if best = 0 then Some 0
      else if blk_size best m \<ge> tot then Some best
      else find_fit tot (blk_next_free best m) m)"

text \<open>The new block over the pages that \<open>expand_to\<close> mapped; 0 when the heap could not grow.\<close>

definition grow_heap :: "u64 \<Rightarrow> 'a heap_state_scheme \<Rightarrow> (u64 \<times> 'a heap_state_scheme) option" where
  "grow_heap tot s =
     (let cur_end = heap_start s + heap_mapped_size s
      in case expand_to (cur_end + tot) s of
           None \<Rightarrow> None
         | Some (False, s) \<Rightarrow> Some (0, s)
         | Some (True, s) \<Rightarrow>
             let expand_sz = (heap_start s + heap_mapped_size s) - cur_end;
                 s = set_footer cur_end (blk_set_magic cur_end (blk_set_size cur_end expand_sz False s));
                 s = list_insert_head cur_end s
             in Some (free_list_head s, s))"

definition split_block :: "u64 \<Rightarrow> u64 \<Rightarrow> u64 \<Rightarrow> 'a heap_state_scheme \<Rightarrow> 'a heap_state_scheme" where
  "split_block best tot bsize s =
     (let rest = best + tot;
          s = set_footer rest (blk_set_magic rest (blk_set_size rest (bsize - tot) False s));
          prev = blk_prev_free best (hmem s);
          nxt = blk_next_free best (hmem s);
          s = (if prev \<noteq> 0 then blk_set_next_free prev rest s else s\<lparr>free_list_head := rest\<rparr>);
          s = (if nxt \<noteq> 0 then blk_set_prev_free nxt rest s else s);
          s = blk_set_prev_free rest prev s;
          s = blk_set_next_free rest nxt s;
          s = blk_set_magic rest s
      in set_footer best (blk_set_magic best (blk_set_size best tot True s)))"

definition take_block :: "u64 \<Rightarrow> u64 \<Rightarrow> 'a heap_state_scheme \<Rightarrow> 'a heap_state_scheme" where
  "take_block best bsize s =
     set_footer best (blk_set_magic best (blk_set_size best bsize True (list_remove best s)))"

definition place_block :: "u64 \<Rightarrow> u64 \<Rightarrow> 'a heap_state_scheme \<Rightarrow> u64 \<times> 'a heap_state_scheme" where
  "place_block best tot s =
     (let bsize = blk_size best (hmem s);
          s = (if bsize \<ge> tot + BLOCK_MIN_SIZE then split_block best tot bsize s
               else take_block best bsize s)
      in (best + 32, s\<lparr>heap_allocated_bytes := heap_allocated_bytes s + tot\<rparr>))"

definition kmalloc :: "u64 \<Rightarrow> 'a heap_state_scheme \<Rightarrow> (u64 \<times> 'a heap_state_scheme) option" where
  "kmalloc sz s =
     (if sz = 0 \<or> sz > HEAP_MAX_ALLOC then Some (0, s)
      else
        let total = block_total sz
        in case find_fit total (free_list_head s) (hmem s) of
             None \<Rightarrow> None
           | Some best \<Rightarrow>
               if best \<noteq> 0 then Some (place_block best total s)
               else case grow_heap total s of
                      None \<Rightarrow> None
                    | Some (best, s) \<Rightarrow>
                        if best = 0 then Some (0, s) else Some (place_block best total s))"

section \<open>Release\<close>

definition kfree :: "u64 \<Rightarrow> 'a heap_state_scheme \<Rightarrow> 'a heap_state_scheme" where
  "kfree ptr s =
     (if ptr = 0 then s
      else
        let hdr = ptr - 32
        in if hdr < heap_start s \<or> hdr \<ge> heap_start s + heap_mapped_size s then s
           else if blk_magic hdr (hmem s) \<noteq> MAGIC_VALUE \<or> \<not> check_footer hdr (hmem s) then s
           else if \<not> blk_is_alloc hdr (hmem s) then s
           else
             let sz = blk_size hdr (hmem s);
                 s = s\<lparr>heap_allocated_bytes := heap_allocated_bytes s - sz\<rparr>;
                 s = set_footer hdr (blk_set_magic hdr (blk_set_size hdr sz False s));
                 (hdr, s) = merge_prev hdr s;
                 (hdr, s) = merge_next hdr s
             in list_insert_head hdr s)"

text \<open>The byte loop of \<^verbatim>\<open>krealloc\<close>.\<close>

primrec copy8 :: "memory \<Rightarrow> u64 \<Rightarrow> u64 \<Rightarrow> nat \<Rightarrow> memory" where
  "copy8 m d p 0 = m"
| "copy8 m d p (Suc n) =
     (let m' = copy8 m d p n in m'(d + word_of_nat n := m' (p + word_of_nat n)))"

definition krealloc :: "u64 \<Rightarrow> u64 \<Rightarrow> 'a heap_state_scheme \<Rightarrow> (u64 \<times> 'a heap_state_scheme) option" where
  "krealloc ptr sz s =
     (if ptr = 0 then kmalloc sz s
      else if sz = 0 then Some (0, kfree ptr s)
      else
        let hdr = ptr - 32
        in if blk_magic hdr (hmem s) \<noteq> MAGIC_VALUE then Some (0, s)
           else
             let old_user = blk_size hdr (hmem s) - BLOCK_META_SIZE
             in if sz \<le> old_user then Some (ptr, s)
                else case kmalloc sz s of
                       None \<Rightarrow> None
                     | Some (new, s) \<Rightarrow>
                         if new = 0 then Some (0, s)
                         else Some (new, kfree ptr
                                (s\<lparr>hmem := copy8 (hmem s) new ptr (unat old_user)\<rparr>)))"

definition kcalloc :: "u64 \<Rightarrow> u64 \<Rightarrow> 'a heap_state_scheme \<Rightarrow> (u64 \<times> 'a heap_state_scheme) option" where
  "kcalloc nmemb sz s =
     (if nmemb = 0 \<or> sz = 0 then Some (0, s)
      else if sz > HEAP_MAX_ALLOC div nmemb then Some (0, s)
      else
        let total = nmemb * sz
        in case kmalloc total s of
             None \<Rightarrow> None
           | Some (p, s) \<Rightarrow>
               if p = 0 then Some (0, s)
               else Some (p, s\<lparr>hmem := memset8 (hmem s) p 0 (unat total)\<rparr>))"

section \<open>Statistics and checking\<close>

definition heap_get_stats :: "'a heap_state_scheme \<Rightarrow> u64 \<times> u64 \<times> u64" where
  "heap_get_stats s =
     (heap_mapped_size s, heap_allocated_bytes s, heap_mapped_size s - heap_allocated_bytes s)"

partial_function (option) heap_dump_loop ::
  "u64 \<Rightarrow> u32 \<Rightarrow> 'a heap_state_scheme \<Rightarrow> 'a heap_state_scheme option" where
  "heap_dump_loop cur i s =
     (if cur = 0 then Some s
      else heap_dump_loop (blk_next_free cur (hmem s)) (i + 1)
        (s\<lparr>con := tty_print ''\<newline>'' (tty_print_dec (ucast (blk_size cur (hmem s)))
           (tty_print '' size:'' (tty_print_hex64 cur (tty_print ''] addr:0x''
             (tty_print_dec i (tty_print ''  ['' (con s)))))))\<rparr>))"

definition heap_dump :: "'a heap_state_scheme \<Rightarrow> 'a heap_state_scheme option" where
  "heap_dump s =
     (case heap_dump_loop (free_list_head s) 0 (say ''\<newline>--- Heap Free List ---\<newline>'' s) of
        None \<Rightarrow> None
      | Some s \<Rightarrow> Some (say ''--- End of Free List ---\<newline>'' s))"

partial_function (option) heap_check_loop ::
  "u64 \<Rightarrow> u64 \<Rightarrow> 'a heap_state_scheme \<Rightarrow> (int \<times> 'a heap_state_scheme) option" where
  "heap_check_loop prev cur s =
     (if cur = 0 then Some (0, s)
      else if cur < heap_start s \<or> cur \<ge> heap_start s + heap_mapped_size s
      then Some (- 1, say ''HEAP CHECK FAIL: address out of range\<newline>'' s)
      else if blk_magic cur (hmem s) \<noteq> MAGIC_VALUE \<or> \<not> check_footer cur (hmem s)
      then Some (- 1, say ''HEAP CHECK FAIL: bad magic/footer\<newline>'' s)
      else if blk_is_alloc cur (hmem s)
      then Some (- 1, say ''HEAP CHECK FAIL: allocated block in free list\<newline>'' s)
      else if blk_prev_free cur (hmem s) \<noteq> prev
      then Some (- 1, say ''HEAP CHECK FAIL: prev pointer mismatch\<newline>'' s)
      else heap_check_loop cur (blk_next_free cur (hmem s)) s)"

definition heap_check :: "'a heap_state_scheme \<Rightarrow> (int \<times> 'a heap_state_scheme) option" where
  "heap_check s = heap_check_loop 0 (free_list_head s) s"

end
