(* ===== verification/Heap_Inv.thy ===== *)
theory Heap_Inv
  imports Heap
begin

text \<open>
  The heap's invariant: which blocks lie where, what their headers and footers hold, and how the
  free list threads the free blocks; with the effect of the block and list primitives on it.
  Addresses are natural numbers here; \<open>word_of_nat\<close> takes them to pointers.
\<close>

section \<open>Cells\<close>

definition cell :: "nat \<Rightarrow> bool" where
  "cell c \<longleftrightarrow> c < 18446744073709551616 \<and> 8 dvd c"

abbreviation rd :: "memory \<Rightarrow> nat \<Rightarrow> u64" where
  "rd m c \<equiv> load64 m (word_of_nat c)"

lemma cell_aligned: "cell c \<Longrightarrow> aligned 3 (word_of_nat c)"
  by (simp add: cell_def aligned_def unat_of_nat64)

lemma rd_store:
  assumes "cell c" "cell d"
  shows "rd (store64 m (word_of_nat c) v) d = (if c = d then v else rd m d)"
proof (cases "c = d")
  case False
  have "unat (word_of_nat c :: u64) = c" "unat (word_of_nat d :: u64) = d"
    using assms by (simp_all add: cell_def unat_of_nat64)
  then have "(word_of_nat c :: u64) \<noteq> word_of_nat d" using False by metis
  then show ?thesis using False assms cell_aligned by (simp add: load64_store64_other)
qed simp

lemma store64_byte_other:
  assumes "cell c" "\<not> (c \<le> unat x \<and> unat x < c + 8)"
  shows "store64 m (word_of_nat c) v x = m x"
proof -
  have c: "unat (word_of_nat c :: u64) = c" using assms(1) by (simp add: cell_def unat_of_nat64)
  have "\<not> unat (x - word_of_nat c) < 8"
  proof
    assume b: "unat (x - word_of_nat c) < 8"
    have "c + 8 \<le> 18446744073709551616" using assms(1) by (auto simp: cell_def elim!: dvdE)
    then have "unat (word_of_nat c + (x - word_of_nat c)) = c + unat (x - word_of_nat c)"
      using b c by (intro trans[OF unat_add64]) simp_all
    then show False using assms(2) b by simp
  qed
  then show ?thesis by (simp add: store64_def)
qed

section \<open>The doubly linked free list\<close>

definition first_of :: "nat list \<Rightarrow> nat \<Rightarrow> nat" where
  "first_of xs q = (if xs = [] then q else hd xs)"

definition last_of :: "nat list \<Rightarrow> nat \<Rightarrow> nat" where
  "last_of xs p = (if xs = [] then p else last xs)"

lemma first_of_simps [simp]: "first_of [] q = q" "first_of (x # xs) q = x"
  "first_of (xs @ ys) q = first_of xs (first_of ys q)"
  by (auto simp: first_of_def)

lemma last_of_simps [simp]: "last_of [] p = p" "last_of (x # xs) p = last_of xs x"
  "last_of (xs @ ys) p = last_of ys (last_of xs p)"
  by (auto simp: last_of_def)

text \<open>\<open>seg pv nx p xs q\<close>: the blocks \<open>xs\<close> are linked, with \<open>p\<close> before and \<open>q\<close> after them.\<close>

fun seg :: "(nat \<Rightarrow> u64) \<Rightarrow> (nat \<Rightarrow> u64) \<Rightarrow> nat \<Rightarrow> nat list \<Rightarrow> nat \<Rightarrow> bool" where
  "seg pv nx p [] q = True"
| "seg pv nx p (x # xs) q =
     (pv x = word_of_nat p \<and> nx x = word_of_nat (first_of xs q) \<and> seg pv nx x xs q)"

lemma seg_append [simp]:
  "seg pv nx p (xs @ ys) q \<longleftrightarrow> seg pv nx p xs (first_of ys q) \<and> seg pv nx (last_of xs p) ys q"
  by (induction xs arbitrary: p) auto

lemma seg_cong:
  assumes "\<And>x. x \<in> set xs \<Longrightarrow> pv' x = pv x \<and> nx' x = nx x"
  shows "seg pv' nx' p xs q = seg pv nx p xs q"
  using assms by (induction xs arbitrary: p) auto

lemma seg_new_end:
  assumes "seg pv nx p xs q" "distinct xs"
    "\<And>x. x \<in> set xs \<Longrightarrow> pv' x = pv x"
    "\<And>x. x \<in> set xs \<Longrightarrow> x \<noteq> last_of xs p \<Longrightarrow> nx' x = nx x"
    "xs \<noteq> [] \<Longrightarrow> nx' (last_of xs p) = word_of_nat q'"
  shows "seg pv' nx' p xs q'"
  using assms
proof (induction xs arbitrary: p)
  case (Cons x xs)
  show ?case
  proof (cases "xs = []")
    case True
    then show ?thesis using Cons.prems by simp
  next
    case False
    then have "last_of xs x \<in> set xs" by (simp add: last_of_def)
    then have "x \<noteq> last_of xs x" using Cons.prems(2) by auto
    then show ?thesis
      using False Cons.prems Cons.IH[of x] by (auto simp: first_of_def)
  qed
qed simp

lemma seg_new_start:
  assumes "seg pv nx p xs q" "distinct xs"
    "\<And>x. x \<in> set xs \<Longrightarrow> nx' x = nx x"
    "\<And>x. x \<in> set xs \<Longrightarrow> x \<noteq> first_of xs q \<Longrightarrow> pv' x = pv x"
    "xs \<noteq> [] \<Longrightarrow> pv' (first_of xs q) = word_of_nat p'"
  shows "seg pv' nx' p' xs q"
proof (cases xs)
  case (Cons x ys)
  have "seg pv' nx' x ys q = seg pv nx x ys q"
    using assms(2-4) Cons by (intro seg_cong) auto
  then show ?thesis using assms Cons by simp
qed simp

section \<open>Blocks\<close>

type_synonym blocks = "nat \<Rightarrow> (nat \<times> bool) option"

definition blk_ok :: "memory \<Rightarrow> nat \<Rightarrow> nat \<Rightarrow> bool \<Rightarrow> bool" where
  "blk_ok m a z al \<longleftrightarrow>
     rd m a = word_of_nat z OR (if al then BLOCK_ALLOCATED else 0) \<and> rd m (a + 24) = MAGIC_VALUE
     \<and> rd m (a + z - 8) = MAGIC_VALUE \<and> rd m (a + z - 16) = word_of_nat z"

definition layout :: "nat \<Rightarrow> nat \<Rightarrow> blocks \<Rightarrow> bool" where
  "layout lo hi B \<longleftrightarrow>
     (\<forall>a z al. B a = Some (z, al) \<longrightarrow> lo \<le> a \<and> a + z \<le> hi \<and> 16 dvd a \<and> 16 dvd z \<and> 64 \<le> z)
     \<and> (\<forall>a z al b y bl. B a = Some (z, al) \<longrightarrow> B b = Some (y, bl) \<longrightarrow> a < b \<longrightarrow> a + z \<le> b)"

definition heap_bounds :: "'a heap_state_scheme \<Rightarrow> bool" where
  "heap_bounds s \<longleftrightarrow>
     0 < unat (heap_start s) \<and> 4096 dvd unat (heap_start s) \<and> 4096 dvd unat (heap_max_size s)
     \<and> 4096 dvd unat (heap_mapped_size s)
     \<and> unat (heap_start s) + unat (heap_max_size s) + 268439552 < 18446744073709551616
     \<and> unat (heap_max_size s) + 268439552 < 9223372036854775808
     \<and> unat (heap_mapped_size s) \<le> unat (heap_max_size s)"

abbreviation heap_lo :: "'a heap_state_scheme \<Rightarrow> nat" where
  "heap_lo s \<equiv> unat (heap_start s)"

abbreviation heap_hi :: "'a heap_state_scheme \<Rightarrow> nat" where
  "heap_hi s \<equiv> unat (heap_start s) + unat (heap_mapped_size s)"

abbreviation free_links :: "memory \<Rightarrow> nat \<Rightarrow> nat list \<Rightarrow> nat \<Rightarrow> bool" where
  "free_links m \<equiv> seg (\<lambda>a. rd m (a + 8)) (\<lambda>a. rd m (a + 16))"

definition heap_inv :: "'a heap_state_scheme \<Rightarrow> blocks \<Rightarrow> nat list \<Rightarrow> bool" where
  "heap_inv s B fl \<longleftrightarrow>
     heap_bounds s \<and> layout (heap_lo s) (heap_hi s) B
     \<and> (\<forall>a z al. B a = Some (z, al) \<longrightarrow> blk_ok (hmem s) a z al)
     \<and> distinct fl \<and> set fl = {a. \<exists>z. B a = Some (z, False)}
     \<and> free_links (hmem s) 0 fl 0 \<and> free_list_head s = word_of_nat (first_of fl 0)"

lemma layoutD:
  assumes "layout lo hi B" "B a = Some (z, al)"
  shows "lo \<le> a" "a + z \<le> hi" "16 dvd a" "16 dvd z" "64 \<le> z"
  using assms unfolding layout_def by blast+

lemma layout_disjoint:
  assumes "layout lo hi B" "B a = Some (z, al)" "B b = Some (y, bl)" "a \<noteq> b"
  shows "a + z \<le> b \<or> b + y \<le> a"
  using assms unfolding layout_def by (cases a b rule: linorder_cases) blast+

lemma heap_boundsD:
  assumes "heap_bounds s"
  shows "heap_hi s + 268439552 < 18446744073709551616" "0 < heap_lo s" "4096 dvd heap_lo s"
    "unat (heap_mapped_size s) + 268439552 < 9223372036854775808" "4096 dvd heap_hi s"
  using assms by (auto simp: heap_bounds_def)

lemma block_cells:
  assumes "heap_bounds s" "layout (heap_lo s) (heap_hi s) B" "B a = Some (z, al)"
  shows "cell a" "cell (a + 8)" "cell (a + 16)" "cell (a + 24)" "cell (a + z - 8)" "cell (a + z - 16)"
    "0 < a" "z < 9223372036854775808" "a < 18446744073709551616"
proof -
  note l = layoutD[OF assms(2,3)] and b = heap_boundsD[OF assms(1)]
  have d: "8 dvd a" "8 dvd z" using l(3,4) by (auto intro: dvd_trans[of 8 16])
  have "a + z < 18446744073709551616" using l(2) b(1) by linarith
  with d l(5) show "cell a" "cell (a + 8)" "cell (a + 16)" "cell (a + 24)" "cell (a + z - 8)" "cell (a + z - 16)"
    "a < 18446744073709551616"
    by (auto simp: cell_def intro!: dvd_diff_nat)
  show "0 < a" using l(1) b(2) by linarith
  show "z < 9223372036854775808" using l(1,2) b(4) by linarith
qed

section \<open>Writing a block's header and footer\<close>

lemma bit_size_mask: "bit BLOCK_SIZE_MASK n \<longleftrightarrow> n < 63" "bit BLOCK_ALLOCATED n \<longleftrightarrow> n = 63"
proof -
  have "BLOCK_SIZE_MASK = mask 63" "BLOCK_ALLOCATED = push_bit 63 1"
    by (simp_all add: mask_eq_exp_minus_1 push_bit_eq_mult)
  then show "bit BLOCK_SIZE_MASK n \<longleftrightarrow> n < 63" "bit BLOCK_ALLOCATED n \<longleftrightarrow> n = 63"
    by (simp_all only: bit_mask_iff bit_push_bit_iff bit_1_iff) auto
qed

lemma bit_small_size:
  assumes "z < 9223372036854775808" "bit (word_of_nat z :: u64) n"
  shows "n < 63"
proof -
  have "take_bit 63 z = z" using assms(1) by (simp add: take_bit_nat_eq_self)
  moreover have "bit z n" using assms(2) by (simp add: bit_simps)
  ultimately have "bit (take_bit 63 z) n" by simp
  then show ?thesis by (simp add: bit_simps)
qed

lemma header_size:
  assumes "z < 9223372036854775808"
  shows "(word_of_nat z OR (if al then BLOCK_ALLOCATED else 0)) AND BLOCK_SIZE_MASK = word_of_nat z"
proof (rule bit_word_eqI)
  fix n
  show "bit ((word_of_nat z OR (if al then BLOCK_ALLOCATED else 0)) AND BLOCK_SIZE_MASK) n = bit (word_of_nat z :: u64) n"
    unfolding bit_and_iff bit_or_iff bit_size_mask using bit_small_size[OF assms, of n]
    by (cases al) (auto simp only: if_True if_False bit_size_mask bit_0_eq bot_apply bot_bool_def)
qed

lemma header_alloc:
  assumes "z < 9223372036854775808"
  shows "(word_of_nat z OR (if al then BLOCK_ALLOCATED else 0)) AND BLOCK_ALLOCATED \<noteq> 0 \<longleftrightarrow> al"
proof -
  let ?h = "word_of_nat z OR (if al then BLOCK_ALLOCATED else 0)"
  have "?h AND BLOCK_ALLOCATED \<noteq> 0 \<longleftrightarrow> bit ?h 63"
  proof -
    have "BLOCK_ALLOCATED = push_bit 63 1" by (simp add: push_bit_eq_mult)
    then show ?thesis using and_exp_eq_0_iff_not_bit[of ?h 63] by (simp add: push_bit_eq_mult)
  qed
  also have "\<dots> \<longleftrightarrow> al"
    using bit_small_size[OF assms, of 63] bit_size_mask(2)[of 63] by (cases al) (auto simp only: bit_or_iff if_True if_False bit_0_eq bot_apply bot_bool_def)
  finally show ?thesis .
qed

lemma size_mask_id: "z < 9223372036854775808 \<Longrightarrow> word_of_nat z AND BLOCK_SIZE_MASK = word_of_nat z"
  using header_size[of z False] by simp

lemma blk_ok_fields:
  assumes "blk_ok m a z al" "z < 9223372036854775808"
  shows "blk_size (word_of_nat a) m = word_of_nat z" "blk_is_alloc (word_of_nat a) m = al"
    "blk_magic (word_of_nat a) m = MAGIC_VALUE"
  using assms header_size[OF assms(2)] header_alloc[OF assms(2)]
  by (simp_all add: blk_ok_def blk_size_def blk_is_alloc_def blk_magic_def)

definition format_block :: "u64 \<Rightarrow> u64 \<Rightarrow> bool \<Rightarrow> 'a heap_state_scheme \<Rightarrow> 'a heap_state_scheme" where
  "format_block hdr sz al s = set_footer hdr (blk_set_magic hdr (blk_set_size hdr sz al s))"

lemma block_end_word: "k \<le> z \<Longrightarrow> (word_of_nat a :: u64) + word_of_nat z - word_of_nat k = word_of_nat (a + z - k)"
  by (simp add: of_nat_diff)

lemma format_block_mem:
  assumes "cell a" "cell (a + 24)" "z < 9223372036854775808" "64 \<le> z"
  shows "format_block (word_of_nat a) (word_of_nat z) al s =
    s\<lparr>hmem := store64 (store64 (store64 (store64 (hmem s) (word_of_nat a)
          (word_of_nat z OR (if al then BLOCK_ALLOCATED else 0)))
          (word_of_nat (a + 24)) MAGIC_VALUE) (word_of_nat (a + z - 8)) MAGIC_VALUE)
          (word_of_nat (a + z - 16)) (word_of_nat z)\<rparr>"
proof -
  let ?m = "store64 (store64 (hmem s) (word_of_nat a)
          (word_of_nat z OR (if al then BLOCK_ALLOCATED else 0))) (word_of_nat (a + 24)) MAGIC_VALUE"
  have "blk_size (word_of_nat a) ?m = word_of_nat z"
    using assms(1,2) header_size[OF assms(3)] by (simp add: blk_size_def rd_store del: of_nat_add)
  moreover have "blk_set_magic (word_of_nat a) (blk_set_size (word_of_nat a) (word_of_nat z) al s) = s\<lparr>hmem := ?m\<rparr>"
    by (simp add: blk_set_magic_def blk_set_size_def hpoke_def size_mask_id[OF assms(3)])
  ultimately show ?thesis
    using block_end_word[of 8 z a] block_end_word[of 16 z a] assms(4)
    by (simp add: format_block_def set_footer_def hpoke_def Let_def)
qed

lemma format_block_correct:
  fixes s :: "'a heap_state_scheme" and al :: bool
  assumes "cell a" "cell (a + 24)" "cell (a + z - 8)" "cell (a + z - 16)" "z < 9223372036854775808" "64 \<le> z"
  defines "s' \<equiv> format_block (word_of_nat a) (word_of_nat z) al s"
  shows "blk_ok (hmem s') a z al"
    and "cell c \<Longrightarrow> c \<notin> {a, a + 24, a + z - 8, a + z - 16} \<Longrightarrow> rd (hmem s') c = rd (hmem s) c"
    and "\<not> (a \<le> unat x \<and> unat x < a + z) \<Longrightarrow> hmem s' x = hmem s x"
    and "\<exists>m. s' = s\<lparr>hmem := m\<rparr>"
proof -
  note m = format_block_mem[OF assms(1,2,5,6)]
  show "blk_ok (hmem s') a z al" "\<exists>m. s' = s\<lparr>hmem := m\<rparr>"
    using assms(1-6) by (auto simp: s'_def m blk_ok_def rd_store simp del: of_nat_add of_nat_diff)
  show "cell c \<Longrightarrow> c \<notin> {a, a + 24, a + z - 8, a + z - 16} \<Longrightarrow> rd (hmem s') c = rd (hmem s) c"
    using assms(1-6) by (auto simp: s'_def m rd_store simp del: of_nat_add of_nat_diff)
  show "hmem s' x = hmem s x" if x: "\<not> (a \<le> unat x \<and> unat x < a + z)"
  proof -
    have out: "\<not> (c \<le> unat x \<and> unat x < c + 8)" if "c \<in> {a, a + 24, a + z - 8, a + z - 16}" for c
      using x that assms(6) by auto
    have "store64 n (word_of_nat c) v x = n x" if "c \<in> {a, a + 24, a + z - 8, a + z - 16}" for c n v
      using that assms(1-4) by (intro store64_byte_other out) auto
    then show ?thesis
      unfolding s'_def m by (simp del: of_nat_add of_nat_diff)
  qed
qed

section \<open>Links\<close>

definition opt_store :: "bool \<Rightarrow> nat \<Rightarrow> u64 \<Rightarrow> memory \<Rightarrow> memory" where
  "opt_store b c v m = (if b then store64 m (word_of_nat c) v else m)"

lemma rd_opt_store:
  "(b \<Longrightarrow> cell c) \<Longrightarrow> cell d \<Longrightarrow> rd (opt_store b c v m) d = (if b \<and> c = d then v else rd m d)"
  by (simp add: opt_store_def rd_store)

lemma opt_store_byte_other:
  "(b \<Longrightarrow> cell c) \<Longrightarrow> (b \<Longrightarrow> \<not> (c \<le> unat x \<and> unat x < c + 8)) \<Longrightarrow> opt_store b c v m x = m x"
  by (simp add: opt_store_def store64_byte_other)

lemma word_of_nat_0_iff:
  assumes "n < 18446744073709551616"
  shows "(word_of_nat n :: u64) = 0 \<longleftrightarrow> n = 0"
  unfolding unat_eq_zero[symmetric] unat_of_nat64[OF assms] ..

lemma heap_invD:
  assumes "heap_inv s B fl"
  shows "heap_bounds s" "layout (heap_lo s) (heap_hi s) B"
    "\<And>a z al. B a = Some (z, al) \<Longrightarrow> blk_ok (hmem s) a z al"
    "distinct fl" "set fl = {a. \<exists>z. B a = Some (z, False)}" "free_links (hmem s) 0 fl 0"
    "free_list_head s = word_of_nat (first_of fl 0)"
  using assms unfolding heap_inv_def by blast+

lemma free_block:
  assumes "heap_inv s B fl" "a \<in> set fl"
  obtains z where "B a = Some (z, False)" "cell (a + 8)" "cell (a + 16)" "0 < a" "a < 18446744073709551616"
proof -
  obtain z where z: "B a = Some (z, False)" using assms heap_invD(5) by blast
  show ?thesis
    using that[OF z] block_cells(2,3,7,9)[OF heap_invD(1,2)[OF assms(1)] z] by blast
qed

text \<open>Writes to link cells leave every header and footer alone.\<close>

lemma blk_ok_links:
  assumes hb: "heap_bounds s" "layout (heap_lo s) (heap_hi s) B" and b: "B b = Some (y, bl)"
    and same: "\<And>c. cell c \<Longrightarrow> (\<And>a. a \<in> dom B \<Longrightarrow> c \<noteq> a + 8 \<and> c \<noteq> a + 16) \<Longrightarrow> rd m' c = rd m c"
  shows "blk_ok m' b y bl = blk_ok m b y bl"
proof -
  have keep: "rd m' c = rd m c" if c: "c \<in> {b, b + 24, b + y - 8, b + y - 16}" "cell c" for c
  proof (rule same[OF c(2)])
    fix a assume "a \<in> dom B"
    then obtain z al where z: "B a = Some (z, al)" by auto
    have "64 \<le> z" "64 \<le> y" using layoutD(5)[OF hb(2)] z b by blast+
    then show "c \<noteq> a + 8 \<and> c \<noteq> a + 16"
      using c(1) layout_disjoint[OF hb(2) b z] b z by (cases "a = b") auto
  qed
  show ?thesis
    unfolding blk_ok_def using keep block_cells(1,4,5,6)[OF hb b] by (simp del: of_nat_add of_nat_diff)
qed

lemma last_of_in: "last_of xs p = (if xs = [] then p else last xs)" and
  first_of_in: "first_of xs p = (if xs = [] then p else hd xs)"
  by (simp_all add: last_of_def first_of_def)

end
