(* ===== verification/Heap_Alloc.thy ===== *)
theory Heap_Alloc
  imports Heap_Inv
begin

text \<open>
  Effect of the allocation steps on the heap invariant: unlinking a free block, replacing it in
  the list by its remainder, growing the heap, and the first-fit search.
\<close>

section \<open>Reading the list\<close>

lemma seg_middle:
  assumes "heap_inv s B (xs @ a # ys)"
  shows "rd (hmem s) (a + 8) = word_of_nat (last_of xs 0)"
    "rd (hmem s) (a + 16) = word_of_nat (first_of ys 0)"
    "free_links (hmem s) 0 xs a" "free_links (hmem s) a ys 0"
  using heap_invD(6)[OF assms] by simp_all

lemma link_ends:
  assumes "heap_inv s B (xs @ a # ys)"
  shows "last_of xs 0 < 18446744073709551616" "last_of xs 0 = 0 \<longleftrightarrow> xs = []"
    "first_of ys 0 < 18446744073709551616" "first_of ys 0 = 0 \<longleftrightarrow> ys = []"
    "xs \<noteq> [] \<Longrightarrow> last_of xs 0 \<in> set xs" "ys \<noteq> [] \<Longrightarrow> first_of ys 0 \<in> set ys"
proof -
  have m: "xs \<noteq> [] \<Longrightarrow> last_of xs 0 \<in> set xs" "ys \<noteq> [] \<Longrightarrow> first_of ys 0 \<in> set ys"
    by (simp_all add: last_of_def first_of_def)
  show "xs \<noteq> [] \<Longrightarrow> last_of xs 0 \<in> set xs" by (rule m)
  show "ys \<noteq> [] \<Longrightarrow> first_of ys 0 \<in> set ys" by (rule m)
  have p: "0 < b \<and> b < 18446744073709551616" if "b \<in> set (xs @ a # ys)" for b
    using free_block[OF assms that] by blast
  show "last_of xs 0 < 18446744073709551616" "last_of xs 0 = 0 \<longleftrightarrow> xs = []"
    using m(1) p[of "last_of xs 0"] by (cases "xs = []"; auto)+
  show "first_of ys 0 < 18446744073709551616" "first_of ys 0 = 0 \<longleftrightarrow> ys = []"
    using m(2) p[of "first_of ys 0"] by (cases "ys = []"; auto)+
qed

text \<open>The memory after the neighbours of a list position point to \<open>p\<close> and \<open>n\<close>.\<close>

definition relink :: "nat list \<Rightarrow> nat list \<Rightarrow> u64 \<Rightarrow> u64 \<Rightarrow> memory \<Rightarrow> memory" where
  "relink xs ys n p m =
     opt_store (ys \<noteq> []) (first_of ys 0 + 8) p (opt_store (xs \<noteq> []) (last_of xs 0 + 16) n m)"

lemma rd_relink:
  assumes "heap_inv s B (xs @ a # ys)" "cell c"
  shows "rd (relink xs ys n p m) c =
    (if ys \<noteq> [] \<and> c = first_of ys 0 + 8 then p
     else if xs \<noteq> [] \<and> c = last_of xs 0 + 16 then n else rd m c)"
proof -
  have "xs \<noteq> [] \<Longrightarrow> cell (last_of xs 0 + 16)" "ys \<noteq> [] \<Longrightarrow> cell (first_of ys 0 + 8)"
    using link_ends(5,6)[OF assms(1)] free_block[OF assms(1)] by (metis Un_iff list.set_intros(2) set_append)+
  then show ?thesis
    using assms(2) unfolding relink_def by (auto simp: rd_opt_store simp del: of_nat_add)
qed

lemma relink_byte_other:
  assumes inv: "heap_inv s B (xs @ a # ys)"
    and x: "\<And>b z. B b = Some (z, False) \<Longrightarrow> \<not> (b \<le> unat x \<and> unat x < b + z)"
  shows "relink xs ys n p m x = m x"
proof -
  have "cell (b + 8) \<and> cell (b + 16) \<and> \<not> (b + 8 \<le> unat x \<and> unat x < b + 8 + 8)
      \<and> \<not> (b + 16 \<le> unat x \<and> unat x < b + 16 + 8)" if b: "b \<in> set (xs @ a # ys)" for b
  proof -
    obtain z where z: "B b = Some (z, False)" "cell (b + 8)" "cell (b + 16)"
      using free_block[OF inv b] by blast
    then show ?thesis using x[OF z(1)] layoutD(5)[OF heap_invD(2)[OF inv] z(1)] by auto
  qed
  note q = this
  show ?thesis
    unfolding relink_def
    using q[of "last_of xs 0"] q[of "first_of ys 0"] link_ends(5,6)[OF inv]
    by (simp add: opt_store_byte_other del: of_nat_add)
qed

lemma link_cells_differ:
  assumes "heap_inv s B fl" "b \<in> set fl" "c \<in> set fl"
  shows "b + 8 \<noteq> c + 16" "c + 16 \<noteq> b + 8"
proof -
  have "16 dvd b" "16 dvd c"
    using free_block[OF assms(1,2)] free_block[OF assms(1,3)] layoutD(3)[OF heap_invD(2)[OF assms(1)]] by metis+
  then show "b + 8 \<noteq> c + 16" "c + 16 \<noteq> b + 8" by presburger+
qed

text \<open>Once the neighbours of a position point to \<open>q\<close> and \<open>p\<close>, so do the two halves of the list.\<close>

lemma relink_halves:
  assumes inv: "heap_inv s B (xs @ a # ys)"
    and links: "\<And>b. b \<in> set xs \<union> set ys \<Longrightarrow>
      rd m' (b + 8) = rd (relink xs ys (word_of_nat q) (word_of_nat p) (hmem s)) (b + 8)
      \<and> rd m' (b + 16) = rd (relink xs ys (word_of_nat q) (word_of_nat p) (hmem s)) (b + 16)"
  shows "free_links m' 0 xs q" "free_links m' p ys 0"
proof -
  let ?r = "relink xs ys (word_of_nat q) (word_of_nat p) (hmem s)"
  have d: "distinct (xs @ a # ys)" by (rule heap_invD(4)[OF inv])
  have cells: "cell (b + 8)" "cell (b + 16)" if "b \<in> set xs \<union> set ys" for b
    using that free_block[OF inv, of b] by auto
  have ends: "xs \<noteq> [] \<Longrightarrow> last_of xs 0 \<in> set xs" "ys \<noteq> [] \<Longrightarrow> first_of ys 0 \<in> set ys"
    using link_ends(5,6)[OF inv] by auto
  have differ: "b + 8 \<noteq> last_of xs 0 + 16" if "b \<in> set xs \<union> set ys" "xs \<noteq> []" for b
    using that ends(1) by (intro link_cells_differ(1)[OF inv]) auto
  have differ': "b + 16 \<noteq> first_of ys 0 + 8" if "b \<in> set xs \<union> set ys" "ys \<noteq> []" for b
    using that ends(2) by (intro link_cells_differ(2)[OF inv]) auto
  have pv: "rd m' (b + 8) = (if ys \<noteq> [] \<and> b = first_of ys 0 then word_of_nat p else rd (hmem s) (b + 8))"
    if b: "b \<in> set xs \<union> set ys" for b
    using links[OF b] rd_relink[OF inv cells(1)[OF b], of "word_of_nat q" "word_of_nat p" "hmem s"] differ[OF b]
    by (auto simp del: of_nat_add)
  have nx: "rd m' (b + 16) = (if xs \<noteq> [] \<and> b = last_of xs 0 then word_of_nat q else rd (hmem s) (b + 16))"
    if b: "b \<in> set xs \<union> set ys" for b
    using links[OF b] rd_relink[OF inv cells(2)[OF b], of "word_of_nat q" "word_of_nat p" "hmem s"] differ'[OF b]
    by (auto simp del: of_nat_add)
  show "free_links m' 0 xs q"
    using d ends by (intro seg_new_end[OF seg_middle(3)[OF inv]]) (auto simp: pv nx simp del: of_nat_add)
  show "free_links m' p ys 0"
    using d ends by (intro seg_new_start[OF seg_middle(4)[OF inv]]) (auto simp: pv nx simp del: of_nat_add)
qed

section \<open>Taking a whole block\<close>

lemma list_remove_mem:
  assumes inv: "heap_inv s B (xs @ a # ys)"
  shows "list_remove (word_of_nat a) s =
    s\<lparr>hmem := store64 (store64 (relink xs ys (word_of_nat (first_of ys 0)) (word_of_nat (last_of xs 0)) (hmem s))
                  (word_of_nat (a + 8)) 0) (word_of_nat (a + 16)) 0,
      free_list_head := word_of_nat (first_of (xs @ ys) 0)\<rparr>"
proof -
  note e = link_ends[OF inv] and g = seg_middle[OF inv]
  have p: "(word_of_nat (last_of xs 0) :: u64) \<noteq> 0 \<longleftrightarrow> xs \<noteq> []"
    and n: "(word_of_nat (first_of ys 0) :: u64) \<noteq> 0 \<longleftrightarrow> ys \<noteq> []"
    using e word_of_nat_0_iff by simp_all
  have head: "free_list_head s = word_of_nat (first_of xs a)"
    using heap_invD(7)[OF inv] by simp
  have r: "blk_prev_free (word_of_nat a) (hmem s) = word_of_nat (last_of xs 0)"
    "blk_next_free (word_of_nat a) (hmem s) = word_of_nat (first_of ys 0)"
    using g(1,2) by (simp_all add: blk_prev_free_def blk_next_free_def)
  show ?thesis
    unfolding list_remove_def Let_def r p n
    using head
    by (cases "xs = []"; cases "ys = []")
      (simp_all add: blk_set_prev_free_def blk_set_next_free_def hpoke_def relink_def opt_store_def first_of_def)
qed

lemma blk_ok_relink:
  assumes inv: "heap_inv s B (xs @ a # ys)" and b: "B b = Some (y, bl)"
    and same: "\<And>c. cell c \<Longrightarrow> b \<le> c \<Longrightarrow> c < b + y \<Longrightarrow> rd m' c = rd (relink xs ys n p (hmem s)) c"
  shows "blk_ok m' b y bl"
proof -
  note hb = heap_invD(1,2)[OF inv]
  have "xs \<noteq> [] \<Longrightarrow> last_of xs 0 \<in> dom B" "ys \<noteq> [] \<Longrightarrow> first_of ys 0 \<in> dom B"
    using free_block[OF inv] link_ends(5,6)[OF inv] by (metis Un_iff domI list.set_intros(2) set_append)+
  then have "blk_ok (relink xs ys n p (hmem s)) b y bl = blk_ok (hmem s) b y bl"
    by (intro blk_ok_links[OF hb b]) (auto simp: rd_relink[OF inv] simp del: of_nat_add)
  moreover have "blk_ok m' b y bl = blk_ok (relink xs ys n p (hmem s)) b y bl"
    unfolding blk_ok_def using same block_cells(1,4,5,6)[OF hb b] layoutD(5)[OF hb(2) b]
    by (simp del: of_nat_add of_nat_diff)
  ultimately show ?thesis using heap_invD(3)[OF inv b] by simp
qed

section \<open>Replacing a free block\<close>

text \<open>
  The free block at \<open>a\<close> gives way to the blocks \<open>N\<close> inside its bounds, of which \<open>zs\<close> are free; the
  list neighbours now point to \<open>zs\<close>, and nothing else outside the old block changes.
\<close>

lemma replace_block:
  assumes inv: "heap_inv s B (xs @ a # ys)" and z: "B a = Some (z, False)"
    and N: "layout a (a + z) N"
    and out: "\<And>c. cell c \<Longrightarrow> c < a \<or> a + z \<le> c \<Longrightarrow> rd m' c =
      rd (relink xs ys (word_of_nat (first_of zs (first_of ys 0))) (word_of_nat (last_of zs (last_of xs 0))) (hmem s)) c"
    and ok: "\<And>b y bl. N b = Some (y, bl) \<Longrightarrow> blk_ok m' b y bl"
    and zs: "distinct zs" "set zs = {b. \<exists>y. N b = Some (y, False)}"
      "free_links m' (last_of xs 0) zs (first_of ys 0)"
  shows "heap_inv (s\<lparr>hmem := m', free_list_head := word_of_nat (first_of (xs @ zs @ ys) 0)\<rparr>)
    (B(a := None) ++ N) (xs @ zs @ ys)"
proof -
  note hb = heap_invD(1,2)[OF inv]
  let ?B = "B(a := None) ++ N"
  let ?r = "relink xs ys (word_of_nat (first_of zs (first_of ys 0))) (word_of_nat (last_of zs (last_of xs 0))) (hmem s)"
  have d: "distinct (xs @ a # ys)" by (rule heap_invD(4)[OF inv])
  have inside: "a \<le> b \<and> b + y \<le> a + z \<and> 64 \<le> y \<and> 16 dvd b \<and> 16 dvd y" if "N b = Some (y, bl)" for b y bl
    using layoutD[OF N that] by blast
  have apart: "b + y \<le> a \<or> a + z \<le> b" if "B b = Some (y, bl)" "b \<noteq> a" for b y bl
    using layout_disjoint[OF hb(2) that(1) z that(2)] by blast
  have fresh: "N b = None" if "B b = Some (y, bl)" "b \<noteq> a" for b y bl
    using apart[OF that] layoutD(5)[OF hb(2) that(1)] inside[of b] by (cases "N b") fastforce+
  have split: "?B b = Some (y, bl) \<longleftrightarrow> N b = Some (y, bl) \<or> (B b = Some (y, bl) \<and> b \<noteq> a)" for b y bl
    using fresh[of b y bl] by (auto simp: map_add_def split: option.splits)
  have layout: "layout (heap_lo s) (heap_hi s) ?B"
    unfolding layout_def split
  proof (intro conjI allI impI)
    fix b y bl assume "N b = Some (y, bl) \<or> (B b = Some (y, bl) \<and> b \<noteq> a)"
    then show "heap_lo s \<le> b" "b + y \<le> heap_hi s" "16 dvd b" "16 dvd y" "64 \<le> y"
      using inside[of b y bl] layoutD[OF hb(2) z] layoutD[OF hb(2), of b y bl] by auto
  next
    fix b y bl c w cl
    assume "N b = Some (y, bl) \<or> (B b = Some (y, bl) \<and> b \<noteq> a)"
      "N c = Some (w, cl) \<or> (B c = Some (w, cl) \<and> c \<noteq> a)" "b < c"
    then show "b + y \<le> c"
      using layout_disjoint[OF N, of b y bl c w cl] layout_disjoint[OF hb(2), of b y bl c w cl]
        inside[of b y bl] inside[of c w cl] apart[of b y bl] apart[of c w cl] by auto
  qed
  have keep: "rd m' c = rd ?r c" if b: "B b = Some (y, bl)" "b \<noteq> a" and c: "cell c" "b \<le> c" "c < b + y" for b y bl c
    using apart[OF b] c by (intro out) auto
  have links: "rd m' (b + 8) = rd ?r (b + 8) \<and> rd m' (b + 16) = rd ?r (b + 16)"
    if b: "b \<in> set xs \<union> set ys" for b
  proof -
    obtain y where y: "B b = Some (y, False)" "cell (b + 8)" "cell (b + 16)"
      using free_block[OF inv, of b] b by auto
    have "b \<noteq> a" "64 \<le> y" using d b layoutD(5)[OF hb(2) y(1)] by auto
    then show ?thesis using keep[OF y(1)] y(2,3) by (simp del: of_nat_add)
  qed
  have old: "blk_ok m' b y bl" if b: "B b = Some (y, bl)" "b \<noteq> a" for b y bl
    using blk_ok_relink[OF inv b(1)] keep[OF b] b by blast
  have frees: "set (xs @ zs @ ys) = {b. \<exists>y. ?B b = Some (y, False)}"
    unfolding split using heap_invD(5)[OF inv] zs(2) d by auto
  have "b \<notin> set zs" if b: "b \<in> set xs \<union> set ys" for b
  proof -
    obtain y where "B b = Some (y, False)" using free_block[OF inv, of b] b by auto
    moreover have "b \<noteq> a" using d b by auto
    ultimately have "N b = None" by (rule fresh)
    then show ?thesis using zs(2) by auto
  qed
  then have dist: "distinct (xs @ zs @ ys)" using d zs(1) by auto
  show ?thesis
    unfolding heap_inv_def using hb(1) layout frees dist relink_halves[OF inv links] zs(3) ok old
    by (auto simp: heap_bounds_def split)
qed

section \<open>Taking a whole block, splitting a block\<close>

lemma take_block_inv:
  assumes inv: "heap_inv s B (xs @ a # ys)" and z: "B a = Some (z, False)"
  defines "s' \<equiv> take_block (word_of_nat a) (word_of_nat z) s"
  shows "heap_inv s' (B(a \<mapsto> (z, True))) (xs @ ys)"
    and "(\<And>b z. B b = Some (z, False) \<Longrightarrow> \<not> (b \<le> unat x \<and> unat x < b + z)) \<Longrightarrow> hmem s' x = hmem s x"
    and "\<exists>m h. s' = s\<lparr>hmem := m, free_list_head := h\<rparr>"
proof -
  note hb = heap_invD(1,2)[OF inv] and ca = block_cells[OF heap_invD(1,2)[OF inv] z]
  note la = layoutD[OF hb(2) z]
  let ?r = "relink xs ys (word_of_nat (first_of ys 0)) (word_of_nat (last_of xs 0)) (hmem s)"
  let ?h = "word_of_nat (first_of (xs @ ys) 0)"
  define s1 where "s1 = list_remove (word_of_nat a) s"
  have s1: "s1 = s\<lparr>hmem := store64 (store64 ?r (word_of_nat (a + 8)) 0) (word_of_nat (a + 16)) 0,
      free_list_head := ?h\<rparr>"
    unfolding s1_def by (rule list_remove_mem[OF inv])
  have s': "s' = format_block (word_of_nat a) (word_of_nat z) True s1"
    by (simp add: s'_def take_block_def format_block_def s1_def)
  note fmt = format_block_correct[OF ca(1,4,5,6,8) la(5), where al = True and s = s1, folded s']
  have eq: "s' = s\<lparr>hmem := hmem s', free_list_head := ?h\<rparr>"
    using fmt(4) by (auto simp: s1)
  then show "\<exists>m h. s' = s\<lparr>hmem := m, free_list_head := h\<rparr>" by blast
  have out: "rd (hmem s') c = rd ?r c" if "cell c" "c < a \<or> a + z \<le> c" for c
  proof -
    have "rd (hmem s') c = rd (hmem s1) c" using that la(5) by (intro fmt(2)) auto
    then show ?thesis using that la(5) ca(2,3) by (auto simp: s1 rd_store simp del: of_nat_add)
  qed
  have "heap_inv (s\<lparr>hmem := hmem s', free_list_head := word_of_nat (first_of (xs @ [] @ ys) 0)\<rparr>)
      (B(a := None) ++ [a \<mapsto> (z, True)]) (xs @ [] @ ys)"
    using la fmt(1) out by (intro replace_block[OF inv z]) (auto simp: layout_def split: if_splits)
  then show "heap_inv s' (B(a \<mapsto> (z, True))) (xs @ ys)" using eq by simp
  show "hmem s' x = hmem s x"
    if x: "\<And>b z. B b = Some (z, False) \<Longrightarrow> \<not> (b \<le> unat x \<and> unat x < b + z)"
  proof -
    have "hmem s' x = hmem s1 x" using fmt(3) x[OF z] by blast
    also have "\<dots> = ?r x"
      using x[OF z] la(5) ca(2,3) by (auto simp: s1 store64_byte_other simp del: of_nat_add)
    also have "\<dots> = hmem s x" by (rule relink_byte_other[OF inv x])
    finally show ?thesis .
  qed
qed

lemma region_cells:
  assumes "16 dvd b" "16 dvd y" "64 \<le> y" "b + y < 18446744073709551616"
  shows "cell b" "cell (b + 8)" "cell (b + 16)" "cell (b + 24)" "cell (b + y - 8)" "cell (b + y - 16)"
proof -
  have "8 dvd b" "8 dvd y" using assms(1,2) by (auto intro: dvd_trans[of 8 16])
  then show "cell b" "cell (b + 8)" "cell (b + 16)" "cell (b + 24)" "cell (b + y - 8)" "cell (b + y - 16)"
    using assms(3,4) by (auto simp: cell_def intro!: dvd_diff_nat)
qed

lemma split_parts:
  assumes inv: "heap_inv s B (xs @ a # ys)" and z: "B a = Some (z, False)"
    and t: "16 dvd t" "64 \<le> t" "t + 64 \<le> z"
  shows "16 dvd a + t" "16 dvd z - t" "64 \<le> z - t" "a + t + (z - t) < 18446744073709551616"
    "z - t < 9223372036854775808" "a + t < 18446744073709551616" "t < 9223372036854775808"
proof -
  note hb = heap_invD(1,2)[OF inv]
  note ca = block_cells[OF hb z] and la = layoutD[OF hb(2) z] and b = heap_boundsD[OF hb(1)]
  show "16 dvd a + t" "16 dvd z - t" "64 \<le> z - t" "z - t < 9223372036854775808" "t < 9223372036854775808"
    using la(3,4) t ca(8) by (auto intro: dvd_diff_nat)
  show "a + t + (z - t) < 18446744073709551616" "a + t < 18446744073709551616"
    using la(2) b(1) t(3) by linarith+
qed

lemma heap_upd_swap: "s\<lparr>free_list_head := h, hmem := m\<rparr> = s\<lparr>hmem := m, free_list_head := h\<rparr>"
  by simp

lemma split_block_mem:
  assumes inv: "heap_inv s B (xs @ a # ys)" and z: "B a = Some (z, False)"
    and t: "16 dvd t" "64 \<le> t" "t + 64 \<le> z"
  defines "rest \<equiv> a + t"
    and "s1 \<equiv> format_block (word_of_nat (a + t)) (word_of_nat (z - t)) False s"
  defines "m2 \<equiv> store64 (store64 (store64
      (relink xs ys (word_of_nat rest) (word_of_nat rest) (hmem s1))
      (word_of_nat (rest + 8)) (word_of_nat (last_of xs 0))) (word_of_nat (rest + 16)) (word_of_nat (first_of ys 0)))
      (word_of_nat (rest + 24)) MAGIC_VALUE"
  shows "split_block (word_of_nat a) (word_of_nat t) (word_of_nat z) s =
    format_block (word_of_nat a) (word_of_nat t) True
      (s1\<lparr>hmem := m2, free_list_head := word_of_nat (first_of (xs @ [rest] @ ys) 0)\<rparr>)"
proof -
  note hb = heap_invD(1,2)[OF inv] and ca = block_cells[OF heap_invD(1,2)[OF inv] z]
  note la = layoutD[OF hb(2) z] and e = link_ends[OF inv]
  have w: "(word_of_nat z :: u64) - word_of_nat t = word_of_nat (z - t)" using t(3) by (simp add: of_nat_diff)
  note sp = split_parts[OF inv z t]
  have cr: "cell rest" "cell (rest + 24)" "cell (rest + (z - t) - 8)" "cell (rest + (z - t) - 16)"
    unfolding rest_def by (rule region_cells[OF sp(1-4)])+
  have zt: "z - t < 9223372036854775808" "64 \<le> z - t" using ca(8) t(3) by simp_all
  note fmt = format_block_correct[OF cr zt, where al = False and s = s, unfolded rest_def, folded s1_def]
  have nin: "a + 8 \<notin> {a + t, a + t + 24, a + t + (z - t) - 8, a + t + (z - t) - 16}"
    "a + 16 \<notin> {a + t, a + t + 24, a + t + (z - t) - 8, a + t + (z - t) - 16}"
    using t by auto
  have r: "blk_prev_free (word_of_nat a) (hmem s1) = word_of_nat (last_of xs 0)"
    "blk_next_free (word_of_nat a) (hmem s1) = word_of_nat (first_of ys 0)"
    using seg_middle(1,2)[OF inv] fmt(2)[OF ca(2) nin(1)] fmt(2)[OF ca(3) nin(2)]
    by (simp_all add: blk_prev_free_def blk_next_free_def)
  have p: "(word_of_nat (last_of xs 0) :: u64) \<noteq> 0 \<longleftrightarrow> xs \<noteq> []"
    and n: "(word_of_nat (first_of ys 0) :: u64) \<noteq> 0 \<longleftrightarrow> ys \<noteq> []"
    using e word_of_nat_0_iff by simp_all
  have head: "free_list_head s1 = word_of_nat (first_of xs a)"
    using fmt(4) heap_invD(7)[OF inv] by auto
  let ?w = "word_of_nat a + word_of_nat t :: u64"
  let ?X = "if xs \<noteq> [] then blk_set_next_free (word_of_nat (last_of xs 0)) ?w s1 else s1\<lparr>free_list_head := ?w\<rparr>"
  have ptr: "(if ys \<noteq> [] then blk_set_prev_free (word_of_nat (first_of ys 0)) ?w ?X else ?X) =
      s1\<lparr>hmem := relink xs ys (word_of_nat rest) (word_of_nat rest) (hmem s1),
         free_list_head := word_of_nat (first_of (xs @ [rest] @ ys) 0)\<rparr>"
  proof (cases "xs = []")
    case True
    then show ?thesis
      by (simp add: blk_set_prev_free_def hpoke_def relink_def opt_store_def rest_def)
  next
    case False
    have "word_of_nat (first_of (xs @ [rest] @ ys) 0) = free_list_head s1" using head False by (simp add: first_of_def)
    then show ?thesis
      using False by (simp add: blk_set_prev_free_def blk_set_next_free_def hpoke_def relink_def opt_store_def rest_def)
  qed
  have s1': "set_footer (word_of_nat a + word_of_nat t) (blk_set_magic (word_of_nat a + word_of_nat t)
      (blk_set_size (word_of_nat a + word_of_nat t) (word_of_nat z - word_of_nat t) False s)) = s1"
    unfolding s1_def format_block_def w by simp
  show ?thesis
    unfolding split_block_def Let_def s1' r p n ptr
    by (simp add: blk_set_prev_free_def blk_set_next_free_def blk_set_magic_def hpoke_def
        format_block_def m2_def rest_def heap_upd_swap)
qed

lemma split_block_inv:
  assumes inv: "heap_inv s B (xs @ a # ys)" and z: "B a = Some (z, False)"
    and t: "16 dvd t" "64 \<le> t" "t + 64 \<le> z"
  defines "s' \<equiv> split_block (word_of_nat a) (word_of_nat t) (word_of_nat z) s"
  shows "heap_inv s' (B(a \<mapsto> (t, True), a + t \<mapsto> (z - t, False))) (xs @ (a + t) # ys)"
    and "(\<And>b z. B b = Some (z, False) \<Longrightarrow> \<not> (b \<le> unat x \<and> unat x < b + z)) \<Longrightarrow> hmem s' x = hmem s x"
    and "\<exists>m h. s' = s\<lparr>hmem := m, free_list_head := h\<rparr>"
proof -
  note hb = heap_invD(1,2)[OF inv] and ca = block_cells[OF heap_invD(1,2)[OF inv] z]
  note la = layoutD[OF hb(2) z] and sp = split_parts[OF inv z t]
  let ?rest = "a + t" and ?h = "word_of_nat (first_of (xs @ [a + t] @ ys) 0)"
  note cr = region_cells[OF sp(1-4)]
  have at: "a + t < 18446744073709551616" by (rule sp(6))
  note ct = region_cells[OF la(3) t(1,2) at]
  define s1 where "s1 = format_block (word_of_nat ?rest) (word_of_nat (z - t)) False s"
  note f1 = format_block_correct[OF cr(1,4,5,6) sp(5,3), where al = False and s = s, folded s1_def]
  let ?r1 = "relink xs ys (word_of_nat ?rest) (word_of_nat ?rest) (hmem s1)"
  define m2 where "m2 = store64 (store64 (store64 ?r1
      (word_of_nat (?rest + 8)) (word_of_nat (last_of xs 0))) (word_of_nat (?rest + 16)) (word_of_nat (first_of ys 0)))
      (word_of_nat (?rest + 24)) MAGIC_VALUE"
  define s2 where "s2 = s1\<lparr>hmem := m2, free_list_head := ?h\<rparr>"
  have s': "s' = format_block (word_of_nat a) (word_of_nat t) True s2"
    unfolding s'_def s2_def m2_def s1_def by (rule split_block_mem[OF inv z t])
  note f2 = format_block_correct[OF ct(1,4,5,6) sp(7) t(2), where al = True and s = s2, folded s']
  have eq: "s' = s\<lparr>hmem := hmem s', free_list_head := ?h\<rparr>"
    using f1(4) f2(4) by (auto simp: s2_def)
  then show "\<exists>m h. s' = s\<lparr>hmem := m, free_list_head := h\<rparr>" by blast
  have rd2: "rd (hmem s2) c = (if c = ?rest + 24 then MAGIC_VALUE else if c = ?rest + 16 then word_of_nat (first_of ys 0)
      else if c = ?rest + 8 then word_of_nat (last_of xs 0) else rd ?r1 c)" if "cell c" for c
    using that cr by (auto simp: s2_def m2_def rd_store simp del: of_nat_add)
  let ?r = "relink xs ys (word_of_nat ?rest) (word_of_nat ?rest) (hmem s)"
  have rr: "rd ?r1 c = rd ?r c" if "cell c" "rd (hmem s1) c = rd (hmem s) c" for c
    using that by (simp add: rd_relink[OF inv] del: of_nat_add)
  have far: "rd ?r1 c = rd (hmem s1) c" if c: "cell c" "a \<le> c" "c < a + z" "c \<noteq> a + 8" "c \<noteq> a + 16" for c
  proof -
    have "c \<noteq> b + 8 \<and> c \<noteq> b + 16" if b: "b \<in> set (xs @ a # ys)" for b
    proof (cases "b = a")
      case False
      obtain y where y: "B b = Some (y, False)" using free_block[OF inv b] by blast
      show ?thesis
        using layout_disjoint[OF hb(2) z y False[symmetric]] layoutD(5)[OF hb(2) y] c(2,3) by auto
    qed (use c in auto)
    then show ?thesis
      using rd_relink[OF inv c(1)] link_ends(5,6)[OF inv] by (auto simp del: of_nat_add)
  qed
  have out: "rd (hmem s') c = rd ?r c" if c: "cell c" "c < a \<or> a + z \<le> c" for c
  proof -
    have "rd (hmem s') c = rd (hmem s2) c" using c t by (intro f2(2)) auto
    moreover have "rd (hmem s1) c = rd (hmem s) c" using c t by (intro f1(2)) auto
    ultimately show ?thesis using c t rd2[OF c(1)] rr[OF c(1)] by (auto simp del: of_nat_add)
  qed
  have nin: "?rest + 8 \<notin> {a, a + 24, a + t - 8, a + t - 16}"
    "?rest + 16 \<notin> {a, a + 24, a + t - 8, a + t - 16}" "?rest + 24 \<notin> {a, a + 24, a + t - 8, a + t - 16}"
    using t by auto
  have ok_rest: "blk_ok (hmem s') ?rest (z - t) False"
  proof -
    have "rd (hmem s') c = rd (hmem s1) c" if "c \<in> {?rest, ?rest + (z - t) - 8, ?rest + (z - t) - 16}" "cell c" for c
    proof -
      have "rd (hmem s') c = rd (hmem s2) c" using that t by (intro f2(2)) auto
      also have "\<dots> = rd ?r1 c" using that t rd2[OF that(2)] by (auto simp del: of_nat_add)
      also have "\<dots> = rd (hmem s1) c" using that t by (intro far) auto
      finally show ?thesis .
    qed
    moreover have "rd (hmem s') (?rest + 24) = MAGIC_VALUE"
      using rd2[OF cr(4)] f2(2)[OF cr(4) nin(3)] by (simp del: of_nat_add)
    ultimately show ?thesis using f1(1) cr unfolding blk_ok_def by (simp del: of_nat_add of_nat_diff)
  qed
  have seg_rest: "free_links (hmem s') (last_of xs 0) [?rest] (first_of ys 0)"
    using rd2[OF cr(2)] rd2[OF cr(3)] f2(2)[OF cr(2) nin(1)] f2(2)[OF cr(3) nin(2)] by (simp del: of_nat_add)
  let ?N = "[a \<mapsto> (t, True), ?rest \<mapsto> (z - t, False)]"
  have "heap_inv (s\<lparr>hmem := hmem s', free_list_head := word_of_nat (first_of (xs @ [?rest] @ ys) 0)\<rparr>)
      (B(a := None) ++ ?N) (xs @ [?rest] @ ys)"
  proof (rule replace_block[OF inv z])
    show "layout a (a + z) ?N" using la t sp(1-3) by (auto simp: layout_def split: if_splits)
    show "blk_ok (hmem s') b y bl" if "?N b = Some (y, bl)" for b y bl
      using that f2(1) ok_rest t by (auto split: if_splits)
    show "set [?rest] = {b. \<exists>y. ?N b = Some (y, False)}" using t by auto
  qed (use out seg_rest in auto)
  moreover have "B(a := None) ++ ?N = B(a \<mapsto> (t, True), ?rest \<mapsto> (z - t, False))" by (auto simp: map_add_def)
  ultimately show "heap_inv s' (B(a \<mapsto> (t, True), a + t \<mapsto> (z - t, False))) (xs @ (a + t) # ys)"
    using eq by simp
  show "hmem s' x = hmem s x"
    if x: "\<And>b z. B b = Some (z, False) \<Longrightarrow> \<not> (b \<le> unat x \<and> unat x < b + z)"
  proof -
    have "hmem s' x = hmem s2 x" using x[OF z] t by (intro f2(3)) auto
    also have "\<dots> = ?r1 x"
      using x[OF z] t cr by (auto simp: s2_def m2_def store64_byte_other simp del: of_nat_add)
    also have "\<dots> = hmem s1 x" by (rule relink_byte_other[OF inv x])
    also have "\<dots> = hmem s x" using x[OF z] t by (intro f1(3)) auto
    finally show ?thesis .
  qed
qed

end
