(* ===== verification/Heap_Grow.thy ===== *)
theory Heap_Grow
  imports Heap_Alloc
begin

text \<open>
  The first-fit search always ends and finds the first large enough block; growing the heap maps
  whole pages, never past the heap's limit, and keeps every existing block.
\<close>

section \<open>First fit\<close>

lemma find_fit_list:
  assumes "heap_inv s B (xs @ ys)"
  shows "find_fit tot (word_of_nat (first_of ys 0)) (hmem s) =
    Some (case find (\<lambda>a. tot \<le> blk_size (word_of_nat a) (hmem s)) ys of None \<Rightarrow> 0 | Some a \<Rightarrow> word_of_nat a)"
  using assms
proof (induction ys arbitrary: xs)
  case Nil
  then show ?case by (simp add: find_fit.simps)
next
  case (Cons a ys)
  have "(word_of_nat a :: u64) \<noteq> 0"
    using free_block[OF Cons.prems, of a] word_of_nat_0_iff[of a] by auto
  moreover have "blk_next_free (word_of_nat a) (hmem s) = word_of_nat (first_of ys 0)"
    using seg_middle(2)[OF Cons.prems] by (simp add: blk_next_free_def)
  moreover have "heap_inv s B ((xs @ [a]) @ ys)" using Cons.prems by simp
  ultimately show ?case
    using Cons.IH[of "xs @ [a]"] by (subst find_fit.simps) simp
qed

section \<open>The virtual memory manager touches only its own fields\<close>

definition vmm_rest :: "'a vmm_state_scheme \<Rightarrow> 'a vmm_state_scheme" where
  "vmm_rest s = s\<lparr>mem := \<lambda>_. 0, pmm := \<lparr>pmm_bitmap = \<lambda>_. 0, total_pages = 0, used_pages = 0\<rparr>\<rparr>"

lemma vmm_rest_mem [simp]:
  "vmm_rest (s\<lparr>mem := m\<rparr>) = vmm_rest s" "vmm_rest (poke64 a v s) = vmm_rest s"
  "vmm_rest (clear_page p s) = vmm_rest s" "vmm_rest (snd (frame_alloc s)) = vmm_rest s"
  by (simp_all add: vmm_rest_def poke64_def clear_page_def frame_alloc_def case_prod_beta Let_def)

lemma vmm_rest_get_table [simp]: "vmm_rest (snd (get_table ps alloc slot s)) = vmm_rest s"
  by (simp add: get_table_def case_prod_beta Let_def)

lemma vmm_rest_get_pd [simp]: "vmm_rest (snd (get_pd va alloc s)) = vmm_rest s"
  by (simp add: get_pd_def get_pdpte_def case_prod_beta Let_def)

lemma vmm_rest_get_pt [simp]: "vmm_rest (snd (get_pt va alloc s)) = vmm_rest s"
  by (simp add: get_pt_def case_prod_beta Let_def)

lemma vmm_rest_split [simp]: "vmm_rest (snd (split_large slot pde s)) = vmm_rest s"
  by (simp add: split_large_def case_prod_beta Let_def)

lemma vmm_rest_map_page [simp]: "vmm_rest (snd (vmm_map_page phys virt flags s)) = vmm_rest s"
  unfolding vmm_map_page_def Let_def case_prod_beta by simp

lemma vmm_rest_alloc_map [simp]: "vmm_rest (snd (vmm_alloc_map virt flags s)) = vmm_rest s"
  unfolding vmm_alloc_map_def Let_def case_prod_beta by simp

lemma vmm_rest_fields:
  assumes "vmm_rest s' = vmm_rest s"
  shows "s' = s\<lparr>mem := mem s', pmm := pmm s'\<rparr>"
  using assms by (cases s, cases s') (simp add: vmm_rest_def)

section \<open>Mapping more pages\<close>

lemma heap_hi_word:
  assumes "heap_bounds s"
  shows "heap_start s + heap_mapped_size s = word_of_nat (heap_hi s)"
    "unat (word_of_nat (heap_hi s) :: u64) = heap_hi s"
  using heap_boundsD(1)[OF assms] unat_of_nat64[of "heap_hi s"] by simp_all

lemma page_mask_aligned:
  assumes "n < 18446744073709551616" "4096 dvd n"
  shows "(word_of_nat n :: u64) AND PAGE_MASK = word_of_nat n"
proof (rule bit_word_eqI)
  fix k
  have "take_bit 12 n = 0" using assms(2) by (simp add: take_bit_eq_mod dvd_imp_mod_0)
  then have "\<not> bit (take_bit 12 n) k" by simp
  then have low: "bit n k \<Longrightarrow> 12 \<le> k" by (simp add: bit_simps not_le)
  have "PAGE_MASK = NOT (mask 12)" by (simp add: mask_eq_exp_minus_1)
  then have "bit PAGE_MASK k \<longleftrightarrow> 12 \<le> k \<and> k < 64" by (simp only: bit_not_iff_eq bit_mask_iff) auto
  then show "bit ((word_of_nat n :: u64) AND PAGE_MASK) k = bit (word_of_nat n :: u64) k"
    unfolding bit_and_iff using low by (auto simp: bit_simps)
qed

lemma map_heap_page_cases:
  assumes "map_heap_page v s = (r, s')"
  obtains m pm where "r \<noteq> 0" "s' = s\<lparr>mem := m, pmm := pm\<rparr>"
  | m pm where "r = 0" "s' = s\<lparr>mem := m, pmm := pm, hmem := memset8 (hmem s) (v AND PAGE_MASK) 0 4096\<rparr>"
proof -
  obtain q s1 where a: "vmm_alloc_map v VMM_KERN_RW s = (q, s1)" by fastforce
  obtain m pm where s1: "s1 = s\<lparr>mem := m, pmm := pm\<rparr>"
    using vmm_rest_fields[OF vmm_rest_alloc_map[of v VMM_KERN_RW s]] a by auto
  show ?thesis
  proof (cases "q = 0")
    case True
    then have "r = 0" "s' = s\<lparr>mem := m, pmm := pm, hmem := memset8 (hmem s) (v AND PAGE_MASK) 0 4096\<rparr>"
      using assms a by (simp_all add: map_heap_page_def s1)
    then show ?thesis by (rule that(2))
  next
    case False
    then have "r \<noteq> 0" "s' = s\<lparr>mem := m, pmm := pm\<rparr>" using assms a by (simp_all add: map_heap_page_def s1)
    then show ?thesis by (rule that(1))
  qed
qed

definition extended :: "'a heap_state_scheme \<Rightarrow> 'a heap_state_scheme \<Rightarrow> bool" where
  "extended s s' \<longleftrightarrow>
     (\<exists>m pm hm k. s' = s\<lparr>mem := m, pmm := pm, hmem := hm, heap_mapped_size := heap_mapped_size s + word_of_nat (4096 * k)\<rparr>
        \<and> heap_hi s' = heap_hi s + 4096 * k)
     \<and> heap_bounds s' \<and> (\<forall>x. unat x < heap_hi s \<longrightarrow> hmem s' x = hmem s x)"

lemma extendedD:
  assumes "extended s s'"
  shows "heap_bounds s'" "heap_start s' = heap_start s" "free_list_head s' = free_list_head s"
    "heap_max_size s' = heap_max_size s" "heap_allocated_bytes s' = heap_allocated_bytes s"
    "\<And>x. unat x < heap_hi s \<Longrightarrow> hmem s' x = hmem s x" "\<exists>k. heap_hi s' = heap_hi s + 4096 * k"
    "heap_hi s \<le> heap_hi s'"
  using assms unfolding extended_def by auto

lemma memset_above:
  assumes "n + 4096 < 18446744073709551616" "unat x < n"
  shows "memset8 m (word_of_nat n) v 4096 x = m x"
proof -
  have n: "unat (word_of_nat n :: u64) = n" using assms(1) by (simp add: unat_of_nat64)
  have "\<not> unat (x - word_of_nat n) < 4096"
  proof
    assume b: "unat (x - word_of_nat n) < 4096"
    then have "unat (word_of_nat n + (x - word_of_nat n)) = n + unat (x - word_of_nat n)"
      using n assms(1) by (intro trans[OF unat_add64]) simp_all
    then show False using assms(2) by simp
  qed
  then show ?thesis by (simp add: memset8_apply)
qed

lemma map_heap_page_extends:
  assumes hb: "heap_bounds s" and room: "unat (heap_mapped_size s) < unat (heap_max_size s)"
    and eq: "map_heap_page (word_of_nat (heap_hi s)) s = (r, s')"
  shows "if r = 0 then extended s (s'\<lparr>heap_mapped_size := heap_mapped_size s' + VMM_PAGE_SIZE\<rparr>)
      \<and> heap_hi (s'\<lparr>heap_mapped_size := heap_mapped_size s' + VMM_PAGE_SIZE\<rparr>) = heap_hi s + 4096
    else extended s s'"
  using eq
proof (cases rule: map_heap_page_cases)
  case (1 m pm)
  have "extended s s'"
    unfolding extended_def using hb 1(2)
    by (intro conjI exI[of _ m] exI[of _ pm] exI[of _ "hmem s"] exI[of _ 0]) (auto simp: heap_bounds_def)
  then show ?thesis using 1(1) by simp
next
  case (2 m pm)
  note b = heap_boundsD[OF hb]
  have mask: "(word_of_nat (heap_hi s) :: u64) AND PAGE_MASK = word_of_nat (heap_hi s)"
    using b by (intro page_mask_aligned) auto
  let ?hm = "memset8 (hmem s) (word_of_nat (heap_hi s)) 0 4096"
  let ?s' = "s'\<lparr>heap_mapped_size := heap_mapped_size s' + VMM_PAGE_SIZE\<rparr>"
  have s': "?s' = s\<lparr>mem := m, pmm := pm, hmem := ?hm, heap_mapped_size := heap_mapped_size s + word_of_nat (4096 * 1)\<rparr>"
    using 2(2) unfolding mask by simp
  have mapped: "unat (heap_mapped_size s + 4096) = unat (heap_mapped_size s) + 4096"
    using b(4) unat_add_nat64[of "heap_mapped_size s" 4096] by simp
  have "unat (heap_mapped_size s) + 4096 \<le> unat (heap_max_size s)"
    using room hb by (auto simp: heap_bounds_def elim!: dvdE)
  then have "heap_bounds ?s'"
    using hb mapped by (simp add: s' heap_bounds_def)
  moreover have "heap_hi ?s' = heap_hi s + 4096 * 1" using mapped by (simp add: s')
  moreover have "hmem ?s' x = hmem s x" if "unat x < heap_hi s" for x
    using that b(1) memset_above[of "heap_hi s" x "hmem s" 0] by (simp add: s' del: of_nat_add)
  ultimately show ?thesis
    unfolding extended_def using 2(1) s' by auto
qed

lemma extended_refl: "heap_bounds s \<Longrightarrow> extended s s"
  unfolding extended_def
  by (intro conjI exI[of _ "mem s"] exI[of _ "pmm s"] exI[of _ "hmem s"] exI[of _ 0]) auto

lemma extended_trans:
  assumes "extended s s'" "extended s' s''"
  shows "extended s s''"
proof -
  obtain m pm hm k where a: "s' = s\<lparr>mem := m, pmm := pm, hmem := hm, heap_mapped_size := heap_mapped_size s + word_of_nat (4096 * k)\<rparr>"
    "heap_hi s' = heap_hi s + 4096 * k" using assms(1) unfolding extended_def by blast
  obtain m2 pm2 hm2 k2 where b: "s'' = s'\<lparr>mem := m2, pmm := pm2, hmem := hm2, heap_mapped_size := heap_mapped_size s' + word_of_nat (4096 * k2)\<rparr>"
    "heap_hi s'' = heap_hi s' + 4096 * k2" using assms(2) unfolding extended_def by blast
  have e: "s'' = s\<lparr>mem := m2, pmm := pm2, hmem := hm2, heap_mapped_size := heap_mapped_size s + word_of_nat (4096 * (k + k2))\<rparr>"
  proof -
    have w: "h + word_of_nat (4096 * k) + word_of_nat (4096 * k2) = h + word_of_nat (4096 * (k + k2))" for h :: u64
      by (simp only: distrib_left of_nat_add add.assoc)
    have u: "s\<lparr>mem := m, pmm := pm, hmem := hm, heap_mapped_size := heap_mapped_size s + A,
          mem := m2, pmm := pm2, hmem := hm2,
          heap_mapped_size := heap_mapped_size (s\<lparr>mem := m, pmm := pm, hmem := hm,
            heap_mapped_size := heap_mapped_size s + A\<rparr>) + C\<rparr> =
        s\<lparr>mem := m2, pmm := pm2, hmem := hm2, heap_mapped_size := heap_mapped_size s + A + C\<rparr>" for A C
      by simp
    show ?thesis unfolding b(1) a(1) u w ..
  qed
  have h: "heap_hi s'' = heap_hi s + 4096 * (k + k2)" using a(2) b(2) by (simp add: distrib_left)
  have f: "hmem s'' x = hmem s x" if "unat x < heap_hi s" for x
    using extendedD(6)[OF assms(1) that] extendedD(6)[OF assms(2), of x] extendedD(8)[OF assms(1)] that by simp
  show ?thesis
    unfolding extended_def using e h f extendedD(1)[OF assms(2)]
    by (intro conjI exI[of _ m2] exI[of _ pm2] exI[of _ hm2] exI[of _ "k + k2"] allI impI) assumption+
qed

lemma expand_loop_correct:
  assumes "heap_bounds s" "n < 18446744073709551616"
  shows "\<exists>ok s'. expand_loop (word_of_nat n) (word_of_nat (heap_hi s)) s = Some (ok, s')
    \<and> extended s s' \<and> (ok \<longrightarrow> n \<le> heap_hi s')"
  using assms(1)
proof (induction "unat (heap_max_size s) - unat (heap_mapped_size s)" arbitrary: s rule: less_induct)
  case less
  note hb = less.prems
  define v where "v = (word_of_nat (heap_hi s) :: u64)"
  have uv: "unat v = heap_hi s" unfolding v_def by (rule heap_hi_word(2)[OF hb])
  have cmp: "v < word_of_nat n \<longleftrightarrow> heap_hi s < n"
    unfolding word_less_nat_alt uv unat_of_nat64[OF assms(2)] ..
  have top: "unat (heap_start s + heap_max_size s) = heap_lo s + unat (heap_max_size s)"
    using hb by (intro unat_add64) (simp add: heap_bounds_def)
  have full: "heap_start s + heap_max_size s \<le> v \<longleftrightarrow> unat (heap_max_size s) \<le> unat (heap_mapped_size s)"
    unfolding word_le_nat_alt uv top by simp
  obtain r s1 where a: "map_heap_page v s = (r, s1)" by fastforce
  note ext = map_heap_page_extends[OF hb, folded v_def, OF _ a]
  let ?s2 = "s1\<lparr>heap_mapped_size := heap_mapped_size s1 + VMM_PAGE_SIZE\<rparr>"
  have unfold: "expand_loop (word_of_nat n) v s =
      (if heap_hi s < n then
         if unat (heap_max_size s) \<le> unat (heap_mapped_size s) then Some (False, s)
         else if r \<noteq> 0 then Some (False, s1)
         else expand_loop (word_of_nat n) (v + VMM_PAGE_SIZE) ?s2
       else Some (True, s))"
    using expand_loop.simps[of "word_of_nat n" v s] unfolding cmp full a fst_conv snd_conv .
  consider "\<not> heap_hi s < n \<or> unat (heap_max_size s) \<le> unat (heap_mapped_size s)"
    | "heap_hi s < n" "unat (heap_mapped_size s) < unat (heap_max_size s)" "r \<noteq> 0"
    | "heap_hi s < n" "unat (heap_mapped_size s) < unat (heap_max_size s)" "r = 0"
    by linarith
  then show ?case
  proof cases
    case 1
    then show ?thesis using extended_refl[OF hb] unfold unfolding v_def[symmetric] by auto
  next
    case 2
    then show ?thesis using ext[OF 2(2)] unfold unfolding v_def[symmetric] by auto
  next
    case 3
    have e: "extended s ?s2" "heap_hi ?s2 = heap_hi s + 4096"
      using ext[OF 3(2)] 3(3) by simp_all
    note d = extendedD[OF e(1)]
    have w: "v + VMM_PAGE_SIZE = word_of_nat (heap_hi ?s2)" unfolding e(2) v_def by simp
    have step: "expand_loop (word_of_nat n) v s = expand_loop (word_of_nat n) (word_of_nat (heap_hi ?s2)) ?s2"
      using 3 unfold unfolding w by simp
    have "unat (heap_max_size ?s2) - unat (heap_mapped_size ?s2) < unat (heap_max_size s) - unat (heap_mapped_size s)"
      using e(2) d(2,4) 3(2) by simp
    from less.hyps[OF this d(1)] obtain ok s' where
      "expand_loop (word_of_nat n) (word_of_nat (heap_hi ?s2)) ?s2 = Some (ok, s')"
      "extended ?s2 s'" "ok \<longrightarrow> n \<le> heap_hi s'" by blast
    then show ?thesis using step extended_trans[OF e(1)] unfolding v_def[symmetric] by auto
  qed
qed

section \<open>A new block at the end\<close>

lemma extended_inv:
  assumes inv: "heap_inv s B fl" and e: "extended s s'"
  shows "heap_inv s' B fl"
proof -
  note d = extendedD[OF e] and hb = heap_invD(1,2)[OF inv]
  have rd: "rd (hmem s') c = rd (hmem s) c" if "cell c" "c + 8 \<le> heap_hi s" for c
  proof (rule load64_cong)
    fix i :: nat assume "i < 8"
    then have "unat (word_of_nat c + word_of_nat i :: u64) = c + i"
      using that heap_boundsD(1)[OF hb(1)] unat_of_nat64[of "c + i"] by simp
    then show "hmem s' (word_of_nat c + word_of_nat i) = hmem s (word_of_nat c + word_of_nat i)"
      using that \<open>i < 8\<close> by (intro d(6)) simp
  qed
  have blocks: "blk_ok (hmem s') a z al \<and> rd (hmem s') (a + 8) = rd (hmem s) (a + 8)
      \<and> rd (hmem s') (a + 16) = rd (hmem s) (a + 16)" if a: "B a = Some (z, al)" for a z al
    using heap_invD(3)[OF inv a] block_cells[OF hb a] layoutD[OF hb(2) a] unfolding blk_ok_def
    by (simp add: rd del: of_nat_add of_nat_diff)
  have "free_links (hmem s') 0 fl 0 = free_links (hmem s) 0 fl 0"
    using blocks heap_invD(5)[OF inv] by (intro seg_cong) blast
  moreover have "layout (heap_lo s') (heap_hi s') B"
    using hb(2) d(2,8) unfolding layout_def by (auto intro: order_trans) fastforce?
  ultimately show ?thesis
    using inv d(1,3) blocks unfolding heap_inv_def by auto
qed

end
