(* ===== verification/Heap_Malloc.thy ===== *)
theory Heap_Malloc
  imports Heap_Grow
begin

text \<open>
  The heap invariant under \<^verbatim>\<open>kmalloc\<close>: growth adds a free block at the end, placing a block splits
  or takes it, and every block that was allocated before keeps its place and its bytes.
\<close>

section \<open>Adding a free block\<close>

lemma list_insert_head_mem:
  assumes "heap_inv s B fl"
  shows "list_insert_head (word_of_nat a) (s\<lparr>hmem := m\<rparr>) =
    s\<lparr>hmem := opt_store (fl \<noteq> []) (first_of fl 0 + 8) (word_of_nat a)
        (store64 (store64 m (word_of_nat (a + 8)) 0) (word_of_nat (a + 16)) (word_of_nat (first_of fl 0))),
      free_list_head := word_of_nat a\<rparr>"
proof -
  have "(word_of_nat (first_of fl 0) :: u64) \<noteq> 0 \<longleftrightarrow> fl \<noteq> []"
  proof (cases fl)
    case (Cons b bs)
    have "0 < b \<and> b < 18446744073709551616" using free_block[OF assms, of b] Cons by auto
    then show ?thesis using Cons word_of_nat_0_iff[of b] by simp
  qed simp
  then show ?thesis
    by (simp add: list_insert_head_def Let_def heap_invD(7)[OF assms] blk_set_prev_free_def
        blk_set_next_free_def hpoke_def opt_store_def)
qed

lemma add_block:
  assumes inv: "heap_inv s B fl"
    and a: "16 dvd a" "16 dvd z" "64 \<le> z" "heap_lo s \<le> a" "a + z \<le> heap_hi s"
    and up: "\<forall>b y bl. B b = Some (y, bl) \<longrightarrow> b + y \<le> a"
  defines "s' \<equiv> list_insert_head (word_of_nat a) (format_block (word_of_nat a) (word_of_nat z) False s)"
  shows "heap_inv s' (B(a \<mapsto> (z, False))) (a # fl)"
    and "(\<And>b z. B b = Some (z, False) \<Longrightarrow> \<not> (b \<le> unat x \<and> unat x < b + z)) \<Longrightarrow> unat x < a \<Longrightarrow> hmem s' x = hmem s x"
    and "\<exists>m h. s' = s\<lparr>hmem := m, free_list_head := h\<rparr>"
proof -
  have above: "\<And>b y bl. B b = Some (y, bl) \<Longrightarrow> b + y \<le> a" using up by blast
  note hb = heap_invD(1,2)[OF inv] and bd = heap_boundsD[OF heap_invD(1)[OF inv]]
  have lim: "a + z < 18446744073709551616" using a(5) bd(1) by linarith
  note c = region_cells[OF a(1-3) lim]
  have z63: "z < 9223372036854775808" using a(4,5) bd(4) by linarith
  define s1 where "s1 = format_block (word_of_nat a) (word_of_nat z) False s"
  note f = format_block_correct[OF c(1,4,5,6) z63 a(3), where al = False and s = s, folded s1_def]
  let ?q = "first_of fl 0"
  let ?m = "opt_store (fl \<noteq> []) (?q + 8) (word_of_nat a)
      (store64 (store64 (hmem s1) (word_of_nat (a + 8)) 0) (word_of_nat (a + 16)) (word_of_nat ?q))"
  have s': "s' = s\<lparr>hmem := ?m, free_list_head := word_of_nat a\<rparr>"
  proof -
    obtain m where m: "s1 = s\<lparr>hmem := m\<rparr>" using f(4) by blast
    show ?thesis
      unfolding s'_def s1_def[symmetric] using list_insert_head_mem[OF inv, of a m] by (simp add: m)
  qed
  then show "\<exists>m h. s' = s\<lparr>hmem := m, free_list_head := h\<rparr>" by blast
  have fl: "b + 64 \<le> a \<and> cell (b + 8) \<and> cell (b + 16)" if b: "b \<in> set fl" for b
  proof -
    obtain y where y: "B b = Some (y, False)" "cell (b + 8)" "cell (b + 16)" using free_block[OF inv b] by blast
    show ?thesis using above[OF y(1)] layoutD(5)[OF hb(2) y(1)] y by simp
  qed
  have q: "?q \<in> set fl" if "fl \<noteq> []" using that by (simp add: first_of_def)
  have rd: "rd ?m d = (if fl \<noteq> [] \<and> d = ?q + 8 then word_of_nat a else if d = a + 16 then word_of_nat ?q
      else if d = a + 8 then 0 else rd (hmem s1) d)" if "cell d" for d
    using that c(2,3) q fl[of ?q] by (auto simp: rd_opt_store rd_store simp del: of_nat_add)
  have low: "rd (hmem s1) d = rd (hmem s) d" if "cell d" "d < a" for d
    using that a(3) by (intro f(2)) auto
  have ok_new: "blk_ok ?m a z False"
  proof -
    have "rd ?m d = rd (hmem s1) d" if "d \<in> {a, a + 24, a + z - 8, a + z - 16}" "cell d" for d
      using that a(3) q fl[of ?q] rd[OF that(2)] by auto
    then show ?thesis using f(1) c unfolding blk_ok_def by (simp del: of_nat_add of_nat_diff)
  qed
  have ok_old: "blk_ok ?m b y bl" if b: "B b = Some (y, bl)" for b y bl
  proof -
    have "rd ?m d = rd (hmem s) d" if d: "d \<in> {b, b + 24, b + y - 8, b + y - 16}" "cell d" for d
    proof -
      have "d \<noteq> ?q + 8" if ne: "fl \<noteq> []"
      proof -
        obtain w where w: "B ?q = Some (w, False)" using free_block[OF inv q[OF ne]] by blast
        show ?thesis
          using d(1) layout_disjoint[OF hb(2) b w] layoutD(5)[OF hb(2) b] layoutD(5)[OF hb(2) w] b w
          by (cases "b = ?q") auto
      qed
      moreover have "d < a" using d(1) above[OF b] layoutD(5)[OF hb(2) b] by auto
      ultimately show ?thesis using rd[OF d(2)] low[OF d(2)] by auto
    qed
    then show ?thesis
      using heap_invD(3)[OF inv b] block_cells[OF hb b] unfolding blk_ok_def by (simp del: of_nat_add of_nat_diff)
  qed
  have nota: "B a = None" using above[of a] a layoutD(5)[OF hb(2), of a] by (cases "B a") fastforce+
  have links: "free_links ?m a fl 0"
  proof (rule seg_new_start[OF heap_invD(6)[OF inv] heap_invD(4)[OF inv]])
    show "fl \<noteq> [] \<Longrightarrow> rd ?m (?q + 8) = word_of_nat a"
      using rd[of "?q + 8"] fl[OF q] by (simp del: of_nat_add)
    fix b assume b: "b \<in> set fl"
    have "b + 16 \<noteq> ?q + 8" using link_cells_differ(2)[OF inv, of ?q b] q b by (cases fl) auto
    then show "rd ?m (b + 16) = rd (hmem s) (b + 16)"
      using rd[of "b + 16"] low[of "b + 16"] fl[OF b] by (auto simp del: of_nat_add)
    show "rd ?m (b + 8) = rd (hmem s) (b + 8)" if "b \<noteq> ?q"
      using rd[of "b + 8"] low[of "b + 8"] fl[OF b] that by (auto simp del: of_nat_add)
  qed
  have "layout (heap_lo s) (heap_hi s) (B(a \<mapsto> (z, False)))"
    using hb(2) a above unfolding layout_def by (auto split: if_splits) fastforce+
  moreover have "set (a # fl) = {b. \<exists>y. (B(a \<mapsto> (z, False))) b = Some (y, False)}"
    using heap_invD(5)[OF inv] by auto
  moreover have "a \<notin> set fl" using nota heap_invD(5)[OF inv] by auto
  moreover have "rd ?m (a + 8) = 0" "rd ?m (a + 16) = word_of_nat ?q"
    using rd[OF c(2)] rd[OF c(3)] q fl[of ?q] by auto
  ultimately show "heap_inv s' (B(a \<mapsto> (z, False))) (a # fl)"
    unfolding heap_inv_def s' using hb(1) ok_new ok_old links heap_invD(4)[OF inv]
    by (auto simp: heap_bounds_def split: if_splits)
  show "hmem s' x = hmem s x"
    if x: "\<And>b z. B b = Some (z, False) \<Longrightarrow> \<not> (b \<le> unat x \<and> unat x < b + z)" "unat x < a"
  proof -
    have "\<not> (?q + 8 \<le> unat x \<and> unat x < ?q + 8 + 8)" if ne: "fl \<noteq> []"
    proof -
      obtain w where w: "B ?q = Some (w, False)" using free_block[OF inv q[OF ne]] by blast
      show ?thesis using x(1)[OF w] layoutD(5)[OF hb(2) w] by auto
    qed
    then have "?m x = store64 (store64 (hmem s1) (word_of_nat (a + 8)) 0) (word_of_nat (a + 16)) (word_of_nat ?q) x"
      using fl[of ?q] q by (intro opt_store_byte_other) auto
    also have "\<dots> = hmem s1 x" using x(2) c(2,3) by (simp add: store64_byte_other del: of_nat_add)
    also have "\<dots> = hmem s x" using x(2) by (intro f(3)) auto
    finally show ?thesis by (simp add: s')
  qed
qed

section \<open>Growing the heap\<close>

lemma grow_heap_correct:
  assumes inv: "heap_inv s B fl" and t: "64 \<le> t" "t \<le> 268439552"
  obtains s' where "grow_heap (word_of_nat t) s = Some (0, s')" "extended s s'" "heap_inv s' B fl"
  | s' a z where "grow_heap (word_of_nat t) s = Some (word_of_nat a, s')" "0 < a" "a < 18446744073709551616" "t \<le> z"
      "heap_inv s' (B(a \<mapsto> (z, False))) (a # fl)" "a = heap_hi s" "B a = None"
      "\<And>x. (\<And>b z. B b = Some (z, False) \<Longrightarrow> \<not> (b \<le> unat x \<and> unat x < b + z)) \<Longrightarrow> unat x < heap_hi s \<Longrightarrow> hmem s' x = hmem s x"
      "heap_allocated_bytes s' = heap_allocated_bytes s"
proof -
  note hb = heap_invD(1,2)[OF inv] and bd = heap_boundsD[OF heap_invD(1)[OF inv]]
  define v where "v = heap_start s + heap_mapped_size s"
  have v: "v = word_of_nat (heap_hi s)" unfolding v_def by (rule heap_hi_word(1)[OF hb(1)])
  have need: "v + word_of_nat t = word_of_nat (heap_hi s + t)" unfolding v by simp
  obtain ok s1 where e: "expand_loop (word_of_nat (heap_hi s + t)) v s = Some (ok, s1)"
    "extended s s1" "ok \<longrightarrow> heap_hi s + t \<le> heap_hi s1"
    using expand_loop_correct[OF hb(1), of "heap_hi s + t"] bd(1) t(2) unfolding v by auto
  note d = extendedD[OF e(2)]
  have exp: "expand_to (v + word_of_nat t) s = Some (ok, s1)"
    unfolding expand_to_def need using e(1) by (simp add: v_def)
  show ?thesis
  proof (cases ok)
    case False
    then have "grow_heap (word_of_nat t) s = Some (0, s1)"
      using exp by (simp add: grow_heap_def Let_def v_def)
    then show ?thesis using that(1) e(2) extended_inv[OF inv e(2)] by blast
  next
    case True
    let ?a = "heap_hi s" and ?z = "heap_hi s1 - heap_hi s"
    have inv1: "heap_inv s1 B fl" by (rule extended_inv[OF inv e(2)])
    have zt: "t \<le> ?z" using e(3) True by simp
    obtain k where k: "heap_hi s1 = heap_hi s + 4096 * k" using d(7) by blast
    have z16: "16 dvd ?z" "16 dvd ?a" unfolding k using bd(5) by (auto intro: dvd_trans[of 16 4096])
    have "heap_start s1 + heap_mapped_size s1 - v = word_of_nat ?z"
      unfolding heap_hi_word(1)[OF d(1)] v using d(8) by (simp only: of_nat_diff)
    then have g: "grow_heap (word_of_nat t) s =
        (let s' = list_insert_head (word_of_nat ?a) (format_block (word_of_nat ?a) (word_of_nat ?z) False s1)
         in Some (free_list_head s', s'))"
      using exp True unfolding grow_heap_def Let_def v_def[symmetric] format_block_def v[symmetric] by simp
    let ?s' = "list_insert_head (word_of_nat ?a) (format_block (word_of_nat ?a) (word_of_nat ?z) False s1)"
    have zz: "64 \<le> ?z" "heap_lo s1 \<le> ?a" "?a + ?z \<le> heap_hi s1" using zt t(1) d(2,8) by auto
    have above: "b + y \<le> ?a" if "B b = Some (y, bl)" for b y bl using layoutD(2)[OF hb(2) that] .
    then have "\<forall>b y bl. B b = Some (y, bl) \<longrightarrow> b + y \<le> ?a" by blast
    note add = add_block[OF inv1 z16(2,1) zz this]
    have head: "free_list_head ?s' = word_of_nat ?a" using heap_invD(7)[OF add(1)] by simp
    have bytes: "hmem ?s' x = hmem s x"
      if "\<And>b z. B b = Some (z, False) \<Longrightarrow> \<not> (b \<le> unat x \<and> unat x < b + z)" "unat x < heap_hi s" for x
      using add(2)[OF that] d(6)[OF that(2)] by simp
    have none: "B ?a = None" using above[of ?a] layoutD(5)[OF hb(2), of ?a] by (cases "B ?a") fastforce+
    have cnt: "heap_allocated_bytes ?s' = heap_allocated_bytes s" using add(3) d(5) by auto
    show ?thesis
      using that(2)[OF _ _ _ zt add(1) refl none bytes cnt] g head bd(1,2) by (simp add: Let_def)
  qed
qed

section \<open>Placing a block\<close>

lemma block_total_nat:
  assumes "0 < unat sz" "unat sz \<le> 268435456"
  obtains t where "block_total sz = word_of_nat t" "16 dvd t" "64 \<le> t" "t \<le> 268435520" "unat sz + 48 \<le> t"
proof -
  let ?x = "sz + BLOCK_META_SIZE + BLOCK_ALIGN - 1"
  have "?x = sz + word_of_nat 63" by simp
  also have "unat \<dots> = unat sz + 63" using assms(2) by (intro unat_add_nat64) simp
  finally have x: "unat ?x = unat sz + 63" .
  have "?x AND NOT (BLOCK_ALIGN - 1) = push_bit 4 (drop_bit 4 ?x)"
  proof (rule bit_word_eqI)
    fix n
    have "NOT (BLOCK_ALIGN - 1) = NOT (mask 4)" by (simp add: mask_eq_exp_minus_1)
    then have m: "bit (NOT (BLOCK_ALIGN - 1)) n \<longleftrightarrow> 4 \<le> n \<and> n < 64"
      by (simp only: bit_not_iff_eq bit_mask_iff) auto
    show "bit (?x AND NOT (BLOCK_ALIGN - 1)) n = bit (push_bit 4 (drop_bit 4 ?x)) n"
      unfolding bit_and_iff m by (auto simp: bit_simps dest: bit_imp_le_length)
  qed
  then have "?x AND NOT (BLOCK_ALIGN - 1) = word_of_nat (16 * ((unat sz + 63) div 16))"
    using x by (simp add: push_bit_eq_mult drop_bit_eq_div word_arith_nat_div mult.commute)
  moreover have "64 \<le> 16 * ((unat sz + 63) div 16)" using assms(1) by simp
  moreover have "unat (word_of_nat (16 * ((unat sz + 63) div 16)) :: u64) = 16 * ((unat sz + 63) div 16)"
    using assms(2) by (intro unat_of_nat64) simp
  ultimately have "block_total sz = word_of_nat (16 * ((unat sz + 63) div 16))"
    unfolding block_total_def Let_def by (simp add: word_less_nat_alt)
  then show ?thesis
    using that[of "16 * ((unat sz + 63) div 16)"] assms by simp
qed

lemma place_block_correct:
  assumes inv: "heap_inv s B (xs @ a # ys)" and z: "B a = Some (z, False)"
    and t: "16 dvd t" "64 \<le> t" "t \<le> z"
  obtains s' B' fl' w where "place_block (word_of_nat a) (word_of_nat t) s = (word_of_nat (a + 32), s')"
    "heap_inv s' B' fl'" "B' a = Some (w, True)" "t \<le> w"
    "\<And>b. b \<noteq> a \<Longrightarrow> \<not> (a < b \<and> b < a + z) \<Longrightarrow> B' b = B b"
    "\<And>x. (\<And>b z. B b = Some (z, False) \<Longrightarrow> \<not> (b \<le> unat x \<and> unat x < b + z)) \<Longrightarrow> hmem s' x = hmem s x"
    "heap_allocated_bytes s' = heap_allocated_bytes s + word_of_nat t"
proof -
  note hb = heap_invD(1,2)[OF inv] and ca = block_cells[OF heap_invD(1,2)[OF inv] z]
  have size: "blk_size (word_of_nat a) (hmem s) = word_of_nat z"
    using blk_ok_fields(1)[OF heap_invD(3)[OF inv z] ca(8)] .
  have uz: "unat (word_of_nat z :: u64) = z" and ut: "unat (word_of_nat t + 64 :: u64) = t + 64"
    using ca(8) t(3) unat_of_nat64[of z] unat_of_nat64[of "t + 64"] by simp_all
  have cmp: "word_of_nat t + BLOCK_MIN_SIZE \<le> (word_of_nat z :: u64) \<longleftrightarrow> t + 64 \<le> z"
    unfolding word_le_nat_alt uz ut ..
  have p: "(word_of_nat a :: u64) + 32 = word_of_nat (a + 32)" by simp
  have inv_count: "heap_inv (u\<lparr>heap_allocated_bytes := c\<rparr>) B' fl' = heap_inv u B' fl'" for u c B' fl'
    by (simp add: heap_inv_def heap_bounds_def)
  show ?thesis
  proof (cases "t + 64 \<le> z")
    case True
    note sp = split_block_inv[OF inv z t(1,2) True]
    let ?s' = "split_block (word_of_nat a) (word_of_nat t) (word_of_nat z) s"
    have "place_block (word_of_nat a) (word_of_nat t) s =
        (word_of_nat (a + 32), ?s'\<lparr>heap_allocated_bytes := heap_allocated_bytes s + word_of_nat t\<rparr>)"
      using True sp(3) by (auto simp: place_block_def Let_def size cmp)
    moreover have "(B(a \<mapsto> (t, True), a + t \<mapsto> (z - t, False))) b = B b"
      if "b \<noteq> a" "\<not> (a < b \<and> b < a + z)" for b using that True t(2) by auto
    ultimately show ?thesis using that sp(1,2) t(2) by (auto simp: inv_count)
  next
    case False
    note tk = take_block_inv[OF inv z]
    let ?s' = "take_block (word_of_nat a) (word_of_nat z) s"
    have "place_block (word_of_nat a) (word_of_nat t) s =
        (word_of_nat (a + 32), ?s'\<lparr>heap_allocated_bytes := heap_allocated_bytes s + word_of_nat t\<rparr>)"
      using False tk(3) by (auto simp: place_block_def Let_def size cmp)
    from that[OF this, unfolded inv_count, OF tk(1)] show ?thesis using tk(2) t(3) by auto
  qed
qed

end
