(* ===== verification/Vmm_Tables.thy ===== *)
theory Vmm_Tables
  imports Vmm "HOL-Library.Sublist"
begin

text \<open>
  The page tables as a tree: the table at the end of a path of indices, the well-formedness that
  the virtual memory manager keeps (tables are distinct page-aligned frames that the frame
  allocator does not consider free), and the address translation the hardware performs.
\<close>

section \<open>The tree of tables\<close>

text \<open>A path lists the indices from the deepest entry up to the root.\<close>

definition ent :: "memory \<Rightarrow> u64 \<Rightarrow> nat \<Rightarrow> u64" where
  "ent m t i = load64 m (t + 8 * word_of_nat i)"

definition is_link :: "u64 \<Rightarrow> bool" where
  "is_link e \<longleftrightarrow> e AND VMM_PRESENT \<noteq> 0 \<and> e AND VMM_PS = 0"

fun tbl :: "memory \<Rightarrow> u64 \<Rightarrow> nat list \<Rightarrow> u64 option" where
  "tbl m root [] = Some root"
| "tbl m root (i # p) =
     (case tbl m root p of
        None \<Rightarrow> None
      | Some t \<Rightarrow> if is_link (ent m t i) then Some (ent m t i AND PTE_ADDR_MASK) else None)"

definition path_ok :: "nat list \<Rightarrow> bool" where
  "path_ok p \<longleftrightarrow> length p \<le> 3 \<and> (\<forall>i \<in> set p. i < 512)"

definition pt_wf :: "memory \<Rightarrow> u64 \<Rightarrow> pmm_state \<Rightarrow> bool" where
  "pt_wf m root pm \<longleftrightarrow>
     pmm_inv pm
     \<and> (\<forall>p t. path_ok p \<longrightarrow> tbl m root p = Some t \<longrightarrow>
          t \<noteq> 0 \<and> aligned 12 t \<and> unat t < 4294967296 \<and> t \<notin> free_frames pm)
     \<and> (\<forall>p q t. path_ok p \<longrightarrow> path_ok q \<longrightarrow> tbl m root p = Some t \<longrightarrow> tbl m root q = Some t
          \<longrightarrow> p = q)
     \<and> (\<forall>p t i. path_ok p \<longrightarrow> length p \<le> 2 \<longrightarrow> tbl m root p = Some t \<longrightarrow> i < 512
          \<longrightarrow> ent m t i AND VMM_PS \<noteq> 0 \<longrightarrow> ent m t i AND VMM_PRESENT \<noteq> 0 \<and> p \<noteq> [])"

abbreviation vmm_wf :: "'a vmm_state_scheme \<Rightarrow> bool" where
  "vmm_wf s \<equiv> pt_wf (mem s) (s_pml4_virt s) (pmm s)"

lemma pt_wfD:
  assumes "pt_wf m root pm" "path_ok p" "tbl m root p = Some t"
  shows "t \<noteq> 0" "aligned 12 t" "unat t < 4294967296" "t \<notin> free_frames pm"
  using assms unfolding pt_wf_def by blast+

lemma pt_wf_inject:
  assumes "pt_wf m root pm" "path_ok p" "path_ok q" "tbl m root p = Some t" "tbl m root q = Some t"
  shows "p = q"
  using assms unfolding pt_wf_def by blast

lemma path_ok_simps [simp]:
  "path_ok []" "path_ok (i # p) \<longleftrightarrow> i < 512 \<and> length p \<le> 2 \<and> path_ok p"
  by (auto simp: path_ok_def)

lemma numeral_pow_12: "(2 :: nat) ^ 12 = 4096"
  by simp

lemma slot_eq_iff:
  assumes "aligned 12 t" "aligned 12 u" "i < 512" "j < 512"
  shows "t + 8 * word_of_nat i = u + 8 * word_of_nat j \<longleftrightarrow> t = u \<and> i = j"
proof
  have off: "unat (a + 8 * word_of_nat k :: u64) = unat a + 8 * k"
    if "aligned 12 a" "k < 512" for a k
  proof -
    have "4096 dvd unat a" using that(1) by (simp add: aligned_def)
    then obtain n where n: "unat a = 4096 * n" ..
    then have "n < 4503599627370496" using unat64_less[of a] by simp
    then have "unat a + 8 * k < 18446744073709551616" using n that(2) by simp
    then show ?thesis using unat_add_nat64[of a "8 * k"] by simp
  qed
  assume "t + 8 * word_of_nat i = u + 8 * word_of_nat j"
  then have "unat t + 8 * i = unat u + 8 * j" using off assms by metis
  moreover obtain x y where xy: "unat t = 4096 * x" "unat u = 4096 * y"
    using assms(1,2) by (metis aligned_def dvdE numeral_pow_12)
  moreover have "(4096 * x + 8 * i) div 4096 = x" "(4096 * y + 8 * j) div 4096 = y"
    using assms(3,4) by simp_all
  ultimately have "unat t = unat u \<and> i = j" by simp
  then show "t = u \<and> i = j" by (simp add: word64_eqI)
qed simp

lemma aligned_slot: "aligned 12 t \<Longrightarrow> aligned 3 (t + 8 * word_of_nat i)"
  by (intro align_intros aligned_mono[of 12 t 3]) (simp_all add: aligned_def)

lemma ent_store:
  assumes "aligned 12 t" "aligned 12 u" "i < 512" "j < 512"
  shows "ent (store64 m (t + 8 * word_of_nat i) v) u j = (if u = t \<and> j = i then v else ent m u j)"
  using slot_eq_iff[OF assms] aligned_slot assms
  by (auto simp: ent_def load64_store64_other)

lemma tbl_cong:
  assumes "path_ok q"
    and "\<And>p t j. path_ok (j # p) \<Longrightarrow> tbl m root p = Some t \<Longrightarrow> suffix (j # p) q
      \<Longrightarrow> ent m' t j = ent m t j"
  shows "tbl m' root q = tbl m root q"
  using assms
proof (induction q)
  case (Cons j q)
  then have IH: "tbl m' root q = tbl m root q" by (auto simp: suffix_Cons)
  have "ent m' t j = ent m t j" if "tbl m root q = Some t" for t
    using Cons.prems(1) that by (intro Cons.prems(2)[of j q t]) simp_all
  then show ?case by (auto simp: IH split: option.splits)
qed simp

lemma tbl_store_other:
  assumes "pt_wf m root pm" "path_ok p" "tbl m root p = Some t" "i < 512"
    "path_ok q" "\<not> suffix (i # p) q"
  shows "tbl (store64 m (t + 8 * word_of_nat i) v) root q = tbl m root q"
proof (rule tbl_cong[OF assms(5)])
  fix p' t' j
  assume p': "path_ok (j # p')" "tbl m root p' = Some t'" "suffix (j # p') q"
  have "\<not> (t' = t \<and> j = i)"
    using p' assms pt_wf_inject[OF assms(1) assms(2), of p' t] by auto
  then show "ent (store64 m (t + 8 * word_of_nat i) v) t' j = ent m t' j"
    using p' pt_wfD(2)[OF assms(1-3)] pt_wfD(2)[OF assms(1) _ p'(2)] assms(4)
    by (auto simp: ent_store)
qed

lemma pages_disjoint:
  assumes "aligned 12 t" "aligned 12 u" "t \<noteq> u" "unat (x - t) < 4096"
  shows "\<not> unat (x - u) < 4096"
proof
  assume u: "unat (x - u) < 4096"
  have div: "unat x div 4096 = unat a div 4096" if "aligned 12 a" "unat (x - a) < 4096" for a
  proof -
    have "4096 dvd unat a" using that(1) by (simp add: aligned_def)
    then obtain n where n: "unat a = 4096 * n" ..
    then have "n < 4503599627370496" using unat64_less[of a] by simp
    then have "unat (a + (x - a)) = unat a + unat (x - a)"
      using n that(2) by (intro unat_add64) simp
    then have "unat x = 4096 * n + unat (x - a)" using n by simp
    then show ?thesis using n that(2) by simp
  qed
  have "unat t div 4096 = unat u div 4096"
    using div[OF assms(1,4)] div[OF assms(2) u] by simp
  moreover have "4096 dvd unat t" "4096 dvd unat u"
    using assms(1,2) by (simp_all add: aligned_def)
  ultimately have "unat t = unat u" by (metis dvd_div_mult_self)
  with assms(3) show False by (simp add: word64_eqI)
qed

lemma ent_cong_page:
  assumes "j < 512" "\<And>x. unat (x - t) < 4096 \<Longrightarrow> m' x = m x"
  shows "ent m' t j = ent m t j"
  unfolding ent_def
proof (rule load64_cong)
  fix i :: nat assume "i < 8"
  then have "unat (word_of_nat (8 * j + i) :: u64) < 4096"
    using assms(1) by (subst unat_of_nat64) simp_all
  then show "m' (t + 8 * word_of_nat j + word_of_nat i) = m (t + 8 * word_of_nat j + word_of_nat i)"
    by (intro assms(2)) simp
qed

lemma ent_memset_other:
  assumes "aligned 12 t" "aligned 12 f" "t \<noteq> f" "j < 512"
  shows "ent (memset8 m f v 4096) t j = ent m t j"
  using assms pages_disjoint[OF assms(1-3)]
  by (intro ent_cong_page) (simp_all add: memset8_apply)

lemma ent_memset_same:
  assumes "j < 512"
  shows "ent (memset8 m f 0 4096) f j = 0"
proof -
  have "ent (memset8 m f 0 4096) f j = ent (\<lambda>_. 0) f j"
    using assms by (intro ent_cong_page) (simp_all add: memset8_apply)
  moreover have "load64 (\<lambda>_. 0) a = 0" for a
    by (rule bit_word_eqI) (simp add: bit_load64)
  ultimately show ?thesis by (simp add: ent_def)
qed

section \<open>Entry arithmetic\<close>

lemma PTE_ADDR_MASK_eq: "PTE_ADDR_MASK = push_bit 12 (mask 40)"
  by (simp add: mask_eq_exp_minus_1 push_bit_eq_mult)

lemma bit_PTE_ADDR_MASK: "bit PTE_ADDR_MASK n \<longleftrightarrow> 12 \<le> n \<and> n < 52"
  unfolding PTE_ADDR_MASK_eq by (auto simp: bit_simps)

lemma frame_bits:
  assumes "aligned 12 f" "unat f < 4294967296" "bit f n"
  shows "12 \<le> n" "n < 32"
proof -
  have "take_bit 12 (unat f) = 0"
    using assms(1) by (simp add: aligned_def take_bit_eq_mod dvd_imp_mod_0)
  then have "\<not> bit (take_bit 12 (unat f)) n" by simp
  then show "12 \<le> n" using assms(3) by (simp add: bit_simps not_le)
  have "take_bit 32 (unat f) = unat f"
    using assms(2) by (simp add: take_bit_nat_eq_self)
  then have "bit (take_bit 32 (unat f)) n" using assms(3) by (simp add: bit_simps)
  then show "n < 32" by (simp add: bit_simps)
qed

lemma frame_entry:
  assumes "aligned 12 f" "unat f < 4294967296" "v AND PTE_ADDR_MASK = 0"
  shows "(f OR v) AND PTE_ADDR_MASK = f"
proof (rule bit_word_eqI)
  fix n assume "n < LENGTH(64)"
  have "\<not> (bit v n \<and> bit PTE_ADDR_MASK n)"
    using assms(3) by (metis bit_and_iff bit_0_eq bot_apply bot_bool_def)
  then have "\<not> (bit v n \<and> 12 \<le> n \<and> n < 52)"
    unfolding bit_PTE_ADDR_MASK .
  then show "bit ((f OR v) AND PTE_ADDR_MASK) n = bit f n"
    unfolding bit_and_iff bit_or_iff bit_PTE_ADDR_MASK
    using frame_bits[OF assms(1,2), of n] by auto
qed

lemma frame_low_bits:
  assumes "aligned 12 f" "v AND mask 12 = v"
  shows "(f OR w) AND v = w AND v"
proof (rule bit_word_eqI)
  fix n assume "n < LENGTH(64)"
  have "take_bit 12 (unat f) = 0"
    using assms(1) by (simp add: aligned_def take_bit_eq_mod dvd_imp_mod_0)
  then have "\<not> bit (take_bit 12 (unat f)) n" by simp
  then have "n < 12 \<Longrightarrow> \<not> bit f n" by (simp add: bit_simps)
  moreover have "bit v n \<Longrightarrow> n < 12"
    using assms(2) by (metis bit_and_iff bit_mask_iff)
  ultimately show "bit ((f OR w) AND v) n = bit (w AND v) n"
    by (auto simp: bit_and_iff bit_or_iff)
qed

section \<open>Inserting a table\<close>

text \<open>
  The memory \<open>m'\<close> arises from \<open>m\<close> by linking the free frame \<open>f\<close>, filled with the entries \<open>g\<close>,
  into slot \<open>i\<close> of the table at path \<open>p\<close>.  Both the allocation of a missing table and the split
  of a 2 MiB page have this form.
\<close>

definition grown ::
  "memory \<Rightarrow> u64 \<Rightarrow> pmm_state \<Rightarrow> nat list \<Rightarrow> nat \<Rightarrow> u64 \<Rightarrow> (nat \<Rightarrow> u64) \<Rightarrow> memory \<Rightarrow> bool" where
  "grown m root pm p i f g m' \<longleftrightarrow>
     pt_wf m root pm \<and> path_ok (i # p) \<and> f \<in> free_frames pm
     \<and> (\<exists>t. tbl m root p = Some t \<and> \<not> is_link (ent m t i)
            \<and> is_link (ent m' t i) \<and> ent m' t i AND PTE_ADDR_MASK = f
            \<and> (\<forall>u j. aligned 12 u \<longrightarrow> j < 512 \<longrightarrow> u \<noteq> f \<longrightarrow> \<not> (u = t \<and> j = i)
                 \<longrightarrow> ent m' u j = ent m u j))
     \<and> (\<forall>j < 512. ent m' f j = g j)
     \<and> (length p = 2 \<or> (\<forall>j < 512. g j AND VMM_PRESENT = 0 \<and> g j AND VMM_PS = 0))"

lemma grown_ent:
  assumes "grown m root pm p i f g m'" "path_ok q" "tbl m root q = Some u" "j < 512"
    "\<not> (q = p \<and> j = i)"
  shows "ent m' u j = ent m u j"
proof -
  note wf = assms(1)[unfolded grown_def]
  obtain t where t: "tbl m root p = Some t"
    "\<And>u j. aligned 12 u \<Longrightarrow> j < 512 \<Longrightarrow> u \<noteq> f \<Longrightarrow> \<not> (u = t \<and> j = i) \<Longrightarrow> ent m' u j = ent m u j"
    using wf by blast
  have "u \<noteq> f" "aligned 12 u"
    using wf pt_wfD[of m root pm q u] assms(2,3) by auto
  moreover have "\<not> (u = t \<and> j = i)"
    using wf assms pt_wf_inject[of m root pm q p t] t(1) by auto
  ultimately show ?thesis using t(2) assms(4) by blast
qed

lemma grown_tbl_other:
  assumes "grown m root pm p i f g m'" "path_ok q" "\<not> suffix (i # p) q"
  shows "tbl m' root q = tbl m root q"
proof (rule tbl_cong[OF assms(2)])
  fix p' t j assume "path_ok (j # p')" "tbl m root p' = Some t" "suffix (j # p') q"
  then show "ent m' t j = ent m t j"
    using assms(3) by (intro grown_ent[OF assms(1)]) auto
qed

lemma grown_tbl_new:
  assumes "grown m root pm p i f g m'"
  shows "tbl m' root (i # p) = Some f"
proof -
  have "tbl m' root p = tbl m root p"
    using assms by (intro grown_tbl_other[OF assms]) (auto simp: grown_def suffix_def)
  then show ?thesis using assms by (auto simp: grown_def)
qed

lemma grown_tbl_old_child:
  assumes "grown m root pm p i f g m'" "suffix (i # p) q"
  shows "tbl m root q = None"
  using assms(2)
proof (induction q)
  case (Cons j q)
  show ?case
  proof (cases "j # q = i # p")
    case True
    then show ?thesis using assms(1) by (auto simp: grown_def)
  next
    case False
    then show ?thesis using Cons by (auto simp: suffix_Cons)
  qed
qed simp

lemma grown_tbl_below:
  assumes "grown m root pm p i f g m'" "path_ok q" "suffix (i # p) q" "q \<noteq> i # p"
  shows "tbl m' root q = None"
  using assms(2-4)
proof (induction q)
  case (Cons j q)
  show ?case
  proof (cases "q = i # p")
    case True
    then have "length p \<noteq> 2" using Cons.prems(1) by auto
    then have "\<not> is_link (g j)" "ent m' f j = g j"
      using assms(1) Cons.prems(1) by (auto simp: grown_def is_link_def)
    then show ?thesis using grown_tbl_new[OF assms(1)] True by simp
  next
    case False
    then show ?thesis using Cons by (auto simp: suffix_Cons)
  qed
qed simp

lemma grown_tbl:
  assumes "grown m root pm p i f g m'" "path_ok q"
  shows "tbl m' root q = (if q = i # p then Some f else tbl m root q)"
  using grown_tbl_other[OF assms] grown_tbl_new[OF assms(1)] grown_tbl_below[OF assms]
    grown_tbl_old_child[OF assms(1), of q]
  by (cases "suffix (i # p) q") auto

lemma grown_wf:
  assumes g: "grown m root pm p i f g m'"
    and pm': "pmm_inv pm'" "free_frames pm' = free_frames pm - {f}"
    and f: "f \<noteq> 0" "aligned 12 f" "unat f < 4294967296"
    and slot: "\<And>t. tbl m root p = Some t \<Longrightarrow> ent m' t i AND VMM_PS = 0"
  shows "pt_wf m' root pm'"
proof -
  have wf: "pt_wf m root pm" and fresh: "f \<in> free_frames pm" using g by (auto simp: grown_def)
  have tables: "t \<noteq> 0 \<and> aligned 12 t \<and> unat t < 4294967296 \<and> t \<notin> free_frames pm'"
    if "path_ok q" "tbl m' root q = Some t" for q t
    using that f pm'(2) pt_wfD[OF wf that(1), of t] grown_tbl[OF g that(1)] by (auto split: if_splits)
  have inject: "q = r" if "path_ok q" "path_ok r" "tbl m' root q = Some t" "tbl m' root r = Some t" for q r t
    using that fresh pt_wfD(4)[OF wf] pt_wf_inject[OF wf that(1,2)]
      grown_tbl[OF g that(1)] grown_tbl[OF g that(2)]
    by (auto split: if_splits)
  have big: "ent m' t j AND VMM_PRESENT \<noteq> 0 \<and> q \<noteq> []"
    if "path_ok q" "length q \<le> 2" "tbl m' root q = Some t" "j < 512" "ent m' t j AND VMM_PS \<noteq> 0" for q t j
  proof (cases "q = i # p")
    case True
    then have "t = f" using that(3) grown_tbl_new[OF g] by simp
    then show ?thesis using True g that(2,4,5) by (auto simp: grown_def)
  next
    case False
    then have t: "tbl m root q = Some t" using that(1,3) grown_tbl[OF g] by simp
    then have "\<not> (q = p \<and> j = i)" using slot that(5) by auto
    then have "ent m' t j = ent m t j" using grown_ent[OF g that(1) t that(4)] by simp
    then show ?thesis using wf that t unfolding pt_wf_def by metis
  qed
  show ?thesis
    unfolding pt_wf_def using pm'(1) tables inject big by blast
qed

end
