(* ===== verification/Vmm_Walk.thy ===== *)
theory Vmm_Walk
  imports Vmm_Tables
begin

text \<open>
  The address translation that the processor performs on the page tables, with the effective
  write and user permissions, and how it depends on the entries: linking an empty table or
  splitting a 2 MiB page changes no translation, writing a last-level entry changes one page.
\<close>

section \<open>Indices\<close>

definition idx4 :: "u64 \<Rightarrow> nat" where "idx4 va = unat (vmm_pml4_index va)"
definition idx3 :: "u64 \<Rightarrow> nat" where "idx3 va = unat (vmm_pdpte_index va)"
definition idx2 :: "u64 \<Rightarrow> nat" where "idx2 va = unat (vmm_pd_index va)"
definition idx1 :: "u64 \<Rightarrow> nat" where "idx1 va = unat (vmm_pt_index va)"

lemmas idx_defs = idx4_def idx3_def idx2_def idx1_def

abbreviation path3 :: "u64 \<Rightarrow> nat list" where "path3 va \<equiv> [idx4 va]"
abbreviation path2 :: "u64 \<Rightarrow> nat list" where "path2 va \<equiv> [idx3 va, idx4 va]"
abbreviation path1 :: "u64 \<Rightarrow> nat list" where "path1 va \<equiv> [idx2 va, idx3 va, idx4 va]"

lemma index_less: "unat (x AND 0x1FF :: u64) < 512"
proof -
  have "x AND 0x1FF = take_bit 9 x"
    by (simp add: take_bit_eq_mask mask_eq_exp_minus_1)
  then have "unat (x AND 0x1FF) = take_bit 9 (unat x)"
    by (simp add: unsigned_take_bit_eq)
  then show ?thesis using take_bit_nat_less_exp[of 9 "unat x"] by simp
qed

lemma idx_less [simp]: "idx4 va < 512" "idx3 va < 512" "idx2 va < 512" "idx1 va < 512"
  unfolding idx_defs vmm_pml4_index_def vmm_pdpte_index_def vmm_pd_index_def vmm_pt_index_def
  by (rule index_less)+

lemma idx_word:
  "vmm_pml4_index va = word_of_nat (idx4 va)" "vmm_pdpte_index va = word_of_nat (idx3 va)"
  "vmm_pd_index va = word_of_nat (idx2 va)" "vmm_pt_index va = word_of_nat (idx1 va)"
  by (simp_all add: idx_defs)

text \<open>Two addresses on the same page: bits 12 to 47 agree.\<close>

definition same_page :: "u64 \<Rightarrow> u64 \<Rightarrow> bool" where
  "same_page va vb \<longleftrightarrow> path1 va = path1 vb \<and> idx1 va = idx1 vb"

lemma bit_PAGE_MASK: "bit PAGE_MASK n \<longleftrightarrow> 12 \<le> n \<and> n < 64"
proof -
  have "PAGE_MASK = NOT (mask 12)" by (simp add: mask_eq_exp_minus_1)
  then show ?thesis by (simp only: bit_not_iff_eq bit_mask_iff) auto
qed

lemma page_mask_index:
  assumes "12 \<le> k"
  shows "drop_bit k (va AND PAGE_MASK) = drop_bit k va"
proof (rule bit_word_eqI)
  fix n
  have "bit va (k + n) \<Longrightarrow> k + n < 64"
    using bit_imp_le_length[of va "k + n"] by simp
  then show "bit (drop_bit k (va AND PAGE_MASK)) n = bit (drop_bit k va) n"
    unfolding bit_drop_bit_eq comp_def bit_and_iff bit_PAGE_MASK using assms by auto
qed

lemma idx_page_mask [simp]:
  "idx4 (va AND PAGE_MASK) = idx4 va" "idx3 (va AND PAGE_MASK) = idx3 va"
  "idx2 (va AND PAGE_MASK) = idx2 va" "idx1 (va AND PAGE_MASK) = idx1 va"
  unfolding idx_defs vmm_pml4_index_def vmm_pdpte_index_def vmm_pd_index_def vmm_pt_index_def
  by (simp_all only: page_mask_index)

section \<open>The hardware walk\<close>

abbreviation present :: "u64 \<Rightarrow> bool" where "present e \<equiv> e AND VMM_PRESENT \<noteq> 0"
abbreviation is_large :: "u64 \<Rightarrow> bool" where "is_large e \<equiv> e AND VMM_PS \<noteq> 0"
abbreviation writable :: "u64 \<Rightarrow> bool" where "writable e \<equiv> e AND VMM_WRITE \<noteq> 0"
abbreviation user :: "u64 \<Rightarrow> bool" where "user e \<equiv> e AND VMM_USER \<noteq> 0"

record translation =
  tr_phys :: u64
  tr_write :: bool
  tr_user :: bool

definition xlate :: "memory \<Rightarrow> u64 \<Rightarrow> u64 \<Rightarrow> translation option" where
  "xlate m root va =
     (let e4 = ent m root (idx4 va)
      in if \<not> present e4 then None
         else let e3 = ent m (e4 AND PTE_ADDR_MASK) (idx3 va)
         in if \<not> present e3 then None
         else if is_large e3
           then Some \<lparr>tr_phys = (e3 AND 0x000FFFFFC0000000) + (va AND 0x3FFFFFFF),
                      tr_write = (writable e4 \<and> writable e3),
                      tr_user = (user e4 \<and> user e3)\<rparr>
         else let e2 = ent m (e3 AND PTE_ADDR_MASK) (idx2 va)
         in if \<not> present e2 then None
         else if is_large e2
           then Some \<lparr>tr_phys = (e2 AND PDE_LARGE_MASK) + (va AND 0x1FFFFF),
                      tr_write = (writable e4 \<and> writable e3 \<and> writable e2),
                      tr_user = (user e4 \<and> user e3 \<and> user e2)\<rparr>
         else let e1 = ent m (e2 AND PTE_ADDR_MASK) (idx1 va)
         in if \<not> present e1 then None
            else Some \<lparr>tr_phys = (e1 AND PTE_ADDR_MASK) + (va AND 0xFFF),
                       tr_write = (writable e4 \<and> writable e3 \<and> writable e2 \<and> writable e1),
                       tr_user = (user e4 \<and> user e3 \<and> user e2 \<and> user e1)\<rparr>)"

text \<open>The entry at the end of a path, 0 when its table does not exist.\<close>

fun pte :: "memory \<Rightarrow> u64 \<Rightarrow> nat list \<Rightarrow> u64" where
  "pte m root [] = 0"
| "pte m root (i # p) = (case tbl m root p of None \<Rightarrow> 0 | Some t \<Rightarrow> ent m t i)"

definition walk :: "u64 \<Rightarrow> u64 \<Rightarrow> u64 \<Rightarrow> u64 \<Rightarrow> u64 \<Rightarrow> translation option" where
  "walk e4 e3 e2 e1 va =
     (if is_large e3
      then Some \<lparr>tr_phys = (e3 AND 0x000FFFFFC0000000) + (va AND 0x3FFFFFFF),
                 tr_write = (writable e4 \<and> writable e3), tr_user = (user e4 \<and> user e3)\<rparr>
      else if is_large e2
      then Some \<lparr>tr_phys = (e2 AND PDE_LARGE_MASK) + (va AND 0x1FFFFF),
                 tr_write = (writable e4 \<and> writable e3 \<and> writable e2),
                 tr_user = (user e4 \<and> user e3 \<and> user e2)\<rparr>
      else if present e1
      then Some \<lparr>tr_phys = (e1 AND PTE_ADDR_MASK) + (va AND 0xFFF),
                 tr_write = (writable e4 \<and> writable e3 \<and> writable e2 \<and> writable e1),
                 tr_user = (user e4 \<and> user e3 \<and> user e2 \<and> user e1)\<rparr>
      else None)"

lemma walk_None: "\<not> is_large e3 \<and> \<not> is_large e2 \<Longrightarrow> walk e4 e3 e2 0 va = None"
  by (simp add: walk_def)

lemma pt_wf_large:
  assumes "pt_wf m root pm" "path_ok p" "length p \<le> 2" "tbl m root p = Some t" "i < 512"
    "is_large (ent m t i)"
  shows "present (ent m t i)" "p \<noteq> []"
  using assms unfolding pt_wf_def by blast+

lemma xlate_pte:
  assumes "pt_wf m root pm"
  shows "xlate m root va =
    walk (pte m root (path3 va)) (pte m root (path2 va)) (pte m root (path1 va))
      (pte m root (idx1 va # path1 va)) va"
proof -
  let ?e4 = "ent m root (idx4 va)"
  have e4: "\<not> is_large ?e4"
    using pt_wf_large(2)[OF assms, of "[]" root "idx4 va"] by auto
  show ?thesis
  proof (cases "present ?e4")
    case True
    then have t3: "tbl m root (path3 va) = Some (?e4 AND PTE_ADDR_MASK)"
      using e4 by (simp add: is_link_def)
    let ?e3 = "ent m (?e4 AND PTE_ADDR_MASK) (idx3 va)"
    have l3: "is_large ?e3 \<Longrightarrow> present ?e3"
      using pt_wf_large(1)[OF assms _ _ t3, of "idx3 va"] by simp
    show ?thesis
    proof (cases "present ?e3 \<and> \<not> is_large ?e3")
      case True
      then have t2: "tbl m root (path2 va) = Some (?e3 AND PTE_ADDR_MASK)"
        using t3 by (simp add: is_link_def)
      let ?e2 = "ent m (?e3 AND PTE_ADDR_MASK) (idx2 va)"
      have "is_large ?e2 \<Longrightarrow> present ?e2"
        using pt_wf_large(1)[OF assms _ _ t2, of "idx2 va"] by simp
      moreover have "tbl m root (path1 va) =
          (if present ?e2 \<and> \<not> is_large ?e2 then Some (?e2 AND PTE_ADDR_MASK) else None)"
        using t2 by (simp add: is_link_def)
      ultimately show ?thesis
        using \<open>present ?e4\<close> True t3 t2
        by (simp add: xlate_def walk_def Let_def del: tbl.simps(2))
    next
      case False
      then have "tbl m root (path2 va) = None" using t3 by (auto simp: is_link_def)
      then have "tbl m root (path1 va) = None" by simp
      then show ?thesis
        using \<open>present ?e4\<close> False t3 l3 \<open>tbl m root (path2 va) = None\<close>
        by (auto simp: xlate_def walk_def Let_def simp del: tbl.simps(2))
    qed
  next
    case False
    then have "tbl m root (path3 va) = None" by (simp add: is_link_def)
    then show ?thesis using False by (simp add: xlate_def walk_def Let_def)
  qed
qed

section \<open>Effect of a new table\<close>

lemma grown_pte:
  assumes g: "grown m root pm p i f g m'" and q: "path_ok q" "j < 512"
  shows "pte m' root (j # q) =
    (if q = i # p then g j else if q = p \<and> j = i then pte m' root (i # p) else pte m root (j # q))"
proof (cases "q = i # p")
  case True
  then show ?thesis using grown_tbl_new[OF g] g q(2) by (simp add: grown_def)
next
  case False
  then have "tbl m' root q = tbl m root q" using grown_tbl[OF g q(1)] by simp
  then show ?thesis
    using False grown_ent[OF g q(1) _ q(2)] by (auto split: option.splits)
qed

lemma grown_slot:
  assumes "grown m root pm p i f g m'"
  shows "\<exists>t. tbl m root p = Some t \<and> pte m root (i # p) = ent m t i \<and> pte m' root (i # p) = ent m' t i
    \<and> is_link (ent m' t i)"
proof -
  have "path_ok p" using assms by (simp add: grown_def)
  then have "tbl m' root p = tbl m root p"
    using grown_tbl[OF assms, of p] by simp
  then show ?thesis using assms by (auto simp: grown_def)
qed

lemma grown_empty_xlate:
  assumes g: "grown m root pm p i f (\<lambda>_. 0) m'" and wf': "pt_wf m' root pm'"
    and absent: "\<not> present (pte m root (i # p))"
  shows "xlate m' root va = xlate m root va"
proof -
  have wf: "pt_wf m root pm" and p: "path_ok p" "i < 512" "length p \<le> 2"
    using g by (auto simp: grown_def)
  obtain t where t: "tbl m root p = Some t" "pte m root (i # p) = ent m t i"
      "\<not> is_large (pte m' root (i # p))"
    using grown_slot[OF g] by (auto simp: is_link_def)
  have nl: "\<not> is_large (pte m root (i # p))"
    using pt_wf_large(1)[OF wf p(1,3) t(1) p(2)] absent t(2) by auto
  have none: "tbl m root q = None" if "suffix (i # p) q" for q
    using grown_tbl_old_child[OF g that] .
  have zero: "pte m root (j # q) = 0" if "suffix (i # p) q" for j q
    using none[OF that] by simp
  have low: "pte m' root (idx1 va # path1 va) = pte m root (idx1 va # path1 va)"
    using grown_pte[OF g, of "path1 va" "idx1 va"] zero[of "path1 va" "idx1 va"] p by auto
  have mid: "pte m' root (path1 va) = pte m root (path1 va) \<or> path1 va = i # p"
    using grown_pte[OF g, of "path2 va" "idx2 va"] zero[of "path2 va" "idx2 va"] by auto
  have high: "pte m' root (path2 va) = pte m root (path2 va) \<or> path2 va = i # p"
    using grown_pte[OF g, of "path3 va" "idx3 va"] zero[of "path3 va" "idx3 va"] by auto
  have top: "pte m' root (path3 va) = pte m root (path3 va) \<or> path3 va = i # p"
    using grown_pte[OF g, of "[]" "idx4 va"] by auto
  consider "suffix (i # p) (path1 va)" | "\<not> suffix (i # p) (path1 va)" by blast
  then show ?thesis
  proof cases
    case 1
    have e1: "pte m root (idx1 va # path1 va) = 0" by (rule zero[OF 1])
    have nl2: "\<not> is_large (pte m root q) \<and> \<not> is_large (pte m' root q)"
      if "q = path2 va \<or> q = path1 va" for q
    proof (cases "q = i # p")
      case False
      then have "pte m' root q = pte m root q" using that mid high by auto
      moreover have "\<not> is_large (pte m root q)"
      proof (cases "suffix (i # p) (tl q)")
        case True
        then show ?thesis using zero[OF True, of "hd q"] that by auto
      next
        case False
        then have "suffix q p" "q = path2 va" "p = path2 va" using 1 \<open>q \<noteq> i # p\<close> that
          by (auto simp: suffix_Cons)
        then have "tbl m root (path2 va) \<noteq> None" using t(1) by simp
        then show ?thesis using \<open>q = path2 va\<close> by (auto simp: is_link_def split: option.splits if_splits)
      qed
      ultimately show ?thesis by simp
    qed (use nl t in simp)
    show ?thesis
      unfolding xlate_pte[OF wf] xlate_pte[OF wf'] low e1
      using nl2[of "path2 va"] nl2[of "path1 va"] by (metis walk_None)
  next
    case 2
    then have "path1 va \<noteq> i # p" "path2 va \<noteq> i # p" "path3 va \<noteq> i # p"
      by (auto simp: suffix_Cons)
    then show ?thesis
      unfolding xlate_pte[OF wf] xlate_pte[OF wf'] using low mid high top by metis
  qed
qed

section \<open>Splitting a 2 MiB page\<close>

lemma bit_masks:
  "bit (0xFFF :: u64) n \<longleftrightarrow> n < 12"
  "bit (0x1FFFFF :: u64) n \<longleftrightarrow> n < 21"
  "bit PDE_LARGE_MASK n \<longleftrightarrow> 21 \<le> n \<and> n < 52"
proof -
  have "(0xFFF :: u64) = mask 12" "(0x1FFFFF :: u64) = mask 21"
    "PDE_LARGE_MASK = push_bit 21 (mask 31)"
    by (simp_all add: mask_eq_exp_minus_1 push_bit_eq_mult)
  then show "bit (0xFFF :: u64) n \<longleftrightarrow> n < 12" "bit (0x1FFFFF :: u64) n \<longleftrightarrow> n < 21"
    "bit PDE_LARGE_MASK n \<longleftrightarrow> 21 \<le> n \<and> n < 52"
    by (simp_all only: bit_mask_iff bit_push_bit_iff) auto
qed

lemma bit_pt_index: "bit (word_of_nat (idx1 va) * 4096 :: u64) n \<longleftrightarrow> 12 \<le> n \<and> n < 21 \<and> bit va n"
proof -
  have "(0x1FF :: u64) = mask 9" by (simp add: mask_eq_exp_minus_1)
  then have "vmm_pt_index va = take_bit 9 (drop_bit 12 va)"
    by (simp add: vmm_pt_index_def take_bit_eq_mask)
  then have "word_of_nat (idx1 va) * 4096 = push_bit 12 (take_bit 9 (drop_bit 12 va))"
    by (simp add: push_bit_eq_mult idx1_def)
  then show ?thesis
    by (auto simp: bit_simps dest: bit_imp_le_length)
qed

lemma add_disjoint_bits:
  assumes "\<And>n. bit a n \<Longrightarrow> \<not> bit b n"
  shows "a + b = a OR (b :: u64)"
proof -
  have "a AND b = 0"
    using assms by (intro bit_word_eqI) (simp only: bit_and_iff bit_0_eq, auto)
  then show ?thesis by (rule disjunctive_add_eq_or)
qed

definition split_entry :: "u64 \<Rightarrow> nat \<Rightarrow> u64" where
  "split_entry pde i =
     ((pde AND PDE_LARGE_MASK) + word_of_nat i * VMM_PAGE_SIZE) OR (pde AND 0xFFF) OR VMM_PRESENT"

lemma split_base:
  "(pde AND PDE_LARGE_MASK) + word_of_nat (idx1 va) * VMM_PAGE_SIZE
     = (pde AND PDE_LARGE_MASK) OR (word_of_nat (idx1 va) * VMM_PAGE_SIZE)"
  by (rule add_disjoint_bits) (simp only: bit_and_iff bit_masks bit_pt_index, auto)

lemma bit_split_entry:
  "bit (split_entry pde (idx1 va)) n \<longleftrightarrow>
     (bit pde n \<and> 21 \<le> n \<and> n < 52) \<or> (12 \<le> n \<and> n < 21 \<and> bit va n) \<or> (bit pde n \<and> n < 12) \<or> n = 0"
proof -
  have "bit VMM_PRESENT n \<longleftrightarrow> n = 0" by (simp add: bit_1_iff)
  then show ?thesis
    unfolding split_entry_def split_base
    by (simp only: bit_or_iff bit_and_iff bit_masks bit_pt_index) blast
qed

lemma split_entry_frame:
  "(split_entry pde (idx1 va) AND PTE_ADDR_MASK) + (va AND 0xFFF)
     = (pde AND PDE_LARGE_MASK) + (va AND 0x1FFFFF)"
proof -
  have "(split_entry pde (idx1 va) AND PTE_ADDR_MASK) + (va AND 0xFFF)
      = (split_entry pde (idx1 va) AND PTE_ADDR_MASK) OR (va AND 0xFFF)"
    by (rule add_disjoint_bits) (simp only: bit_and_iff bit_masks bit_PTE_ADDR_MASK, auto)
  also have "\<dots> = (pde AND PDE_LARGE_MASK) OR (va AND 0x1FFFFF)"
    by (rule bit_word_eqI)
      (simp only: bit_or_iff bit_and_iff bit_masks bit_PTE_ADDR_MASK bit_split_entry, auto)
  also have "\<dots> = (pde AND PDE_LARGE_MASK) + (va AND 0x1FFFFF)"
    by (rule add_disjoint_bits[symmetric]) (simp only: bit_and_iff bit_masks, auto)
  finally show ?thesis .
qed

lemma flag_bit: "(e AND push_bit k 1 \<noteq> 0) \<longleftrightarrow> bit (e :: u64) k"
  by (simp add: and_exp_eq_0_iff_not_bit push_bit_eq_mult flip: push_bit_eq_mult)

lemma flags_bits:
  "present e \<longleftrightarrow> bit e 0" "writable e \<longleftrightarrow> bit e 1" "user e \<longleftrightarrow> bit e 2" "is_large e \<longleftrightarrow> bit e 7"
  using flag_bit[of e 0] flag_bit[of e 1] flag_bit[of e 2] flag_bit[of e 7]
  by (simp_all add: push_bit_eq_mult)

lemma split_entry_flags:
  "present (split_entry pde (idx1 va))"
  "writable (split_entry pde (idx1 va)) = writable pde"
  "user (split_entry pde (idx1 va)) = user pde"
  unfolding flags_bits bit_split_entry by auto

lemma link_above:
  assumes "tbl m root (i # p) = Some t"
  shows "\<not> is_large (pte m root (i # p))"
  using assms by (auto simp: is_link_def split: option.splits if_splits)

lemma split_walk:
  assumes "\<not> is_large e3" "is_large pde" "\<not> is_large e2" "writable e2" "user e2 = user pde"
  shows "walk e4 e3 e2 (split_entry pde (idx1 va)) va = walk e4 e3 pde e1 va"
  using assms split_entry_flags[of pde va] split_entry_frame[of pde va] by (simp add: walk_def)

lemma grown_split_xlate:
  assumes g: "grown m root pm p i f (split_entry pde) m'" and wf': "pt_wf m' root pm'"
    and p: "length p = 2" "pte m root (i # p) = pde" "is_large pde"
    and e2: "writable (pte m' root (i # p))" "user (pte m' root (i # p)) = user pde"
  shows "xlate m' root va = xlate m root va"
proof -
  have wf: "pt_wf m root pm" and po: "path_ok p" using g by (auto simp: grown_def)
  obtain t where t: "tbl m root p = Some t" "\<not> is_large (pte m' root (i # p))"
    using grown_slot[OF g] by (auto simp: is_link_def)
  have e4: "pte m' root (path3 va) = pte m root (path3 va)"
    using grown_pte[OF g, of "[]" "idx4 va"] p(1) by auto
  have e3: "pte m' root (path2 va) = pte m root (path2 va)"
    using grown_pte[OF g, of "path3 va" "idx3 va"] p(1) by auto
  show ?thesis
  proof (cases "path1 va = i # p")
    case True
    then have p2: "path2 va = p" and i: "idx2 va = i" by auto
    have l3: "\<not> is_large (pte m root (path2 va))"
      using link_above[of m root "idx3 va" "path3 va" t] t(1) p2 by simp
    have e1: "pte m' root (idx1 va # i # p) = split_entry pde (idx1 va)"
      using grown_pte[OF g, of "i # p" "idx1 va"] g by (simp add: grown_def del: pte.simps tbl.simps)
    show ?thesis
      unfolding xlate_pte[OF wf] xlate_pte[OF wf'] e4 e3 unfolding True e1 p(2)
      by (rule split_walk[OF l3 p(3) t(2) e2])
  next
    case False
    then have "pte m' root (path1 va) = pte m root (path1 va)"
      using grown_pte[OF g, of "path2 va" "idx2 va"] p(1) by auto
    moreover have "pte m' root (idx1 va # path1 va) = pte m root (idx1 va # path1 va)"
      using grown_pte[OF g, of "path1 va" "idx1 va"] False p(1) by auto
    ultimately show ?thesis
      unfolding xlate_pte[OF wf] xlate_pte[OF wf'] e4 e3 by metis
  qed
qed

section \<open>Writing a last-level entry\<close>

lemma leaf_store_tbl:
  assumes "pt_wf m root pm" "path_ok p" "length p = 3" "tbl m root p = Some t" "i < 512" "path_ok q"
  shows "tbl (store64 m (t + 8 * word_of_nat i) v) root q = tbl m root q"
proof (rule tbl_store_other[OF assms(1,2,4,5,6)])
  show "\<not> suffix (i # p) q" using assms(3,6) by (auto simp: suffix_def path_ok_def)
qed

lemma leaf_store_pte:
  assumes wf: "pt_wf m root pm" and p: "path_ok p" "length p = 3" "tbl m root p = Some t" "i < 512"
    and q: "path_ok q" "j < 512"
  shows "pte (store64 m (t + 8 * word_of_nat i) v) root (j # q) =
    (if q = p \<and> j = i then v else pte m root (j # q))"
proof -
  have "ent (store64 m (t + 8 * word_of_nat i) v) u j = (if q = p \<and> j = i then v else ent m u j)"
    if "tbl m root q = Some u" for u
    using that pt_wfD(2)[OF wf p(1,3)] pt_wfD(2)[OF wf q(1) that] ent_store[of t u i j] p(4) q(2)
      pt_wf_inject[OF wf p(1) q(1) p(3)] p(3)
    by auto
  then show ?thesis using leaf_store_tbl[OF wf p q(1)] p(3) by (auto split: option.splits)
qed

lemma leaf_store_wf:
  assumes wf: "pt_wf m root pm" and p: "path_ok p" "length p = 3" "tbl m root p = Some t" "i < 512"
  shows "pt_wf (store64 m (t + 8 * word_of_nat i) v) root pm"
proof -
  let ?m = "store64 m (t + 8 * word_of_nat i) v"
  have tbl: "tbl ?m root q = tbl m root q" if "path_ok q" for q
    by (rule leaf_store_tbl[OF wf p that])
  have ent: "ent ?m u j = ent m u j" if "path_ok q" "length q \<le> 2" "tbl m root q = Some u" "j < 512" for q u j
    using leaf_store_pte[OF wf p that(1,4), of v] tbl[OF that(1)] that(2,3) p(2) by auto
  show ?thesis
    using wf unfolding pt_wf_def by (simp add: tbl ent del: tbl.simps)
qed

lemma leaf_store_xlate:
  fixes v :: u64
  assumes wf: "pt_wf m root pm" and p: "tbl m root (path1 va) = Some t"
  defines "m' \<equiv> store64 m (t + 8 * word_of_nat (idx1 va)) v"
  shows "same_page va vb \<Longrightarrow> xlate m' root vb =
      walk (pte m root (path3 va)) (pte m root (path2 va)) (pte m root (path1 va)) v vb"
    and "\<not> same_page va vb \<Longrightarrow> xlate m' root vb = xlate m root vb"
proof -
  have wf': "pt_wf m' root pm" and
    pte': "pte m' root (j # q) = (if q = path1 va \<and> j = idx1 va then v else pte m root (j # q))"
    if "path_ok q" "j < 512" for q j
    unfolding m'_def using leaf_store_wf[OF wf _ _ p] leaf_store_pte[OF wf _ _ p _ that] by simp_all
  note [simp del] = pte.simps tbl.simps
  have w: "pt_wf m' root pm" using wf'[of "[]" 0] by simp
  have e: "pte m' root (path3 vb) = pte m root (path3 vb)"
    "pte m' root (path2 vb) = pte m root (path2 vb)" "pte m' root (path1 vb) = pte m root (path1 vb)"
    using pte'[of "[]" "idx4 vb"] pte'[of "path3 vb" "idx3 vb"] pte'[of "path2 vb" "idx2 vb"] by simp_all
  show "same_page va vb \<Longrightarrow> xlate m' root vb =
      walk (pte m root (path3 va)) (pte m root (path2 va)) (pte m root (path1 va)) v vb"
    unfolding xlate_pte[OF w] e using pte'[of "path1 vb" "idx1 vb"] by (simp add: same_page_def)
  show "\<not> same_page va vb \<Longrightarrow> xlate m' root vb = xlate m root vb"
    unfolding xlate_pte[OF w] xlate_pte[OF wf] e using pte'[of "path1 vb" "idx1 vb"]
    by (auto simp: same_page_def)
qed

lemma linked_walk:
  assumes "tbl m root (path1 va) = Some t"
  shows "walk (pte m root (path3 va)) (pte m root (path2 va)) (pte m root (path1 va)) v vb =
    (if present v
     then Some \<lparr>tr_phys = (v AND PTE_ADDR_MASK) + (vb AND 0xFFF),
                tr_write = (writable (pte m root (path3 va)) \<and> writable (pte m root (path2 va))
                            \<and> writable (pte m root (path1 va)) \<and> writable v),
                tr_user = (user (pte m root (path3 va)) \<and> user (pte m root (path2 va))
                           \<and> user (pte m root (path1 va)) \<and> user v)\<rparr>
     else None)"
proof -
  obtain t2 where "tbl m root (path2 va) = Some t2"
    using assms by (auto split: option.splits)
  then have "\<not> is_large (pte m root (path2 va))" "\<not> is_large (pte m root (path1 va))"
    using link_above assms by blast+
  then show ?thesis by (simp only: walk_def if_False)
qed

end
