(* ===== verification/Vmm_Correct.thy ===== *)
theory Vmm_Correct
  imports Vmm_Walk
begin

text \<open>
  Correctness of the operations of the virtual memory manager against the hardware translation:
  what mapping, unmapping, querying and changing flags do to the translation of every address,
  when they fail, and that they keep the page tables well formed.
\<close>

section \<open>Steps that change tables but no translation\<close>

definition tables_step :: "nat \<Rightarrow> 'a vmm_state_scheme \<Rightarrow> 'a vmm_state_scheme \<Rightarrow> bool" where
  "tables_step n s s' \<longleftrightarrow>
     vmm_wf s' \<and> (\<exists>m pm. s' = s\<lparr>mem := m, pmm := pm\<rparr>)
     \<and> (\<forall>va. xlate (mem s') (s_pml4_virt s) va = xlate (mem s) (s_pml4_virt s) va)
     \<and> (\<forall>q t. path_ok q \<longrightarrow> tbl (mem s) (s_pml4_virt s) q = Some t
          \<longrightarrow> tbl (mem s') (s_pml4_virt s) q = Some t)
     \<and> (\<forall>x. (\<forall>q t. path_ok q \<longrightarrow> tbl (mem s') (s_pml4_virt s) q = Some t \<longrightarrow> \<not> unat (x - t) < 4096)
          \<longrightarrow> mem s' x = mem s x)
     \<and> (\<forall>q t. path_ok q \<longrightarrow> tbl (mem s') (s_pml4_virt s) q = Some t
          \<longrightarrow> tbl (mem s) (s_pml4_virt s) q = Some t \<or> t \<in> free_frames (pmm s))
     \<and> free_frames (pmm s') \<subseteq> free_frames (pmm s)
     \<and> card (free_frames (pmm s)) \<le> card (free_frames (pmm s')) + n"

lemma tables_step_refl: "vmm_wf s \<Longrightarrow> tables_step n s s"
  unfolding tables_step_def by (auto intro!: exI[of _ "mem s"] exI[of _ "pmm s"])

lemma tables_stepD:
  assumes "tables_step n s s'"
  shows "vmm_wf s'" "s_pml4_virt s' = s_pml4_virt s"
    "\<And>va. xlate (mem s') (s_pml4_virt s) va = xlate (mem s) (s_pml4_virt s) va"
    "\<And>q t. path_ok q \<Longrightarrow> tbl (mem s) (s_pml4_virt s) q = Some t
       \<Longrightarrow> tbl (mem s') (s_pml4_virt s) q = Some t"
    "free_frames (pmm s') \<subseteq> free_frames (pmm s)"
    "card (free_frames (pmm s)) \<le> card (free_frames (pmm s')) + n"
    "\<And>q t. path_ok q \<Longrightarrow> tbl (mem s') (s_pml4_virt s) q = Some t
       \<Longrightarrow> tbl (mem s) (s_pml4_virt s) q = Some t \<or> t \<in> free_frames (pmm s)"
  using assms unfolding tables_step_def by auto

lemma tables_step_trans:
  assumes "tables_step n s s'" "tables_step k s' s''"
  shows "tables_step (n + k) s s''"
proof -
  note a = assms(1)[unfolded tables_step_def] and b = assms(2)[unfolded tables_step_def]
  have root: "s_pml4_virt s' = s_pml4_virt s" using a by auto
  obtain m pm m' pm' where "s' = s\<lparr>mem := m, pmm := pm\<rparr>" "s'' = s'\<lparr>mem := m', pmm := pm'\<rparr>"
    using a b by blast
  then have eq: "\<exists>m pm. s'' = s\<lparr>mem := m, pmm := pm\<rparr>" by auto
  have frame: "mem s'' x = mem s x"
    if "\<forall>q t. path_ok q \<longrightarrow> tbl (mem s'') (s_pml4_virt s) q = Some t \<longrightarrow> \<not> unat (x - t) < 4096" for x
    using a b that unfolding root by metis
  show ?thesis
    unfolding tables_step_def
  proof (intro conjI allI impI)
    show "vmm_wf s''" using b by blast
    show "\<exists>m pm. s'' = s\<lparr>mem := m, pmm := pm\<rparr>" by (rule eq)
    show "free_frames (pmm s'') \<subseteq> free_frames (pmm s)" using a b by (meson subset_trans)
    show "card (free_frames (pmm s)) \<le> card (free_frames (pmm s'')) + (n + k)" using a b by linarith
    fix va show "xlate (mem s'') (s_pml4_virt s) va = xlate (mem s) (s_pml4_virt s) va"
      using a b unfolding root by metis
  next
    fix q t assume "path_ok q" "tbl (mem s) (s_pml4_virt s) q = Some t"
    then show "tbl (mem s'') (s_pml4_virt s) q = Some t" using a b unfolding root by metis
  next
    fix q t assume "path_ok q" "tbl (mem s'') (s_pml4_virt s) q = Some t"
    then show "tbl (mem s) (s_pml4_virt s) q = Some t \<or> t \<in> free_frames (pmm s)"
      using a b unfolding root by (metis subsetD)
  qed (rule frame)
qed

lemma tables_step_mono: "tables_step n s s' \<Longrightarrow> n \<le> k \<Longrightarrow> tables_step k s s'"
  unfolding tables_step_def by auto

lemma vmm_upd_swap: "s\<lparr>pmm := pm, mem := m\<rparr> = s\<lparr>mem := m, pmm := pm\<rparr>"
  by simp

lemma slot_in_page:
  assumes "i < 512" "unat (y - (t + 8 * word_of_nat i) :: u64) < 8"
  shows "unat (y - t) < 4096"
proof -
  let ?d = "y - (t + 8 * word_of_nat i)"
  have y: "y - t = ?d + word_of_nat (8 * i)" by simp
  have "unat ?d + 8 * i < 4096" using assms by linarith
  then have "unat (?d + word_of_nat (8 * i)) = unat ?d + 8 * i"
    by (intro unat_add_nat64) simp
  then show ?thesis unfolding y using assms by linarith
qed

section \<open>Linking a fresh frame\<close>

lemma frame_alloc_cases:
  assumes "pmm_inv (pmm s)" "frame_alloc s = (f, s1)"
  obtains "f = 0" "s1 = s" "free_frames (pmm s) = {}"
  | pm where "f \<noteq> 0" "s1 = s\<lparr>pmm := pm\<rparr>" "f \<in> free_frames (pmm s)"
      "free_frames pm = free_frames (pmm s) - {f}" "pmm_inv pm" "aligned 12 f" "unat f < 4294967296"
proof (cases "free_frames (pmm s) = {}")
  case True
  then show ?thesis
    using that(1) assms(2) pa.alloc_none[OF assms(1)] by (simp add: frame_alloc_def)
next
  case False
  have eq: "f = fst (pmm_alloc_page (pmm s))" "s1 = s\<lparr>pmm := snd (pmm_alloc_page (pmm s))\<rparr>"
    using assms(2) by (auto simp: frame_alloc_def split: prod.splits)
  show ?thesis
    using that(2)[OF _ eq(2)] pa.alloc_some[OF assms(1) False] pa.alloc_inv[OF assms(1)]
      pa.frame_ok[OF assms(1), of f] unfolding eq(1) by blast
qed

lemma link_frame_grown:
  assumes wf: "pt_wf m root pm" and p: "path_ok (i # p)" "tbl m root p = Some t" "\<not> is_link (ent m t i)"
    and f: "f \<in> free_frames pm" "aligned 12 f" "unat f < 4294967296"
    and m1: "\<And>x. \<not> unat (x - f) < 4096 \<Longrightarrow> m1 x = m x" "\<And>j. j < 512 \<Longrightarrow> ent m1 f j = g j"
    and w: "w AND PTE_ADDR_MASK = 0" "present w" "\<not> is_large w"
    and g: "length p = 2 \<or> (\<forall>j < 512. g j = 0)"
  shows "grown m root pm p i f g (store64 m1 (t + 8 * word_of_nat i) (f OR w))"
proof -
  let ?m = "store64 m1 (t + 8 * word_of_nat i) (f OR w)"
  have t: "aligned 12 t" "t \<noteq> f" and i: "i < 512"
    using pt_wfD[OF wf _ p(2)] p(1) f(1) by auto
  have flags: "(f OR w) AND v = w AND v" if "v AND mask 12 = v" for v
    by (rule frame_low_bits[OF f(2) that])
  have link: "is_link (f OR w)"
    using w flags[of VMM_PRESENT] flags[of VMM_PS]
    by (simp add: is_link_def mask_eq_exp_minus_1)
  have other: "ent ?m u j = ent m u j"
    if "aligned 12 u" "j < 512" "u \<noteq> f" "\<not> (u = t \<and> j = i)" for u j
  proof -
    have "ent ?m u j = ent m1 u j"
      using ent_store[OF t(1) that(1) i that(2)] that(4) by auto
    also have "\<dots> = ent m u j"
      using that pages_disjoint[OF that(1) f(2) that(3)] by (intro ent_cong_page m1) auto
    finally show ?thesis .
  qed
  have "ent ?m f j = g j" if "j < 512" for j
    using ent_store[OF t(1) f(2) i that] m1(2)[OF that] t(2) by auto
  moreover have "ent ?m t i = f OR w"
    using ent_store[OF t(1,1) i i] by simp
  ultimately show ?thesis
    unfolding grown_def using wf p f(1) link frame_entry[OF f(2,3) w(1)] g other
    by (intro conjI exI[of _ t]) auto
qed

lemma grown_tables_step:
  assumes g: "grown (mem s) (s_pml4_virt s) (pmm s) p i f g m'"
    and wf: "pt_wf m' (s_pml4_virt s) pm"
    and x: "\<And>va. xlate m' (s_pml4_virt s) va = xlate (mem s) (s_pml4_virt s) va"
    and pm: "free_frames pm = free_frames (pmm s) - {f}"
    and frame: "\<And>y t. tbl (mem s) (s_pml4_virt s) p = Some t \<Longrightarrow> \<not> unat (y - f) < 4096
      \<Longrightarrow> \<not> unat (y - t) < 4096 \<Longrightarrow> m' y = mem s y"
  shows "tables_step 1 s (s\<lparr>mem := m', pmm := pm\<rparr>)"
proof -
  have p: "path_ok p" "path_ok (i # p)" using g by (auto simp: grown_def)
  obtain t where t: "tbl (mem s) (s_pml4_virt s) p = Some t" using grown_slot[OF g] by auto
  have kept: "tbl m' (s_pml4_virt s) q = Some u"
    if "path_ok q" "tbl (mem s) (s_pml4_virt s) q = Some u" for q u
    using grown_tbl[OF g that(1)] that(2) grown_tbl_old_child[OF g, of "i # p"] by auto
  have "m' y = mem s y"
    if "\<forall>q t. path_ok q \<longrightarrow> tbl m' (s_pml4_virt s) q = Some t \<longrightarrow> \<not> unat (y - t) < 4096" for y
    using that grown_tbl_new[OF g] p kept[OF p(1) t] by (intro frame[OF t]) blast+
  moreover have "card (free_frames (pmm s)) \<le> card (free_frames pm) + 1"
    using pm pa.frames_finite[of "pmm s"] by (simp add: card_Diff_singleton_if) arith
  moreover have "tbl (mem s) (s_pml4_virt s) q = Some u \<or> u \<in> free_frames (pmm s)"
    if "path_ok q" "tbl m' (s_pml4_virt s) q = Some u" for q u
    using grown_tbl[OF g that(1)] that(2) g by (auto simp: grown_def split: if_splits)
  ultimately show ?thesis
    unfolding tables_step_def using wf x pm kept by auto
qed

section \<open>Table access\<close>

definition slot_large :: "memory \<Rightarrow> u64 \<Rightarrow> nat list \<Rightarrow> bool" where
  "slot_large m root q \<longleftrightarrow> is_large (pte m root q)"

lemma get_table_link:
  assumes "tbl (mem s) root p = Some t" "tbl (mem s) root (i # p) = Some u"
  shows "get_table ps alloc (t + 8 * word_of_nat i) s = (u, s)"
  using assms by (auto simp: get_table_def ent_def is_link_def Let_def split: if_splits)

lemma get_table_find:
  assumes wf: "vmm_wf s" and p: "path_ok (i # p)" "tbl (mem s) (s_pml4_virt s) p = Some t"
    and ps: "ps \<or> p = []"
  shows "get_table ps False (t + 8 * word_of_nat i) s =
    (case tbl (mem s) (s_pml4_virt s) (i # p) of None \<Rightarrow> 0 | Some u \<Rightarrow> u, s)"
proof -
  have "is_large (ent (mem s) t i) \<Longrightarrow> ps"
    using pt_wf_large(2)[OF wf _ _ p(2), of i] p(1) ps by auto
  then show ?thesis
    using p(2) by (auto simp: get_table_def ent_def is_link_def Let_def)
qed

lemma tables_flag_masks:
  "(VMM_PRESENT OR VMM_WRITE) AND PTE_ADDR_MASK = 0" "present (VMM_PRESENT OR VMM_WRITE)"
  "\<not> is_large (VMM_PRESENT OR VMM_WRITE)"
  by simp_all

lemma get_table_alloc:
  assumes wf: "vmm_wf s" and p: "path_ok (i # p)" "tbl (mem s) (s_pml4_virt s) p = Some t"
    and ps: "ps \<or> p = []"
    and eq: "get_table ps True (t + 8 * word_of_nat i) s = (r, s')"
  shows "tables_step 1 s s'
    \<and> (if r = 0 then s' = s \<and> (is_large (pte (mem s) (s_pml4_virt s) (i # p)) \<or> free_frames (pmm s) = {})
       else tbl (mem s') (s_pml4_virt s) (i # p) = Some r)
    \<and> (tbl (mem s) (s_pml4_virt s) (i # p) \<noteq> None \<longrightarrow> s' = s)"
proof -
  let ?e = "ent (mem s) t i" and ?root = "s_pml4_virt s"
  have e: "pte (mem s) ?root (i # p) = ?e" using p(2) by simp
  have inv: "pmm_inv (pmm s)" using wf by (simp add: pt_wf_def)
  have large: "is_large ?e \<Longrightarrow> ps \<and> present ?e"
    using pt_wf_large[OF wf _ _ p(2), of i] p(1) ps by auto
  consider (large) "is_large ?e" | (link) "is_link ?e" | (absent) "\<not> present ?e" "\<not> is_large ?e"
    by (auto simp: is_link_def)
  then show ?thesis
  proof cases
    case large
    then have "(r, s') = (0, s)"
      using eq \<open>is_large ?e \<Longrightarrow> ps \<and> present ?e\<close> by (simp add: get_table_def ent_def Let_def)
    then show ?thesis using large e p(2) tables_step_refl[OF wf] by (simp add: is_link_def)
  next
    case link
    then have u: "tbl (mem s) ?root (i # p) = Some (?e AND PTE_ADDR_MASK)" using p(2) by simp
    have "(r, s') = (?e AND PTE_ADDR_MASK, s)"
      by (rule trans[OF eq[symmetric] get_table_link[OF p(2) u]])
    then show ?thesis
      using u pt_wfD(1)[OF wf p(1) u] tables_step_refl[OF wf] by simp
  next
    case absent
    obtain f s1 where a: "frame_alloc s = (f, s1)" by fastforce
    from inv a show ?thesis
    proof (cases rule: frame_alloc_cases)
      case 1
      then have "(r, s') = (0, s)"
        using eq absent a by (simp add: get_table_def ent_def Let_def)
      then show ?thesis using 1 tables_step_refl[OF wf] by simp
    next
      case (2 pm)
      let ?m1 = "memset8 (mem s) f 0 4096"
      let ?m = "store64 ?m1 (t + 8 * word_of_nat i) (f OR (VMM_PRESENT OR VMM_WRITE))"
      have "\<not> is_link ?e" using absent by (simp add: is_link_def)
      then have g: "grown (mem s) ?root (pmm s) p i f (\<lambda>_. 0) ?m"
        by (intro link_frame_grown[OF wf p _ 2(3,6,7)] tables_flag_masks ent_memset_same)
          (simp_all add: memset8_apply)
      have wf': "pt_wf ?m ?root pm"
        using grown_slot[OF g] p(2) by (intro grown_wf[OF g 2(5,4,1,6,7)]) (auto simp: is_link_def)
      have x: "xlate ?m ?root va = xlate (mem s) ?root va" for va
        using absent e by (intro grown_empty_xlate[OF g wf']) simp
      have frame: "?m y = mem s y" if "\<not> unat (y - f) < 4096" "\<not> unat (y - t) < 4096" for y
      proof -
        have "\<not> unat (y - (t + 8 * word_of_nat i)) < 8"
          using that(2) slot_in_page[of i y t] p(1) by auto
        then show ?thesis using that(1) by (simp add: store64_def memset8_apply)
      qed
      have step: "tables_step 1 s (s\<lparr>mem := ?m, pmm := pm\<rparr>)"
        using frame p(2) by (intro grown_tables_step[OF g wf' x 2(4)]) auto
      have s': "s' = s\<lparr>mem := ?m, pmm := pm\<rparr>" "r = f"
        using eq absent a 2(1,2) frame_entry[OF 2(6,7) tables_flag_masks(1)]
        by (auto simp: get_table_def ent_def clear_page_def poke64_def Let_def vmm_upd_swap)
      show ?thesis
        unfolding s' using step 2(1) grown_tbl_new[OF g] grown_tbl_old_child[OF g, of "i # p"] by simp
    qed
  qed
qed

lemma get_pdpte_slot: "get_pdpte va alloc s = get_table False alloc (s_pml4_virt s + 8 * word_of_nat (idx4 va)) s"
  by (simp add: get_pdpte_def idx_word)

lemma get_pd_find:
  assumes "vmm_wf s"
  shows "get_pd va False s = (case tbl (mem s) (s_pml4_virt s) (path2 va) of None \<Rightarrow> 0 | Some u \<Rightarrow> u, s)"
proof -
  have "get_pdpte va False s = (case tbl (mem s) (s_pml4_virt s) (path3 va) of None \<Rightarrow> 0 | Some u \<Rightarrow> u, s)"
    unfolding get_pdpte_slot by (rule get_table_find[OF assms]) simp_all
  moreover have "get_table True False (t + 8 * word_of_nat (idx3 va)) s =
      (case tbl (mem s) (s_pml4_virt s) (path2 va) of None \<Rightarrow> 0 | Some u \<Rightarrow> u, s)"
    if "tbl (mem s) (s_pml4_virt s) (path3 va) = Some t" for t
    by (rule get_table_find[OF assms _ that]) simp_all
  moreover have "t \<noteq> 0" if "tbl (mem s) (s_pml4_virt s) (path3 va) = Some t" for t
    using pt_wfD(1)[OF assms _ that] by simp
  ultimately show ?thesis
    by (cases "tbl (mem s) (s_pml4_virt s) (path3 va)")
      (simp_all add: get_pd_def idx_word Let_def del: tbl.simps(2), simp)
qed

lemma get_pt_find:
  assumes "vmm_wf s"
  shows "get_pt va False s = (case tbl (mem s) (s_pml4_virt s) (path1 va) of None \<Rightarrow> 0 | Some u \<Rightarrow> u, s)"
proof -
  have "get_table True False (t + 8 * word_of_nat (idx2 va)) s =
      (case tbl (mem s) (s_pml4_virt s) (path1 va) of None \<Rightarrow> 0 | Some u \<Rightarrow> u, s)"
    if "tbl (mem s) (s_pml4_virt s) (path2 va) = Some t" for t
    by (rule get_table_find[OF assms _ that]) simp_all
  moreover have "t \<noteq> 0" if "tbl (mem s) (s_pml4_virt s) (path2 va) = Some t" for t
    using pt_wfD(1)[OF assms _ that] by simp
  ultimately show ?thesis
    by (cases "tbl (mem s) (s_pml4_virt s) (path2 va)")
      (simp_all add: get_pt_def get_pd_find[OF assms] idx_word Let_def del: tbl.simps(2), simp)
qed

lemma get_pd_alloc:
  assumes wf: "vmm_wf s" and eq: "get_pd va True s = (r, s')"
  shows "tables_step 2 s s'
    \<and> (if r = 0 then is_large (pte (mem s) (s_pml4_virt s) (path2 va)) \<or> card (free_frames (pmm s)) < 2
       else tbl (mem s') (s_pml4_virt s) (path2 va) = Some r)"
proof -
  note [simp del] = tbl.simps(2) pte.simps(2)
  obtain r1 s1 where a: "get_pdpte va True s = (r1, s1)" by fastforce
  have top: "\<not> is_large (pte (mem s) (s_pml4_virt s) (path3 va))"
    using pt_wf_large(2)[OF wf, of "[]" "s_pml4_virt s" "idx4 va"] by (auto simp: pte.simps)
  have one: "tables_step 1 s s1
    \<and> (if r1 = 0 then s1 = s \<and> free_frames (pmm s) = {}
       else tbl (mem s1) (s_pml4_virt s) (path3 va) = Some r1)
    \<and> (tbl (mem s) (s_pml4_virt s) (path3 va) \<noteq> None \<longrightarrow> s1 = s)"
    using get_table_alloc[OF wf _ _ _ a[unfolded get_pdpte_slot]] top by (auto simp: tbl.simps(1))
  show ?thesis
  proof (cases "r1 = 0")
    case True
    then have "(r, s') = (0, s)" using eq a one by (simp add: get_pd_def)
    then show ?thesis using True one tables_step_refl[OF wf, of 2] by simp
  next
    case False
    let ?root = "s_pml4_virt s"
    have t: "tbl (mem s1) ?root (path3 va) = Some r1" and root: "s_pml4_virt s1 = ?root"
      and step: "tables_step 1 s s1" using False one tables_stepD(2) by auto
    have b: "get_table True True (r1 + 8 * word_of_nat (idx3 va)) s1 = (r, s')"
      using eq a False by (simp add: get_pd_def idx_word)
    have two: "tables_step 1 s1 s'
      \<and> (if r = 0 then s' = s1 \<and> (is_large (pte (mem s1) ?root (path2 va)) \<or> free_frames (pmm s1) = {})
         else tbl (mem s') ?root (path2 va) = Some r)"
      using get_table_alloc[OF tables_stepD(1)[OF step] _ t[folded root] _ b] root by (auto split: if_splits)
    have "tables_step 2 s s'" using tables_step_trans[OF step conjunct1[OF two]] by (simp add: numeral_2_eq_2)
    moreover have "is_large (pte (mem s) ?root (path2 va)) \<or> card (free_frames (pmm s)) < 2" if "r = 0"
    proof (cases "free_frames (pmm s1) = {}")
      case True
      then show ?thesis using tables_stepD(6)[OF step] by simp
    next
      case nonempty: False
      then have large: "is_large (pte (mem s1) ?root (path2 va))" using two that by simp
      show ?thesis
      proof (cases "tbl (mem s) ?root (path3 va)")
        case None
        have "tbl (mem s) ?root (path2 va) = None" using None by (simp add: tbl.simps(2))
        have "xlate (mem s) ?root va = None"
          using None wf top by (simp add: xlate_pte[OF wf] walk_def pte.simps tbl.simps)
        moreover have "xlate (mem s1) ?root va \<noteq> None"
          using large tables_stepD(1)[OF step] root by (auto simp: xlate_pte[of _ _ "pmm s1"] walk_def)
        ultimately show ?thesis using tables_stepD(3)[OF step] by metis
      qed (use one large in auto)
    qed
    ultimately show ?thesis using two by auto
  qed
qed

lemma get_pt_alloc:
  assumes wf: "vmm_wf s" and pd: "tbl (mem s) (s_pml4_virt s) (path2 va) = Some pd"
    and eq: "get_pt va True s = (r, s')"
  shows "tables_step 1 s s'
    \<and> (if r = 0 then s' = s \<and> (is_large (pte (mem s) (s_pml4_virt s) (path1 va)) \<or> free_frames (pmm s) = {})
       else tbl (mem s') (s_pml4_virt s) (path1 va) = Some r)"
proof -
  obtain t where t: "tbl (mem s) (s_pml4_virt s) (path3 va) = Some t"
    using pd by (auto split: option.splits)
  have "get_pdpte va True s = (t, s)"
    unfolding get_pdpte_slot by (rule get_table_link[OF _ t]) simp
  moreover have "t \<noteq> 0" "pd \<noteq> 0"
    using pt_wfD(1)[OF wf _ t] pt_wfD(1)[OF wf _ pd] by simp_all
  moreover have "get_table True True (t + 8 * word_of_nat (idx3 va)) s = (pd, s)"
    by (rule get_table_link[OF t pd])
  ultimately have "get_table True True (pd + 8 * word_of_nat (idx2 va)) s = (r, s')"
    using eq by (simp add: get_pt_def get_pd_def idx_word)
  then show ?thesis
    using get_table_alloc[OF wf _ pd, of "idx2 va" True r s'] by (auto simp del: tbl.simps(2) pte.simps(2) split: if_splits)
qed

lemma and_user: "pde AND VMM_USER = (if bit pde 2 then VMM_USER else 0)"
proof (rule bit_word_eqI)
  fix n
  have "bit VMM_USER n \<longleftrightarrow> n = 2"
    using bit_exp_iff[where ?'a = "64 word", of 2 n] by auto
  then show "bit (pde AND VMM_USER) n = bit (if bit pde 2 then VMM_USER else 0) n"
    unfolding bit_and_iff by auto
qed

lemma fill64_outside:
  assumes "n \<le> 512" "\<not> unat (x - p) < 4096"
  shows "fill64 m p g n x = m x"
  using assms
proof (induction n)
  case (Suc n)
  then have "\<not> unat (x - (p + 8 * word_of_nat n)) < 8" using slot_in_page[of n x p] by auto
  then show ?case using Suc by (simp add: store64_def)
qed simp

lemma split_large_correct:
  assumes wf: "vmm_wf s" and pd: "tbl (mem s) (s_pml4_virt s) (path2 va) = Some pd"
    and pde: "pde = ent (mem s) pd (idx2 va)" "is_large pde"
    and eq: "split_large (pd + 8 * word_of_nat (idx2 va)) pde s = (r, s')"
  shows "tables_step 1 s s'
    \<and> (if r = 0 then \<exists>pt. tbl (mem s') (s_pml4_virt s) (path1 va) = Some pt
       else s' = s \<and> free_frames (pmm s) = {})"
proof -
  let ?root = "s_pml4_virt s" and ?slot = "pd + 8 * word_of_nat (idx2 va)"
  have e: "pte (mem s) ?root (path1 va) = pde" using pd pde by simp
  have inv: "pmm_inv (pmm s)" using wf by (simp add: pt_wf_def)
  obtain f s1 where a: "frame_alloc s = (f, s1)" by fastforce
  from inv a show ?thesis
  proof (cases rule: frame_alloc_cases)
    case 1
    then have "(r, s') = (- 1, s)" using eq a by (simp add: split_large_def)
    then show ?thesis using 1 tables_step_refl[OF wf] by simp
  next
    case (2 pm)
    let ?w = "VMM_PRESENT OR VMM_WRITE OR (pde AND VMM_USER)"
    let ?m1 = "fill64 (memset8 (mem s) f 0 4096) f (split_entry pde) 512"
    let ?m = "store64 ?m1 ?slot (f OR ?w)"
    have w: "?w AND PTE_ADDR_MASK = 0" "present ?w" "\<not> is_large ?w" "writable ?w" "user ?w = user pde"
      by (cases "bit pde 2"; simp add: and_user)+
    have "present pde"
      using pt_wf_large(1)[OF wf _ _ pd] pde by simp
    have "\<not> is_link pde" using pde(2) by (simp add: is_link_def)
    moreover have "ent ?m1 f j = split_entry pde j" if "j < 512" for j
      unfolding ent_def using that aligned_mono[OF 2(6), of 3] by (intro load64_fill64_same) simp_all
    ultimately have g: "grown (mem s) ?root (pmm s) (path2 va) (idx2 va) f (split_entry pde) ?m"
      using pde(1) by (intro link_frame_grown[OF wf _ pd _ 2(3,6,7)] w(1-3))
        (simp_all add: fill64_outside memset8_apply)
    obtain t where t: "pte ?m ?root (path1 va) = ent ?m t (idx2 va)" "tbl (mem s) ?root (path2 va) = Some t"
      "\<not> is_large (ent ?m t (idx2 va))"
      using grown_slot[OF g] by (auto simp: is_link_def)
    have link: "pte ?m ?root (path1 va) = f OR ?w"
      using t(1,2) pd ent_store[of pd pd "idx2 va" "idx2 va"] pt_wfD(2)[OF wf _ pd] by simp
    have wf': "pt_wf ?m ?root pm"
      using t(2,3) by (intro grown_wf[OF g 2(5,4,1,6,7)]) auto
    have flags: "writable (f OR ?w) = writable ?w" "user (f OR ?w) = user ?w"
      using frame_low_bits[OF 2(6)] by (simp_all add: mask_eq_exp_minus_1)
    have x: "xlate ?m ?root vb = xlate (mem s) ?root vb" for vb
      using w(4,5) by (intro grown_split_xlate[OF g wf' _ e pde(2)]) (simp_all only: link flags, simp_all)
    have frame: "?m y = mem s y" if "\<not> unat (y - f) < 4096" "\<not> unat (y - pd) < 4096" for y
    proof -
      have "\<not> unat (y - ?slot) < 8" using that(2) slot_in_page[of "idx2 va" y pd] by auto
      then show ?thesis using that(1) by (simp add: store64_def fill64_outside memset8_apply)
    qed
    have step: "tables_step 1 s (s\<lparr>mem := ?m, pmm := pm\<rparr>)"
      using frame pd by (intro grown_tables_step[OF g wf' x 2(4)]) auto
    have s': "s' = s\<lparr>mem := ?m, pmm := pm\<rparr>" "r = 0"
      using eq a 2(1,2)
      by (auto simp: split_large_def clear_page_def poke64_def Let_def vmm_upd_swap split_entry_def[abs_def] or.assoc)
    show ?thesis
      unfolding s' using step grown_tbl_new[OF g] by (simp del: tbl.simps)
  qed
qed

section \<open>Mapping a page\<close>

declare tbl.simps(2) [simp del] pte.simps(2) [simp del]

lemma get_pt_link:
  assumes wf: "vmm_wf s" and pt: "tbl (mem s) (s_pml4_virt s) (path1 va) = Some pt"
  shows "get_pt va alloc s = (pt, s)"
proof -
  obtain t pd where t: "tbl (mem s) (s_pml4_virt s) (path3 va) = Some t"
    and pd: "tbl (mem s) (s_pml4_virt s) (path2 va) = Some pd"
    using pt by (auto simp: tbl.simps split: option.splits)
  have "get_pdpte va alloc s = (t, s)"
    unfolding get_pdpte_slot by (rule get_table_link[OF _ t]) simp
  moreover have "t \<noteq> 0" "pd \<noteq> 0"
    using pt_wfD(1)[OF wf _ t] pt_wfD(1)[OF wf _ pd] by simp_all
  ultimately show ?thesis
    by (simp add: get_pt_def get_pd_def idx_word get_table_link[OF t pd] get_table_link[OF pd pt])
qed

text \<open>The part of \<^verbatim>\<open>vmm_map_page\<close> that makes a last-level table available.\<close>

lemma map_page_table:
  assumes wf: "vmm_wf s" and pd: "tbl (mem s) (s_pml4_virt s) (path2 va) = Some pd"
    and split: "(if is_large (ent (mem s) pd (idx2 va))
              then split_large (pd + 8 * word_of_nat (idx2 va)) (ent (mem s) pd (idx2 va)) s
              else (0, s)) = (err, s1)"
    and get: "get_pt va True s1 = (pt, s2)"
  shows "if err \<noteq> 0 \<or> pt = 0 then tables_step 1 s s1 \<and> free_frames (pmm s) = {} \<and> (err \<noteq> 0 \<or> tables_step 1 s s2)
    else tables_step 1 s s2 \<and> tbl (mem s2) (s_pml4_virt s) (path1 va) = Some pt"
proof (cases "is_large (ent (mem s) pd (idx2 va))")
  case True
  then have sp: "tables_step 1 s s1
    \<and> (if err = 0 then \<exists>pt. tbl (mem s1) (s_pml4_virt s) (path1 va) = Some pt
       else s1 = s \<and> free_frames (pmm s) = {})"
    using split_large_correct[OF wf pd refl True] split by simp
  show ?thesis
  proof (cases "err = 0")
    case ok: True
    then obtain u where u: "tbl (mem s1) (s_pml4_virt s) (path1 va) = Some u" using sp by auto
    have wf1: "vmm_wf s1" "s_pml4_virt s1 = s_pml4_virt s" using sp tables_stepD(1,2) by auto
    then have "(pt, s2) = (u, s1)" using get get_pt_link[of s1 va u True] u by simp
    then show ?thesis using ok u sp pt_wfD(1)[OF wf1(1) _ u[folded wf1(2)]] by simp
  qed (use sp in auto)
next
  case False
  then have s1: "s1 = s" "err = 0" using split by simp_all
  have "\<not> is_large (pte (mem s) (s_pml4_virt s) (path1 va))" using False pd by (simp add: pte.simps)
  then show ?thesis
    using get_pt_alloc[OF wf pd get[unfolded s1]] s1 by (auto split: if_splits)
qed

lemma leaf_value: "((phys AND PAGE_MASK) AND PTE_ADDR_MASK) OR (flags AND 0xFFF AND NOT VMM_XD)
    = (phys AND PTE_ADDR_MASK) OR (flags AND 0xFFF)"
proof (rule bit_word_eqI)
  fix n
  have "VMM_XD = push_bit 63 1" by (simp add: push_bit_eq_mult)
  then have "bit VMM_XD n \<longleftrightarrow> n = 63" by (simp only: bit_push_bit_iff) (auto simp: bit_1_iff)
  then show "bit (((phys AND PAGE_MASK) AND PTE_ADDR_MASK) OR (flags AND 0xFFF AND NOT VMM_XD)) n
      = bit ((phys AND PTE_ADDR_MASK) OR (flags AND 0xFFF)) n"
    unfolding bit_or_iff bit_and_iff bit_PAGE_MASK bit_PTE_ADDR_MASK bit_not_iff bit_masks by auto
qed

lemma leaf_value_frame: "((phys AND PTE_ADDR_MASK) OR (flags AND 0xFFF)) AND PTE_ADDR_MASK = phys AND PTE_ADDR_MASK"
  by (rule bit_word_eqI) (simp only: bit_or_iff bit_and_iff bit_PTE_ADDR_MASK bit_masks, auto)

lemma leaf_value_flag:
  "k < 12 \<Longrightarrow> bit ((phys AND PTE_ADDR_MASK) OR (flags AND 0xFFF)) k = bit flags k"
  by (simp only: bit_or_iff bit_and_iff bit_PTE_ADDR_MASK bit_masks, auto)

abbreviation leaf_entry :: "u64 \<Rightarrow> u64 \<Rightarrow> u64" where
  "leaf_entry phys flags \<equiv> (phys AND PTE_ADDR_MASK) OR (flags AND 0xFFF)"

lemma vmm_map_page_steps:
  assumes wf: "vmm_wf s" and eq: "vmm_map_page phys virt flags s = (r, s')"
  shows "(r = 0 \<and> (\<exists>s1 pt. tables_step 3 s s1 \<and> tbl (mem s1) (s_pml4_virt s) (path1 virt) = Some pt
            \<and> s' = poke64 (pt + 8 * word_of_nat (idx1 virt)) (leaf_entry phys flags) s1))
    \<or> (r = - 1 \<and> tables_step 3 s s'
        \<and> (is_large (pte (mem s) (s_pml4_virt s) (path2 virt)) \<or> card (free_frames (pmm s)) < 3))"
proof -
  note [simp del] = tbl.simps(2) pte.simps(2)
  let ?root = "s_pml4_virt s"
  define v where "v = virt AND PAGE_MASK"
  have idx: "idx4 v = idx4 virt" "idx3 v = idx3 virt" "idx2 v = idx2 virt" "idx1 v = idx1 virt"
    unfolding v_def by (rule idx_page_mask)+
  obtain pd s1 where a: "get_pd v True s = (pd, s1)" by fastforce
  have one: "tables_step 2 s s1
    \<and> (if pd = 0 then is_large (pte (mem s) ?root (path2 virt)) \<or> card (free_frames (pmm s)) < 2
       else tbl (mem s1) ?root (path2 virt) = Some pd)"
    using get_pd_alloc[OF wf a] unfolding idx .
  show ?thesis
  proof (cases "pd = 0")
    case True
    then have "(r, s') = (- 1, s1)" using eq a by (simp add: vmm_map_page_def Let_def v_def)
    then show ?thesis using one True tables_step_mono[of 2 s s1 3] by auto
  next
    case False
    have step1: "tables_step 2 s s1" and pd: "tbl (mem s1) ?root (path2 virt) = Some pd"
      and root: "s_pml4_virt s1 = ?root" using one False tables_stepD(2) by auto
    let ?pde = "ent (mem s1) pd (idx2 virt)" and ?slot = "pd + 8 * word_of_nat (idx2 virt)"
    obtain err s2 where b: "(if is_large ?pde then split_large ?slot ?pde s1 else (0, s1)) = (err, s2)"
      by fastforce
    obtain pt s3 where c: "get_pt v True s2 = (pt, s3)" by fastforce
    have two: "if err \<noteq> 0 \<or> pt = 0
      then tables_step 1 s1 s2 \<and> free_frames (pmm s1) = {} \<and> (err \<noteq> 0 \<or> tables_step 1 s1 s3)
      else tables_step 1 s1 s3 \<and> tbl (mem s3) ?root (path1 virt) = Some pt"
      using map_page_table[of s1 v, OF tables_stepD(1)[OF step1]] pd b c
      unfolding root idx by blast
    have full: "(r, s') = (if err \<noteq> 0 then (- 1, s2) else if pt = 0 then (- 1, s3)
           else (0, poke64 (pt + 8 * word_of_nat (idx1 virt)) (leaf_entry phys flags) s3))"
      using eq b a c False
      unfolding vmm_map_page_def v_def[symmetric] Let_def leaf_value idx_word idx ent_def
      by (auto split: if_splits)
    have three: "tables_step 1 s1 u \<Longrightarrow> tables_step 3 s u" for u
      using tables_step_trans[OF step1] by fastforce
    have few: "free_frames (pmm s1) = {} \<Longrightarrow> card (free_frames (pmm s)) < 3"
      using tables_stepD(6)[OF step1] by simp
    show ?thesis
      using full two three few by (auto split: if_splits)
  qed
qed

lemma poke_leaf:
  fixes v :: u64
  assumes wf: "vmm_wf s" and pt: "tbl (mem s) (s_pml4_virt s) (path1 virt) = Some pt"
  defines "s' \<equiv> poke64 (pt + 8 * word_of_nat (idx1 virt)) v s"
  shows "vmm_wf s'"
    and "same_page virt va \<Longrightarrow> xlate (mem s') (s_pml4_virt s) va =
      walk (pte (mem s) (s_pml4_virt s) (path3 virt)) (pte (mem s) (s_pml4_virt s) (path2 virt))
        (pte (mem s) (s_pml4_virt s) (path1 virt)) v va"
    and "\<not> same_page virt va \<Longrightarrow>
      xlate (mem s') (s_pml4_virt s) va = xlate (mem s) (s_pml4_virt s) va"
    and "\<not> unat (x - pt) < 4096 \<Longrightarrow> mem s' x = mem s x"
proof -
  show "vmm_wf s'" using leaf_store_wf[OF wf _ _ pt] by (simp add: s'_def poke64_def)
  show "same_page virt va \<Longrightarrow> xlate (mem s') (s_pml4_virt s) va =
      walk (pte (mem s) (s_pml4_virt s) (path3 virt)) (pte (mem s) (s_pml4_virt s) (path2 virt))
        (pte (mem s) (s_pml4_virt s) (path1 virt)) v va"
    using leaf_store_xlate(1)[OF wf pt] by (simp add: s'_def poke64_def)
  show "\<not> same_page virt va \<Longrightarrow>
      xlate (mem s') (s_pml4_virt s) va = xlate (mem s) (s_pml4_virt s) va"
    using leaf_store_xlate(2)[OF wf pt] by (simp add: s'_def poke64_def)
  show "mem s' x = mem s x" if "\<not> unat (x - pt) < 4096"
  proof -
    have "\<not> unat (x - (pt + 8 * word_of_nat (idx1 virt))) < 8"
      using that slot_in_page[of "idx1 virt" x pt] by auto
    then show ?thesis by (simp add: s'_def poke64_def store64_def)
  qed
qed

text \<open>
  The translation of an address, seen as a physical address only, and whether a large page covers
  an address.
\<close>

abbreviation phys_of :: "'a vmm_state_scheme \<Rightarrow> u64 \<Rightarrow> u64 option" where
  "phys_of s va \<equiv> map_option tr_phys (xlate (mem s) (s_pml4_virt s) va)"

definition in_large_page :: "'a vmm_state_scheme \<Rightarrow> u64 \<Rightarrow> bool" where
  "in_large_page s va \<longleftrightarrow>
     is_large (pte (mem s) (s_pml4_virt s) (path2 va)) \<or> is_large (pte (mem s) (s_pml4_virt s) (path1 va))"

definition in_huge_page :: "'a vmm_state_scheme \<Rightarrow> u64 \<Rightarrow> bool" where
  "in_huge_page s va \<longleftrightarrow> is_large (pte (mem s) (s_pml4_virt s) (path2 va))"

definition in_tables :: "'a vmm_state_scheme \<Rightarrow> u64 \<Rightarrow> bool" where
  "in_tables s x \<longleftrightarrow> (\<exists>q t. path_ok q \<and> tbl (mem s) (s_pml4_virt s) q = Some t \<and> unat (x - t) < 4096)"

lemma in_tables_poke_leaf:
  assumes wf: "vmm_wf s" and pt: "tbl (mem s) (s_pml4_virt s) (path1 virt) = Some pt"
  shows "in_tables (poke64 (pt + 8 * word_of_nat (idx1 virt)) v s) x = in_tables s x"
  unfolding in_tables_def
  using leaf_store_tbl[OF wf _ _ pt, of "idx1 virt"] by (auto simp: poke64_def)

lemma vmm_map_page_correct_aux:
  assumes wf: "vmm_wf s" and present: "bit flags 0" and eq: "vmm_map_page phys virt flags s = (r, s')"
  shows "vmm_wf s' \<and> s_pml4_virt s' = s_pml4_virt s \<and> s_mmio_next s' = s_mmio_next s \<and> (r = 0 \<or> r = - 1)
    \<and> (\<forall>va. r = 0 \<and> same_page virt va
          \<or> xlate (mem s') (s_pml4_virt s) va = xlate (mem s) (s_pml4_virt s) va)
    \<and> (r = 0 \<longrightarrow> (\<forall>va. same_page virt va \<longrightarrow>
          (\<exists>tr. xlate (mem s') (s_pml4_virt s) va = Some tr
             \<and> tr_phys tr = (phys AND PTE_ADDR_MASK) + (va AND 0xFFF)
             \<and> (tr_write tr \<longrightarrow> bit flags 1) \<and> (tr_user tr \<longrightarrow> bit flags 2))))
    \<and> (r \<noteq> 0 \<longrightarrow> in_huge_page s virt \<or> card (free_frames (pmm s)) < 3)
    \<and> free_frames (pmm s') \<subseteq> free_frames (pmm s)
    \<and> (\<forall>x. \<not> in_tables s' x \<longrightarrow> mem s' x = mem s x)
    \<and> (\<forall>x. in_tables s' x \<longrightarrow> in_tables s x \<or> (\<exists>f \<in> free_frames (pmm s). unat (x - f) < 4096))"
proof -
  have origin: "in_tables s x \<or> (\<exists>f \<in> free_frames (pmm s). unat (x - f) < 4096)"
    if "tables_step n s u" "in_tables u x" for n u x
    using that(2) tables_stepD(2,7)[OF that(1)] unfolding in_tables_def by metis
  have other: "s_mmio_next u = s_mmio_next s" if "tables_step n s u" for n u
    using that by (auto simp: tables_step_def)
  from vmm_map_page_steps[OF wf eq] show ?thesis
  proof
    let ?v = "leaf_entry phys flags"
    assume "r = 0 \<and> (\<exists>s1 pt. tables_step 3 s s1 \<and> tbl (mem s1) (s_pml4_virt s) (path1 virt) = Some pt
            \<and> s' = poke64 (pt + 8 * word_of_nat (idx1 virt)) ?v s1)"
    then obtain s1 pt where r: "r = 0" and step: "tables_step 3 s s1"
      and pt: "tbl (mem s1) (s_pml4_virt s) (path1 virt) = Some pt"
      and s': "s' = poke64 (pt + 8 * word_of_nat (idx1 virt)) ?v s1" by blast
    note d = tables_stepD[OF step]
    note poke = poke_leaf[OF d(1) pt[folded d(2)], where v = ?v, folded s', unfolded d(2)]
    have flags: "present ?v" "writable ?v = bit flags 1" "user ?v = bit flags 2"
      unfolding flags_bits using present leaf_value_flag by simp_all
    have new: "\<exists>tr. xlate (mem s') (s_pml4_virt s) va = Some tr
             \<and> tr_phys tr = (phys AND PTE_ADDR_MASK) + (va AND 0xFFF)
             \<and> (tr_write tr \<longrightarrow> bit flags 1) \<and> (tr_user tr \<longrightarrow> bit flags 2)" if "same_page virt va" for va
      unfolding poke(2)[OF that] linked_walk[OF pt] leaf_value_frame using flags by simp
    have frame: "mem s' x = mem s x" if "\<not> in_tables s' x" for x
    proof -
      have nt: "\<not> in_tables s1 x" using that in_tables_poke_leaf[OF d(1) pt[folded d(2)]] s' by simp
      then have "\<not> unat (x - pt) < 4096" using pt d(2) by (force simp: in_tables_def)
      then show ?thesis using poke(4) step nt d(2) by (auto simp: tables_step_def in_tables_def)
    qed
    have keep: "s_pml4_virt s' = s_pml4_virt s" "s_mmio_next s' = s_mmio_next s"
      "free_frames (pmm s') \<subseteq> free_frames (pmm s)"
      using d(2,5) other[OF step] by (simp_all add: s' poke64_def)
    have rest: "r = 0 \<and> same_page virt va
        \<or> xlate (mem s') (s_pml4_virt s) va = xlate (mem s) (s_pml4_virt s) va" for va
      using r poke(3)[of va] d(3)[of va] by metis
    have org: "in_tables s x \<or> (\<exists>f \<in> free_frames (pmm s). unat (x - f) < 4096)" if "in_tables s' x" for x
      using that origin[OF step] in_tables_poke_leaf[OF d(1) pt[folded d(2)]] s' by simp
    show ?thesis
      using r poke(1) keep new frame rest org by (intro conjI allI impI) (rule refl | blast | assumption)+
  next
    assume f: "r = - 1 \<and> tables_step 3 s s'
      \<and> (is_large (pte (mem s) (s_pml4_virt s) (path2 virt)) \<or> card (free_frames (pmm s)) < 3)"
    then have step: "tables_step 3 s s'" by blast
    have frame: "mem s' x = mem s x" if "\<not> in_tables s' x" for x
      using step that by (auto simp: tables_step_def in_tables_def)
    show ?thesis
      using f tables_stepD[OF step] other[OF step] frame origin[OF step] unfolding in_huge_page_def
      by (intro conjI allI impI) (blast | simp)+
  qed
qed

end
