(* ===== verification/Vmm_Properties.thy ===== *)
theory Vmm_Properties
  imports Vmm_Correct
begin

text \<open>
  The properties of the virtual memory manager: mapping, unmapping, lookup, changing flags,
  allocation on demand and the MMIO window, each against the hardware translation.
\<close>

section \<open>A small address space\<close>

text \<open>An empty PML4 in frame 1 over the frame allocator of \<open>pmm_example\<close>.\<close>

definition vmm_example :: vmm_state where
  "vmm_example = \<lparr>con = \<lparr>term_row = 0, term_col = 0, term_color = 7, term_buffer = \<lambda>_. 0, port_log = []\<rparr>,
     pmm = pmm_example, mem = \<lambda>_. 0, s_pml4_phys = 0x1000, s_pml4_virt = 0x1000,
     s_mmio_next = VMM_MMIO_BASE\<rparr>"

lemma ent_zero: "ent (\<lambda>_. 0) t i = 0"
proof -
  have "load64 (\<lambda>_. 0) a = 0" for a by (rule bit_word_eqI) (simp add: bit_load64)
  then show ?thesis by (simp add: ent_def)
qed

lemma tbl_zero: "tbl (\<lambda>_. 0) root p = (if p = [] then Some root else None)"
  by (induction p) (auto simp: tbl.simps ent_zero is_link_def split: option.splits)

lemma vmm_example_wf: "vmm_wf vmm_example"
proof -
  have "(0x1000 :: u64) \<notin> free_frames pmm_example"
  proof
    assume "(0x1000 :: u64) \<in> free_frames pmm_example"
    then obtain p where p: "3 \<le> p" "p < 256" "(0x1000 :: u64) = word_of_nat p * PAGE_SIZE"
      by (auto simp: free_frames_def pmm_example_free)
    then have "unat (0x1000 :: u64) = p * 4096" using unat_frame_address[of p] by simp
    with p show False by simp
  qed
  then show ?thesis
    by (simp add: pt_wf_def vmm_example_def pmm_example_inv tbl_zero ent_zero aligned_def)
qed

lemma vmm_example_frames: "card (free_frames (pmm vmm_example)) = 253"
proof -
  have "inj_on (\<lambda>p. word_of_nat p * PAGE_SIZE :: u64) (free_set pmm_example)"
    using frame_address_inject free_set_bound by (intro inj_onI) blast
  then show ?thesis
    by (simp add: vmm_example_def free_frames_def card_image pmm_example_free)
qed

lemma vmm_example_not_large: "\<not> in_huge_page vmm_example va" "\<not> in_large_page vmm_example va"
  by (simp_all add: in_huge_page_def in_large_page_def vmm_example_def pte.simps tbl_zero ent_zero)

section \<open>Mapping\<close>

text \<open>
  C3: \<^verbatim>\<open>vmm_map_page\<close> returns 0 or -1.  On success exactly the given page changes: it translates to the
  given frame, with no more permissions than the flags ask for, and every other address keeps its
  translation, also those inside a 2 MiB page that had to be split.  On failure no translation
  changes, and it fails only for want of frames or inside a 1 GiB page.  The page tables stay well
  formed, and no byte outside them is written.
\<close>

theorem vmm_map_page_correct:
  assumes "vmm_wf s" "bit flags 0" "vmm_map_page phys virt flags s = (r, s')"
  shows "vmm_wf s' \<and> (r = 0 \<or> r = - 1)
    \<and> (r = 0 \<longrightarrow> (\<forall>va. same_page virt va \<longrightarrow>
          (\<exists>tr. xlate (mem s') (s_pml4_virt s') va = Some tr
             \<and> tr_phys tr = (phys AND PTE_ADDR_MASK) + (va AND 0xFFF)
             \<and> (tr_write tr \<longrightarrow> bit flags 1) \<and> (tr_user tr \<longrightarrow> bit flags 2))))
    \<and> (\<forall>va. r = 0 \<and> same_page virt va
          \<or> xlate (mem s') (s_pml4_virt s') va = xlate (mem s) (s_pml4_virt s) va)
    \<and> (r \<noteq> 0 \<longrightarrow> in_huge_page s virt \<or> card (free_frames (pmm s)) < 3)
    \<and> (\<forall>x. \<not> in_tables s' x \<longrightarrow> mem s' x = mem s x)"
  using vmm_map_page_correct_aux[OF assms] by metis

theorem vmm_map_page_correct_witness:
  "vmm_wf vmm_example \<and> fst (vmm_map_page 0xFEE00000 VMM_MMIO_BASE VMM_KERN_RW_CD vmm_example) = 0"
proof -
  let ?r = "vmm_map_page 0xFEE00000 VMM_MMIO_BASE VMM_KERN_RW_CD vmm_example"
  have "bit VMM_KERN_RW_CD 0" by (simp flip: flags_bits)
  from vmm_map_page_correct[OF vmm_example_wf this surjective_pairing]
  have "fst ?r \<noteq> 0 \<longrightarrow> in_huge_page vmm_example VMM_MMIO_BASE \<or> card (free_frames (pmm vmm_example)) < 3"
    by blast
  then show ?thesis using vmm_example_wf vmm_example_frames vmm_example_not_large by simp
qed

lemma vmm_example_map:
  assumes "bit flags 0"
  shows "fst (vmm_map_page phys virt flags vmm_example) = 0"
  using vmm_map_page_correct_aux[OF vmm_example_wf assms surjective_pairing, of phys virt]
    vmm_example_frames vmm_example_not_large(1)[of virt] by auto

section \<open>Lookup, unmapping and flags\<close>

lemma no_table_xlate:
  assumes wf: "vmm_wf s" and "tbl (mem s) (s_pml4_virt s) (path1 virt) = None"
    "\<not> in_large_page s virt" "same_page virt va"
  shows "xlate (mem s) (s_pml4_virt s) va = None"
  using assms(2-4) unfolding xlate_pte[OF wf]
  by (simp add: walk_def in_large_page_def same_page_def pte.simps(2)[of _ _ "idx1 va"])

lemma table_not_large:
  assumes "tbl (mem s) (s_pml4_virt s) (path1 virt) = Some pt"
  shows "\<not> in_large_page s virt"
proof -
  obtain t2 where "tbl (mem s) (s_pml4_virt s) (path2 virt) = Some t2"
    using assms by (auto simp: tbl.simps split: option.splits)
  then show ?thesis using link_above assms unfolding in_large_page_def by blast
qed

lemma large_no_table: "in_large_page s virt \<Longrightarrow> tbl (mem s) (s_pml4_virt s) (path1 virt) = None"
  using table_not_large[of s virt] by (cases "tbl (mem s) (s_pml4_virt s) (path1 virt)") auto

lemma get_pt_masked:
  assumes "vmm_wf s"
  shows "get_pt (virt AND PAGE_MASK) False s =
    (case tbl (mem s) (s_pml4_virt s) (path1 virt) of None \<Rightarrow> 0 | Some u \<Rightarrow> u, s)"
  using get_pt_find[OF assms, of "virt AND PAGE_MASK"] unfolding idx_page_mask .

lemma unmap_cases:
  assumes "vmm_wf s"
  shows "vmm_unmap_page virt s =
    (case tbl (mem s) (s_pml4_virt s) (path1 virt) of None \<Rightarrow> s
     | Some pt \<Rightarrow> poke64 (pt + 8 * word_of_nat (idx1 virt)) 0 s)"
  unfolding vmm_unmap_page_def Let_def get_pt_masked[OF assms] idx_word idx_page_mask
  using pt_wfD(1)[OF assms, of "path1 virt"] by (auto split: option.splits)

text \<open>
  C24: \<^verbatim>\<open>vmm_unmap_page\<close> removes the translation of the given page and of nothing else, and keeps the
  page tables well formed; an address inside a large page is left as it is.
\<close>

theorem vmm_unmap_page_correct:
  assumes "vmm_wf s"
  shows "vmm_wf (vmm_unmap_page virt s)
    \<and> (\<not> in_large_page s virt \<longrightarrow>
         (\<forall>va. xlate (mem (vmm_unmap_page virt s)) (s_pml4_virt s) va =
            (if same_page virt va then None else xlate (mem s) (s_pml4_virt s) va)))
    \<and> (in_large_page s virt \<longrightarrow> vmm_unmap_page virt s = s)"
proof (cases "tbl (mem s) (s_pml4_virt s) (path1 virt)")
  case None
  then show ?thesis
    using assms no_table_xlate[OF assms None] by (auto simp: unmap_cases)
next
  case (Some pt)
  note poke = poke_leaf[OF assms Some, where v = 0]
  show ?thesis
    using poke(1-3) table_not_large[OF Some] linked_walk[OF Some, of 0]
    by (simp add: unmap_cases[OF assms] Some)
qed

theorem vmm_unmap_page_correct_witness:
  "vmm_wf vmm_example \<and> vmm_wf (vmm_unmap_page VMM_HEAP_BASE vmm_example)
   \<and> xlate (mem (vmm_unmap_page VMM_HEAP_BASE vmm_example)) (s_pml4_virt vmm_example) VMM_HEAP_BASE = None"
  using vmm_unmap_page_correct[OF vmm_example_wf, of VMM_HEAP_BASE] vmm_example_wf vmm_example_not_large
  by (simp add: same_page_def)

text \<open>
  Outside large pages \<^verbatim>\<open>vmm_get_phys\<close> returns the physical address the hardware translates
  to, and 0 when there is no translation; \<^verbatim>\<open>vmm_is_mapped\<close> tells which.  Inside a large page both
  report the address as unmapped.
\<close>

theorem vmm_lookup_correct:
  assumes "vmm_wf s"
  shows "vmm_get_phys virt s =
      (if in_large_page s virt then 0
       else case xlate (mem s) (s_pml4_virt s) virt of None \<Rightarrow> 0 | Some tr \<Rightarrow> tr_phys tr)
    \<and> vmm_is_mapped virt s =
      (\<not> in_large_page s virt \<and> xlate (mem s) (s_pml4_virt s) virt \<noteq> None)"
proof (cases "tbl (mem s) (s_pml4_virt s) (path1 virt)")
  case None
  then show ?thesis
    using no_table_xlate[OF assms None, of virt]
    by (auto simp: vmm_get_phys_def vmm_is_mapped_def get_pt_find[OF assms] same_page_def)
next
  case (Some pt)
  let ?e = "ent (mem s) pt (idx1 virt)"
  have "pt \<noteq> 0" using pt_wfD(1)[OF assms _ Some] by simp
  moreover have "xlate (mem s) (s_pml4_virt s) virt =
      walk (pte (mem s) (s_pml4_virt s) (path3 virt)) (pte (mem s) (s_pml4_virt s) (path2 virt))
        (pte (mem s) (s_pml4_virt s) (path1 virt)) ?e virt"
    unfolding xlate_pte[OF assms] by (simp add: pte.simps(2)[of _ _ "idx1 virt"] Some)
  moreover have "(?e AND PTE_ADDR_MASK) OR (virt AND 0xFFF) = (?e AND PTE_ADDR_MASK) + (virt AND 0xFFF)"
    by (rule add_disjoint_bits[symmetric]) (simp only: bit_and_iff bit_masks bit_PTE_ADDR_MASK, auto)
  ultimately show ?thesis
    using table_not_large[OF Some]
    by (simp add: vmm_get_phys_def vmm_is_mapped_def get_pt_find[OF assms] Some linked_walk[OF Some]
        idx_word vmm_page_offset_def ent_def)
qed

theorem vmm_lookup_correct_witness:
  "vmm_wf vmm_example \<and> vmm_get_phys VMM_HEAP_BASE vmm_example = 0 \<and> \<not> vmm_is_mapped VMM_HEAP_BASE vmm_example"
proof -
  have "xlate (mem vmm_example) (s_pml4_virt vmm_example) VMM_HEAP_BASE = None"
    by (simp add: xlate_def vmm_example_def ent_zero Let_def)
  then show ?thesis
    using vmm_lookup_correct[OF vmm_example_wf, of VMM_HEAP_BASE] vmm_example_wf by simp
qed

lemma map_page_is_mapped:
  assumes "vmm_wf s" "bit flags 0" "vmm_map_page phys virt flags s = (r, s')" "r = 0"
  shows "vmm_is_mapped virt s'"
proof -
  obtain s1 pt where step: "tables_step 3 s s1"
    and pt: "tbl (mem s1) (s_pml4_virt s) (path1 virt) = Some pt"
    and s': "s' = poke64 (pt + 8 * word_of_nat (idx1 virt)) (leaf_entry phys flags) s1"
    using vmm_map_page_steps[OF assms(1,3)] assms(4) by auto
  note d = tables_stepD[OF step]
  have wf': "vmm_wf s'" using poke_leaf(1)[OF d(1) pt[folded d(2)]] s' by simp
  have root: "s_pml4_virt s' = s_pml4_virt s" using d(2) by (simp add: s' poke64_def)
  have pt': "tbl (mem s') (s_pml4_virt s') (path1 virt) = Some pt"
    using leaf_store_tbl[OF d(1) _ _ pt[folded d(2)], of "idx1 virt" "path1 virt"] pt d(2) root
    by (simp add: s' poke64_def)
  have "load64 (mem s') (pt + 8 * word_of_nat (idx1 virt)) = leaf_entry phys flags"
    by (simp add: s' poke64_def)
  moreover have "present (leaf_entry phys flags)"
    unfolding flags_bits using assms(2) leaf_value_flag by simp
  moreover have "pt \<noteq> 0" using pt_wfD(1)[OF wf' _ pt'] by simp
  ultimately show ?thesis
    by (simp add: vmm_is_mapped_def get_pt_find[OF wf'] pt' idx_word)
qed

lemma change_flags_value:
  "((old AND PTE_ADDR_MASK) OR (flags AND 0xFFF)) AND NOT VMM_XD = leaf_entry old flags"
proof (rule bit_word_eqI)
  fix n
  have "VMM_XD = push_bit 63 1" by (simp add: push_bit_eq_mult)
  then have "bit VMM_XD n \<longleftrightarrow> n = 63" by (simp only: bit_push_bit_iff) (auto simp: bit_1_iff)
  then show "bit (((old AND PTE_ADDR_MASK) OR (flags AND 0xFFF)) AND NOT VMM_XD) n = bit (leaf_entry old flags) n"
    unfolding bit_or_iff bit_and_iff bit_PTE_ADDR_MASK bit_not_iff bit_masks by auto
qed

lemma change_flags_cases:
  assumes "vmm_wf s"
  shows "vmm_change_flags virt flags s =
    (case tbl (mem s) (s_pml4_virt s) (path1 virt) of None \<Rightarrow> s
     | Some pt \<Rightarrow> poke64 (pt + 8 * word_of_nat (idx1 virt))
                   (leaf_entry (ent (mem s) pt (idx1 virt)) flags) s)"
  unfolding vmm_change_flags_def Let_def get_pt_masked[OF assms] idx_word idx_page_mask change_flags_value ent_def
  using pt_wfD(1)[OF assms, of "path1 virt"] by (auto split: option.splits)

text \<open>
  \<^verbatim>\<open>vmm_change_flags\<close> on a mapped 4 KiB page keeps the frame and applies the new flags: with the
  present flag the page translates to the same addresses, with no more permissions than asked for;
  without it the page becomes unmapped.  No other page is affected.
\<close>

theorem vmm_change_flags_correct:
  assumes "vmm_wf s" "vmm_is_mapped virt s"
  shows "vmm_wf (vmm_change_flags virt flags s)
    \<and> (\<forall>va. \<not> same_page virt va \<longrightarrow>
         xlate (mem (vmm_change_flags virt flags s)) (s_pml4_virt s) va = xlate (mem s) (s_pml4_virt s) va)
    \<and> (\<forall>va. same_page virt va \<longrightarrow>
         (if bit flags 0
          then \<exists>tr tr'. xlate (mem s) (s_pml4_virt s) va = Some tr
            \<and> xlate (mem (vmm_change_flags virt flags s)) (s_pml4_virt s) va = Some tr'
            \<and> tr_phys tr' = tr_phys tr \<and> (tr_write tr' \<longrightarrow> bit flags 1) \<and> (tr_user tr' \<longrightarrow> bit flags 2)
          else xlate (mem (vmm_change_flags virt flags s)) (s_pml4_virt s) va = None))"
proof -
  obtain pt where pt: "tbl (mem s) (s_pml4_virt s) (path1 virt) = Some pt"
    using assms by (cases "tbl (mem s) (s_pml4_virt s) (path1 virt)")
      (auto simp: vmm_is_mapped_def get_pt_find)
  let ?e = "ent (mem s) pt (idx1 virt)"
  have e: "present ?e"
    using assms(2) pt_wfD(1)[OF assms(1) _ pt]
    by (simp add: vmm_is_mapped_def get_pt_find[OF assms(1)] pt idx_word ent_def)
  have old: "xlate (mem s) (s_pml4_virt s) va =
      walk (pte (mem s) (s_pml4_virt s) (path3 virt)) (pte (mem s) (s_pml4_virt s) (path2 virt))
        (pte (mem s) (s_pml4_virt s) (path1 virt)) ?e va" if "same_page virt va" for va
    using that pt unfolding xlate_pte[OF assms(1)]
    by (simp add: same_page_def pte.simps(2)[of _ _ "idx1 va"])
  have s': "vmm_change_flags virt flags s = poke64 (pt + 8 * word_of_nat (idx1 virt)) (leaf_entry ?e flags) s"
    by (simp add: change_flags_cases[OF assms(1)] pt)
  note poke = poke_leaf[OF assms(1) pt, where v = "leaf_entry ?e flags", folded s']
  have flag: "present (leaf_entry ?e flags) = bit flags 0" "writable (leaf_entry ?e flags) = bit flags 1"
    "user (leaf_entry ?e flags) = bit flags 2"
    unfolding flags_bits using leaf_value_flag by simp_all
  show ?thesis
    using poke(1,3) by (simp add: poke(2) old linked_walk[OF pt] flag leaf_value_frame e)
qed

theorem vmm_change_flags_correct_witness:
  "vmm_is_mapped VMM_HEAP_BASE (snd (vmm_map_page 0x5000 VMM_HEAP_BASE VMM_KERN_RW vmm_example))
   \<and> vmm_wf (vmm_change_flags VMM_HEAP_BASE VMM_PRESENT
       (snd (vmm_map_page 0x5000 VMM_HEAP_BASE VMM_KERN_RW vmm_example)))"
proof -
  let ?s = "snd (vmm_map_page 0x5000 VMM_HEAP_BASE VMM_KERN_RW vmm_example)"
  have "bit VMM_KERN_RW 0" by (simp flip: flags_bits)
  note m = vmm_map_page_correct_aux[OF vmm_example_wf this surjective_pairing, of "0x5000" VMM_HEAP_BASE]
  have r: "fst (vmm_map_page 0x5000 VMM_HEAP_BASE VMM_KERN_RW vmm_example) = 0"
    by (rule vmm_example_map[OF \<open>bit VMM_KERN_RW 0\<close>])
  have wf: "vmm_wf ?s" using m by blast
  have "vmm_is_mapped VMM_HEAP_BASE ?s"
    using map_page_is_mapped[OF vmm_example_wf \<open>bit VMM_KERN_RW 0\<close> surjective_pairing r] .
  then show ?thesis using vmm_change_flags_correct[OF wf, of VMM_HEAP_BASE VMM_PRESENT] by blast
qed

section \<open>Allocation on demand\<close>

lemma clear_free_frame:
  assumes wf: "pt_wf m root pm" and f: "f \<in> free_frames pm" "aligned 12 f"
    and pm': "pmm_inv pm'" "free_frames pm' \<subseteq> free_frames pm"
  shows "pt_wf (memset8 m f 0 4096) root pm'"
    and "path_ok p \<Longrightarrow> tbl (memset8 m f 0 4096) root p = tbl m root p"
    and "path_ok p \<Longrightarrow> j < 512 \<Longrightarrow> pte (memset8 m f 0 4096) root (j # p) = pte m root (j # p)"
    and "xlate (memset8 m f 0 4096) root va = xlate m root va"
proof -
  let ?m = "memset8 m f 0 4096"
  have ent: "ent ?m t j = ent m t j" if "path_ok p" "tbl m root p = Some t" "j < 512" for p t j
    using pt_wfD(2,4)[OF wf that(1,2)] f that(3) by (intro ent_memset_other) auto
  have tbl: "tbl ?m root p = tbl m root p" if "path_ok p" for p
    by (rule tbl_cong[OF that]) (auto intro: ent)
  then show "path_ok p \<Longrightarrow> tbl ?m root p = tbl m root p" .
  show wf': "pt_wf ?m root pm'"
    using wf pm' unfolding pt_wf_def by (auto simp: tbl ent)
  have pte: "pte ?m root (j # p) = pte m root (j # p)" if "path_ok p" "j < 512" for j p
    using tbl[OF that(1)] ent[OF that(1) _ that(2)] by (auto simp: pte.simps split: option.splits)
  then show "path_ok p \<Longrightarrow> j < 512 \<Longrightarrow> pte ?m root (j # p) = pte m root (j # p)" .
  show "xlate ?m root va = xlate m root va"
    unfolding xlate_pte[OF wf] xlate_pte[OF wf'] using pte by simp
qed

lemma page_offset_less: "unat (va AND 0xFFF :: u64) < 4096"
proof -
  have "va AND 0xFFF = take_bit 12 va" by (simp add: take_bit_eq_mask mask_eq_exp_minus_1)
  then show ?thesis
    using take_bit_nat_less_exp[of 12 "unat va"] by (simp add: unsigned_take_bit_eq)
qed

lemma vmm_alloc_map_correct_aux:
  assumes wf: "vmm_wf s" and fl: "bit flags 0" and eq: "vmm_alloc_map virt flags s = (r, s')"
  shows "vmm_wf s' \<and> (r = 0 \<or> r = - 1)
    \<and> (r = 0 \<longrightarrow> (\<exists>f \<in> free_frames (pmm s) - free_frames (pmm s').
          \<forall>va. same_page virt va \<longrightarrow> phys_of s' va = Some (f + (va AND 0xFFF))
             \<and> mem s' (f + (va AND 0xFFF)) = 0))
    \<and> (\<forall>va. r = 0 \<and> same_page virt va
          \<or> xlate (mem s') (s_pml4_virt s') va = xlate (mem s) (s_pml4_virt s) va)
    \<and> (r \<noteq> 0 \<longrightarrow> in_huge_page s virt \<or> card (free_frames (pmm s)) < 4)"
proof -
  have inv: "pmm_inv (pmm s)" using wf by (simp add: pt_wf_def)
  obtain f s1 where a: "frame_alloc s = (f, s1)" by fastforce
  from inv a show ?thesis
  proof (cases rule: frame_alloc_cases)
    case 1
    then have "(r, s') = (- 1, s)" using eq a by (simp add: vmm_alloc_map_def)
    then show ?thesis using wf 1 by simp
  next
    case (2 pm)
    let ?m = "memset8 (mem s) f 0 4096" and ?root = "s_pml4_virt s"
    let ?s2 = "clear_page f s1"
    have s2: "mem ?s2 = ?m" "s_pml4_virt ?s2 = ?root" "pmm ?s2 = pm"
      by (simp_all add: clear_page_def 2(2))
    have sub: "free_frames pm \<subseteq> free_frames (pmm s)" using 2(4) by auto
    note clr = clear_free_frame[OF wf 2(3,6,5) sub]
    have wf2: "vmm_wf ?s2" using clr(1) s2 by simp
    have "vmm_map_page f (virt AND PAGE_MASK) flags ?s2 = (r, s')"
      using eq a 2(1) by (simp only: vmm_alloc_map_def Let_def prod.case if_False)
    note m = vmm_map_page_correct_aux[OF wf2 fl this]
    have same: "same_page (virt AND PAGE_MASK) va = same_page virt va" for va
      unfolding same_page_def idx_page_mask ..
    have huge: "in_huge_page ?s2 (virt AND PAGE_MASK) = in_huge_page s virt"
      unfolding in_huge_page_def idx_page_mask s2 using clr(3)[of "path3 virt" "idx3 virt"] by simp
    have frame: "f AND PTE_ADDR_MASK = f" using frame_entry[OF 2(6,7), of 0] by simp
    have out: "\<not> in_tables s' x" if x: "unat (x - f) < 4096" for x
    proof
      assume "in_tables s' x"
      then have "in_tables ?s2 x \<or> (\<exists>g \<in> free_frames pm. unat (x - g) < 4096)" using m s2(3) by metis
      then obtain g where g: "g \<noteq> f" "aligned 12 g" "unat (x - g) < 4096"
        unfolding in_tables_def s2
        using clr(2) pt_wfD(2,4)[OF wf] 2(3,4) pa.frame_ok[OF 2(5)] by (metis Diff_iff insertI1)
      then show False using pages_disjoint[OF 2(6) g(2) g(1)[symmetric] x] by simp
    qed
    have zero: "mem s' (f + (va AND 0xFFF)) = 0" for va
    proof -
      have "unat ((f + (va AND 0xFFF)) - f) < 4096" using page_offset_less[of va] by simp
      then show ?thesis using m out[of "f + (va AND 0xFFF)"] s2(1) by (simp add: memset8_apply)
    qed
    have card: "card (free_frames (pmm s)) = card (free_frames pm) + 1"
      using card_Suc_Diff1[OF pa.frames_finite 2(3)] 2(4) by simp
    have new: "\<exists>f \<in> free_frames (pmm s) - free_frames (pmm s').
          \<forall>va. same_page virt va \<longrightarrow> phys_of s' va = Some (f + (va AND 0xFFF))
             \<and> mem s' (f + (va AND 0xFFF)) = 0" if "r = 0"
    proof (intro bexI[of _ f] allI impI conjI)
      fix va assume "same_page virt va"
      then show "phys_of s' va = Some (f + (va AND 0xFFF))"
        using m that same frame s2(2) by fastforce
    qed (use m 2(3,4) s2(3) zero in auto)
    have rest: "r = 0 \<and> same_page virt va
          \<or> xlate (mem s') (s_pml4_virt s') va = xlate (mem s) (s_pml4_virt s) va" for va
      using m same clr(4) s2 by metis
    have fail: "in_huge_page s virt \<or> card (free_frames (pmm s)) < 4" if "r \<noteq> 0"
      using m that huge card s2(3) by auto
    show ?thesis using m new rest fail by (intro conjI allI) (blast | metis)+
  qed
qed

text \<open>
  C25: \<^verbatim>\<open>vmm_alloc_map\<close> on success maps the page to a frame taken from the free frames, which is zeroed
  and no longer free, and leaves every other translation alone; it fails only for want of frames or
  inside a 1 GiB page, and then changes no translation.
\<close>

theorem vmm_alloc_map_correct:
  assumes wf: "vmm_wf s" and fl: "bit flags 0" and eq: "vmm_alloc_map virt flags s = (r, s')"
  shows "vmm_wf s' \<and> (r = 0 \<or> r = - 1)
    \<and> (r = 0 \<longrightarrow> (\<exists>f \<in> free_frames (pmm s) - free_frames (pmm s').
          \<forall>va. same_page virt va \<longrightarrow> phys_of s' va = Some (f + (va AND 0xFFF))
             \<and> mem s' (f + (va AND 0xFFF)) = 0))
    \<and> (\<forall>va. r = 0 \<and> same_page virt va
          \<or> xlate (mem s') (s_pml4_virt s') va = xlate (mem s) (s_pml4_virt s) va)
    \<and> (r \<noteq> 0 \<longrightarrow> in_huge_page s virt \<or> card (free_frames (pmm s)) < 4)"
  by (rule vmm_alloc_map_correct_aux[OF assms])

theorem vmm_alloc_map_correct_witness:
  "vmm_wf vmm_example \<and> fst (vmm_alloc_map VMM_HEAP_BASE VMM_KERN_RW vmm_example) = 0"
proof -
  have "bit VMM_KERN_RW 0" by (simp flip: flags_bits)
  from vmm_alloc_map_correct[OF vmm_example_wf this surjective_pairing]
  show ?thesis using vmm_example_wf vmm_example_frames vmm_example_not_large by auto
qed

section \<open>The MMIO window\<close>

lemma index_nat: "unat (drop_bit k va AND 0x1FF :: u64) = unat va div 2 ^ k mod 512"
proof -
  have "drop_bit k va AND 0x1FF = take_bit 9 (drop_bit k va)"
    by (simp add: take_bit_eq_mask mask_eq_exp_minus_1)
  then have "unat (drop_bit k va AND 0x1FF) = take_bit 9 (drop_bit k (unat va))"
    using take_bit_nat_eq_self[of "unat va" 64] unat64_less[of va]
    by (simp add: unsigned_take_bit_eq unsigned_drop_bit_eq)
  then show ?thesis by (simp add: take_bit_eq_mod drop_bit_eq_div)
qed

abbreviation page_no :: "u64 \<Rightarrow> nat" where "page_no va \<equiv> unat va div 4096"

lemma idx_nat:
  "idx1 va = page_no va mod 512" "idx2 va = page_no va div 512 mod 512"
  "idx3 va = page_no va div 262144 mod 512" "idx4 va = page_no va div 134217728 mod 512"
  unfolding idx_defs vmm_pml4_index_def vmm_pdpte_index_def vmm_pd_index_def vmm_pt_index_def index_nat
  by (simp_all flip: div_mult2_eq)

lemma same_page_iff: "same_page a b \<longleftrightarrow> page_no a mod 68719476736 = page_no b mod 68719476736"
proof -
  have split: "n mod 68719476736 = n mod 512 + 512 * (n div 512 mod 512)
      + 262144 * (n div 262144 mod 512) + 134217728 * (n div 134217728 mod 512)" for n :: nat
    using mod_mult2_eq[of n 512 134217728] mod_mult2_eq[of "n div 512" 512 262144]
      mod_mult2_eq[of "n div 262144" 512 512]
    by (simp flip: div_mult2_eq)
  have part: "n div 2 ^ k mod 512 = n mod 68719476736 div 2 ^ k mod 512" if "k \<le> 27" for n k :: nat
  proof -
    have "take_bit 9 (drop_bit k n) = take_bit 9 (drop_bit k (take_bit 36 n))"
      using that by (auto intro!: bit_eqI simp: bit_simps)
    then show ?thesis by (simp add: take_bit_eq_mod drop_bit_eq_div)
  qed
  have parts: "n mod 512 = n mod 68719476736 mod 512"
    "n div 512 mod 512 = n mod 68719476736 div 512 mod 512"
    "n div 262144 mod 512 = n mod 68719476736 div 262144 mod 512"
    "n div 134217728 mod 512 = n mod 68719476736 div 134217728 mod 512" for n :: nat
    subgoal using part[of 0 n] by simp
    subgoal using part[of 9 n] by simp
    subgoal using part[of 18 n] by simp
    subgoal using part[of 27 n] by simp
    done
  show ?thesis
  proof
    assume "same_page a b"
    then have "page_no a mod 512 = page_no b mod 512" "page_no a div 512 mod 512 = page_no b div 512 mod 512"
      "page_no a div 262144 mod 512 = page_no b div 262144 mod 512"
      "page_no a div 134217728 mod 512 = page_no b div 134217728 mod 512"
      unfolding same_page_def idx_nat by (simp_all only: list.inject)
    then show "page_no a mod 68719476736 = page_no b mod 68719476736"
      by (simp only: split)
  next
    assume eq: "page_no a mod 68719476736 = page_no b mod 68719476736"
    show "same_page a b"
      unfolding same_page_def idx_nat parts[of "page_no a"] parts[of "page_no b"] eq by (intro conjI refl)
  qed
qed

lemma unat_page_offset: "unat (x AND 0xFFF :: u64) = unat x mod 4096"
proof -
  have "x AND 0xFFF = take_bit 12 x" by (simp add: take_bit_eq_mask mask_eq_exp_minus_1)
  then show ?thesis by (simp add: take_bit_eq_mod unat_mod)
qed

lemma page_mask_offset: "(x AND PAGE_MASK) + (x AND 0xFFF) = (x :: u64)"
proof -
  have "(x AND PAGE_MASK) + (x AND 0xFFF) = (x AND PAGE_MASK) OR (x AND 0xFFF)"
    by (rule add_disjoint_bits) (simp only: bit_and_iff bit_masks bit_PAGE_MASK, auto)
  also have "\<dots> = x"
    by (rule bit_word_eqI) (simp only: bit_or_iff bit_and_iff bit_masks bit_PAGE_MASK, auto)
  finally show ?thesis .
qed

lemma unat_page_mask: "unat (x AND PAGE_MASK :: u64) = 4096 * (unat x div 4096)"
proof -
  have "x AND PAGE_MASK = x - (x AND 0xFFF)"
    using page_mask_offset[of x] by (metis add_diff_cancel)
  moreover have "x AND 0xFFF \<le> x"
    by (simp only: word_le_nat_alt unat_page_offset mod_less_eq_dividend)
  ultimately have "unat (x AND PAGE_MASK) = unat x - unat x mod 4096"
    using unat_sub64[of "x AND 0xFFF" x] unat_page_offset[of x] by metis
  then show ?thesis by (metis minus_mod_eq_mult_div)
qed

lemma mask_frame:
  assumes "aligned 12 x" "unat x < 4503599627370496"
  shows "x AND PTE_ADDR_MASK = x"
proof (rule bit_word_eqI)
  fix n
  have "take_bit 12 (unat x) = 0" "take_bit 52 (unat x) = unat x"
    using assms by (simp_all add: aligned_def take_bit_eq_mod dvd_imp_mod_0)
  then have "\<not> bit (take_bit 12 (unat x)) n" "bit (take_bit 52 (unat x)) n = bit (unat x) n"
    by simp_all
  then have "bit x n \<Longrightarrow> 12 \<le> n \<and> n < 52"
    by (auto simp: bit_simps not_le)
  then show "bit (x AND PTE_ADDR_MASK) n = bit x n"
    unfolding bit_and_iff bit_PTE_ADDR_MASK by auto
qed

lemma mod_shift_differs: "0 < d \<Longrightarrow> d < M \<Longrightarrow> (a + d) mod M \<noteq> a mod (M :: nat)"
  using nat_mod_eq_iff[of "a + d" M a] by (auto simp: mod_eq_iff_dvd_symdiff_nat dest: dvd_imp_le)

lemma mod_sum_split:
  "u + k = 4096 * (u div 4096 + (u mod 4096 + k) div 4096) + (u mod 4096 + k) mod (4096 :: nat)"
proof -
  have "p * 4096 + w = u \<Longrightarrow> j * 4096 + r = w + k \<Longrightarrow> u + k = 4096 * (p + j) + r" for p w j r :: nat
    by simp
  then show ?thesis using div_mult_mod_eq by blast
qed

lemma map_mmio_pages_correct:
  assumes "vmm_wf s" "aligned 12 (s_mmio_next s)" "unat (s_mmio_next s) + 4096 * n < 18446744073709551616"
    "n < 68719476736" "map_mmio_pages phys_start i n s = (ok, s')"
  shows "vmm_wf s' \<and> s_pml4_virt s' = s_pml4_virt s
    \<and> (\<forall>va. (\<forall>k < n. page_no va mod 68719476736 \<noteq> (page_no (s_mmio_next s) + k) mod 68719476736)
          \<longrightarrow> xlate (mem s') (s_pml4_virt s) va = xlate (mem s) (s_pml4_virt s) va)
    \<and> (ok \<longrightarrow> s_mmio_next s' = s_mmio_next s + 4096 * word_of_nat n
        \<and> (\<forall>k < n. \<forall>va. page_no va = page_no (s_mmio_next s) + k \<longrightarrow>
             phys_of s' va = Some (((phys_start + word_of_nat (i + k) * 4096) AND PTE_ADDR_MASK)
                                   + (va AND 0xFFF))))"
  using assms
proof (induction n arbitrary: i s)
  case 0
  then show ?case by simp
next
  case (Suc n)
  let ?root = "s_pml4_virt s" and ?next = "s_mmio_next s"
  obtain r s1 where a: "vmm_map_page (phys_start + word_of_nat i * VMM_PAGE_SIZE) ?next VMM_KERN_RW_CD s = (r, s1)"
    by fastforce
  have "bit VMM_KERN_RW_CD 0" by (simp flip: flags_bits)
  note m = vmm_map_page_correct_aux[OF Suc.prems(1) this a]
  have keep: "xlate (mem s1) ?root va = xlate (mem s) ?root va"
    if "page_no va mod 68719476736 \<noteq> page_no ?next mod 68719476736" for va
    using m that unfolding same_page_iff by metis
  show ?case
  proof (cases "r = 0")
    case False
    then have "(ok, s') = (False, s1)" using Suc.prems(5) a by simp
    then show ?thesis using m keep by auto
  next
    case True
    let ?s2 = "s1\<lparr>s_mmio_next := s_mmio_next s1 + VMM_PAGE_SIZE\<rparr>"
    have rec: "map_mmio_pages phys_start (i + 1) n ?s2 = (ok, s')"
      using Suc.prems(5) a True by simp
    have next2: "s_mmio_next ?s2 = ?next + 4096" "s_pml4_virt ?s2 = ?root" using m by simp_all
    have un: "unat (?next + 4096) = unat ?next + 4096"
      using Suc.prems(3) unat_add_nat64[of ?next 4096] by simp
    have al: "aligned 12 (?next + 4096)"
      using Suc.prems(2) by (intro aligned_add) (simp_all add: aligned_def)
    have pn: "page_no (?next + 4096) = page_no ?next + 1" using un by simp
    have "vmm_wf s1" using m by blast
    then have wf2: "vmm_wf ?s2" by simp
    have p: "aligned 12 (s_mmio_next ?s2)" "unat (s_mmio_next ?s2) + 4096 * n < 18446744073709551616"
      "n < 68719476736"
      unfolding next2 using al un Suc.prems(3,4) by simp_all
    have memeq: "mem ?s2 = mem s1" by simp
    have IH: "vmm_wf s' \<and> s_pml4_virt s' = ?root
      \<and> (\<forall>va. (\<forall>k < n. page_no va mod 68719476736 \<noteq> (page_no ?next + 1 + k) mod 68719476736)
            \<longrightarrow> xlate (mem s') ?root va = xlate (mem s1) ?root va)
      \<and> (ok \<longrightarrow> s_mmio_next s' = ?next + 4096 + 4096 * word_of_nat n
          \<and> (\<forall>k < n. \<forall>va. page_no va = page_no ?next + 1 + k \<longrightarrow>
               phys_of s' va = Some (((phys_start + word_of_nat (i + 1 + k) * 4096) AND PTE_ADDR_MASK)
                                     + (va AND 0xFFF))))"
      using Suc.IH[OF wf2 p rec] unfolding next2 pn memeq .
    have far: "page_no va mod 68719476736 \<noteq> (page_no ?next + 1 + k) mod 68719476736"
      if "page_no va = page_no ?next" "k < n" for va k
      using mod_shift_differs[of "1 + k" 68719476736 "page_no va"] that Suc.prems(4) by (simp add: add.assoc)
    have first: "phys_of s' va = Some (((phys_start + word_of_nat i * 4096) AND PTE_ADDR_MASK) + (va AND 0xFFF))"
      if "page_no va = page_no ?next" for va
    proof -
      have "same_page ?next va" using that by (simp add: same_page_iff)
      moreover have "xlate (mem s') ?root va = xlate (mem s1) ?root va" using IH far[OF that] by blast
      ultimately show ?thesis using m True IH by fastforce
    qed
    have all: "phys_of s' va = Some (((phys_start + word_of_nat (i + k) * 4096) AND PTE_ADDR_MASK) + (va AND 0xFFF))"
      if "ok" "k < Suc n" "page_no va = page_no ?next + k" for k va
    proof (cases k)
      case 0
      then show ?thesis using first that(3) by simp
    next
      case (Suc j)
      then have "j < n" "page_no va = page_no ?next + 1 + j" "i + k = i + 1 + j" using that by simp_all
      then show ?thesis using IH that(1) by metis
    qed
    have others: "xlate (mem s') ?root va = xlate (mem s) ?root va"
      if "\<forall>k < Suc n. page_no va mod 68719476736 \<noteq> (page_no ?next + k) mod 68719476736" for va
    proof -
      have "\<forall>k < n. page_no va mod 68719476736 \<noteq> (page_no ?next + 1 + k) mod 68719476736"
        using that by (metis Suc_mono add.assoc plus_1_eq_Suc)
      moreover have "page_no va mod 68719476736 \<noteq> page_no ?next mod 68719476736"
        using spec[OF that, of 0] by simp
      ultimately show ?thesis using IH keep by metis
    qed
    have adv: "s_mmio_next s' = ?next + 4096 * word_of_nat (Suc n)" if ok
      using IH that by simp
    have fin: "vmm_wf s'" "s_pml4_virt s' = ?root" using IH by blast+
    show ?thesis
      by (intro conjI allI impI; (rule fin | rule all | rule others | rule adv); assumption)
  qed
qed

text \<open>The last page that an MMIO mapping of \<open>sz\<close> bytes at \<open>phys\<close> touches lies inside the mapped pages.\<close>

lemma mmio_page_count:
  fixes phys sz :: u64
  assumes "unat phys + unat sz + 4096 \<le> 4503599627370496"
  shows "unat ((((phys + sz + VMM_PAGE_SIZE - 1) AND PAGE_MASK) - (phys AND PAGE_MASK)) div VMM_PAGE_SIZE)
    = (unat phys + unat sz + 4095) div 4096 - unat phys div 4096"
proof -
  let ?e = "phys + sz + VMM_PAGE_SIZE - 1"
  have "?e = phys + sz + word_of_nat 4095" by simp
  also have "unat \<dots> = unat phys + unat sz + 4095"
    using unat_add_nat64[of "phys + sz" 4095] assms unat_add64[of phys sz] by simp
  finally have e: "unat ?e = unat phys + unat sz + 4095" .
  have "unat (phys AND PAGE_MASK) \<le> unat (?e AND PAGE_MASK)"
    unfolding unat_page_mask e by (intro mult_le_mono2 div_le_mono) simp
  then have "unat ((?e AND PAGE_MASK) - (phys AND PAGE_MASK)) = unat (?e AND PAGE_MASK) - unat (phys AND PAGE_MASK)"
    unfolding word_le_nat_alt[symmetric] by (rule unat_sub64)
  then show ?thesis
    unfolding unat_div unat_page_mask e by (simp flip: diff_mult_distrib2)
qed

text \<open>Where byte \<open>k\<close> of a device range lies: its page among the pages mapped for the range, and its place in that page.\<close>

lemma mmio_byte:
  fixes phys sz :: u64
  assumes v: "v = nxt + (phys AND 0xFFF)" and b: "unat nxt = 4096 * b"
    and room: "unat phys + unat sz + 4096 \<le> 4503599627370496" "unat nxt + unat sz + 8192 < 18446744073709551616"
    and k: "k < unat sz"
  defines "n \<equiv> (unat phys + unat sz + 4095) div 4096 - unat phys div 4096" and "ps \<equiv> phys AND PAGE_MASK"
  shows "\<exists>j < n. page_no (v + word_of_nat k) = page_no nxt + j
    \<and> ((ps + word_of_nat (0 + j) * 4096) AND PTE_ADDR_MASK) + ((v + word_of_nat k) AND 0xFFF) = phys + word_of_nat k"
proof -
  let ?o = "unat phys mod 4096" and ?P = "unat phys div 4096"
  let ?va = "v + word_of_nat k" and ?j = "(unat phys mod 4096 + k) div 4096"
      have o: "?o < 4096" by simp
  have vk: "?va = nxt + word_of_nat (?o + k)"
    unfolding v by (simp flip: unat_page_offset)
  have va: "unat ?va = 4096 * b + (?o + k)"
    unfolding vk using unat_add_nat64[of nxt "?o + k"] b room(2) k o by simp
  have pn: "page_no ?va = page_no nxt + ?j" unfolding va b by simp
  have sum: "unat phys + k = 4096 * (?P + ?j) + (?o + k) mod 4096"
    by (rule mod_sum_split)
  have "(unat phys + unat sz + 4095) div 4096 = ?P + (?o + unat sz + 4095) div 4096"
    using div_mult_mod_eq[of "unat phys" 4096] div_mult_self3[of 4096 ?P "?o + unat sz + 4095"]
    by (simp add: mult.commute add.assoc)
  moreover have "?j < (?o + unat sz + 4095) div 4096"
    using div_le_mono[of "?o + k + 4096" "?o + unat sz + 4095" 4096] k by simp
  ultimately have j: "?j < n" by (simp add: n_def)
  let ?f = "ps + word_of_nat (0 + ?j) * 4096"
  have top: "4096 * (?P + ?j) + (?o + k) mod 4096 < 4503599627370496"
    unfolding sum[symmetric] using room(1) k by linarith
  have ups: "unat ps = 4096 * ?P" unfolding ps_def by (rule unat_page_mask)
  have f: "unat ?f = 4096 * (?P + ?j)"
    using unat_add_nat64[of ps "4096 * ?j"] ups top by (simp add: mult.commute)
  have "unat ?f < 4503599627370496" unfolding f using top by linarith
  then have "?f AND PTE_ADDR_MASK = ?f"
    using f by (intro mask_frame) (simp_all add: aligned_def)
  moreover have "unat (?f + (?va AND 0xFFF)) = unat (phys + word_of_nat k)"
  proof -
    have w: "unat (?va AND 0xFFF) = (?o + k) mod 4096" unfolding unat_page_offset va by simp
    have "unat (?f + (?va AND 0xFFF)) = unat ?f + unat (?va AND 0xFFF)"
      by (rule unat_add64) (use f w top in linarith)
    also have "\<dots> = unat phys + k" unfolding f w by (rule sum[symmetric])
    also have "\<dots> = unat (phys + word_of_nat k)"
      by (rule unat_add_nat64[symmetric]) (use room(1) k in linarith)
    finally show ?thesis .
  qed
  ultimately show ?thesis using j pn by (intro exI[of _ ?j]) (simp only: word64_eqI simp_thms)
qed

text \<open>
  C26: When \<^verbatim>\<open>vmm_map_mmio\<close> succeeds, the address it returns gives access to exactly the device bytes
  asked for: for every offset below the size, the returned address plus the offset translates to
  the physical address plus the offset.  The next free window address moves past the mapped pages,
  and addresses outside these pages keep their translation.
\<close>

theorem vmm_map_mmio_correct:
  assumes wf: "vmm_wf s" and al: "aligned 12 (s_mmio_next s)"
    and room: "unat phys + unat sz + 4096 \<le> 4503599627370496"
      "unat (s_mmio_next s) + unat sz + 8192 < 18446744073709551616" "unat sz < 281474976702464"
    and eq: "vmm_map_mmio phys sz s = (v, s')" "v \<noteq> 0"
  shows "vmm_wf s'
    \<and> (\<forall>k < unat sz. phys_of s' (v + word_of_nat k) = Some (phys + word_of_nat k))
    \<and> (\<exists>n. s_mmio_next s' = s_mmio_next s + 4096 * word_of_nat n
         \<and> (\<forall>va. (\<forall>k < n. page_no va mod 68719476736 \<noteq> (page_no (s_mmio_next s) + k) mod 68719476736)
              \<longrightarrow> xlate (mem s') (s_pml4_virt s) va = xlate (mem s) (s_pml4_virt s) va))"
proof -
  let ?next = "s_mmio_next s" and ?o = "unat phys mod 4096" and ?P = "unat phys div 4096"
  define n where "n = (unat phys + unat sz + 4095) div 4096 - ?P"
  define ps where "ps = phys AND PAGE_MASK"
  obtain ok s1 where a: "map_mmio_pages ps 0 n s = (ok, s1)" by fastforce
  have r: "(v, s') = (if ok then (?next + (phys AND 0xFFF), s1) else (0, s1))"
    using eq(1) a unfolding vmm_map_mmio_def Let_def mmio_page_count[OF room(1)]
    unfolding n_def[symmetric] ps_def[symmetric] by simp
  then have ok: ok and v: "v = ?next + (phys AND 0xFFF)" and s': "s' = s1" using eq(2) by (auto split: if_splits)
  have n_le: "4096 * n \<le> unat sz + 8191" unfolding n_def using div_mult_mod_eq[of "unat phys" 4096] by linarith
  have lim: "unat ?next + 4096 * n < 18446744073709551616" "n < 68719476736" using n_le room by linarith+
  note m = map_mmio_pages_correct[OF wf al lim a]
  obtain b where b: "unat ?next = 4096 * b" using al by (auto simp: aligned_def)
  have bytes: "phys_of s' (v + word_of_nat k) = Some (phys + word_of_nat k)" if k: "k < unat sz" for k
    using mmio_byte[OF v b room(1,2) k] m ok unfolding s' n_def ps_def by metis
  show ?thesis using m ok bytes unfolding s' by blast
qed

theorem vmm_map_mmio_correct_witness:
  "vmm_wf vmm_example \<and> fst (vmm_map_mmio 0xFEE00000 0x1000 vmm_example) = VMM_MMIO_BASE
   \<and> phys_of (snd (vmm_map_mmio 0xFEE00000 0x1000 vmm_example)) (VMM_MMIO_BASE + word_of_nat 0x20) = Some 0xFEE00020"
proof -
  have "bit (27 :: u64) 0" by (simp flip: flags_bits)
  then obtain s1 where m: "vmm_map_page 0xFEE00000 VMM_MMIO_BASE 27 vmm_example = (0, s1)"
    using vmm_example_map by (metis prod.collapse)
  have next_eq: "s_mmio_next vmm_example = VMM_MMIO_BASE" by (simp add: vmm_example_def)
  have v: "fst (vmm_map_mmio 0xFEE00000 0x1000 vmm_example) = VMM_MMIO_BASE"
    by (simp add: vmm_map_mmio_def Let_def next_eq m)
  have al: "aligned 12 (s_mmio_next vmm_example)" by (simp add: next_eq aligned_def)
  obtain s2 where eq: "vmm_map_mmio 0xFEE00000 0x1000 vmm_example = (VMM_MMIO_BASE, s2)"
    using v by (metis prod.collapse)
  have "\<forall>k < unat (0x1000 :: u64). phys_of s2 (VMM_MMIO_BASE + word_of_nat k) = Some (0xFEE00000 + word_of_nat k)"
    using vmm_map_mmio_correct[OF vmm_example_wf al _ _ _ eq] by (simp add: next_eq)
  from spec[OF this, of "0x20"] show ?thesis using vmm_example_wf by (simp add: eq)
qed

end
