(* ===== verification/Heap_Properties.thy ===== *)
theory Heap_Properties
  imports Heap_Malloc Vmm_Properties
begin

text \<open>
  The properties of the kernel heap: allocation returns room of its own or nothing, always ends and
  keeps the heap consistent; release, resizing, zeroed allocation, the consistency check.
\<close>

section \<open>Allocation\<close>

text \<open>What one allocation does to the blocks \<open>B\<close>.\<close>

definition alloc_result :: "'a heap_state_scheme \<Rightarrow> blocks \<Rightarrow> u64 \<Rightarrow> u64 \<Rightarrow> 'a heap_state_scheme \<Rightarrow> blocks \<Rightarrow> bool" where
  "alloc_result s B sz p s' B' \<longleftrightarrow>
     (\<forall>b y. B b = Some (y, True) \<longrightarrow> B' b = Some (y, True)
        \<and> (\<forall>x. b \<le> unat x \<and> unat x < b + y \<longrightarrow> hmem s' x = hmem s x))
     \<and> (if p = 0 then B' = B
        else \<exists>a w. unat p = a + 32 \<and> B' a = Some (w, True) \<and> (\<forall>y. B a \<noteq> Some (y, True)) \<and> unat sz + 48 \<le> w)"

lemma live_bytes_outside_free:
  assumes "heap_inv s B fl" "B b = Some (y, True)" "b \<le> unat x" "unat x < b + y" "B c = Some (z, False)"
  shows "\<not> (c \<le> unat x \<and> unat x < c + z)"
proof -
  have "b \<noteq> c" using assms(2,5) by auto
  then show ?thesis
    using layout_disjoint[OF heap_invD(2)[OF assms(1)] assms(2,5)] assms(3,4) by auto
qed

lemma place_result:
  assumes inv: "heap_inv s B (xs @ a # ys)" and z: "B a = Some (z, False)"
    and t: "16 dvd t" "64 \<le> t" "t \<le> z" "unat sz + 48 \<le> t"
  obtains s' B' fl' where "place_block (word_of_nat a) (word_of_nat t) s = (word_of_nat (a + 32), s')"
    "heap_inv s' B' fl'" "alloc_result s B sz (word_of_nat (a + 32)) s' B'" "(word_of_nat (a + 32) :: u64) \<noteq> 0"
proof -
  note hb = heap_invD(1,2)[OF inv]
  obtain s' B' fl' w where p: "place_block (word_of_nat a) (word_of_nat t) s = (word_of_nat (a + 32), s')"
    "heap_inv s' B' fl'" "B' a = Some (w, True)" "t \<le> w"
    "\<And>b. b \<noteq> a \<Longrightarrow> \<not> (a < b \<and> b < a + z) \<Longrightarrow> B' b = B b"
    "\<And>x. (\<And>b z. B b = Some (z, False) \<Longrightarrow> \<not> (b \<le> unat x \<and> unat x < b + z)) \<Longrightarrow> hmem s' x = hmem s x"
    using place_block_correct[OF inv z t(1-3)] by metis
  have u: "unat (word_of_nat (a + 32) :: u64) = a + 32"
    using layoutD[OF hb(2) z] heap_boundsD(1)[OF hb(1)] by (intro unat_of_nat64) linarith
  then have nz: "(word_of_nat (a + 32) :: u64) \<noteq> 0" by (metis add_is_0 unat_0 zero_neq_numeral)
  have live: "B' b = Some (y, True) \<and> (\<forall>x. b \<le> unat x \<and> unat x < b + y \<longrightarrow> hmem s' x = hmem s x)"
    if b: "B b = Some (y, True)" for b y
  proof -
    have "b \<noteq> a" using b z by auto
    then have "\<not> (a < b \<and> b < a + z)" using layout_disjoint[OF hb(2) b z] layoutD(5)[OF hb(2) b] by auto
    then show ?thesis using p(5)[OF \<open>b \<noteq> a\<close>] p(6) live_bytes_outside_free[OF inv b] b by auto
  qed
  have "alloc_result s B sz (word_of_nat (a + 32)) s' B'"
    unfolding alloc_result_def using live nz u p(3,4) z t(4)
    by (simp del: of_nat_add)
  then show ?thesis using that[OF p(1,2)] nz by blast
qed

lemma alloc_result_after:
  assumes r: "alloc_result s1 B1 sz p s' B'" "p \<noteq> 0"
    and live: "\<And>b y. B b = Some (y, True) \<Longrightarrow> B1 b = Some (y, True)"
      "\<And>b y x. B b = Some (y, True) \<Longrightarrow> b \<le> unat x \<Longrightarrow> unat x < b + y \<Longrightarrow> hmem s1 x = hmem s x"
  shows "alloc_result s B sz p s' B'"
proof -
  obtain a w where a: "unat p = a + 32" "B' a = Some (w, True)" "\<forall>y. B1 a \<noteq> Some (y, True)" "unat sz + 48 \<le> w"
    using r unfolding alloc_result_def by auto
  have "\<forall>y. B a \<noteq> Some (y, True)" using a(3) live(1) by blast
  moreover have "B' b = Some (y, True) \<and> (\<forall>x. b \<le> unat x \<and> unat x < b + y \<longrightarrow> hmem s' x = hmem s x)"
    if b: "B b = Some (y, True)" for b y
    using r(1) live(1)[OF b] live(2)[OF b] unfolding alloc_result_def by metis
  ultimately show ?thesis using a r(2) unfolding alloc_result_def by auto
qed

lemma kmalloc_spec:
  assumes inv: "heap_inv s B fl"
  shows "\<exists>p s' B' fl'. kmalloc sz s = Some (p, s') \<and> heap_inv s' B' fl' \<and> alloc_result s B sz p s' B'
    \<and> (p = 0 \<longrightarrow> sz = 0 \<or> sz > HEAP_MAX_ALLOC
         \<or> (\<forall>a \<in> set fl. \<forall>z. B a = Some (z, False) \<longrightarrow> z < unat (block_total sz)))"
proof (cases "sz = 0 \<or> sz > HEAP_MAX_ALLOC")
  case True
  then have "kmalloc sz s = Some (0, s)" by (auto simp: kmalloc_def)
  moreover have "alloc_result s B sz 0 s B" by (simp add: alloc_result_def)
  ultimately show ?thesis using True inv by blast
next
  case False
  note hb = heap_invD(1,2)[OF inv]
  have "0 < unat sz" "unat sz \<le> 268435456"
    using False by (simp_all add: word_le_nat_alt[symmetric] unat_gt_0 not_less) (simp add: word_le_nat_alt)
  then obtain t where t: "block_total sz = word_of_nat t" "16 dvd t" "64 \<le> t" "t \<le> 268435520" "unat sz + 48 \<le> t"
    by (rule block_total_nat)
  have ut: "unat (word_of_nat t :: u64) = t" using t(4) by (intro unat_of_nat64) simp
  have size: "blk_size (word_of_nat a) (hmem s) = word_of_nat z \<and> unat (word_of_nat z :: u64) = z"
    if "B a = Some (z, False)" for a z
    using blk_ok_fields(1)[OF heap_invD(3)[OF inv that] block_cells(8)[OF hb that]]
      block_cells(8)[OF hb that] unat_of_nat64[of z] by simp
  let ?P = "\<lambda>a. word_of_nat t \<le> blk_size (word_of_nat a) (hmem s)"
  have fit: "find_fit (word_of_nat t) (free_list_head s) (hmem s) =
      Some (case find ?P fl of None \<Rightarrow> 0 | Some a \<Rightarrow> word_of_nat a)"
    using find_fit_list[of s B "[]" fl "word_of_nat t"] inv heap_invD(7)[OF inv] by simp
  show ?thesis
  proof (cases "find ?P fl")
    case (Some a)
    then obtain xs ys where fl: "fl = xs @ a # ys" and P: "?P a"
      by (metis (no_types, lifting) find_Some_iff in_set_conv_decomp nth_mem)
    obtain z where z: "B a = Some (z, False)" "0 < a" "a < 18446744073709551616"
      using free_block[OF inv, of a] fl by auto
    have tz: "t \<le> z" using P size[OF z(1)] by (simp add: word_le_nat_alt ut)
    have nz: "(word_of_nat a :: u64) \<noteq> 0" using z(2,3) word_of_nat_0_iff[of a] by simp
    obtain s' B' fl' where p: "place_block (word_of_nat a) (word_of_nat t) s = (word_of_nat (a + 32), s')"
      "heap_inv s' B' fl'" "alloc_result s B sz (word_of_nat (a + 32)) s' B'" "(word_of_nat (a + 32) :: u64) \<noteq> 0"
      using place_result[OF inv[unfolded fl] z(1) t(2,3) tz t(5)] by metis
    have "kmalloc sz s = Some (word_of_nat (a + 32), s')"
      using False Some nz p(1) by (simp add: kmalloc_def Let_def t(1) fit del: of_nat_add)
    then show ?thesis using p(2-4) by blast
  next
    case None
    have small: "\<forall>a \<in> set fl. \<forall>z. B a = Some (z, False) \<longrightarrow> z < unat (block_total sz)"
      using None size by (auto simp: find_None_iff t(1) ut word_le_nat_alt)
    have "t \<le> 268439552" using t(4) by simp
    from inv t(3) this show ?thesis
    proof (cases rule: grow_heap_correct)
      case (1 s')
      have "kmalloc sz s = Some (0, s')"
        using False None 1(1) by (simp add: kmalloc_def Let_def t(1) fit)
      moreover have "hmem s' x = hmem s x" if "B b = Some (y, True)" "unat x < b + y" for b y x
        using that layoutD(2)[OF hb(2) that(1)] by (intro extendedD(6)[OF 1(2)]) simp
      then have "alloc_result s B sz 0 s' B" by (auto simp: alloc_result_def)
      ultimately show ?thesis using 1(3) small by blast
    next
      case (2 s1 a z)
      have nz: "(word_of_nat a :: u64) \<noteq> 0" using 2(2,3) word_of_nat_0_iff[of a] by simp
      have inv1: "heap_inv s1 (B(a \<mapsto> (z, False))) ([] @ a # fl)" using 2(5) by simp
      have z: "(B(a \<mapsto> (z, False))) a = Some (z, False)" by simp
      obtain s' B' fl' where p: "place_block (word_of_nat a) (word_of_nat t) s1 = (word_of_nat (a + 32), s')"
        "heap_inv s' B' fl'" "alloc_result s1 (B(a \<mapsto> (z, False))) sz (word_of_nat (a + 32)) s' B'"
        "(word_of_nat (a + 32) :: u64) \<noteq> 0"
        using place_result[OF inv1 z t(2,3) 2(4) t(5)] by metis
      have "kmalloc sz s = Some (word_of_nat (a + 32), s')"
        using False None 2(1) nz p(1) by (simp add: kmalloc_def Let_def t(1) fit del: of_nat_add)
      moreover have "alloc_result s B sz (word_of_nat (a + 32)) s' B'"
      proof (rule alloc_result_after[OF p(3,4)])
        fix b y assume b: "B b = Some (y, True)"
        then show "(B(a \<mapsto> (z, False))) b = Some (y, True)" using 2(7) by auto
        fix x :: u64 assume x: "b \<le> unat x" "unat x < b + y"
        then show "hmem s1 x = hmem s x"
          using layoutD(2)[OF hb(2) b] live_bytes_outside_free[OF inv b x] by (intro 2(8)) auto
      qed
      ultimately show ?thesis using p(2,4) by blast
    qed
  qed
qed

section \<open>Initialisation\<close>

definition heap_region_ok :: "u64 \<Rightarrow> u64 \<Rightarrow> bool" where
  "heap_region_ok start sz \<longleftrightarrow>
     0 < unat start \<and> 4096 dvd unat start \<and> 4096 dvd unat sz \<and> 4096 \<le> unat sz
     \<and> unat start + unat sz + 268439552 < 18446744073709551616 \<and> unat sz + 268439552 < 9223372036854775808"

lemma heap_inv_empty:
  assumes "heap_bounds s" "free_list_head s = 0"
  shows "heap_inv s Map.empty []"
  using assms by (simp add: heap_inv_def layout_def)

lemma heap_init_spec:
  assumes ok: "heap_region_ok start sz"
  shows "\<exists>B fl. heap_inv (heap_init start sz s) B fl \<and>
    (if fst (map_heap_page start (s\<lparr>heap_start := start, heap_max_size := sz, heap_mapped_size := 0,
                heap_allocated_bytes := 0, free_list_head := 0\<rparr>)) = 0
     then B = [unat start \<mapsto> (4096, False)] \<and> fl = [unat start] else B = Map.empty \<and> fl = [])"
proof -
  let ?s0 = "s\<lparr>heap_start := start, heap_max_size := sz, heap_mapped_size := 0,
                heap_allocated_bytes := 0, free_list_head := 0\<rparr>"
  obtain r s1 where a: "map_heap_page start ?s0 = (r, s1)" by fastforce
  from a show ?thesis
  proof (cases rule: map_heap_page_cases)
    case (1 m pm)
    then have "heap_init start sz s = say ''  HEAP: initial page map failed\<newline>'' (paint VGA_RED VGA_BLACK s1)"
      using a by (simp add: heap_init_def)
    moreover have "heap_inv \<dots> Map.empty []"
      using ok by (intro heap_inv_empty) (simp_all add: 1(2) say_def paint_def heap_bounds_def heap_region_ok_def)
    ultimately show ?thesis using 1(1) a by auto
  next
    case (2 m pm)
    let ?s2 = "s1\<lparr>heap_mapped_size := VMM_PAGE_SIZE\<rparr>"
    have hb: "heap_bounds ?s2" using ok by (simp add: 2(2) heap_bounds_def heap_region_ok_def)
    have inv: "heap_inv ?s2 Map.empty []" using hb by (intro heap_inv_empty) (simp_all add: 2(2))
    have lo: "heap_lo ?s2 = unat start" "heap_hi ?s2 = unat start + 4096" by (simp_all add: 2(2))
    have d: "16 dvd unat start" using ok by (auto simp: heap_region_ok_def intro: dvd_trans[of 16 4096])
    have "heap_init start sz s = list_insert_head start (format_block start VMM_PAGE_SIZE False ?s2)"
      using a 2(1) by (simp add: heap_init_def format_block_def)
    moreover have "heap_inv (list_insert_head (word_of_nat (unat start)) (format_block (word_of_nat (unat start)) (word_of_nat 4096) False ?s2))
        (Map.empty(unat start \<mapsto> (4096, False))) [unat start]"
      using lo by (intro add_block(1)[OF inv d]) simp_all
    ultimately show ?thesis using 2(1) a by auto
  qed
qed

section \<open>Writing payload bytes\<close>

lemma payload_write_inv:
  assumes inv: "heap_inv s B fl" and a: "B a = Some (w, True)"
    and same: "\<And>x. \<not> (a + 32 \<le> unat x \<and> unat x < a + w - 16) \<Longrightarrow> m' x = hmem s x"
  shows "heap_inv (s\<lparr>hmem := m'\<rparr>) B fl"
proof -
  note hb = heap_invD(1,2)[OF inv]
  have rd: "rd m' c = rd (hmem s) c" if c: "cell c" "c + 8 \<le> a + 32 \<or> a + w - 16 \<le> c" for c
  proof (rule load64_cong)
    fix i :: nat assume i: "i < 8"
    have "c + 8 \<le> 18446744073709551616" using c(1) by (auto simp: cell_def elim!: dvdE)
    then have "unat (word_of_nat c + word_of_nat i :: u64) = c + i"
      using i unat_of_nat64[of "c + i"] by simp
    then show "m' (word_of_nat c + word_of_nat i) = hmem s (word_of_nat c + word_of_nat i)"
      using c(2) i by (intro same) auto
  qed
  have blocks: "blk_ok m' b y bl \<and> rd m' (b + 8) = rd (hmem s) (b + 8) \<and> rd m' (b + 16) = rd (hmem s) (b + 16)"
    if b: "B b = Some (y, bl)" for b y bl
  proof -
    have "rd m' c = rd (hmem s) c"
      if c: "c \<in> {b, b + 8, b + 16, b + 24, b + y - 8, b + y - 16}" "cell c" for c
      using c(1) layout_disjoint[OF hb(2) a b] layoutD(5)[OF hb(2) a] layoutD(5)[OF hb(2) b] a b
      by (intro rd[OF c(2)]; cases "a = b") auto
    then show ?thesis
      using heap_invD(3)[OF inv b] block_cells[OF hb b] unfolding blk_ok_def
      by (simp del: of_nat_add of_nat_diff)
  qed
  have "free_links m' 0 fl 0 = free_links (hmem s) 0 fl 0"
    using blocks heap_invD(5)[OF inv] by (intro seg_cong) blast
  then show ?thesis
    using inv blocks unfolding heap_inv_def by (auto simp: heap_bounds_def)
qed

section \<open>Release and checking\<close>

lemma footer_of_live_block:
  assumes inv: "heap_inv s B fl" and a: "B a = Some (w, al)"
  shows "check_footer (word_of_nat a) (hmem s) \<longleftrightarrow> \<not> al"
proof -
  note hb = heap_invD(1,2)[OF inv]
  note ok = heap_invD(3)[OF inv a] and c = block_cells[OF hb a] and l = layoutD(5)[OF hb(2) a]
  have e: "(word_of_nat a :: u64) + word_of_nat w - 8 = word_of_nat (a + w - 8)"
    "(word_of_nat a :: u64) + word_of_nat w - 16 = word_of_nat (a + w - 16)"
    using l by (simp_all add: of_nat_diff)
  have "(word_of_nat w OR BLOCK_ALLOCATED) AND BLOCK_ALLOCATED \<noteq> 0" "word_of_nat w AND BLOCK_ALLOCATED = 0"
    using header_alloc[OF c(8), of True] header_alloc[OF c(8), of False] by simp_all
  then have "(word_of_nat w :: u64) \<noteq> word_of_nat w OR BLOCK_ALLOCATED" by metis
  then show ?thesis
    using ok blk_ok_fields(1)[OF ok c(8)] unfolding check_footer_def Let_def
    by (cases al) (simp_all add: e blk_ok_def del: of_nat_add of_nat_diff)
qed

lemma heap_check_loop_ok:
  assumes "heap_inv s B (xs @ ys)"
  shows "heap_check_loop (word_of_nat (last_of xs 0)) (word_of_nat (first_of ys 0)) s = Some (0, s)"
  using assms
proof (induction ys arbitrary: xs)
  case Nil
  then show ?case by (simp add: heap_check_loop.simps)
next
  case (Cons a ys)
  note inv = Cons.prems
  note hb = heap_invD(1,2)[OF inv]
  obtain z where z: "B a = Some (z, False)" "0 < a" "a < 18446744073709551616"
    using free_block[OF inv, of a] by auto
  note c = block_cells[OF hb z(1)] and l = layoutD[OF hb(2) z(1)] and bd = heap_boundsD[OF hb(1)]
  have nz: "(word_of_nat a :: u64) \<noteq> 0" using z(2,3) word_of_nat_0_iff[of a] by simp
  have ua: "unat (word_of_nat a :: u64) = a" by (rule unat_of_nat64[OF z(3)])
  have range: "\<not> (word_of_nat a < heap_start s \<or> heap_start s + heap_mapped_size s \<le> word_of_nat a)"
    unfolding heap_hi_word(1)[OF hb(1)] word_less_nat_alt word_le_nat_alt ua heap_hi_word(2)[OF hb(1)]
    using l(1,2,5) by simp
  have "heap_inv s B ((xs @ [a]) @ ys)" using inv by simp
  note IH = Cons.IH[OF this]
  have links: "blk_prev_free (word_of_nat a) (hmem s) = word_of_nat (last_of xs 0)"
    "blk_next_free (word_of_nat a) (hmem s) = word_of_nat (first_of ys 0)"
    using seg_middle(1,2)[OF inv] by (simp_all add: blk_prev_free_def blk_next_free_def)
  show ?case
    using heap_check_loop.simps[of "word_of_nat (last_of xs 0)" "word_of_nat a" s] nz range IH links
      blk_ok_fields(2,3)[OF heap_invD(3)[OF inv z(1)] c(8)] footer_of_live_block[OF inv z(1)]
    by simp
qed

section \<open>A small heap\<close>

definition heap_example0 :: heap_state where
  "heap_example0 = \<lparr>con = con vmm_example, pmm = pmm vmm_example, mem = mem vmm_example,
     s_pml4_phys = 0x1000, s_pml4_virt = s_pml4_virt vmm_example, s_mmio_next = VMM_MMIO_BASE,
     hmem = \<lambda>_. 0, heap_start = 0, heap_max_size = 0, heap_mapped_size = 0,
     heap_allocated_bytes = 0, free_list_head = 0\<rparr>"

definition heap_example :: heap_state where
  "heap_example = heap_init VMM_HEAP_BASE VMM_HEAP_SIZE heap_example0"

lemma heap_example_inv:
  "heap_inv heap_example [unat VMM_HEAP_BASE \<mapsto> (4096, False)] [unat VMM_HEAP_BASE]"
proof -
  let ?s = "heap_example0\<lparr>heap_start := VMM_HEAP_BASE, heap_max_size := VMM_HEAP_SIZE, heap_mapped_size := 0,
                heap_allocated_bytes := 0, free_list_head := 0\<rparr>"
  have eq: "mem ?s = mem vmm_example" "s_pml4_virt ?s = s_pml4_virt vmm_example" "pmm ?s = pmm vmm_example"
    by (simp_all add: heap_example0_def)
  have "vmm_wf ?s" using vmm_example_wf eq by simp
  moreover have "bit VMM_KERN_RW 0" by (simp flip: flags_bits)
  moreover have "\<not> in_huge_page ?s VMM_HEAP_BASE"
    using vmm_example_not_large(1)[of VMM_HEAP_BASE] eq unfolding in_huge_page_def by simp
  ultimately have "fst (vmm_alloc_map VMM_HEAP_BASE VMM_KERN_RW ?s) = 0"
    using vmm_alloc_map_correct_aux[OF _ _ surjective_pairing, of ?s VMM_KERN_RW VMM_HEAP_BASE]
      vmm_example_frames eq(3) by auto
  then have "fst (map_heap_page VMM_HEAP_BASE ?s) = 0" by (simp add: map_heap_page_def case_prod_beta)
  moreover have "heap_region_ok VMM_HEAP_BASE VMM_HEAP_SIZE" by (simp add: heap_region_ok_def)
  ultimately show ?thesis
    using heap_init_spec[of VMM_HEAP_BASE VMM_HEAP_SIZE heap_example0] unfolding heap_example_def by auto
qed

text \<open>The same heap after it has grown to four pages, all of them one free block.\<close>

definition heap_example_big :: heap_state where
  "heap_example_big = list_insert_head VMM_HEAP_BASE (format_block VMM_HEAP_BASE 16384 False
     (heap_example0\<lparr>heap_start := VMM_HEAP_BASE, heap_max_size := VMM_HEAP_SIZE, heap_mapped_size := 16384, free_list_head := 0\<rparr>))"

lemma heap_example_big_inv: "heap_inv heap_example_big [unat VMM_HEAP_BASE \<mapsto> (16384, False)] [unat VMM_HEAP_BASE]"
proof -
  let ?s = "heap_example0\<lparr>heap_start := VMM_HEAP_BASE, heap_max_size := VMM_HEAP_SIZE, heap_mapped_size := 16384, free_list_head := 0\<rparr>"
  have "heap_bounds ?s" by (simp add: heap_bounds_def)
  then have inv: "heap_inv ?s Map.empty []" by (intro heap_inv_empty) simp_all
  have d: "16 dvd unat VMM_HEAP_BASE" by simp
  have "heap_inv (list_insert_head (word_of_nat (unat VMM_HEAP_BASE)) (format_block (word_of_nat (unat VMM_HEAP_BASE)) (word_of_nat 16384) False ?s))
      (Map.empty(unat VMM_HEAP_BASE \<mapsto> (16384, False))) [unat VMM_HEAP_BASE]"
    by (intro add_block(1)[OF inv d]) simp_all
  then show ?thesis unfolding heap_example_big_def by simp
qed

lemma heap_init_vmm:
  assumes "vmm_alloc_map start VMM_KERN_RW (s\<lparr>heap_start := start, heap_max_size := sz, heap_mapped_size := 0,
      heap_allocated_bytes := 0, free_list_head := 0\<rparr>) = (r, u)" (is "vmm_alloc_map _ _ ?s0 = _")
  shows "mem (heap_init start sz s) = mem u" "pmm (heap_init start sz s) = pmm u" "s_pml4_virt (heap_init start sz s) = s_pml4_virt u"
proof -
  have m: "map_heap_page start ?s0 = (if r \<noteq> 0 then (r, u) else (0, u\<lparr>hmem := memset8 (hmem u) (start AND PAGE_MASK) 0 4096\<rparr>))"
    unfolding map_heap_page_def assms Let_def prod.case ..
  show "mem (heap_init start sz s) = mem u" "pmm (heap_init start sz s) = pmm u" "s_pml4_virt (heap_init start sz s) = s_pml4_virt u"
    by (simp_all add: heap_init_def m Let_def list_insert_head_def set_footer_def blk_set_magic_def blk_set_size_def
        blk_set_next_free_def blk_set_prev_free_def hpoke_def say_def paint_def)
qed

text \<open>
  C27: \<^verbatim>\<open>heap_init\<close> on a page-aligned region of well-formed page tables establishes the heap invariant and keeps the tables
  well-formed.  Either the first page has been mapped to a frame that was free and the heap is one free block over that page,
  or the heap is empty and no translation has changed.  The second case arises only inside a 1 GiB page or with fewer
  than four free frames: with frames to spare the page is mapped.
\<close>

theorem heap_init_correct:
  assumes "heap_region_ok start sz" "vmm_wf s"
  shows "\<exists>B fl. heap_inv (heap_init start sz s) B fl \<and> vmm_wf (heap_init start sz s)
    \<and> (B = [unat start \<mapsto> (4096, False)] \<and> fl = [unat start]
         \<and> (\<exists>f \<in> free_frames (pmm s) - free_frames (pmm (heap_init start sz s)).
              \<forall>va. same_page start va \<longrightarrow> phys_of (heap_init start sz s) va = Some (f + (va AND 0xFFF)))
       \<or> B = Map.empty \<and> fl = [] \<and> (in_huge_page s start \<or> card (free_frames (pmm s)) < 4)
         \<and> (\<forall>va. xlate (mem (heap_init start sz s)) (s_pml4_virt (heap_init start sz s)) va = xlate (mem s) (s_pml4_virt s) va))"
proof -
  let ?s0 = "s\<lparr>heap_start := start, heap_max_size := sz, heap_mapped_size := 0, heap_allocated_bytes := 0, free_list_head := 0\<rparr>"
  let ?t = "heap_init start sz s"
  obtain r u where a: "vmm_alloc_map start VMM_KERN_RW ?s0 = (r, u)" by fastforce
  note t = heap_init_vmm[OF a]
  have "bit VMM_KERN_RW 0" by (simp flip: flags_bits)
  with assms(2) have v: "vmm_wf u" "r = 0 \<or> r = - 1"
    "r = 0 \<Longrightarrow> \<exists>f \<in> free_frames (pmm s) - free_frames (pmm u). \<forall>va. same_page start va \<longrightarrow> phys_of u va = Some (f + (va AND 0xFFF))"
    "r \<noteq> 0 \<Longrightarrow> xlate (mem u) (s_pml4_virt u) va = xlate (mem s) (s_pml4_virt s) va"
    "r \<noteq> 0 \<Longrightarrow> in_huge_page s start \<or> card (free_frames (pmm s)) < 4" for va
    using vmm_alloc_map_correct_aux[OF _ _ a] by (auto simp: in_huge_page_def)
  have wf: "vmm_wf ?t" using v(1) by (simp only: t)
  have r: "fst (map_heap_page start ?s0) = r" unfolding map_heap_page_def a Let_def prod.case by simp
  show ?thesis
  proof (cases "r = 0")
    case True
    then show ?thesis using heap_init_spec[OF assms(1), of s] v(3) wf unfolding r t by auto
  next
    case False
    then show ?thesis using heap_init_spec[OF assms(1), of s] v(4,5) wf unfolding r t by auto
  qed
qed

theorem heap_init_correct_witness:
  "heap_inv heap_example [unat VMM_HEAP_BASE \<mapsto> (4096, False)] [unat VMM_HEAP_BASE]
   \<and> vmm_wf heap_example \<and> phys_of heap_example VMM_HEAP_BASE \<noteq> None"
proof -
  have eq: "mem heap_example0 = mem vmm_example" "s_pml4_virt heap_example0 = s_pml4_virt vmm_example" "pmm heap_example0 = pmm vmm_example"
    by (simp_all add: heap_example0_def)
  have "heap_region_ok VMM_HEAP_BASE VMM_HEAP_SIZE" by (simp add: heap_region_ok_def)
  moreover have "vmm_wf heap_example0" using vmm_example_wf eq by simp
  moreover have "\<not> (in_huge_page heap_example0 VMM_HEAP_BASE \<or> card (free_frames (pmm heap_example0)) < 4)"
    using vmm_example_not_large(1)[of VMM_HEAP_BASE] vmm_example_frames eq unfolding in_huge_page_def by simp
  moreover have "same_page VMM_HEAP_BASE VMM_HEAP_BASE" by (simp add: same_page_def)
  ultimately show ?thesis
    using heap_init_correct[of VMM_HEAP_BASE VMM_HEAP_SIZE heap_example0] unfolding heap_example_def by blast
qed

text \<open>
  C1: On a consistent heap \<^verbatim>\<open>kmalloc\<close> always returns and leaves a consistent heap.  Every block that was
  allocated keeps its place, size and bytes.  A non-null result points behind the header of a block
  that was not allocated before and has room for the requested bytes; NULL comes only for size 0,
  for a size over the limit, or when no free block is large enough.
\<close>

theorem kmalloc_correct:
  assumes "heap_inv s B fl"
  shows "\<exists>p s' B' fl'. kmalloc sz s = Some (p, s') \<and> heap_inv s' B' fl'
    \<and> (\<forall>b y. B b = Some (y, True) \<longrightarrow> B' b = Some (y, True)
         \<and> (\<forall>x. b \<le> unat x \<and> unat x < b + y \<longrightarrow> hmem s' x = hmem s x))
    \<and> (p \<noteq> 0 \<longrightarrow> (\<exists>a w. unat p = a + 32 \<and> B' a = Some (w, True) \<and> (\<forall>y. B a \<noteq> Some (y, True))
         \<and> unat sz + 48 \<le> w))
    \<and> (p = 0 \<longrightarrow> B' = B \<and> (sz = 0 \<or> sz > HEAP_MAX_ALLOC
         \<or> (\<forall>a \<in> set fl. \<forall>z. B a = Some (z, False) \<longrightarrow> z < unat (block_total sz))))"
  using kmalloc_spec[OF assms, of sz] unfolding alloc_result_def by (auto split: if_splits)

theorem kmalloc_correct_witness:
  "\<exists>p s' B' fl'. kmalloc 100 heap_example = Some (p, s') \<and> p \<noteq> 0 \<and> heap_inv s' B' fl'"
proof -
  have "block_total 100 = 160" by (simp add: block_total_def)
  then show ?thesis
    using kmalloc_correct[OF heap_example_inv, of 100] by auto
qed

text \<open>
  On every consistent heap \<^verbatim>\<open>heap_check\<close> walks the whole free list, ends, reports no error and
  changes nothing.
\<close>

theorem heap_check_passes:
  assumes "heap_inv s B fl"
  shows "heap_check s = Some (0, s)"
  using heap_check_loop_ok[of s B "[]" fl] assms heap_invD(7)[OF assms] by (simp add: heap_check_def)

lemma kfree_releases_nothing_aux:
  assumes "heap_inv s B fl" "B a = Some (w, True)"
  shows "kfree (word_of_nat (a + 32)) s = s"
proof -
  have "\<not> check_footer (word_of_nat a) (hmem s)" using footer_of_live_block[OF assms] by simp
  then show ?thesis by (simp add: kfree_def Let_def)
qed

text \<open>
  C28: \<^verbatim>\<open>kfree\<close> of a block that \<^verbatim>\<open>kmalloc\<close> handed out changes nothing: the footer holds the size without
  the allocated flag, \<^verbatim>\<open>check_footer\<close> compares it with the header that has the flag, and \<^verbatim>\<open>kfree\<close>
  returns before it releases the block.  The memory is never reused.
\<close>

theorem kfree_releases_nothing:
  assumes "heap_inv s B fl" "B a = Some (w, True)"
  shows "kfree (word_of_nat (a + 32)) s = s"
  by (rule kfree_releases_nothing_aux[OF assms])

theorem heap_check_passes_witness: "heap_check heap_example = Some (0, heap_example)"
  by (rule heap_check_passes[OF heap_example_inv])

lemma heap_example_alloc:
  obtains p s' B' fl' a w where "kmalloc 100 heap_example = Some (p, s')" "heap_inv s' B' fl'" "p \<noteq> 0"
    "B' a = Some (w, True)" "p = word_of_nat (a + 32)"
proof -
  obtain p s' B' fl' where k: "kmalloc 100 heap_example = Some (p, s')" "heap_inv s' B' fl'"
    "alloc_result heap_example [unat VMM_HEAP_BASE \<mapsto> (4096, False)] 100 p s' B'"
    "p = 0 \<longrightarrow> (100 :: u64) = 0 \<or> 100 > HEAP_MAX_ALLOC
      \<or> (\<forall>a \<in> set [unat VMM_HEAP_BASE]. \<forall>z. [unat VMM_HEAP_BASE \<mapsto> (4096, False)] a = Some (z, False) \<longrightarrow> z < unat (block_total 100))"
    using kmalloc_spec[OF heap_example_inv, of 100] by blast
  have "block_total 100 = 160" by (simp add: block_total_def)
  then have nz: "p \<noteq> 0" using k(4) by auto
  then obtain a w where a: "unat p = a + 32" "B' a = Some (w, True)"
    using k(3) by (auto simp: alloc_result_def)
  have "p = word_of_nat (a + 32)" using a(1) by (metis word64_eqI unat_of_nat64 unat64_less)
  then show thesis by (rule that[OF k(1,2) nz a(2)])
qed

theorem kfree_releases_nothing_witness:
  "\<exists>p s'. kmalloc 100 heap_example = Some (p, s') \<and> p \<noteq> 0 \<and> kfree p s' = s'"
proof -
  obtain p s' B' fl' a w where k: "kmalloc 100 heap_example = Some (p, s')" "heap_inv s' B' fl'" "p \<noteq> 0"
    "B' a = Some (w, True)" "p = word_of_nat (a + 32)" by (rule heap_example_alloc)
  then show ?thesis using kfree_releases_nothing[OF k(2) k(4)] by metis
qed

section \<open>Zeroed allocation and resizing\<close>

lemma payload_offset:
  assumes "unat (p :: u64) = a + 32" "a + w < 18446744073709551616" "n + 48 \<le> w"
  shows "unat (x - p) < n \<longleftrightarrow> a + 32 \<le> unat x \<and> unat x < a + 32 + n"
proof
  assume l: "unat (x - p) < n"
  then have "unat (p + (x - p)) = unat p + unat (x - p)" using assms by (intro unat_add64) linarith
  then show "a + 32 \<le> unat x \<and> unat x < a + 32 + n" using l assms(1) by simp
next
  assume "a + 32 \<le> unat x \<and> unat x < a + 32 + n"
  then show "unat (x - p) < n" using unat_sub64[of p x] assms(1) by (simp add: word_le_nat_alt) linarith
qed

lemma block_in_space:
  assumes "heap_inv s B fl" "B a = Some (w, al)"
  shows "a + w < 18446744073709551616"
  using layoutD(2)[OF heap_invD(2)[OF assms(1)] assms(2)] heap_boundsD(1)[OF heap_invD(1)[OF assms(1)]] by linarith

lemma fill_payload:
  assumes inv: "heap_inv s B fl" and a: "B a = Some (w, True)" and p: "unat p = a + 32" and n: "n + 48 \<le> w"
    and m': "\<And>x. \<not> unat (x - p) < n \<Longrightarrow> m' x = hmem s x"
  shows "heap_inv (s\<lparr>hmem := m'\<rparr>) B fl"
    and "\<And>b y x. B b = Some (y, True) \<Longrightarrow> b \<noteq> a \<Longrightarrow> b \<le> unat x \<Longrightarrow> unat x < b + y \<Longrightarrow> m' x = hmem s x"
proof -
  note off = payload_offset[OF p block_in_space[OF inv a] n]
  show "heap_inv (s\<lparr>hmem := m'\<rparr>) B fl"
    using n by (intro payload_write_inv[OF inv a] m') (auto simp: off)
  fix b y and x :: u64 assume b: "B b = Some (y, True)" "b \<noteq> a" "b \<le> unat x" "unat x < b + y"
  show "m' x = hmem s x"
    using layout_disjoint[OF heap_invD(2)[OF inv] a b(1) b(2)[symmetric]] b n by (intro m') (auto simp: off)
qed

lemma calloc_total:
  assumes "nmemb \<noteq> 0" "sz \<le> HEAP_MAX_ALLOC div nmemb"
  shows "unat (nmemb * sz) = unat nmemb * unat sz" "unat nmemb * unat sz \<le> 268435456"
proof -
  have "unat sz \<le> 268435456 div unat nmemb" using assms(2) by (simp add: word_le_nat_alt unat_div)
  then have "unat nmemb * unat sz \<le> unat nmemb * (268435456 div unat nmemb)" by (rule mult_le_mono2)
  also have "\<dots> \<le> 268435456" by (rule times_div_less_eq_dividend)
  finally show l: "unat nmemb * unat sz \<le> 268435456" .
  then show "unat (nmemb * sz) = unat nmemb * unat sz" using unat_mult_lem[of nmemb sz] by simp
qed

text \<open>
  \<^verbatim>\<open>kcalloc\<close> never returns less than it was asked for: a non-null result has room for the full,
  unwrapped product of its arguments, all of it zero; an overflowing product gives NULL.  The heap
  stays consistent and live blocks keep their bytes.
\<close>

theorem kcalloc_correct:
  assumes inv: "heap_inv s B fl"
  shows "\<exists>p s' B' fl'. kcalloc nmemb sz s = Some (p, s') \<and> heap_inv s' B' fl'
    \<and> (\<forall>b y. B b = Some (y, True) \<longrightarrow> B' b = Some (y, True)
         \<and> (\<forall>x. b \<le> unat x \<and> unat x < b + y \<longrightarrow> hmem s' x = hmem s x))
    \<and> (p \<noteq> 0 \<longrightarrow> unat nmemb * unat sz \<le> unat HEAP_MAX_ALLOC
         \<and> (\<exists>a w. unat p = a + 32 \<and> B' a = Some (w, True) \<and> (\<forall>y. B a \<noteq> Some (y, True))
              \<and> unat nmemb * unat sz + 48 \<le> w)
         \<and> (\<forall>i < unat nmemb * unat sz. hmem s' (p + word_of_nat i) = 0))"
proof (cases "nmemb = 0 \<or> sz = 0 \<or> sz > HEAP_MAX_ALLOC div nmemb")
  case True
  then have "kcalloc nmemb sz s = Some (0, s)" by (auto simp: kcalloc_def)
  then show ?thesis using inv by auto
next
  case False
  have tot: "unat (nmemb * sz) = unat nmemb * unat sz" "unat nmemb * unat sz \<le> 268435456"
    using calloc_total[of nmemb sz] False by (auto simp: not_less)
  obtain p s1 B' fl' where k: "kmalloc (nmemb * sz) s = Some (p, s1)" "heap_inv s1 B' fl'"
    "alloc_result s B (nmemb * sz) p s1 B'" using kmalloc_spec[OF inv, of "nmemb * sz"] by blast
  show ?thesis
  proof (cases "p = 0")
    case True
    then have "kcalloc nmemb sz s = Some (0, s1)" using False k(1) by (simp add: kcalloc_def Let_def)
    then show ?thesis using k(2,3) True by (auto simp: alloc_result_def)
  next
    case nz: False
    let ?n = "unat nmemb * unat sz" and ?m = "memset8 (hmem s1) p 0 (unat nmemb * unat sz)"
    obtain a w where a: "unat p = a + 32" "B' a = Some (w, True)" "\<forall>y. B a \<noteq> Some (y, True)" "?n + 48 \<le> w"
      using k(3) nz by (auto simp: alloc_result_def tot(1))
    have ms: "?m x = (if unat (x - p) < ?n then 0 else hmem s1 x)" for x
      using tot(2) by (intro memset8_apply) simp
    note fill = fill_payload[OF k(2) a(2,1,4), of ?m]
    have inv': "heap_inv (s1\<lparr>hmem := ?m\<rparr>) B' fl'" by (rule fill(1)) (simp add: ms)
    have live: "B' b = Some (y, True) \<and> (\<forall>x. b \<le> unat x \<and> unat x < b + y \<longrightarrow> ?m x = hmem s x)"
      if b: "B b = Some (y, True)" for b y
    proof -
      have "B' b = Some (y, True)" "\<forall>x. b \<le> unat x \<and> unat x < b + y \<longrightarrow> hmem s1 x = hmem s x"
        using k(3) b by (auto simp: alloc_result_def)
      moreover have "b \<noteq> a" using a(3) b by auto
      ultimately show ?thesis using fill(2)[of b y] by (simp add: ms)
    qed
    have zero: "?m (p + word_of_nat i) = 0" if "i < ?n" for i
      using that tot(2) unat_of_nat64[of i] by (simp add: ms)
    have "kcalloc nmemb sz s = Some (p, s1\<lparr>hmem := ?m\<rparr>)"
      using False k(1) nz by (simp add: kcalloc_def Let_def tot(1))
    then show ?thesis
      using inv' live zero a tot(2) by (intro exI[of _ p] exI[of _ "s1\<lparr>hmem := ?m\<rparr>"] exI[of _ B'] exI[of _ fl']) auto
  qed
qed

theorem kcalloc_correct_witness:
  "\<exists>p s' B' fl'. kcalloc 10 16 heap_example = Some (p, s') \<and> heap_inv s' B' fl'"
  using kcalloc_correct[OF heap_example_inv, of 10 16] by blast

lemma copy8_apply:
  assumes "n \<le> 18446744073709551616"
    and apart: "\<And>i j. i < n \<Longrightarrow> j < n \<Longrightarrow> d + word_of_nat i \<noteq> p + word_of_nat j"
  shows "copy8 m d p n x = (if unat (x - d) < n then m (p + (x - d)) else m x)"
  using assms
proof (induction n arbitrary: x)
  case (Suc n)
  have IH: "copy8 m d p n y = (if unat (y - d) < n then m (p + (y - d)) else m y)" for y
    using Suc.prems by (intro Suc.IH) auto
  have src: "copy8 m d p n (p + word_of_nat n) = m (p + word_of_nat n)"
  proof -
    have "\<not> unat (p + word_of_nat n - d) < n"
    proof
      assume "unat (p + word_of_nat n - d) < n"
      then have "d + word_of_nat (unat (p + word_of_nat n - d)) \<noteq> p + word_of_nat n"
        using Suc.prems(2)[of "unat (p + word_of_nat n - d)" n] by simp
      then show False by simp
    qed
    then show ?thesis by (simp add: IH)
  qed
  have "x = d + word_of_nat n \<longleftrightarrow> unat (x - d) = n"
    using Suc.prems(1) unat_of_nat64[of n] by (auto simp: word_unat_eq_iff[of "x - d"] algebra_simps)
  then show ?case using src IH[of x] by (auto simp: Let_def)
qed simp

text \<open>
  \<^verbatim>\<open>krealloc\<close> of a live block returns a block with room for the new size that holds the bytes of
  the old payload, or NULL; either way the heap stays consistent and the old block stays allocated.
\<close>

theorem krealloc_correct:
  assumes inv: "heap_inv s B fl" and a: "B a = Some (w, True)" and sz: "0 < sz"
  shows "\<exists>p s' B' fl'. krealloc (word_of_nat (a + 32)) sz s = Some (p, s') \<and> heap_inv s' B' fl'
    \<and> B' a = Some (w, True)
    \<and> (p \<noteq> 0 \<longrightarrow> (\<exists>b v. unat p = b + 32 \<and> B' b = Some (v, True) \<and> unat sz + 48 \<le> v)
         \<and> (\<forall>i < w - 48. hmem s' (p + word_of_nat i) = hmem s (word_of_nat (a + 32) + word_of_nat i)))"
proof -
  note hb = heap_invD(1,2)[OF inv] and c = block_cells[OF heap_invD(1,2)[OF inv] a]
  note l = layoutD[OF hb(2) a] and ok = blk_ok_fields[OF heap_invD(3)[OF inv a] c(8)]
  let ?ptr = "word_of_nat (a + 32) :: u64"
  have hdr: "?ptr - 32 = word_of_nat a" by simp
  have up: "unat ?ptr = a + 32" using block_in_space[OF inv a] l(5) by (intro unat_of_nat64) linarith
  then have nz: "?ptr \<noteq> 0" by (metis add_is_0 unat_0 zero_neq_numeral)
  have old: "word_of_nat w - BLOCK_META_SIZE = word_of_nat (w - 48)" using l(5) by (simp add: of_nat_diff)
  have uo: "unat (word_of_nat (w - 48) :: u64) = w - 48" using c(8) by (intro unat_of_nat64) simp
  have sz0: "sz \<noteq> 0" using sz by auto
  show ?thesis
  proof (cases "sz \<le> word_of_nat (w - 48)")
    case True
    then have fits: "unat sz + 48 \<le> w" using uo l(5) by (simp add: word_le_nat_alt)
    have "krealloc ?ptr sz s = Some (?ptr, s)"
      using nz sz0 True unfolding krealloc_def Let_def hdr ok old by simp
    then show ?thesis using inv a up fits by blast
  next
    case False
    obtain p s1 B' fl' where k: "kmalloc sz s = Some (p, s1)" "heap_inv s1 B' fl'" "alloc_result s B sz p s1 B'"
      using kmalloc_spec[OF inv, of sz] by blast
    have kept: "B' a = Some (w, True)" "\<forall>x. a \<le> unat x \<and> unat x < a + w \<longrightarrow> hmem s1 x = hmem s x"
      using k(3) a by (auto simp: alloc_result_def)
    have unfold: "krealloc ?ptr sz s = (if p = 0 then Some (0, s1)
        else Some (p, kfree ?ptr (s1\<lparr>hmem := copy8 (hmem s1) p ?ptr (w - 48)\<rparr>)))"
      using nz sz0 False k(1) unfolding krealloc_def Let_def hdr ok old uo by simp
    show ?thesis
    proof (cases "p = 0")
      case True
      then show ?thesis using unfold k(2) kept(1) by auto
    next
      case pnz: False
      obtain b v where b: "unat p = b + 32" "B' b = Some (v, True)" "\<forall>y. B b \<noteq> Some (y, True)" "unat sz + 48 \<le> v"
        using k(3) pnz by (auto simp: alloc_result_def)
      have ne: "b \<noteq> a" using a b(3) by auto
      note dis = layout_disjoint[OF heap_invD(2)[OF k(2)] b(2) kept(1) ne]
      have wv: "w - 48 + 48 \<le> v" using False uo b(4) by (simp add: word_le_nat_alt)
      let ?m = "copy8 (hmem s1) p ?ptr (w - 48)"
      have nat: "unat (p + word_of_nat i) = b + 32 + i" "unat (?ptr + word_of_nat i) = a + 32 + i" if "i < w - 48" for i
        using that b(1) up block_in_space[OF k(2) b(2)] block_in_space[OF inv a] wv l(5)
          unat_add_nat64[of p i] unat_add_nat64[of ?ptr i] by auto
      have cp: "?m x = (if unat (x - p) < w - 48 then hmem s1 (?ptr + (x - p)) else hmem s1 x)" for x
      proof (rule copy8_apply)
        show "w - 48 \<le> 18446744073709551616" using c(8) by simp
        show "p + word_of_nat i \<noteq> ?ptr + word_of_nat j" if ij: "i < w - 48" "j < w - 48" for i j
        proof
          assume "p + word_of_nat i = ?ptr + word_of_nat j"
          then have "b + 32 + i = a + 32 + j" using nat(1)[OF ij(1)] nat(2)[OF ij(2)] by metis
          then show False using dis ij wv by linarith
        qed
      qed
      let ?s2 = "s1\<lparr>hmem := ?m\<rparr>"
      have inv2: "heap_inv ?s2 B' fl'" by (rule fill_payload(1)[OF k(2) b(2,1) wv]) (simp only: cp if_False)
      have bytes: "?m (p + word_of_nat i) = hmem s (?ptr + word_of_nat i)" if "i < w - 48" for i
      proof -
        have "unat (p + word_of_nat i - p) < w - 48" using that c(8) unat_of_nat64[of i] by simp
        then have "?m (p + word_of_nat i) = hmem s1 (?ptr + word_of_nat i)" unfolding cp[of "p + word_of_nat i"] by simp
        then show ?thesis using that kept(2) nat(2)[OF that] by simp
      qed
      have "krealloc ?ptr sz s = Some (p, ?s2)"
        using unfold pnz kfree_releases_nothing_aux[OF inv2 kept(1)] by simp
      then show ?thesis using inv2 kept(1) b bytes by (intro exI[of _ p] exI[of _ ?s2] exI[of _ B'] exI[of _ fl']) auto
    qed
  qed
qed

theorem krealloc_correct_witness:
  "\<exists>p s' q s'' B fl. kmalloc 100 heap_example = Some (p, s') \<and> p \<noteq> 0
    \<and> krealloc p 200 s' = Some (q, s'') \<and> heap_inv s'' B fl"
proof -
  obtain p s' B' fl' a w where k: "kmalloc 100 heap_example = Some (p, s')" "heap_inv s' B' fl'" "p \<noteq> 0"
    "B' a = Some (w, True)" "p = word_of_nat (a + 32)" by (rule heap_example_alloc)
  have "(0 :: u64) < 200" by simp
  from krealloc_correct[OF k(2) k(4) this] k(1,3,5) show ?thesis by metis
qed

end
