(* ===== verification/Ports.thy ===== *)
theory Ports
  imports Heap
begin

text \<open>
  Port input and output, model-specific registers and memory-mapped device registers
  (\<^verbatim>\<open>include/kernel/io.h\<close> and the \<^verbatim>\<open>volatile\<close> accesses of the drivers).

  The devices are not part of the program.  They are a parameter \<open>dev\<close> of the state: an arbitrary
  function that answers a read from the history of all accesses before it, so that a device may
  keep any internal state and may change it on every access.  The history is kept newest first.
  The console's own port traffic (\<^verbatim>\<open>tty.c\<close>, \<^verbatim>\<open>uart.c\<close>) is only ever written and has its own log.
\<close>

section \<open>Accesses\<close>

datatype io_loc = Port8 u16 | Port16 u16 | Port32 u16 | Msr u32 | Mmio u64 | Cpuid_edx u32

datatype io_op = Rd io_loc u64 | Wr io_loc u64

type_synonym device = "io_op list \<Rightarrow> io_loc \<Rightarrow> u64"

record machine = heap_state +
  dev :: device
  hist :: "io_op list"

definition io_in :: "io_loc \<Rightarrow> 'a machine_scheme \<Rightarrow> u64 \<times> 'a machine_scheme" where
  "io_in l s = (let v = dev s (hist s) l in (v, s\<lparr>hist := Rd l v # hist s\<rparr>))"

definition io_out :: "io_loc \<Rightarrow> u64 \<Rightarrow> 'a machine_scheme \<Rightarrow> 'a machine_scheme" where
  "io_out l v s = s\<lparr>hist := Wr l v # hist s\<rparr>"

definition inb :: "u16 \<Rightarrow> 'a machine_scheme \<Rightarrow> u8 \<times> 'a machine_scheme" where
  "inb port s = (let (v, s) = io_in (Port8 port) s in (ucast v, s))"

definition outb :: "u16 \<Rightarrow> u8 \<Rightarrow> 'a machine_scheme \<Rightarrow> 'a machine_scheme" where
  "outb port v s = io_out (Port8 port) (ucast v) s"

definition inw :: "u16 \<Rightarrow> 'a machine_scheme \<Rightarrow> u16 \<times> 'a machine_scheme" where
  "inw port s = (let (v, s) = io_in (Port16 port) s in (ucast v, s))"

definition outw :: "u16 \<Rightarrow> u16 \<Rightarrow> 'a machine_scheme \<Rightarrow> 'a machine_scheme" where
  "outw port v s = io_out (Port16 port) (ucast v) s"

definition inl :: "u16 \<Rightarrow> 'a machine_scheme \<Rightarrow> u32 \<times> 'a machine_scheme" where
  "inl port s = (let (v, s) = io_in (Port32 port) s in (ucast v, s))"

definition outl :: "u16 \<Rightarrow> u32 \<Rightarrow> 'a machine_scheme \<Rightarrow> 'a machine_scheme" where
  "outl port v s = io_out (Port32 port) (ucast v) s"

definition io_wait :: "'a machine_scheme \<Rightarrow> 'a machine_scheme" where
  "io_wait s = outb 0x80 0 s"

definition rdmsr :: "u32 \<Rightarrow> 'a machine_scheme \<Rightarrow> u64 \<times> 'a machine_scheme" where
  "rdmsr msr s = io_in (Msr msr) s"

definition wrmsr :: "u32 \<Rightarrow> u64 \<Rightarrow> 'a machine_scheme \<Rightarrow> 'a machine_scheme" where
  "wrmsr msr v s = io_out (Msr msr) v s"

definition mmio_read :: "u64 \<Rightarrow> 'a machine_scheme \<Rightarrow> u32 \<times> 'a machine_scheme" where
  "mmio_read a s = (let (v, s) = io_in (Mmio a) s in (ucast v, s))"

definition mmio_write :: "u64 \<Rightarrow> u32 \<Rightarrow> 'a machine_scheme \<Rightarrow> 'a machine_scheme" where
  "mmio_write a v s = io_out (Mmio a) (ucast v) s"

definition say_dec :: "u32 \<Rightarrow> 'a vmm_state_scheme \<Rightarrow> 'a vmm_state_scheme" where
  "say_dec v s = s\<lparr>con := tty_print_dec v (con s)\<rparr>"

definition say_char :: "u8 \<Rightarrow> 'a vmm_state_scheme \<Rightarrow> 'a vmm_state_scheme" where
  "say_char ch s = s\<lparr>con := tty_putchar ch (con s)\<rparr>"

named_theorems io_defs \<open>definitions of the port and register accesses\<close>

lemmas io_access_defs [io_defs] = io_in_def io_out_def inb_def outb_def inw_def outw_def inl_def outl_def
  io_wait_def rdmsr_def wrmsr_def mmio_read_def mmio_write_def

lemmas say_defs [io_defs] = say_def say_hex_def say_dec_def say_char_def paint_def

text \<open>Register values survive their way through the 64-bit history.\<close>

lemma ucast_back [simp]:
  "ucast (ucast (b :: u8) :: u64) = b" "ucast (ucast (w :: u16) :: u64) = w" "ucast (ucast (d :: u32) :: u64) = d"
  by (auto intro!: bit_word_eqI simp: bit_simps)

section \<open>Busy waiting\<close>

text \<open>
  \<^verbatim>\<open>do v = inb(port); while (!ok(v));\<close>  The loop has no bound in the sources: whether it ends is up
  to the device, so not returning is the value None.
\<close>

partial_function (option) poll8 ::
  "u16 \<Rightarrow> (u8 \<Rightarrow> bool) \<Rightarrow> 'a machine_scheme \<Rightarrow> (u8 \<times> 'a machine_scheme) option" where
  "poll8 port ok s = (let (v, s) = inb port s in if ok v then Some (v, s) else poll8 port ok s)"

primrec reads8 :: "nat \<Rightarrow> u16 \<Rightarrow> 'a machine_scheme \<Rightarrow> 'a machine_scheme" where
  "reads8 0 port s = s"
| "reads8 (Suc n) port s = reads8 n port (snd (inb port s))"

lemma poll8_returns:
  assumes "ok (fst (inb port (reads8 n port s)))" "\<And>i. i < n \<Longrightarrow> \<not> ok (fst (inb port (reads8 i port s)))"
  shows "poll8 port ok s = Some (inb port (reads8 n port s))"
  using assms
proof (induction n arbitrary: s)
  case 0
  then show ?case by (subst poll8.simps) (simp add: case_prod_beta Let_def)
next
  case (Suc n)
  have "\<not> ok (fst (inb port s))" using Suc.prems(2)[of 0] by simp
  moreover have "poll8 port ok (snd (inb port s)) = Some (inb port (reads8 n port (snd (inb port s))))"
    using Suc.prems(1) Suc.prems(2)[of "Suc i" for i] by (intro Suc.IH) auto
  ultimately show ?case by (subst poll8.simps) (simp add: case_prod_beta Let_def)
qed

lemma poll8_unfold: "poll8 port ok s = (if ok (fst (inb port s)) then Some (inb port s) else poll8 port ok (snd (inb port s)))"
  by (subst poll8.simps) (simp add: case_prod_beta Let_def)

section \<open>What an access leaves alone\<close>

text \<open>Only the history changes, so every read of another field sees through an access.\<close>

lemma io_in_state: "snd (io_in l s) = s\<lparr>hist := Rd l (dev s (hist s) l) # hist s\<rparr>"
  by (simp add: io_in_def Let_def)

lemma inb_fst: "fst (inb port s) = ucast (dev s (hist s) (Port8 port))"
  and inb_snd: "snd (inb port s) = s\<lparr>hist := Rd (Port8 port) (dev s (hist s) (Port8 port)) # hist s\<rparr>"
  by (simp_all add: inb_def io_in_def Let_def)

lemma outb_state: "outb port v s = s\<lparr>hist := Wr (Port8 port) (ucast v) # hist s\<rparr>"
  by (simp add: outb_def io_out_def)

lemma reads8_state: "\<exists>h. reads8 n port s = s\<lparr>hist := h @ hist s\<rparr>"
proof (induction n arbitrary: s)
  case (Suc n)
  obtain h where h: "reads8 n port (snd (inb port s)) = (snd (inb port s))\<lparr>hist := h @ hist (snd (inb port s))\<rparr>"
    using Suc[of "snd (inb port s)"] by blast
  then show ?case by (intro exI[of _ "h @ [Rd (Port8 port) (dev s (hist s) (Port8 port))]"]) (simp add: inb_snd)
qed (auto intro: exI[of _ "[]"])

section \<open>A blank machine\<close>

text \<open>A start state with an idle console, no free frames, an unused heap and the given device.\<close>

definition blank_heap :: heap_state where
  "blank_heap = \<lparr>con = \<lparr>term_row = 0, term_col = 0, term_color = 7, term_buffer = \<lambda>_. 0, port_log = []\<rparr>,
     pmm = \<lparr>pmm_bitmap = \<lambda>_. 0, total_pages = 0, used_pages = 0\<rparr>, mem = \<lambda>_. 0, s_pml4_phys = 0, s_pml4_virt = 0,
     s_mmio_next = 0, hmem = \<lambda>_. 0, heap_start = 0, heap_max_size = 0, heap_mapped_size = 0,
     heap_allocated_bytes = 0, free_list_head = 0\<rparr>"

definition blank_machine :: "device \<Rightarrow> machine" where
  "blank_machine d = heap_state.extend blank_heap (machine.fields d [])"

lemma blank_machine_simps [simp]: "dev (blank_machine d) = d" "hist (blank_machine d) = []"
  by (simp_all add: blank_machine_def heap_state.extend_def machine.fields_def)

end
