(* ===== verification/Bytes.thy ===== *)
theory Bytes
  imports Prelude
begin

text \<open>
  Little-endian 16- and 32-bit accesses to the flat memory and to byte buffers, as the packed
  structures of the ACPI tables, the FAT32 volume and the ELF image are read and written.
\<close>

definition load16 :: "memory \<Rightarrow> u64 \<Rightarrow> u16" where
  "load16 m a = ucast (m a) OR push_bit 8 (ucast (m (a + 1)))"

definition load32 :: "memory \<Rightarrow> u64 \<Rightarrow> u32" where
  "load32 m a = ucast (load16 m a) OR push_bit 16 (ucast (load16 m (a + 2)))"

text \<open>Byte buffers: the bytes at an index of a list, and writing a byte string at an index.\<close>

definition get16 :: "u8 list \<Rightarrow> nat \<Rightarrow> u16" where
  "get16 b i = ucast (b ! i) OR push_bit 8 (ucast (b ! (i + 1)))"

definition get32 :: "u8 list \<Rightarrow> nat \<Rightarrow> u32" where
  "get32 b i = ucast (get16 b i) OR push_bit 16 (ucast (get16 b (i + 2)))"

definition bytes16 :: "u16 \<Rightarrow> u8 list" where
  "bytes16 v = [ucast v, ucast (drop_bit 8 v)]"

definition bytes32 :: "u32 \<Rightarrow> u8 list" where
  "bytes32 v = bytes16 (ucast v) @ bytes16 (ucast (drop_bit 16 v))"

definition put_bytes :: "nat \<Rightarrow> u8 list \<Rightarrow> u8 list \<Rightarrow> u8 list" where
  "put_bytes i v b = take i b @ v @ drop (i + length v) b"

section \<open>Reading back what was written\<close>

lemma load32_bytes: "load32 m p = ucast (ucast (m p) OR push_bit 8 (ucast (m (p + 1))) :: u16)
    OR push_bit 16 (ucast (ucast (m (p + 2)) OR push_bit 8 (ucast (m (p + 3))) :: u16))"
  by (simp add: load32_def load16_def add.assoc)

lemma load32_cong: "(\<And>i. i < 4 \<Longrightarrow> m (p + word_of_nat i) = m' (p + word_of_nat i)) \<Longrightarrow> load32 m p = load32 m' p"
proof -
  assume h: "\<And>i. i < 4 \<Longrightarrow> m (p + word_of_nat i) = m' (p + word_of_nat i)"
  show ?thesis using h[of 0] h[of 1] h[of 2] h[of 3] by (simp add: load32_bytes)
qed

lemma length_bytes [simp]: "length (bytes16 v) = 2" "length (bytes32 w) = 4"
  by (simp_all add: bytes16_def bytes32_def)

lemma join_bytes16: "ucast (ucast v :: u8) OR push_bit 8 (ucast (ucast (drop_bit 8 v) :: u8)) = (v :: u16)"
  by (rule bit_word_eqI) (auto simp: bit_simps)

lemma join_bytes32: "ucast (ucast v :: u16) OR push_bit 16 (ucast (ucast (drop_bit 16 v) :: u16)) = (v :: u32)"
  by (rule bit_word_eqI) (auto simp: bit_simps)

lemma length_put_bytes [simp]: "i + length v \<le> length b \<Longrightarrow> length (put_bytes i v b) = length b"
  by (simp add: put_bytes_def)

lemma nth_put_bytes:
  "i + length v \<le> length b \<Longrightarrow> j < length b \<Longrightarrow>
   put_bytes i v b ! j = (if i \<le> j \<and> j < i + length v then v ! (j - i) else b ! j)"
  by (auto simp: put_bytes_def nth_append)

lemma get16_put_same: "i + 2 \<le> length b \<Longrightarrow> get16 (put_bytes i (bytes16 v) b) i = v"
  by (simp add: get16_def nth_put_bytes) (simp add: bytes16_def join_bytes16)

lemma get16_put_other:
  "i + length v \<le> length b \<Longrightarrow> j + 2 \<le> length b \<Longrightarrow> j + 2 \<le> i \<or> i + length v \<le> j \<Longrightarrow>
   get16 (put_bytes i v b) j = get16 b j"
  by (auto simp: get16_def nth_put_bytes)

lemma get32_put_same: "i + 4 \<le> length b \<Longrightarrow> get32 (put_bytes i (bytes32 v) b) i = v"
  by (simp add: get32_def get16_def nth_put_bytes)
     (simp add: bytes32_def bytes16_def nth_append join_bytes16 join_bytes32)

lemma get32_put_other:
  "i + length v \<le> length b \<Longrightarrow> j + 4 \<le> length b \<Longrightarrow> j + 4 \<le> i \<or> i + length v \<le> j \<Longrightarrow>
   get32 (put_bytes i v b) j = get32 b j"
  by (auto simp: get32_def get16_put_other)

end
