(* ===== verification/Acpi.thy ===== *)
theory Acpi
  imports Bytes
begin

text \<open>
  The ACPI tables (\<^verbatim>\<open>kernel/InitKernel/acpi.c\<close>): the search for the root pointer, the look-up of a
  table by signature and the two passes over the entries of the MADT.  The tables lie in
  identity-mapped physical memory, which the operations read through a memory argument; pointers
  are addresses and NULL is 0.  The two passes advance by a length byte taken from the table, so
  their loops may run forever on a table that wraps around the address space and are option-valued.
\<close>

abbreviation ACPI_MAX_ISA_OVERRIDES :: nat where "ACPI_MAX_ISA_OVERRIDES \<equiv> 16"
abbreviation SDT_HEADER_SIZE :: u64 where "SDT_HEADER_SIZE \<equiv> 36"
abbreviation MADT_SIZE :: u64 where "MADT_SIZE \<equiv> 44"
abbreviation MADT_ENTRY_SIZE :: u64 where "MADT_ENTRY_SIZE \<equiv> 2"

section \<open>Table fields\<close>

record acpi_madt_int_override =
  ov_type :: u8
  ov_length :: u8
  ov_bus :: u8
  ov_irq :: u8
  ov_gsi :: u32
  ov_flags :: u16

record acpi_madt_info =
  mi_lapic_addr :: u32
  mi_flags :: u32
  mi_ioapic_found :: bool
  mi_ioapic_id :: u8
  mi_ioapic_addr :: u32
  mi_ioapic_gsi_base :: u32

definition read_int_override :: "memory \<Rightarrow> u64 \<Rightarrow> acpi_madt_int_override" where
  "read_int_override m p =
     \<lparr>ov_type = m p, ov_length = m (p + 1), ov_bus = m (p + 2), ov_irq = m (p + 3),
      ov_gsi = load32 m (p + 4), ov_flags = load16 m (p + 8)\<rparr>"

definition sdt_length :: "memory \<Rightarrow> u64 \<Rightarrow> u32" where
  "sdt_length m hdr = load32 m (hdr + 4)"

section \<open>Interrupt source overrides\<close>

partial_function (option) isa_override_loop ::
  "memory \<Rightarrow> u64 \<Rightarrow> u64 \<Rightarrow> acpi_madt_int_override list \<Rightarrow> acpi_madt_int_override list option" where
  "isa_override_loop m ptr end ovs =
     (if ptr + MADT_ENTRY_SIZE \<le> end
      then if (ucast (m (ptr + 1)) :: u64) < MADT_ENTRY_SIZE then Some ovs
           else isa_override_loop m (ptr + ucast (m (ptr + 1))) end
                  (if m ptr = 2 \<and> length ovs < ACPI_MAX_ISA_OVERRIDES
                   then ovs @ [read_int_override m ptr] else ovs)
      else Some ovs)"

text \<open>The result is the array \<^verbatim>\<open>isa_overrides\<close> up to \<^verbatim>\<open>isa_override_count\<close>.\<close>

definition acpi_parse_isa_overrides :: "memory \<Rightarrow> u64 \<Rightarrow> acpi_madt_int_override list option" where
  "acpi_parse_isa_overrides m madt_hdr =
     isa_override_loop m (madt_hdr + MADT_SIZE) (madt_hdr + ucast (sdt_length m madt_hdr)) []"

fun acpi_get_isa_override :: "acpi_madt_int_override list \<Rightarrow> u8 \<Rightarrow> bool \<times> u32 \<times> u16" where
  "acpi_get_isa_override [] isa_irq = (False, ucast isa_irq, 0)"
| "acpi_get_isa_override (ov # ovs) isa_irq =
     (if ov_irq ov = isa_irq then (True, ov_gsi ov, ov_flags ov)
      else acpi_get_isa_override ovs isa_irq)"

section \<open>Finding the tables\<close>

definition has_sig :: "memory \<Rightarrow> u64 \<Rightarrow> string \<Rightarrow> bool" where
  "has_sig m a s \<longleftrightarrow> list_all (\<lambda>i. m (a + word_of_nat i) = of_char (s ! i)) [0..<length s]"

function search_rsdp :: "memory \<Rightarrow> nat \<Rightarrow> nat \<Rightarrow> u64" where
  "search_rsdp m addr end =
     (if addr < end
      then if has_sig m (word_of_nat addr) ''RSD PTR '' then word_of_nat addr
           else search_rsdp m (addr + 16) end
      else 0)"
  by pat_completeness auto
termination by (relation "measure (\<lambda>(m, addr, end). end - addr)") auto

declare search_rsdp.simps [simp del]

primrec checksum :: "memory \<Rightarrow> u64 \<Rightarrow> nat \<Rightarrow> u8" where
  "checksum m p 0 = 0"
| "checksum m p (Suc i) = checksum m p i + m (p + word_of_nat i)"

definition verify_checksum :: "memory \<Rightarrow> u64 \<Rightarrow> nat \<Rightarrow> bool" where
  "verify_checksum m p len \<longleftrightarrow> checksum m p len = 0"

definition acpi_find_rsdp :: "memory \<Rightarrow> u64" where
  "acpi_find_rsdp m =
     (let ebda_seg = load16 m 0x40E;
          r = (if ebda_seg \<noteq> 0
               then let ebda_addr = unat ebda_seg * 16 in search_rsdp m ebda_addr (ebda_addr + 1024)
               else 0)
      in if r \<noteq> 0 then r else search_rsdp m 0xE0000 0x100000)"

text \<open>
  \<^verbatim>\<open>int count = (length - sizeof(header)) / w\<close>: the subtraction is done on 64 bits and the quotient
  is converted to a signed 32-bit value.
\<close>

definition sdt_count :: "u32 \<Rightarrow> u64 \<Rightarrow> nat" where
  "sdt_count len w = nat (sint (ucast ((ucast len - SDT_HEADER_SIZE) div w) :: u32))"

primrec find_sdt :: "memory \<Rightarrow> (nat \<Rightarrow> u64) \<Rightarrow> string \<Rightarrow> nat \<Rightarrow> nat \<Rightarrow> u64" where
  "find_sdt m entry sig i 0 = 0"
| "find_sdt m entry sig i (Suc n) =
     (if has_sig m (entry i) sig then entry i else find_sdt m entry sig (i + 1) n)"

definition acpi_find_table :: "memory \<Rightarrow> u64 \<Rightarrow> string \<Rightarrow> u64" where
  "acpi_find_table m rsdp sig =
     (let revision = m (rsdp + 15); rsdt_addr = load32 m (rsdp + 16); xsdt_addr = load64 m (rsdp + 24)
      in if revision \<ge> 2 \<and> xsdt_addr \<noteq> 0
         then if \<not> verify_checksum m xsdt_addr (unat (sdt_length m xsdt_addr)) then 0
              else find_sdt m (\<lambda>i. load64 m (xsdt_addr + SDT_HEADER_SIZE + 8 * word_of_nat i)) sig 0
                     (sdt_count (sdt_length m xsdt_addr) 8)
         else if rsdt_addr \<noteq> 0
         then let rsdt = ucast rsdt_addr
              in if \<not> verify_checksum m rsdt (unat (sdt_length m rsdt)) then 0
                 else find_sdt m (\<lambda>i. ucast (load32 m (rsdt + SDT_HEADER_SIZE + 4 * word_of_nat i))) sig 0
                        (sdt_count (sdt_length m rsdt) 4)
         else 0)"

section \<open>The MADT\<close>

definition madt_step :: "memory \<Rightarrow> u64 \<Rightarrow> acpi_madt_info \<Rightarrow> acpi_madt_info" where
  "madt_step m ptr info =
     (if m ptr = 1
      then info\<lparr>mi_ioapic_found := True, mi_ioapic_id := m (ptr + 2), mi_ioapic_addr := load32 m (ptr + 4),
                mi_ioapic_gsi_base := load32 m (ptr + 8)\<rparr>
      else if m ptr = 5 then info\<lparr>mi_lapic_addr := ucast (load64 m (ptr + 4))\<rparr>
      else info)"

partial_function (option) madt_loop ::
  "memory \<Rightarrow> u64 \<Rightarrow> u64 \<Rightarrow> acpi_madt_info \<Rightarrow> acpi_madt_info option" where
  "madt_loop m ptr end info =
     (if ptr + MADT_ENTRY_SIZE \<le> end
      then if (ucast (m (ptr + 1)) :: u64) < MADT_ENTRY_SIZE then Some info
           else madt_loop m (ptr + ucast (m (ptr + 1))) end (madt_step m ptr info)
      else Some info)"

definition acpi_parse_madt :: "memory \<Rightarrow> u64 \<Rightarrow> acpi_madt_info option" where
  "acpi_parse_madt m hdr =
     madt_loop m (hdr + MADT_SIZE) (hdr + ucast (sdt_length m hdr))
       \<lparr>mi_lapic_addr = load32 m (hdr + 36), mi_flags = load32 m (hdr + 40), mi_ioapic_found = False,
        mi_ioapic_id = 0, mi_ioapic_addr = 0, mi_ioapic_gsi_base = 0\<rparr>"

section \<open>Correctness of the two passes\<close>

text \<open>A sequence of MADT entries, each a byte string whose second byte is its length, laid out from an address on.\<close>

definition madt_entry_ok :: "u8 list \<Rightarrow> bool" where
  "madt_entry_ok e \<longleftrightarrow> 2 \<le> length e \<and> length e < 256 \<and> e ! 1 = word_of_nat (length e)
     \<and> (e ! 0 = 2 \<longrightarrow> 10 \<le> length e) \<and> (e ! 0 = 1 \<or> e ! 0 = 5 \<longrightarrow> 12 \<le> length e)"

primrec entries_at :: "memory \<Rightarrow> nat \<Rightarrow> u8 list list \<Rightarrow> bool" where
  "entries_at m a [] \<longleftrightarrow> True"
| "entries_at m a (e # es) \<longleftrightarrow> madt_entry_ok e \<and> list_all (\<lambda>i. m (word_of_nat (a + i)) = e ! i) [0..<length e]
     \<and> entries_at m (a + length e) es"

definition override_of :: "u8 list \<Rightarrow> acpi_madt_int_override" where
  "override_of e = \<lparr>ov_type = e ! 0, ov_length = e ! 1, ov_bus = e ! 2, ov_irq = e ! 3,
     ov_gsi = get32 e 4, ov_flags = get16 e 8\<rparr>"

definition overrides_of :: "u8 list list \<Rightarrow> acpi_madt_int_override list" where
  "overrides_of es = take ACPI_MAX_ISA_OVERRIDES (map override_of (filter (\<lambda>e. e ! 0 = 2) es))"

text \<open>The effect of an entry on the summary; the 64-bit address of a type 5 entry is cut to its low half.\<close>

definition apply_entry :: "u8 list \<Rightarrow> acpi_madt_info \<Rightarrow> acpi_madt_info" where
  "apply_entry e info =
     (if e ! 0 = 1 then info\<lparr>mi_ioapic_found := True, mi_ioapic_id := e ! 2, mi_ioapic_addr := get32 e 4,
        mi_ioapic_gsi_base := get32 e 8\<rparr>
      else if e ! 0 = 5 then info\<lparr>mi_lapic_addr := get32 e 4\<rparr> else info)"

lemma entry_bytes:
  assumes "list_all (\<lambda>i. m (word_of_nat (a + i)) = e ! i) [0..<length e]" "i < length e"
  shows "m (word_of_nat a + word_of_nat i) = e ! i"
  using assms by (auto simp: list_all_iff)

lemma load_entry:
  assumes "list_all (\<lambda>i. m (word_of_nat (a + i)) = e ! i) [0..<length e]"
  shows "i + 1 < length e \<Longrightarrow> load16 m (word_of_nat a + word_of_nat i) = get16 e i"
    and "i + 3 < length e \<Longrightarrow> load32 m (word_of_nat a + word_of_nat i) = get32 e i"
proof -
  have 16: "load16 m (word_of_nat a + word_of_nat i) = get16 e i" if "i + 1 < length e" for i
    using entry_bytes[OF assms, of i] entry_bytes[OF assms, of "i + 1"] that
    by (simp add: load16_def get16_def add.assoc add.commute[of 1])
  then show "i + 1 < length e \<Longrightarrow> load16 m (word_of_nat a + word_of_nat i) = get16 e i" .
  show "i + 3 < length e \<Longrightarrow> load32 m (word_of_nat a + word_of_nat i) = get32 e i"
    using 16[of i] 16[of "i + 2"] by (simp add: load32_def get32_def add.assoc add.commute[of 2])
qed

lemma ucast_load64: "(ucast (load64 m p) :: u32) = load32 m p"
proof (rule bit_word_eqI)
  fix n assume "n < LENGTH(32)"
  then have n: "n < 32" by simp
  then consider "n < 8" | "8 \<le> n" "n < 16" | "16 \<le> n" "n < 24" | "24 \<le> n" "n < 32" by linarith
  then show "bit (ucast (load64 m p) :: u32) n \<longleftrightarrow> bit (load32 m p) n"
    using n by cases (auto simp: bit_simps load32_def load16_def bit_load64 add.assoc div_if mod_if dest: bit_imp_le_length)
qed

lemma next_entry:
  assumes "entries_at m a (e # es)"
  shows "m (word_of_nat a) = e ! 0" "\<not> (ucast (m (word_of_nat a + 1)) :: u64) < 2"
    "word_of_nat a + ucast (m (word_of_nat a + 1)) = (word_of_nat (a + length e) :: u64)"
proof -
  have ok: "madt_entry_ok e" and b: "list_all (\<lambda>i. m (word_of_nat (a + i)) = e ! i) [0..<length e]"
    using assms by auto
  have "2 \<le> length e" using ok by (simp add: madt_entry_ok_def)
  then show "m (word_of_nat a) = e ! 0" using entry_bytes[OF b, of 0] by (cases e) auto
  have "m (word_of_nat a + 1) = word_of_nat (length e)"
    using entry_bytes[OF b, of 1] ok by (simp add: madt_entry_ok_def)
  moreover have "length e < 256" using ok by (simp add: madt_entry_ok_def)
  ultimately have len: "ucast (m (word_of_nat a + 1)) = (word_of_nat (length e) :: u64)"
    by (simp add: unsigned_ucast_eq unsigned_of_nat take_bit_nat_eq_self)
  then show "word_of_nat a + ucast (m (word_of_nat a + 1)) = (word_of_nat (a + length e) :: u64)" by simp
  show "\<not> (ucast (m (word_of_nat a + 1)) :: u64) < 2"
    using \<open>2 \<le> length e\<close> \<open>length e < 256\<close> unfolding len word_less_nat_alt by (simp add: unat_of_nat64)
qed

lemma entry_fits:
  assumes "a + n + 2 < 18446744073709551616" "2 \<le> n"
  shows "word_of_nat a + 2 \<le> (word_of_nat (a + n) :: u64)"
proof -
  have "(word_of_nat a + 2 :: u64) = word_of_nat (a + 2)" by simp
  then show ?thesis using assms by (simp only: word_le_nat_alt unat_of_nat64) 
qed

lemma table_end:
  assumes "a + 2 < 18446744073709551616"
  shows "\<not> (word_of_nat a + 2 \<le> (word_of_nat a :: u64))"
proof -
  have "(word_of_nat a + 2 :: u64) = word_of_nat (a + 2)" by simp
  then show ?thesis using assms by (simp only: word_le_nat_alt unat_of_nat64)
qed

lemma read_override:
  assumes "entries_at m a (e # es)" "e ! 0 = 2"
  shows "read_int_override m (word_of_nat a) = override_of e"
proof -
  have len: "10 \<le> length e" and b: "list_all (\<lambda>i. m (word_of_nat (a + i)) = e ! i) [0..<length e]"
    using assms by (auto simp: madt_entry_ok_def)
  show ?thesis
    using next_entry(1)[OF assms(1)] entry_bytes[OF b, of 1] entry_bytes[OF b, of 2] entry_bytes[OF b, of 3]
      load_entry(2)[OF b, of 4] load_entry(1)[OF b, of 8] len
    by (simp add: read_int_override_def override_of_def)
qed

lemma madt_step_entry:
  assumes "entries_at m a (e # es)"
  shows "madt_step m (word_of_nat a) info = apply_entry e info"
proof -
  have b: "list_all (\<lambda>i. m (word_of_nat (a + i)) = e ! i) [0..<length e]" using assms by simp
  have "12 \<le> length e" if "e ! 0 = 1 \<or> e ! 0 = 5" using assms that by (simp add: madt_entry_ok_def)
  then show ?thesis
    using next_entry(1)[OF assms] entry_bytes[OF b, of 2] load_entry(2)[OF b, of 4] load_entry(2)[OF b, of 8]
    by (auto simp: madt_step_def apply_entry_def ucast_load64)
qed

lemma isa_override_loop_entries:
  assumes "entries_at m a es" "a + sum_list (map length es) + 2 < 18446744073709551616"
    "length ovs \<le> ACPI_MAX_ISA_OVERRIDES"
  shows "isa_override_loop m (word_of_nat a) (word_of_nat (a + sum_list (map length es))) ovs
    = Some (take ACPI_MAX_ISA_OVERRIDES (ovs @ map override_of (filter (\<lambda>e. e ! 0 = 2) es)))"
  using assms
proof (induction es arbitrary: a ovs)
  case Nil
  then show ?case
    using table_end[of a] by (subst isa_override_loop.simps) simp
next
  case (Cons e es)
  have fits: "word_of_nat a + 2 \<le> (word_of_nat (a + sum_list (map length (e # es))) :: u64)"
    using Cons.prems by (intro entry_fits) (auto simp: madt_entry_ok_def)
  have rest: "entries_at m (a + length e) es" "a + length e + sum_list (map length es) + 2 < 18446744073709551616"
    "word_of_nat (a + sum_list (map length (e # es))) = (word_of_nat (a + length e + sum_list (map length es)) :: u64)"
    using Cons.prems by (simp_all add: add.assoc)
  show ?case
    using fits[unfolded rest(3)] Cons.IH[OF rest(1,2)] Cons.prems(3) read_override[OF Cons.prems(1)]
    unfolding isa_override_loop.simps[of m "word_of_nat a"] if_P[OF fits] if_not_P[OF next_entry(2)[OF Cons.prems(1)]]
      next_entry(1,3)[OF Cons.prems(1)] rest(3)
    by (auto simp: take_Cons' simp del: of_nat_add)
qed

lemma madt_loop_entries:
  assumes "entries_at m a es" "a + sum_list (map length es) + 2 < 18446744073709551616"
  shows "madt_loop m (word_of_nat a) (word_of_nat (a + sum_list (map length es))) info = Some (fold apply_entry es info)"
  using assms
proof (induction es arbitrary: a info)
  case Nil
  then show ?case
    using table_end[of a] by (subst madt_loop.simps) simp
next
  case (Cons e es)
  have fits: "word_of_nat a + 2 \<le> (word_of_nat (a + sum_list (map length (e # es))) :: u64)"
    using Cons.prems by (intro entry_fits) (auto simp: madt_entry_ok_def)
  have rest: "entries_at m (a + length e) es" "a + length e + sum_list (map length es) + 2 < 18446744073709551616"
    "word_of_nat (a + sum_list (map length (e # es))) = (word_of_nat (a + length e + sum_list (map length es)) :: u64)"
    using Cons.prems by (simp_all add: add.assoc)
  show ?case
    using fits[unfolded rest(3)] Cons.IH[OF rest(1,2)] madt_step_entry[OF Cons.prems(1)]
    unfolding madt_loop.simps[of m "word_of_nat a"] if_P[OF fits] if_not_P[OF next_entry(2)[OF Cons.prems(1)]]
      next_entry(3)[OF Cons.prems(1)] rest(3)
    by (simp del: of_nat_add)
qed

text \<open>
  C31: Both passes over a well-formed MADT end and read exactly its entries: the override table holds
  the first sixteen type 2 entries in table order, and the summary is the header's with every
  I/O APIC and address-override entry applied in order, the later ones winning.
\<close>

theorem madt_passes_correct:
  assumes "entries_at m (h + 44) es" "sdt_length m (word_of_nat h) = word_of_nat (44 + sum_list (map length es))"
    "44 + sum_list (map length es) < 4294967296" "h + 44 + sum_list (map length es) + 2 < 18446744073709551616"
  shows "acpi_parse_isa_overrides m (word_of_nat h) = Some (overrides_of es)
    \<and> acpi_parse_madt m (word_of_nat h) = Some (fold apply_entry es
        \<lparr>mi_lapic_addr = load32 m (word_of_nat h + 36), mi_flags = load32 m (word_of_nat h + 40),
         mi_ioapic_found = False, mi_ioapic_id = 0, mi_ioapic_addr = 0, mi_ioapic_gsi_base = 0\<rparr>)"
proof -
  have "ucast (sdt_length m (word_of_nat h)) = (word_of_nat (44 + sum_list (map length es)) :: u64)"
    using assms(3) unfolding assms(2) by (simp add: unsigned_ucast_eq unsigned_of_nat take_bit_nat_eq_self del: of_nat_add)
  then have e: "word_of_nat h + ucast (sdt_length m (word_of_nat h)) = (word_of_nat (h + 44 + sum_list (map length es)) :: u64)"
    by (simp add: add.assoc)
  have p: "word_of_nat h + 44 = (word_of_nat (h + 44) :: u64)" by simp
  show ?thesis
    unfolding acpi_parse_isa_overrides_def acpi_parse_madt_def e p overrides_of_def
    using isa_override_loop_entries[OF assms(1,4), of "[]"] madt_loop_entries[OF assms(1,4)] by simp
qed

definition madt_example_entries :: "u8 list list" where
  "madt_example_entries = [[1, 12, 0, 0, 0, 0, 0xC0, 0xFE, 0, 0, 0, 0], [2, 10, 0, 0, 2, 0, 0, 0, 0, 0]]"

definition madt_example :: memory where
  "madt_example x = (let b = bytes32 0x43495041 @ bytes32 66 @ replicate 28 0 @ bytes32 0xFEE00000 @ bytes32 1
     @ concat madt_example_entries; i = unat (x - 0x1000) in if i < 66 then b ! i else 0)"

theorem madt_passes_correct_witness:
  "acpi_parse_isa_overrides madt_example 0x1000
     = Some [\<lparr>ov_type = 2, ov_length = 10, ov_bus = 0, ov_irq = 0, ov_gsi = 2, ov_flags = 0\<rparr>]"
proof -
  have "entries_at madt_example (0x1000 + 44) madt_example_entries"
    by (simp add: madt_example_entries_def madt_example_def madt_entry_ok_def upt_rec bytes32_def bytes16_def nth_append)
  moreover have "sdt_length madt_example (word_of_nat 0x1000) = word_of_nat (44 + sum_list (map length madt_example_entries))"
    by (simp add: madt_example_entries_def madt_example_def sdt_length_def load32_def load16_def bytes32_def bytes16_def)
  ultimately show ?thesis
    using madt_passes_correct[of madt_example "0x1000" madt_example_entries]
    by (simp add: madt_example_entries_def overrides_of_def override_of_def get32_def get16_def)
qed

end
