(* ===== verification/Apic.thy ===== *)
theory Apic
  imports Ports Acpi
begin

text \<open>
  The interrupt controllers: the legacy 8259 (\<^verbatim>\<open>kernel/EarlyKernel/pic.c\<close>) and the local and I/O APIC
  (\<^verbatim>\<open>kernel/InitKernel/apic.c\<close>).  The two APIC base pointers are addresses in the MMIO region of the
  virtual memory manager; a register access is an entry of the access history at that address.
\<close>

section \<open>State\<close>

record apic_state = machine +
  apic_lapic_base :: u64
  apic_ioapic_base :: u64
  isa_overrides :: "acpi_madt_int_override list"

abbreviation IRQ_KEYBOARD :: u8 where "IRQ_KEYBOARD \<equiv> 0x21"
abbreviation IRQ_APIC_TIMER :: u8 where "IRQ_APIC_TIMER \<equiv> 0x20"
abbreviation LAPIC_ID_REG :: u32 where "LAPIC_ID_REG \<equiv> 0x020"
abbreviation LAPIC_VERSION_REG :: u32 where "LAPIC_VERSION_REG \<equiv> 0x030"
abbreviation LAPIC_EOI :: u32 where "LAPIC_EOI \<equiv> 0x0B0"
abbreviation LAPIC_SVR :: u32 where "LAPIC_SVR \<equiv> 0x0F0"
abbreviation IOAPIC_REGSEL :: u64 where "IOAPIC_REGSEL \<equiv> 0x00"
abbreviation IOAPIC_REGWIN :: u64 where "IOAPIC_REGWIN \<equiv> 0x10"
abbreviation IOAPIC_REDIR_BASE :: u32 where "IOAPIC_REDIR_BASE \<equiv> 0x10"
abbreviation IOAPIC_REDIR_MASK :: u32 where "IOAPIC_REDIR_MASK \<equiv> 0x10000"
abbreviation IOAPIC_REDIR_POLARITY :: u32 where "IOAPIC_REDIR_POLARITY \<equiv> 0x2000"
abbreviation IOAPIC_REDIR_TRIGGER :: u32 where "IOAPIC_REDIR_TRIGGER \<equiv> 0x8000"
abbreviation APIC_SPURIOUS_VECTOR :: u32 where "APIC_SPURIOUS_VECTOR \<equiv> 0xFF"
abbreviation IA32_APIC_BASE_MSR :: u32 where "IA32_APIC_BASE_MSR \<equiv> 0x1B"
abbreviation IA32_APIC_BASE_ENABLE :: u64 where "IA32_APIC_BASE_ENABLE \<equiv> 0x800"
abbreviation IA32_APIC_BASE_MASK :: u64 where "IA32_APIC_BASE_MASK \<equiv> 0xFFFFF000"

section \<open>Legacy interrupt controller\<close>

definition pic_init :: "'a machine_scheme \<Rightarrow> 'a machine_scheme" where
  "pic_init s =
     (let s = io_wait (outb 0x20 (0x10 OR 0x01) s);
          s = io_wait (outb 0xA0 (0x10 OR 0x01) s);
          s = io_wait (outb 0x21 0x20 s);
          s = io_wait (outb 0xA1 0x28 s);
          s = io_wait (outb 0x21 4 s);
          s = io_wait (outb 0xA1 2 s);
          s = io_wait (outb 0x21 0x01 s);
          s = io_wait (outb 0xA1 0x01 s);
          s = outb 0x21 0xFF s;
          s = outb 0xA1 0xFF s;
          s = outb 0x22 0x70 s
      in outb 0x23 0x01 s)"

definition pic_send_eoi :: "u8 \<Rightarrow> 'a machine_scheme \<Rightarrow> 'a machine_scheme" where
  "pic_send_eoi irq s =
     (let s = (if irq \<ge> 8 then outb 0xA0 0x20 s else s) in outb 0x20 0x20 s)"

section \<open>Register access\<close>

definition lapic_write :: "u32 \<Rightarrow> u32 \<Rightarrow> 'a apic_state_scheme \<Rightarrow> 'a apic_state_scheme" where
  "lapic_write offset v s = mmio_write (apic_lapic_base s + 4 * ucast (offset div 4)) v s"

definition lapic_read :: "u32 \<Rightarrow> 'a apic_state_scheme \<Rightarrow> u32 \<times> 'a apic_state_scheme" where
  "lapic_read offset s = mmio_read (apic_lapic_base s + 4 * ucast (offset div 4)) s"

definition ioapic_read :: "u32 \<Rightarrow> 'a apic_state_scheme \<Rightarrow> u32 \<times> 'a apic_state_scheme" where
  "ioapic_read reg s =
     (let s = mmio_write (apic_ioapic_base s + IOAPIC_REGSEL) reg s
      in mmio_read (apic_ioapic_base s + IOAPIC_REGWIN) s)"

definition ioapic_write :: "u32 \<Rightarrow> u32 \<Rightarrow> 'a apic_state_scheme \<Rightarrow> 'a apic_state_scheme" where
  "ioapic_write reg v s =
     (let s = mmio_write (apic_ioapic_base s + IOAPIC_REGSEL) reg s
      in mmio_write (apic_ioapic_base s + IOAPIC_REGWIN) v s)"

text \<open>The low half of a redirection entry, from the MADT flags.\<close>

definition redirection_low :: "u8 \<Rightarrow> bool \<Rightarrow> u16 \<Rightarrow> u32" where
  "redirection_low vector masked flags =
     (let low = ucast vector;
          polarity = ucast (flags AND 0x3) :: u8;
          trigger = ucast (drop_bit 2 flags AND 0x3) :: u8;
          low = (if polarity = 2 then low OR IOAPIC_REDIR_POLARITY else low);
          low = (if trigger = 4 then low OR IOAPIC_REDIR_TRIGGER else low)
      in if masked then low OR IOAPIC_REDIR_MASK else low)"

definition ioapic_set_redirection ::
  "u8 \<Rightarrow> u8 \<Rightarrow> bool \<Rightarrow> u16 \<Rightarrow> 'a apic_state_scheme \<Rightarrow> 'a apic_state_scheme" where
  "ioapic_set_redirection irq_pin vector masked flags s =
     (let reg = IOAPIC_REDIR_BASE + ucast irq_pin * 2;
          s = ioapic_write reg (redirection_low vector masked flags) s
      in ioapic_write (reg + 1) 0 s)"

section \<open>Initialisation\<close>

definition lapic_init :: "u32 \<Rightarrow> 'a apic_state_scheme \<Rightarrow> 'a apic_state_scheme" where
  "lapic_init lapic_phys_addr s =
     (let (edx, s) = io_in (Cpuid_edx 1) s
      in if edx AND 0x200 = 0
         then say ''  ERROR: CPU does not support Local APIC!\<newline>'' (paint VGA_RED VGA_BLACK s)
         else
           let (msr, s) = rdmsr IA32_APIC_BASE_MSR s;
               base = ucast (msr AND IA32_APIC_BASE_MASK) :: u32;
               (base, msr, s) =
                 (if lapic_phys_addr \<noteq> 0 \<and> lapic_phys_addr \<noteq> base
                  then let s = paint VGA_BROWN VGA_BLACK s;
                           s = say ''  NOTE: MADT LAPIC address differs from MSR\<newline>'' s;
                           s = paint VGA_LIGHT_GREY VGA_BLACK s;
                           base = lapic_phys_addr;
                           msr = (msr AND NOT IA32_APIC_BASE_MASK) OR ucast base
                       in (base, msr, wrmsr IA32_APIC_BASE_MSR msr s)
                  else (base, msr, s));
               s = (if msr AND IA32_APIC_BASE_ENABLE = 0
                    then wrmsr IA32_APIC_BASE_MSR (msr OR IA32_APIC_BASE_ENABLE) s else s);
               (lapic_virt, s) = vmm_map_mmio (ucast base) 0x1000 s
           in if lapic_virt = 0
              then say ''  ERROR: Failed to map LAPIC MMIO!\<newline>'' (paint VGA_RED VGA_BLACK s)
              else
                let s = s\<lparr>apic_lapic_base := lapic_virt\<rparr>;
                    s = say_hex (ucast base) (say ''  [LAPIC] Phys: '' s);
                    s = say_hex lapic_virt (say ''  Virt: '' s);
                    (idr, s) = lapic_read LAPIC_ID_REG (say ''  ID: '' s);
                    s = say_dec (drop_bit 24 idr) s;
                    (ver, s) = lapic_read LAPIC_VERSION_REG (say ''  Version: '' s);
                    s = say_char 10 (say_dec (ver AND 0xFF) s)
                in lapic_write LAPIC_SVR (0x100 OR APIC_SPURIOUS_VECTOR) s)"

primrec mask_redirections :: "nat \<Rightarrow> nat \<Rightarrow> 'a apic_state_scheme \<Rightarrow> 'a apic_state_scheme" where
  "mask_redirections i 0 s = s"
| "mask_redirections i (Suc n) s =
     (let s = ioapic_write (IOAPIC_REDIR_BASE + word_of_nat i * 2) IOAPIC_REDIR_MASK s;
          s = ioapic_write (IOAPIC_REDIR_BASE + word_of_nat i * 2 + 1) 0 s
      in mask_redirections (i + 1) n s)"

definition ioapic_init :: "u32 \<Rightarrow> 'a apic_state_scheme \<Rightarrow> 'a apic_state_scheme" where
  "ioapic_init ioapic_phys_addr s =
     (let (ioapic_virt, s) = vmm_map_mmio (ucast ioapic_phys_addr) 0x1000 s
      in if ioapic_virt = 0
         then say ''  ERROR: Failed to map IOAPIC MMIO!\<newline>'' (paint VGA_RED VGA_BLACK s)
         else
           let s = s\<lparr>apic_ioapic_base := ioapic_virt\<rparr>;
               (id_raw, s) = ioapic_read 0x00 s;
               (ver_raw, s) = ioapic_read 0x01 s;
               ioapic_id = ucast (drop_bit 24 id_raw AND 0x0F) :: u8;
               version = ucast (ver_raw AND 0xFF) :: u8;
               max_redir = ucast ((drop_bit 16 ver_raw AND 0xFF) + 1) :: u8;
               s = say_hex (ucast ioapic_phys_addr) (say ''  [IOAPIC] Phys: '' s);
               s = say_hex ioapic_virt (say ''  Virt: '' s);
               s = say_dec (ucast ioapic_id) (say ''  ID: '' s);
               s = say_dec (ucast version) (say ''  Ver: '' s);
               s = say_dec (ucast max_redir) (say ''  RedirEntries: '' s);
               s = say_char 10 s
           in mask_redirections 0 (unat max_redir) s)"

text \<open>\<^verbatim>\<open>apic_init\<close>; None when one of the passes over the MADT does not end.\<close>

definition apic_init :: "'a apic_state_scheme \<Rightarrow> 'a apic_state_scheme option" where
  "apic_init s =
     (let s = say ''[..] Searching for RSDP...\<newline>'' s;
          rsdp = acpi_find_rsdp (mem s)
      in if rsdp = 0
         then Some (paint VGA_LIGHT_GREY VGA_BLACK (say ''  ERROR: RSDP not found!\<newline>'' (paint VGA_RED VGA_BLACK s)))
         else
           let s = say_hex rsdp (say ''[OK] RSDP at '' s);
               s = say_char 10 (say_dec (ucast (mem s (rsdp + 15))) (say '' rev.'' s));
               s = say ''[..] Locating MADT table...\<newline>'' s;
               madt_hdr = acpi_find_table (mem s) rsdp ''APIC''
           in if madt_hdr = 0
              then Some (paint VGA_LIGHT_GREY VGA_BLACK
                     (say ''  ERROR: MADT table not found!\<newline>'' (paint VGA_RED VGA_BLACK s)))
              else case acpi_parse_madt (mem s) madt_hdr of None \<Rightarrow> None | Some info \<Rightarrow>
                (case acpi_parse_isa_overrides (mem s) madt_hdr of None \<Rightarrow> None | Some ovs \<Rightarrow>
                  let s = s\<lparr>isa_overrides := ovs\<rparr>;
                      s = say_hex (ucast (mi_lapic_addr info)) (say ''[OK] MADT parsed  LAPIC: '' s);
                      s = (if mi_ioapic_found info
                           then say_hex (ucast (mi_ioapic_addr info)) (say ''  IOAPIC: '' s) else s);
                      s = say_char 10 s;
                      s = lapic_init (mi_lapic_addr info) (say ''[..] Initializing Local APIC...\<newline>'' s);
                      s = paint VGA_GREEN VGA_BLACK s;
                      s = say_dec APIC_SPURIOUS_VECTOR (say ''[OK] Local APIC enabled (spurious vector 0x'' s);
                      s = paint VGA_LIGHT_GREY VGA_BLACK (say '')\<newline>'' s)
                  in if mi_ioapic_found info
                     then let s = ioapic_init (mi_ioapic_addr info) (say ''[..] Initializing I/O APIC...\<newline>'' s);
                              s = say ''[OK] I/O APIC initialized (all IRQs masked)\<newline>'' (paint VGA_GREEN VGA_BLACK s)
                          in Some (paint VGA_LIGHT_GREY VGA_BLACK s)
                     else let s = say ''  WARNING: No I/O APIC found in MADT\<newline>'' (paint VGA_BROWN VGA_BLACK s)
                          in Some (paint VGA_LIGHT_GREY VGA_BLACK s)))"

section \<open>The redirection table\<close>

text \<open>
  The registers of an I/O APIC after a history of accesses: a write at the base selects a register,
  a write at the window stores into the selected one.
\<close>

primrec ioapic_view :: "u64 \<Rightarrow> io_op list \<Rightarrow> u32 \<times> (u32 \<Rightarrow> u32)" where
  "ioapic_view b [] = (0, \<lambda>r. 0)"
| "ioapic_view b (x # h) =
     (let (sel, regs) = ioapic_view b h
      in case x of Wr (Mmio a) v \<Rightarrow>
           if a = b + IOAPIC_REGSEL then (ucast v, regs)
           else if a = b + IOAPIC_REGWIN then (sel, regs(sel := ucast v)) else (sel, regs)
         | _ \<Rightarrow> (sel, regs))"

definition ioapic_reg :: "'a apic_state_scheme \<Rightarrow> u32 \<Rightarrow> u32" where
  "ioapic_reg s r = snd (ioapic_view (apic_ioapic_base s) (hist s)) r"

definition redir_low :: "'a apic_state_scheme \<Rightarrow> nat \<Rightarrow> u32" where
  "redir_low s i = ioapic_reg s (IOAPIC_REDIR_BASE + word_of_nat i * 2)"

definition redir_high :: "'a apic_state_scheme \<Rightarrow> nat \<Rightarrow> u32" where
  "redir_high s i = ioapic_reg s (IOAPIC_REDIR_BASE + word_of_nat i * 2 + 1)"

lemma ioapic_write_base [simp]: "apic_ioapic_base (ioapic_write r v s) = apic_ioapic_base s"
  by (simp add: ioapic_write_def io_defs Let_def)

lemma ioapic_reg_write [simp]: "ioapic_reg (ioapic_write r v s) r' = (if r' = r then v else ioapic_reg s r')"
  by (simp add: ioapic_reg_def ioapic_write_def io_defs Let_def case_prod_beta)

text \<open>The two registers of an entry are different from those of every other entry.\<close>

lemma redir_regs_distinct:
  assumes "i < 256" "j < 256"
  shows "(IOAPIC_REDIR_BASE + word_of_nat i * 2 = (IOAPIC_REDIR_BASE + word_of_nat j * 2 :: u32)) \<longleftrightarrow> i = j"
    "(IOAPIC_REDIR_BASE + word_of_nat i * 2 + 1 = (IOAPIC_REDIR_BASE + word_of_nat j * 2 + 1 :: u32)) \<longleftrightarrow> i = j"
    "IOAPIC_REDIR_BASE + word_of_nat i * 2 \<noteq> (IOAPIC_REDIR_BASE + word_of_nat j * 2 + 1 :: u32)"
    "IOAPIC_REDIR_BASE + word_of_nat i * 2 + 1 \<noteq> (IOAPIC_REDIR_BASE + word_of_nat j * 2 :: u32)"
proof -
  have u: "unat (IOAPIC_REDIR_BASE + word_of_nat k * 2 :: u32) = 16 + k * 2"
    "unat (IOAPIC_REDIR_BASE + word_of_nat k * 2 + 1 :: u32) = 17 + k * 2" if "k < 256" for k
  proof -
    have "(IOAPIC_REDIR_BASE + word_of_nat k * 2 :: u32) = word_of_nat (16 + k * 2)"
      "(IOAPIC_REDIR_BASE + word_of_nat k * 2 + 1 :: u32) = word_of_nat (17 + k * 2)" by simp_all
    then show "unat (IOAPIC_REDIR_BASE + word_of_nat k * 2 :: u32) = 16 + k * 2"
      "unat (IOAPIC_REDIR_BASE + word_of_nat k * 2 + 1 :: u32) = 17 + k * 2"
      using that by (simp_all only: unsigned_of_nat) (simp_all add: take_bit_nat_eq_self)
  qed
  show "(IOAPIC_REDIR_BASE + word_of_nat i * 2 = (IOAPIC_REDIR_BASE + word_of_nat j * 2 :: u32)) \<longleftrightarrow> i = j"
    "(IOAPIC_REDIR_BASE + word_of_nat i * 2 + 1 = (IOAPIC_REDIR_BASE + word_of_nat j * 2 + 1 :: u32)) \<longleftrightarrow> i = j"
    "IOAPIC_REDIR_BASE + word_of_nat i * 2 \<noteq> (IOAPIC_REDIR_BASE + word_of_nat j * 2 + 1 :: u32)"
    "IOAPIC_REDIR_BASE + word_of_nat i * 2 + 1 \<noteq> (IOAPIC_REDIR_BASE + word_of_nat j * 2 :: u32)"
    unfolding word_unat_eq_iff using u[OF assms(1)] u[OF assms(2)] by presburger+
qed

lemma mask_redirections_reg:
  assumes "i + n \<le> 256" "j < 256"
  shows "ioapic_reg (mask_redirections i n s) (IOAPIC_REDIR_BASE + word_of_nat j * 2)
      = (if i \<le> j \<and> j < i + n then IOAPIC_REDIR_MASK else ioapic_reg s (IOAPIC_REDIR_BASE + word_of_nat j * 2))"
    and "ioapic_reg (mask_redirections i n s) (IOAPIC_REDIR_BASE + word_of_nat j * 2 + 1)
      = (if i \<le> j \<and> j < i + n then 0 else ioapic_reg s (IOAPIC_REDIR_BASE + word_of_nat j * 2 + 1))"
  using assms
proof (induction n arbitrary: i s)
  case (Suc n)
  case 1
  then show ?case using Suc.IH(1)[of "i + 1"] redir_regs_distinct[of j i] by (auto simp: Let_def)
next
  case (Suc n)
  case 2
  then show ?case using Suc.IH(2)[of "i + 1"] redir_regs_distinct[of j i] by (auto simp: Let_def)
qed auto

lemma redirection_mask_bits:
  "bit IOAPIC_REDIR_MASK n \<longleftrightarrow> n = 16" "bit IOAPIC_REDIR_POLARITY n \<longleftrightarrow> n = 13" "bit (0xFF :: u32) n \<longleftrightarrow> n < 8"
proof -
  have "IOAPIC_REDIR_MASK = push_bit 16 1" "IOAPIC_REDIR_POLARITY = push_bit 13 1" "(0xFF :: u32) = mask 8"
    by (simp_all add: mask_numeral)
  then show "bit IOAPIC_REDIR_MASK n \<longleftrightarrow> n = 16" "bit IOAPIC_REDIR_POLARITY n \<longleftrightarrow> n = 13" "bit (0xFF :: u32) n \<longleftrightarrow> n < 8"
    by (auto simp only: bit_simps) (auto simp: bit_simps)
qed

lemma madt_field: "unat (ucast (x AND 3 :: u16) :: u8) = unat x mod 4"
proof -
  have "x AND 3 = take_bit 2 x" by (simp add: take_bit_eq_mask mask_numeral)
  moreover have "unat x mod 4 mod 256 = unat x mod 4" by (rule mod_less) (use mod_less_divisor[of 4 "unat x"] in linarith)
  ultimately show ?thesis by (simp add: unsigned_ucast_eq unsigned_take_bit_eq take_bit_eq_mod unat_mod)
qed

lemma redirection_low_eq:
  "redirection_low v masked flags = (ucast v OR (if unat flags mod 4 = 2 then IOAPIC_REDIR_POLARITY else 0))
     OR (if masked then IOAPIC_REDIR_MASK else 0)"
proof -
  have "unat (drop_bit 2 flags) mod 4 \<noteq> 4" using mod_less_divisor[of 4 "unat (drop_bit 2 flags)"] by linarith
  then show ?thesis
    by (simp add: redirection_low_def Let_def word_unat_eq_iff[of "ucast _ :: u8"] madt_field)
qed

lemma redirection_low_bit:
  "bit (redirection_low v masked flags) n \<longleftrightarrow> bit v n \<or> n = 13 \<and> unat flags mod 4 = 2 \<or> n = 16 \<and> masked"
  unfolding redirection_low_eq
  by (cases masked; cases "unat flags mod 4 = 2";
      simp only: bit_or_iff redirection_mask_bits bit_ucast_iff if_True if_False simp_thms bit_0_eq; auto dest: bit_imp_le_length)

lemma redirection_low_bits:
  "redirection_low v masked flags AND 0xFF = ucast v"
  "bit (redirection_low v masked flags) 16 \<longleftrightarrow> masked"
  "bit (redirection_low v masked flags) 13 \<longleftrightarrow> unat flags mod 4 = 2"
  "\<not> bit (redirection_low v masked flags) 15"
proof -
  show "redirection_low v masked flags AND 0xFF = ucast v"
    by (rule bit_word_eqI) (simp only: bit_and_iff redirection_low_bit redirection_mask_bits bit_ucast_iff,
        auto dest: bit_imp_le_length)
  show "bit (redirection_low v masked flags) 16 \<longleftrightarrow> masked"
    "bit (redirection_low v masked flags) 13 \<longleftrightarrow> unat flags mod 4 = 2"
    "\<not> bit (redirection_low v masked flags) 15"
    by (auto simp: redirection_low_bit dest: bit_imp_le_length)
qed

text \<open>
  C32: After all entries have been masked and one pin routed, the redirection table holds for that
  pin the given vector, unmasked unless asked otherwise, active low exactly for polarity 2,
  and destination 0, every other entry is still masked, and no entry is ever level triggered, since the two-bit
  trigger field is compared with 4.  The bit positions are those of the constants in \<^verbatim>\<open>apic.h\<close> and of the 82093AA controller: mask 16,
  trigger mode 15, polarity 13.  The comment above \<^verbatim>\<open>ioapic_set_redirection\<close> gives others (polarity 11, trigger 12, mask 13),
  which the code does not use.
\<close>

theorem ioapic_routing_correct:
  assumes "n \<le> 256" "unat pin < n" "i < n" "t = ioapic_set_redirection pin v masked flags (mask_redirections 0 n s)"
  shows "redir_low t (unat pin) AND 0xFF = ucast v \<and> (bit (redir_low t (unat pin)) 16 \<longleftrightarrow> masked)
    \<and> (bit (redir_low t (unat pin)) 13 \<longleftrightarrow> unat flags mod 4 = 2) \<and> redir_high t (unat pin) = 0
    \<and> (i \<noteq> unat pin \<longrightarrow> redir_low t i = IOAPIC_REDIR_MASK) \<and> \<not> bit (redir_low t i) 15"
proof -
  have p: "(ucast pin :: u32) = word_of_nat (unat pin)" by simp
  have low: "redir_low t j = (if j = unat pin then redirection_low v masked flags else IOAPIC_REDIR_MASK)" if "j < n" for j
    using that assms(1,2) redir_regs_distinct[of j "unat pin"]
    unfolding assms(4) redir_low_def ioapic_set_redirection_def Let_def p
    by (simp add: mask_redirections_reg del: of_nat_unat)
  have "redir_high t (unat pin) = 0"
    unfolding assms(4) redir_high_def ioapic_set_redirection_def Let_def p by simp
  then show ?thesis
    using low assms(2,3) redirection_low_bits[of v masked flags] by (simp add: redirection_mask_bits)
qed

definition apic_example :: apic_state where
  "apic_example = machine.extend (blank_machine (\<lambda>h l. 0)) (apic_state.fields 0xFEE00000 0xFEC00000 [])"

theorem ioapic_routing_correct_witness:
  "\<not> bit (redir_low (ioapic_set_redirection 1 0x21 False 0 (mask_redirections 0 24 apic_example)) (unat (1 :: u8))) 16"
  using ioapic_routing_correct[OF _ _ _ refl, of 24 1 0 "0x21" False 0 apic_example] by simp

end
