(* ===== verification/Keyboard_Tables.thy ===== *)
theory Keyboard_Tables
  imports Prelude
begin

text \<open>
  The constant tables of the PS/2 keyboard driver: the key codes of \<^verbatim>\<open>include/kernel/keyboard.h\<close>
  and, from \<^verbatim>\<open>kernel/BasicDrivers/keyboard.c\<close>, the two scan code tables, the two ASCII tables and
  the key names.  A C array with designated initialisers is the list that the initialisers write
  into an array of zeros, in order.
\<close>

definition designated :: "nat \<Rightarrow> 'a \<Rightarrow> (nat \<times> 'a) list \<Rightarrow> 'a list" where
  "designated n d inits = fold (\<lambda>(i, v) xs. xs[i := v]) inits (replicate n d)"

section \<open>Key codes\<close>

type_synonym keycode_t = nat

abbreviation (input) KEY_NONE :: keycode_t where "KEY_NONE \<equiv> 0"
abbreviation (input) KEY_ESCAPE :: keycode_t where "KEY_ESCAPE \<equiv> 0x01"
abbreviation (input) KEY_1 :: keycode_t where "KEY_1 \<equiv> 0x02"
abbreviation (input) KEY_2 :: keycode_t where "KEY_2 \<equiv> 0x03"
abbreviation (input) KEY_3 :: keycode_t where "KEY_3 \<equiv> 0x04"
abbreviation (input) KEY_4 :: keycode_t where "KEY_4 \<equiv> 0x05"
abbreviation (input) KEY_5 :: keycode_t where "KEY_5 \<equiv> 0x06"
abbreviation (input) KEY_6 :: keycode_t where "KEY_6 \<equiv> 0x07"
abbreviation (input) KEY_7 :: keycode_t where "KEY_7 \<equiv> 0x08"
abbreviation (input) KEY_8 :: keycode_t where "KEY_8 \<equiv> 0x09"
abbreviation (input) KEY_9 :: keycode_t where "KEY_9 \<equiv> 0x0A"
abbreviation (input) KEY_0 :: keycode_t where "KEY_0 \<equiv> 0x0B"
abbreviation (input) KEY_MINUS :: keycode_t where "KEY_MINUS \<equiv> 0x0C"
abbreviation (input) KEY_EQUALS :: keycode_t where "KEY_EQUALS \<equiv> 0x0D"
abbreviation (input) KEY_BACKSPACE :: keycode_t where "KEY_BACKSPACE \<equiv> 0x0E"
abbreviation (input) KEY_TAB :: keycode_t where "KEY_TAB \<equiv> 0x0F"
abbreviation (input) KEY_Q :: keycode_t where "KEY_Q \<equiv> 0x10"
abbreviation (input) KEY_W :: keycode_t where "KEY_W \<equiv> 0x11"
abbreviation (input) KEY_E :: keycode_t where "KEY_E \<equiv> 0x12"
abbreviation (input) KEY_R :: keycode_t where "KEY_R \<equiv> 0x13"
abbreviation (input) KEY_T :: keycode_t where "KEY_T \<equiv> 0x14"
abbreviation (input) KEY_Y :: keycode_t where "KEY_Y \<equiv> 0x15"
abbreviation (input) KEY_U :: keycode_t where "KEY_U \<equiv> 0x16"
abbreviation (input) KEY_I :: keycode_t where "KEY_I \<equiv> 0x17"
abbreviation (input) KEY_O :: keycode_t where "KEY_O \<equiv> 0x18"
abbreviation (input) KEY_P :: keycode_t where "KEY_P \<equiv> 0x19"
abbreviation (input) KEY_LBRACKET :: keycode_t where "KEY_LBRACKET \<equiv> 0x1A"
abbreviation (input) KEY_RBRACKET :: keycode_t where "KEY_RBRACKET \<equiv> 0x1B"
abbreviation (input) KEY_ENTER :: keycode_t where "KEY_ENTER \<equiv> 0x1C"
abbreviation (input) KEY_LCTRL :: keycode_t where "KEY_LCTRL \<equiv> 0x1D"
abbreviation (input) KEY_A :: keycode_t where "KEY_A \<equiv> 0x1E"
abbreviation (input) KEY_S :: keycode_t where "KEY_S \<equiv> 0x1F"
abbreviation (input) KEY_D :: keycode_t where "KEY_D \<equiv> 0x20"
abbreviation (input) KEY_F :: keycode_t where "KEY_F \<equiv> 0x21"
abbreviation (input) KEY_G :: keycode_t where "KEY_G \<equiv> 0x22"
abbreviation (input) KEY_H :: keycode_t where "KEY_H \<equiv> 0x23"
abbreviation (input) KEY_J :: keycode_t where "KEY_J \<equiv> 0x24"
abbreviation (input) KEY_K :: keycode_t where "KEY_K \<equiv> 0x25"
abbreviation (input) KEY_L :: keycode_t where "KEY_L \<equiv> 0x26"
abbreviation (input) KEY_SEMICOLON :: keycode_t where "KEY_SEMICOLON \<equiv> 0x27"
abbreviation (input) KEY_APOSTROPHE :: keycode_t where "KEY_APOSTROPHE \<equiv> 0x28"
abbreviation (input) KEY_GRAVE :: keycode_t where "KEY_GRAVE \<equiv> 0x29"
abbreviation (input) KEY_LSHIFT :: keycode_t where "KEY_LSHIFT \<equiv> 0x2A"
abbreviation (input) KEY_BACKSLASH :: keycode_t where "KEY_BACKSLASH \<equiv> 0x2B"
abbreviation (input) KEY_Z :: keycode_t where "KEY_Z \<equiv> 0x2C"
abbreviation (input) KEY_X :: keycode_t where "KEY_X \<equiv> 0x2D"
abbreviation (input) KEY_C :: keycode_t where "KEY_C \<equiv> 0x2E"
abbreviation (input) KEY_V :: keycode_t where "KEY_V \<equiv> 0x2F"
abbreviation (input) KEY_B :: keycode_t where "KEY_B \<equiv> 0x30"
abbreviation (input) KEY_N :: keycode_t where "KEY_N \<equiv> 0x31"
abbreviation (input) KEY_M :: keycode_t where "KEY_M \<equiv> 0x32"
abbreviation (input) KEY_COMMA :: keycode_t where "KEY_COMMA \<equiv> 0x33"
abbreviation (input) KEY_DOT :: keycode_t where "KEY_DOT \<equiv> 0x34"
abbreviation (input) KEY_SLASH :: keycode_t where "KEY_SLASH \<equiv> 0x35"
abbreviation (input) KEY_RSHIFT :: keycode_t where "KEY_RSHIFT \<equiv> 0x36"
abbreviation (input) KEY_KP_MULTIPLY :: keycode_t where "KEY_KP_MULTIPLY \<equiv> 0x37"
abbreviation (input) KEY_LALT :: keycode_t where "KEY_LALT \<equiv> 0x38"
abbreviation (input) KEY_SPACE :: keycode_t where "KEY_SPACE \<equiv> 0x39"
abbreviation (input) KEY_CAPSLOCK :: keycode_t where "KEY_CAPSLOCK \<equiv> 0x3A"
abbreviation (input) KEY_F1 :: keycode_t where "KEY_F1 \<equiv> 0x3B"
abbreviation (input) KEY_F2 :: keycode_t where "KEY_F2 \<equiv> 0x3C"
abbreviation (input) KEY_F3 :: keycode_t where "KEY_F3 \<equiv> 0x3D"
abbreviation (input) KEY_F4 :: keycode_t where "KEY_F4 \<equiv> 0x3E"
abbreviation (input) KEY_F5 :: keycode_t where "KEY_F5 \<equiv> 0x3F"
abbreviation (input) KEY_F6 :: keycode_t where "KEY_F6 \<equiv> 0x40"
abbreviation (input) KEY_F7 :: keycode_t where "KEY_F7 \<equiv> 0x41"
abbreviation (input) KEY_F8 :: keycode_t where "KEY_F8 \<equiv> 0x42"
abbreviation (input) KEY_F9 :: keycode_t where "KEY_F9 \<equiv> 0x43"
abbreviation (input) KEY_F10 :: keycode_t where "KEY_F10 \<equiv> 0x44"
abbreviation (input) KEY_NUMLOCK :: keycode_t where "KEY_NUMLOCK \<equiv> 0x45"
abbreviation (input) KEY_SCROLLLOCK :: keycode_t where "KEY_SCROLLLOCK \<equiv> 0x46"
abbreviation (input) KEY_KP_7 :: keycode_t where "KEY_KP_7 \<equiv> 0x47"
abbreviation (input) KEY_KP_8 :: keycode_t where "KEY_KP_8 \<equiv> 0x48"
abbreviation (input) KEY_KP_9 :: keycode_t where "KEY_KP_9 \<equiv> 0x49"
abbreviation (input) KEY_KP_MINUS :: keycode_t where "KEY_KP_MINUS \<equiv> 0x4A"
abbreviation (input) KEY_KP_4 :: keycode_t where "KEY_KP_4 \<equiv> 0x4B"
abbreviation (input) KEY_KP_5 :: keycode_t where "KEY_KP_5 \<equiv> 0x4C"
abbreviation (input) KEY_KP_6 :: keycode_t where "KEY_KP_6 \<equiv> 0x4D"
abbreviation (input) KEY_KP_PLUS :: keycode_t where "KEY_KP_PLUS \<equiv> 0x4E"
abbreviation (input) KEY_KP_1 :: keycode_t where "KEY_KP_1 \<equiv> 0x4F"
abbreviation (input) KEY_KP_2 :: keycode_t where "KEY_KP_2 \<equiv> 0x50"
abbreviation (input) KEY_KP_3 :: keycode_t where "KEY_KP_3 \<equiv> 0x51"
abbreviation (input) KEY_KP_0 :: keycode_t where "KEY_KP_0 \<equiv> 0x52"
abbreviation (input) KEY_KP_DOT :: keycode_t where "KEY_KP_DOT \<equiv> 0x53"
abbreviation (input) KEY_F11 :: keycode_t where "KEY_F11 \<equiv> 0x57"
abbreviation (input) KEY_F12 :: keycode_t where "KEY_F12 \<equiv> 0x58"
abbreviation (input) KEY_KP_ENTER :: keycode_t where "KEY_KP_ENTER \<equiv> 0x60"
abbreviation (input) KEY_RCTRL :: keycode_t where "KEY_RCTRL \<equiv> 0x61"
abbreviation (input) KEY_KP_DIVIDE :: keycode_t where "KEY_KP_DIVIDE \<equiv> 0x62"
abbreviation (input) KEY_RALT :: keycode_t where "KEY_RALT \<equiv> 0x63"
abbreviation (input) KEY_PAUSE :: keycode_t where "KEY_PAUSE \<equiv> 0x64"
abbreviation (input) KEY_PRINTSCREEN :: keycode_t where "KEY_PRINTSCREEN \<equiv> 0x65"
abbreviation (input) KEY_HOME :: keycode_t where "KEY_HOME \<equiv> 0x66"
abbreviation (input) KEY_UP :: keycode_t where "KEY_UP \<equiv> 0x67"
abbreviation (input) KEY_PAGEUP :: keycode_t where "KEY_PAGEUP \<equiv> 0x68"
abbreviation (input) KEY_LEFT :: keycode_t where "KEY_LEFT \<equiv> 0x69"
abbreviation (input) KEY_RIGHT :: keycode_t where "KEY_RIGHT \<equiv> 0x6A"
abbreviation (input) KEY_END :: keycode_t where "KEY_END \<equiv> 0x6B"
abbreviation (input) KEY_DOWN :: keycode_t where "KEY_DOWN \<equiv> 0x6C"
abbreviation (input) KEY_PAGEDOWN :: keycode_t where "KEY_PAGEDOWN \<equiv> 0x6D"
abbreviation (input) KEY_INSERT :: keycode_t where "KEY_INSERT \<equiv> 0x6E"
abbreviation (input) KEY_DELETE :: keycode_t where "KEY_DELETE \<equiv> 0x6F"
abbreviation (input) KEY_LWIN :: keycode_t where "KEY_LWIN \<equiv> 0x70"
abbreviation (input) KEY_RWIN :: keycode_t where "KEY_RWIN \<equiv> 0x71"
abbreviation (input) KEY_MENU :: keycode_t where "KEY_MENU \<equiv> 0x72"

section \<open>Scan codes\<close>

definition set1_make_to_keycode :: "keycode_t list" where
  "set1_make_to_keycode = designated 128 KEY_NONE [
     (0x00, KEY_NONE), (0x01, KEY_ESCAPE), (0x02, KEY_1), (0x03, KEY_2),
     (0x04, KEY_3), (0x05, KEY_4), (0x06, KEY_5), (0x07, KEY_6),
     (0x08, KEY_7), (0x09, KEY_8), (0x0A, KEY_9), (0x0B, KEY_0),
     (0x0C, KEY_MINUS), (0x0D, KEY_EQUALS), (0x0E, KEY_BACKSPACE), (0x0F, KEY_TAB),
     (0x10, KEY_Q), (0x11, KEY_W), (0x12, KEY_E), (0x13, KEY_R),
     (0x14, KEY_T), (0x15, KEY_Y), (0x16, KEY_U), (0x17, KEY_I),
     (0x18, KEY_O), (0x19, KEY_P), (0x1A, KEY_LBRACKET), (0x1B, KEY_RBRACKET),
     (0x1C, KEY_ENTER), (0x1D, KEY_LCTRL), (0x1E, KEY_A), (0x1F, KEY_S),
     (0x20, KEY_D), (0x21, KEY_F), (0x22, KEY_G), (0x23, KEY_H),
     (0x24, KEY_J), (0x25, KEY_K), (0x26, KEY_L), (0x27, KEY_SEMICOLON),
     (0x28, KEY_APOSTROPHE), (0x29, KEY_GRAVE), (0x2A, KEY_LSHIFT), (0x2B, KEY_BACKSLASH),
     (0x2C, KEY_Z), (0x2D, KEY_X), (0x2E, KEY_C), (0x2F, KEY_V),
     (0x30, KEY_B), (0x31, KEY_N), (0x32, KEY_M), (0x33, KEY_COMMA),
     (0x34, KEY_DOT), (0x35, KEY_SLASH), (0x36, KEY_RSHIFT), (0x37, KEY_KP_MULTIPLY),
     (0x38, KEY_LALT), (0x39, KEY_SPACE), (0x3A, KEY_CAPSLOCK), (0x3B, KEY_F1),
     (0x3C, KEY_F2), (0x3D, KEY_F3), (0x3E, KEY_F4), (0x3F, KEY_F5),
     (0x40, KEY_F6), (0x41, KEY_F7), (0x42, KEY_F8), (0x43, KEY_F9),
     (0x44, KEY_F10), (0x45, KEY_NUMLOCK), (0x46, KEY_SCROLLLOCK), (0x47, KEY_KP_7),
     (0x48, KEY_KP_8), (0x49, KEY_KP_9), (0x4A, KEY_KP_MINUS), (0x4B, KEY_KP_4),
     (0x4C, KEY_KP_5), (0x4D, KEY_KP_6), (0x4E, KEY_KP_PLUS), (0x4F, KEY_KP_1),
     (0x50, KEY_KP_2), (0x51, KEY_KP_3), (0x52, KEY_KP_0), (0x53, KEY_KP_DOT),
     (0x57, KEY_F11), (0x58, KEY_F12)]"

definition e0_make_to_keycode :: "keycode_t list" where
  "e0_make_to_keycode = designated 128 KEY_NONE [
     (0x10, KEY_NONE), (0x19, KEY_NONE), (0x1C, KEY_KP_ENTER), (0x1D, KEY_RCTRL),
     (0x20, KEY_NONE), (0x21, KEY_NONE), (0x22, KEY_NONE), (0x24, KEY_NONE),
     (0x2E, KEY_NONE), (0x30, KEY_NONE), (0x32, KEY_NONE), (0x35, KEY_KP_DIVIDE),
     (0x38, KEY_RALT), (0x47, KEY_HOME), (0x48, KEY_UP), (0x49, KEY_PAGEUP),
     (0x4B, KEY_LEFT), (0x4D, KEY_RIGHT), (0x4F, KEY_END), (0x50, KEY_DOWN),
     (0x51, KEY_PAGEDOWN), (0x52, KEY_INSERT), (0x53, KEY_DELETE), (0x5B, KEY_LWIN),
     (0x5C, KEY_RWIN), (0x5D, KEY_MENU)]"

section \<open>ASCII\<close>

definition keycode_to_ascii :: "u8 list" where
  "keycode_to_ascii = map of_char (designated 128 (CHR 0x00) [
     (KEY_ESCAPE, CHR 0x00), (KEY_1, CHR ''1''), (KEY_2, CHR ''2''), (KEY_3, CHR ''3''),
     (KEY_4, CHR ''4''), (KEY_5, CHR ''5''), (KEY_6, CHR ''6''), (KEY_7, CHR ''7''),
     (KEY_8, CHR ''8''), (KEY_9, CHR ''9''), (KEY_0, CHR ''0''), (KEY_MINUS, CHR ''-''),
     (KEY_EQUALS, CHR ''=''), (KEY_BACKSPACE, CHR 0x08), (KEY_TAB, CHR 0x09), (KEY_Q, CHR ''q''),
     (KEY_W, CHR ''w''), (KEY_E, CHR ''e''), (KEY_R, CHR ''r''), (KEY_T, CHR ''t''),
     (KEY_Y, CHR ''y''), (KEY_U, CHR ''u''), (KEY_I, CHR ''i''), (KEY_O, CHR ''o''),
     (KEY_P, CHR ''p''), (KEY_LBRACKET, CHR ''[''), (KEY_RBRACKET, CHR '']''), (KEY_ENTER, CHR 0x0A),
     (KEY_A, CHR ''a''), (KEY_S, CHR ''s''), (KEY_D, CHR ''d''), (KEY_F, CHR ''f''),
     (KEY_G, CHR ''g''), (KEY_H, CHR ''h''), (KEY_J, CHR ''j''), (KEY_K, CHR ''k''),
     (KEY_L, CHR ''l''), (KEY_SEMICOLON, CHR '';''), (KEY_APOSTROPHE, CHR 0x27), (KEY_GRAVE, CHR 0x60),
     (KEY_BACKSLASH, CHR 0x5C), (KEY_Z, CHR ''z''), (KEY_X, CHR ''x''), (KEY_C, CHR ''c''),
     (KEY_V, CHR ''v''), (KEY_B, CHR ''b''), (KEY_N, CHR ''n''), (KEY_M, CHR ''m''),
     (KEY_COMMA, CHR '',''), (KEY_DOT, CHR ''.''), (KEY_SLASH, CHR ''/''), (KEY_SPACE, CHR '' ''),
     (KEY_KP_7, CHR ''7''), (KEY_KP_8, CHR ''8''), (KEY_KP_9, CHR ''9''), (KEY_KP_MINUS, CHR ''-''),
     (KEY_KP_4, CHR ''4''), (KEY_KP_5, CHR ''5''), (KEY_KP_6, CHR ''6''), (KEY_KP_PLUS, CHR ''+''),
     (KEY_KP_1, CHR ''1''), (KEY_KP_2, CHR ''2''), (KEY_KP_3, CHR ''3''), (KEY_KP_0, CHR ''0''),
     (KEY_KP_DOT, CHR ''.'')])"

definition keycode_to_ascii_shift :: "u8 list" where
  "keycode_to_ascii_shift = map of_char (designated 128 (CHR 0x00) [
     (KEY_1, CHR ''!''), (KEY_2, CHR ''@''), (KEY_3, CHR ''#''), (KEY_4, CHR ''$''),
     (KEY_5, CHR ''%''), (KEY_6, CHR ''^''), (KEY_7, CHR ''&''), (KEY_8, CHR ''*''),
     (KEY_9, CHR ''(''), (KEY_0, CHR '')''), (KEY_MINUS, CHR ''_''), (KEY_EQUALS, CHR ''+''),
     (KEY_Q, CHR ''Q''), (KEY_W, CHR ''W''), (KEY_E, CHR ''E''), (KEY_R, CHR ''R''),
     (KEY_T, CHR ''T''), (KEY_Y, CHR ''Y''), (KEY_U, CHR ''U''), (KEY_I, CHR ''I''),
     (KEY_O, CHR ''O''), (KEY_P, CHR ''P''), (KEY_LBRACKET, CHR ''{''), (KEY_RBRACKET, CHR ''}''),
     (KEY_A, CHR ''A''), (KEY_S, CHR ''S''), (KEY_D, CHR ''D''), (KEY_F, CHR ''F''),
     (KEY_G, CHR ''G''), (KEY_H, CHR ''H''), (KEY_J, CHR ''J''), (KEY_K, CHR ''K''),
     (KEY_L, CHR ''L''), (KEY_SEMICOLON, CHR '':''), (KEY_APOSTROPHE, CHR 0x22), (KEY_GRAVE, CHR ''~''),
     (KEY_BACKSLASH, CHR ''|''), (KEY_Z, CHR ''Z''), (KEY_X, CHR ''X''), (KEY_C, CHR ''C''),
     (KEY_V, CHR ''V''), (KEY_B, CHR ''B''), (KEY_N, CHR ''N''), (KEY_M, CHR ''M''),
     (KEY_COMMA, CHR ''<''), (KEY_DOT, CHR ''>''), (KEY_SLASH, CHR ''?''), (KEY_SPACE, CHR '' ''),
     (KEY_KP_7, CHR ''7''), (KEY_KP_8, CHR ''8''), (KEY_KP_9, CHR ''9''), (KEY_KP_MINUS, CHR ''-''),
     (KEY_KP_4, CHR ''4''), (KEY_KP_5, CHR ''5''), (KEY_KP_6, CHR ''6''), (KEY_KP_PLUS, CHR ''+''),
     (KEY_KP_1, CHR ''1''), (KEY_KP_2, CHR ''2''), (KEY_KP_3, CHR ''3''), (KEY_KP_0, CHR ''0''),
     (KEY_KP_DOT, CHR ''.'')])"

section \<open>Names\<close>

definition key_names :: "string option list" where
  "key_names = designated 0x73 None [
     (KEY_NONE, Some ''None''), (KEY_ESCAPE, Some ''Esc''), (KEY_1, Some ''1''), (KEY_2, Some ''2''),
     (KEY_3, Some ''3''), (KEY_4, Some ''4''), (KEY_5, Some ''5''), (KEY_6, Some ''6''),
     (KEY_7, Some ''7''), (KEY_8, Some ''8''), (KEY_9, Some ''9''), (KEY_0, Some ''0''),
     (KEY_MINUS, Some ''-''), (KEY_EQUALS, Some ''=''), (KEY_BACKSPACE, Some ''Bksp''), (KEY_TAB, Some ''Tab''),
     (KEY_Q, Some ''Q''), (KEY_W, Some ''W''), (KEY_E, Some ''E''), (KEY_R, Some ''R''),
     (KEY_T, Some ''T''), (KEY_Y, Some ''Y''), (KEY_U, Some ''U''), (KEY_I, Some ''I''),
     (KEY_O, Some ''O''), (KEY_P, Some ''P''), (KEY_LBRACKET, Some ''[''), (KEY_RBRACKET, Some '']''),
     (KEY_ENTER, Some ''Enter''), (KEY_LCTRL, Some ''LCtrl''), (KEY_A, Some ''A''), (KEY_S, Some ''S''),
     (KEY_D, Some ''D''), (KEY_F, Some ''F''), (KEY_G, Some ''G''), (KEY_H, Some ''H''),
     (KEY_J, Some ''J''), (KEY_K, Some ''K''), (KEY_L, Some ''L''), (KEY_SEMICOLON, Some '';''),
     (KEY_APOSTROPHE, Some [CHR 0x27]), (KEY_GRAVE, Some [CHR 0x60]), (KEY_LSHIFT, Some ''LShift''), (KEY_BACKSLASH, Some [CHR 0x5C]),
     (KEY_Z, Some ''Z''), (KEY_X, Some ''X''), (KEY_C, Some ''C''), (KEY_V, Some ''V''),
     (KEY_B, Some ''B''), (KEY_N, Some ''N''), (KEY_M, Some ''M''), (KEY_COMMA, Some '',''),
     (KEY_DOT, Some ''.''), (KEY_SLASH, Some ''/''), (KEY_RSHIFT, Some ''RShift''), (KEY_KP_MULTIPLY, Some ''KP*''),
     (KEY_LALT, Some ''LAlt''), (KEY_SPACE, Some ''Space''), (KEY_CAPSLOCK, Some ''Caps''), (KEY_F1, Some ''F1''),
     (KEY_F2, Some ''F2''), (KEY_F3, Some ''F3''), (KEY_F4, Some ''F4''), (KEY_F5, Some ''F5''),
     (KEY_F6, Some ''F6''), (KEY_F7, Some ''F7''), (KEY_F8, Some ''F8''), (KEY_F9, Some ''F9''),
     (KEY_F10, Some ''F10''), (KEY_NUMLOCK, Some ''NumLk''), (KEY_SCROLLLOCK, Some ''ScrLk''), (KEY_KP_7, Some ''KP7''),
     (KEY_KP_8, Some ''KP8''), (KEY_KP_9, Some ''KP9''), (KEY_KP_MINUS, Some ''KP-''), (KEY_KP_4, Some ''KP4''),
     (KEY_KP_5, Some ''KP5''), (KEY_KP_6, Some ''KP6''), (KEY_KP_PLUS, Some ''KP+''), (KEY_KP_1, Some ''KP1''),
     (KEY_KP_2, Some ''KP2''), (KEY_KP_3, Some ''KP3''), (KEY_KP_0, Some ''KP0''), (KEY_KP_DOT, Some ''KP.''),
     (KEY_F11, Some ''F11''), (KEY_F12, Some ''F12''), (KEY_KP_ENTER, Some ''KPEnt''), (KEY_RCTRL, Some ''RCtrl''),
     (KEY_KP_DIVIDE, Some ''KP/''), (KEY_RALT, Some ''RAlt''), (KEY_PAUSE, Some ''Pause''), (KEY_PRINTSCREEN, Some ''PrtSc''),
     (KEY_HOME, Some ''Home''), (KEY_UP, Some ''Up''), (KEY_PAGEUP, Some ''PgUp''), (KEY_LEFT, Some ''Left''),
     (KEY_RIGHT, Some ''Right''), (KEY_END, Some ''End''), (KEY_DOWN, Some ''Down''), (KEY_PAGEDOWN, Some ''PgDn''),
     (KEY_INSERT, Some ''Ins''), (KEY_DELETE, Some ''Del''), (KEY_LWIN, Some ''LWin''), (KEY_RWIN, Some ''RWin''),
     (KEY_MENU, Some ''Menu'')]"

definition keyboard_get_scancode_name :: "keycode_t \<Rightarrow> string" where
  "keyboard_get_scancode_name key =
     (if key < length key_names then case key_names ! key of Some s \<Rightarrow> s | None \<Rightarrow> ''Unknown''
      else ''Unknown'')"

end
