(* ===== verification/Queues.thy ===== *)
theory Queues
  imports Main
begin

text \<open>
  The contracts of first-in first-out queues.  \<open>abs\<close> is the sequence of elements a state stands for,
  oldest first, \<open>inv\<close> the states that are well formed, and \<open>none\<close> what taking from an empty queue
  returns.  The keyboard's ring buffer and the scheduler's ready list are interpretations.
\<close>

locale fifo =
  fixes inv :: "'q \<Rightarrow> bool" and abs :: "'q \<Rightarrow> 'a list" and pop :: "'q \<Rightarrow> 'a \<times> 'q" and none :: 'a
  assumes pop_inv: "inv q \<Longrightarrow> inv (snd (pop q))"
    and pop_empty: "inv q \<Longrightarrow> abs q = [] \<Longrightarrow> fst (pop q) = none \<and> abs (snd (pop q)) = []"
    and pop_Cons: "inv q \<Longrightarrow> abs q = x # xs \<Longrightarrow> fst (pop q) = x \<and> abs (snd (pop q)) = xs"
begin

primrec drain :: "nat \<Rightarrow> 'q \<Rightarrow> 'a list \<times> 'q" where
  "drain 0 q = ([], q)"
| "drain (Suc n) q = (let (x, q) = pop q; (xs, q) = drain n q in (x # xs, q))"

lemma pop_tl: "inv q \<Longrightarrow> abs (snd (pop q)) = tl (abs q)"
  using pop_empty pop_Cons by (cases "abs q") auto

lemma drain_inv: "inv q \<Longrightarrow> inv (snd (drain n q))"
  by (induction n arbitrary: q) (auto simp: Let_def case_prod_beta pop_inv)

text \<open>Elements come out in the order they are in, and the queue keeps the rest.\<close>

lemma drain_abs:
  "inv q \<Longrightarrow> n \<le> length (abs q) \<Longrightarrow> fst (drain n q) = take n (abs q) \<and> abs (snd (drain n q)) = drop n (abs q)"
proof (induction n arbitrary: q)
  case (Suc n)
  then obtain x xs where q: "abs q = x # xs" by (cases "abs q") auto
  have "n \<le> length (abs (snd (pop q)))" using pop_Cons[OF Suc.prems(1) q] Suc.prems(2) q by simp
  then show ?case
    using Suc.IH[OF pop_inv[OF Suc.prems(1)]] pop_Cons[OF Suc.prems(1) q] q
    by (simp add: Let_def case_prod_beta)
qed simp

end

text \<open>Adding an element, where \<open>room\<close> says when the queue takes it.\<close>

locale fifo_queue = fifo inv abs pop none
  for inv :: "'q \<Rightarrow> bool" and abs :: "'q \<Rightarrow> 'a list" and pop :: "'q \<Rightarrow> 'a \<times> 'q" and none :: 'a +
  fixes push :: "'a \<Rightarrow> 'q \<Rightarrow> 'q" and room :: "'q \<Rightarrow> 'a \<Rightarrow> bool"
  assumes push_inv: "inv q \<Longrightarrow> room q x \<Longrightarrow> inv (push x q)"
    and push_abs: "inv q \<Longrightarrow> room q x \<Longrightarrow> abs (push x q) = abs q @ [x]"
begin

lemma push_pop_empty: "inv q \<Longrightarrow> abs q = [] \<Longrightarrow> room q x \<Longrightarrow> fst (pop (push x q)) = x"
  using pop_Cons[OF push_inv] push_abs by auto

lemma push_drain:
  assumes "inv q" "room q x"
  shows "fst (drain (Suc (length (abs q))) (push x q)) = abs q @ [x]"
  using drain_abs[OF push_inv[OF assms], of "Suc (length (abs q))"] push_abs[OF assms] by simp

end

text \<open>A bounded queue: there is room up to the capacity, and what does not fit is dropped.\<close>

locale bounded_queue = fifo_queue inv abs pop none push "\<lambda>q x. length (abs q) < cap"
  for inv :: "'q \<Rightarrow> bool" and abs :: "'q \<Rightarrow> 'a list" and pop :: "'q \<Rightarrow> 'a \<times> 'q" and none :: 'a
    and push :: "'a \<Rightarrow> 'q \<Rightarrow> 'q" and cap :: nat +
  assumes bound: "inv q \<Longrightarrow> length (abs q) \<le> cap"
    and push_full: "inv q \<Longrightarrow> length (abs q) = cap \<Longrightarrow> push x q = q"
begin

lemma push_all:
  "inv q \<Longrightarrow> inv (fold push xs q) \<and> abs (fold push xs q) = abs q @ take (cap - length (abs q)) xs"
proof (induction xs arbitrary: q)
  case (Cons x xs)
  show ?case
  proof (cases "length (abs q) < cap")
    case True
    then show ?thesis
      using Cons.IH[OF push_inv[OF Cons.prems True]] push_abs[OF Cons.prems True]
      by (simp add: take_Cons' Suc_diff_Suc[symmetric])
  next
    case False
    then have "length (abs q) = cap" using bound[OF Cons.prems] by simp
    then show ?thesis using Cons.IH[OF Cons.prems] push_full[OF Cons.prems] by simp
  qed
qed simp

lemma push_inv_any: "inv q \<Longrightarrow> inv (push x q)"
  using push_all[of q "[x]"] by simp

lemma push_abs_any: "inv q \<Longrightarrow> abs (push x q) = (if length (abs q) < cap then abs q @ [x] else abs q)"
  using push_all[of q "[x]"] bound[of q] by (auto simp: take_Cons')

end

end
