(* ===== verification/Keyboard_Ring.thy ===== *)
theory Keyboard_Ring
  imports Prelude Queues
begin

text \<open>
  The character ring buffer of the keyboard driver (\<^verbatim>\<open>struct kbd_ring_buffer\<close> and the
  \<^verbatim>\<open>ring_buffer_*\<close> functions of \<^verbatim>\<open>kernel/BasicDrivers/keyboard.c\<close>) and its refinement of a bounded
  queue of 255 characters.
\<close>

abbreviation KBD_BUFFER_SIZE :: nat where "KBD_BUFFER_SIZE \<equiv> 256"

record kbd_ring_buffer =
  rb_data :: "u8 list"
  rb_head :: nat
  rb_tail :: nat

definition ring_buffer_is_empty :: "kbd_ring_buffer \<Rightarrow> bool" where
  "ring_buffer_is_empty rb \<longleftrightarrow> rb_head rb = rb_tail rb"

definition ring_buffer_is_full :: "kbd_ring_buffer \<Rightarrow> bool" where
  "ring_buffer_is_full rb \<longleftrightarrow> (rb_head rb + 1) mod KBD_BUFFER_SIZE = rb_tail rb"

definition ring_buffer_push :: "u8 \<Rightarrow> kbd_ring_buffer \<Rightarrow> kbd_ring_buffer" where
  "ring_buffer_push c rb =
     (if ring_buffer_is_full rb then rb
      else rb\<lparr>rb_data := (rb_data rb)[rb_head rb := c], rb_head := (rb_head rb + 1) mod KBD_BUFFER_SIZE\<rparr>)"

definition ring_buffer_pop :: "kbd_ring_buffer \<Rightarrow> u8 \<times> kbd_ring_buffer" where
  "ring_buffer_pop rb =
     (if ring_buffer_is_empty rb then (0, rb)
      else (rb_data rb ! rb_tail rb, rb\<lparr>rb_tail := (rb_tail rb + 1) mod KBD_BUFFER_SIZE\<rparr>))"

section \<open>The queue it implements\<close>

definition rb_inv :: "kbd_ring_buffer \<Rightarrow> bool" where
  "rb_inv rb \<longleftrightarrow> length (rb_data rb) = KBD_BUFFER_SIZE \<and> rb_head rb < KBD_BUFFER_SIZE \<and> rb_tail rb < KBD_BUFFER_SIZE"

definition rb_count :: "kbd_ring_buffer \<Rightarrow> nat" where
  "rb_count rb = (rb_head rb + KBD_BUFFER_SIZE - rb_tail rb) mod KBD_BUFFER_SIZE"

definition rb_chars :: "kbd_ring_buffer \<Rightarrow> u8 list" where
  "rb_chars rb = map (\<lambda>i. rb_data rb ! ((rb_tail rb + i) mod KBD_BUFFER_SIZE)) [0..<rb_count rb]"

lemma length_rb_chars: "length (rb_chars rb) = rb_count rb"
  by (simp add: rb_chars_def)

lemma rb_count_less: "rb_count rb < KBD_BUFFER_SIZE"
  by (simp add: rb_count_def)

lemma rb_empty_iff: "rb_inv rb \<Longrightarrow> ring_buffer_is_empty rb \<longleftrightarrow> rb_count rb = 0"
  by (auto simp: ring_buffer_is_empty_def rb_count_def rb_inv_def mod_if)

lemma rb_full_iff: "rb_inv rb \<Longrightarrow> ring_buffer_is_full rb \<longleftrightarrow> rb_count rb = 255"
  by (auto simp: ring_buffer_is_full_def rb_count_def rb_inv_def mod_if)

lemma rb_count_cases:
  "rb_inv rb \<Longrightarrow> rb_count rb = (if rb_tail rb \<le> rb_head rb then rb_head rb - rb_tail rb else rb_head rb + 256 - rb_tail rb)"
  by (auto simp: rb_count_def rb_inv_def mod_if)

lemma ring_index: "(x :: nat) < 512 \<Longrightarrow> x mod 256 = (if x < 256 then x else x - 256)"
  by (auto simp: mod_if)

lemma rb_chars_push:
  assumes "rb_inv rb" "rb_count rb < 255"
  shows "rb_chars (ring_buffer_push c rb) = rb_chars rb @ [c]"
proof -
  let ?rb = "ring_buffer_push c rb"
  have nf: "\<not> ring_buffer_is_full rb" using rb_full_iff[OF assms(1)] assms(2) by simp
  have b: "rb_head rb < 256" "rb_tail rb < 256" using assms(1) by (simp_all add: rb_inv_def)
  have inv: "rb_inv ?rb" using assms(1) by (simp add: ring_buffer_push_def rb_inv_def)
  have c: "rb_count rb = (if rb_tail rb \<le> rb_head rb then rb_head rb - rb_tail rb else rb_head rb + 256 - rb_tail rb)"
    by (rule rb_count_cases[OF assms(1)])
  have n: "rb_count ?rb = Suc (rb_count rb)"
    using rb_count_cases[OF inv] c nf b assms(2) ring_index[of "rb_head rb + 1"]
    by (simp add: ring_buffer_push_def split: if_splits)
  have h: "(rb_tail rb + rb_count rb) mod 256 = rb_head rb"
    using c b by (subst ring_index) (auto split: if_splits)
  have other: "(rb_tail rb + i) mod 256 \<noteq> rb_head rb" if "i < rb_count rb" for i
    using that c b by (subst ring_index) (auto split: if_splits)
  show ?thesis
  proof (rule nth_equalityI)
    show "length (rb_chars ?rb) = length (rb_chars rb @ [c])" using n by (simp add: length_rb_chars)
    fix i assume "i < length (rb_chars ?rb)"
    then have "i < Suc (rb_count rb)" using n by (simp add: length_rb_chars)
    then consider "i < rb_count rb" | "i = rb_count rb" by linarith
    then show "rb_chars ?rb ! i = (rb_chars rb @ [c]) ! i"
    proof cases
      case 1
      then show ?thesis using n nf other[OF 1] assms(1)
        by (simp add: rb_chars_def ring_buffer_push_def nth_append del: upt_Suc)
    next
      case 2
      then show ?thesis using n nf h assms(1)
        by (simp add: rb_chars_def ring_buffer_push_def nth_append rb_inv_def del: upt_Suc)
    qed
  qed
qed

lemma rb_chars_pop:
  assumes "rb_inv rb" "rb_count rb = Suc n"
  shows "rb_chars rb = fst (ring_buffer_pop rb) # rb_chars (snd (ring_buffer_pop rb))"
proof -
  have ne: "\<not> ring_buffer_is_empty rb" using rb_empty_iff[OF assms(1)] assms(2) by simp
  have c: "rb_count (rb\<lparr>rb_tail := (rb_tail rb + 1) mod KBD_BUFFER_SIZE\<rparr>) = n"
  proof -
    have "rb_inv (rb\<lparr>rb_tail := (rb_tail rb + 1) mod KBD_BUFFER_SIZE\<rparr>)" using assms(1) by (simp add: rb_inv_def)
    then have new: "rb_count (rb\<lparr>rb_tail := (rb_tail rb + 1) mod KBD_BUFFER_SIZE\<rparr>) =
        (if (rb_tail rb + 1) mod 256 \<le> rb_head rb then rb_head rb - (rb_tail rb + 1) mod 256
         else rb_head rb + 256 - (rb_tail rb + 1) mod 256)" by (subst rb_count_cases) simp_all
    have b: "rb_head rb < 256" "rb_tail rb < 256" using assms(1) by (simp_all add: rb_inv_def)
    have t: "(rb_tail rb + 1) mod 256 = (if rb_tail rb + 1 < 256 then rb_tail rb + 1 else rb_tail rb + 1 - 256)"
      using b by (intro ring_index) simp
    show ?thesis
      using rb_count_cases[OF assms(1)] assms(2) b unfolding new unfolding t by (auto split: if_splits)
  qed
  have "rb_chars rb = map (\<lambda>i. rb_data rb ! ((rb_tail rb + i) mod KBD_BUFFER_SIZE)) (0 # map Suc [0..<n])"
    unfolding rb_chars_def assms(2) by (simp add: map_Suc_upt upt_conv_Cons del: upt_Suc)
  moreover have "rb_chars (rb\<lparr>rb_tail := (rb_tail rb + 1) mod KBD_BUFFER_SIZE\<rparr>)
      = map (\<lambda>i. rb_data rb ! ((rb_tail rb + 1 + i) mod KBD_BUFFER_SIZE)) [0..<n]"
    unfolding rb_chars_def c by (simp add: mod_add_left_eq)
  moreover have "rb_tail rb mod KBD_BUFFER_SIZE = rb_tail rb" using assms(1) by (simp add: rb_inv_def)
  ultimately show ?thesis using ne by (simp add: ring_buffer_pop_def comp_def)
qed

interpretation kq: bounded_queue rb_inv rb_chars ring_buffer_pop 0 ring_buffer_push 255
proof
  fix q :: kbd_ring_buffer and x xs assume q: "rb_inv q"
  show "rb_inv (snd (ring_buffer_pop q))" using q by (simp add: ring_buffer_pop_def rb_inv_def)
  show "fst (ring_buffer_pop q) = 0 \<and> rb_chars (snd (ring_buffer_pop q)) = []" if "rb_chars q = []"
    using that rb_empty_iff[OF q] length_rb_chars[of q] by (simp add: ring_buffer_pop_def)
  show "fst (ring_buffer_pop q) = x \<and> rb_chars (snd (ring_buffer_pop q)) = xs" if "rb_chars q = x # xs"
    using that rb_chars_pop[OF q, of "length xs"] length_rb_chars[of q] by simp
  show "rb_inv (ring_buffer_push x q)" if "length (rb_chars q) < 255"
    using q by (simp add: ring_buffer_push_def rb_inv_def)
  show "rb_chars (ring_buffer_push x q) = rb_chars q @ [x]" if "length (rb_chars q) < 255"
    using that q by (simp add: rb_chars_push length_rb_chars)
  show "length (rb_chars q) \<le> 255" using rb_count_less[of q] by (simp add: length_rb_chars)
  show "ring_buffer_push x q = q" if "length (rb_chars q) = 255"
    using that rb_full_iff[OF q] by (simp add: ring_buffer_push_def length_rb_chars)
qed

text \<open>
  C9: The ring buffer refines a bounded queue: after any sequence of pushes the characters taken
  out are the old contents followed by the pushed ones, in order and without gaps, up to
  255 in all; what does not fit is dropped at the end.
\<close>

theorem ring_buffer_is_queue:
  assumes "rb_inv rb" "n \<le> length (rb_chars rb @ take (255 - length (rb_chars rb)) cs)"
  shows "fst (kq.drain n (fold ring_buffer_push cs rb)) = take n (rb_chars rb @ take (255 - length (rb_chars rb)) cs)
    \<and> rb_chars (snd (kq.drain n (fold ring_buffer_push cs rb))) = drop n (rb_chars rb @ take (255 - length (rb_chars rb)) cs)
    \<and> rb_inv (snd (kq.drain n (fold ring_buffer_push cs rb)))"
  using kq.push_all[OF assms(1), of cs] kq.drain_abs[of "fold ring_buffer_push cs rb" n]
    kq.drain_inv[of "fold ring_buffer_push cs rb" n] assms(2) by auto

definition rb_empty :: kbd_ring_buffer where
  "rb_empty = \<lparr>rb_data = replicate 256 0, rb_head = 0, rb_tail = 0\<rparr>"

lemma rb_empty_facts: "rb_inv rb_empty" "rb_chars rb_empty = []"
  by (simp_all add: rb_empty_def rb_inv_def rb_chars_def rb_count_def)

theorem ring_buffer_is_queue_witness:
  "fst (kq.drain 2 (fold ring_buffer_push [104, 105, 33] rb_empty)) = [104, 105]"
  using ring_buffer_is_queue[of rb_empty 2 "[104, 105, 33]"] by (simp add: rb_empty_facts)

end
