(* ===== verification/Keyboard.thy ===== *)
theory Keyboard
  imports Apic Keyboard_Tables Keyboard_Ring "HOL-Library.Monad_Syntax"
begin

text \<open>
  The PS/2 keyboard driver (\<^verbatim>\<open>kernel/BasicDrivers/keyboard.c\<close>): the 8042 controller protocol with its
  timeouts and retries, LEDs, the scan code state machine, modifier and lock keys, conversion to
  ASCII, software key repeat, the character buffer and initialisation.  Loops with a
  counter are recursions on it; the loops that wait for the controller without a bound
  are option-valued.  The repeat delay and interval are variables that the driver never assigns
  and stand here as constants.
\<close>

section \<open>State\<close>

datatype key_event_t = KEY_EVENT_PRESS | KEY_EVENT_RELEASE

record keyboard_event =
  ev_key :: keycode_t
  ev_type :: key_event_t
  ev_extended :: bool

record keyboard_state =
  lshift :: bool
  rshift :: bool
  lctrl :: bool
  rctrl :: bool
  lalt :: bool
  ralt :: bool
  capslock :: bool
  numlock :: bool
  scrolllock :: bool

datatype scancode_state = STATE_NORMAL | STATE_EXPECT_E0_DATA | STATE_EXPECT_E1_DATA_1 | STATE_EXPECT_E1_DATA_2
  | STATE_EXPECT_E1_RELEASE_1 | STATE_EXPECT_E1_RELEASE_2 | STATE_EXPECT_E0_RELEASE

record keyboard = apic_state +
  kbd_state :: keyboard_state
  kbd_buffer :: kbd_ring_buffer
  scancode_st :: scancode_state
  e0_saved_data :: u8
  repeat_key :: keycode_t
  repeat_timer :: u32
  led_cache :: u8

abbreviation repeat_delay_ms :: u32 where "repeat_delay_ms \<equiv> 500"
abbreviation repeat_rate_ms :: u32 where "repeat_rate_ms \<equiv> 33"

abbreviation PS2_DATA_PORT :: u16 where "PS2_DATA_PORT \<equiv> 0x60"
abbreviation PS2_CMD_PORT :: u16 where "PS2_CMD_PORT \<equiv> 0x64"
abbreviation PS2_STATUS_OUTBUF :: u8 where "PS2_STATUS_OUTBUF \<equiv> 0x01"
abbreviation PS2_STATUS_INBUF :: u8 where "PS2_STATUS_INBUF \<equiv> 0x02"
abbreviation PS2_TIMEOUT_US :: nat where "PS2_TIMEOUT_US \<equiv> 100000"
abbreviation PS2_TIMEOUT_DATA :: nat where "PS2_TIMEOUT_DATA \<equiv> 100000"
abbreviation PS2_RETRIES :: nat where "PS2_RETRIES \<equiv> 3"
abbreviation PS2_RESP_ACK :: u8 where "PS2_RESP_ACK \<equiv> 0xFA"
abbreviation PS2_RESP_RESEND :: u8 where "PS2_RESP_RESEND \<equiv> 0xFE"
abbreviation PS2_RESP_BAT_OK :: u8 where "PS2_RESP_BAT_OK \<equiv> 0xAA"
abbreviation PS2_CMD_READ_CFG :: u8 where "PS2_CMD_READ_CFG \<equiv> 0x20"
abbreviation PS2_CMD_WRITE_CFG :: u8 where "PS2_CMD_WRITE_CFG \<equiv> 0x60"
abbreviation PS2_CFG_IRQ1 :: u8 where "PS2_CFG_IRQ1 \<equiv> 0x01"
abbreviation PS2_CFG_IRQ12 :: u8 where "PS2_CFG_IRQ12 \<equiv> 0x02"
abbreviation PS2_CFG_CLK1 :: u8 where "PS2_CFG_CLK1 \<equiv> 0x10"
abbreviation PS2_CFG_TRANSLATE :: u8 where "PS2_CFG_TRANSLATE \<equiv> 0x40"
abbreviation KBD_CMD_RESET :: u8 where "KBD_CMD_RESET \<equiv> 0xFF"
abbreviation KBD_CMD_ENABLE :: u8 where "KBD_CMD_ENABLE \<equiv> 0xF4"
abbreviation KBD_CMD_SET_RATE :: u8 where "KBD_CMD_SET_RATE \<equiv> 0xF3"
abbreviation KBD_CMD_SET_LEDS :: u8 where "KBD_CMD_SET_LEDS \<equiv> 0xED"

section \<open>Key classes\<close>

definition is_letter_key :: "keycode_t \<Rightarrow> bool" where
  "is_letter_key key \<longleftrightarrow> key \<ge> KEY_Q \<and> key \<le> KEY_P \<or> key \<ge> KEY_A \<and> key \<le> KEY_L \<or> key \<ge> KEY_Z \<and> key \<le> KEY_M"

definition is_kp_number :: "keycode_t \<Rightarrow> bool" where
  "is_kp_number key \<longleftrightarrow> key \<ge> KEY_KP_7 \<and> key \<le> KEY_KP_9 \<or> key \<ge> KEY_KP_4 \<and> key \<le> KEY_KP_6
     \<or> key \<ge> KEY_KP_1 \<and> key \<le> KEY_KP_3 \<or> key = KEY_KP_0 \<or> key = KEY_KP_DOT"

definition is_kp_operator :: "keycode_t \<Rightarrow> bool" where
  "is_kp_operator key \<longleftrightarrow> key = KEY_KP_PLUS \<or> key = KEY_KP_MINUS \<or> key = KEY_KP_MULTIPLY
     \<or> key = KEY_KP_DIVIDE \<or> key = KEY_KP_ENTER"

section \<open>Controller\<close>

primrec ps2_wait_write :: "nat \<Rightarrow> 'a machine_scheme \<Rightarrow> bool \<times> 'a machine_scheme" where
  "ps2_wait_write 0 s = (False, s)"
| "ps2_wait_write (Suc timeout) s =
     (let (status, s) = inb PS2_CMD_PORT s
      in if status AND PS2_STATUS_INBUF = 0 then (True, s) else ps2_wait_write timeout (io_wait s))"

primrec ps2_wait_read :: "nat \<Rightarrow> 'a machine_scheme \<Rightarrow> bool \<times> 'a machine_scheme" where
  "ps2_wait_read 0 s = (False, s)"
| "ps2_wait_read (Suc timeout) s =
     (let (status, s) = inb PS2_CMD_PORT s
      in if status AND PS2_STATUS_OUTBUF \<noteq> 0 then (True, s) else ps2_wait_read timeout (io_wait s))"

definition ps2_send_controller_cmd :: "u8 \<Rightarrow> 'a machine_scheme \<Rightarrow> bool \<times> 'a machine_scheme" where
  "ps2_send_controller_cmd cmd s =
     (let (ok, s) = ps2_wait_write PS2_TIMEOUT_US s
      in if \<not> ok then (False, s) else (True, outb PS2_CMD_PORT cmd s))"

definition ps2_send_device :: "u8 \<Rightarrow> 'a machine_scheme \<Rightarrow> bool \<times> 'a machine_scheme" where
  "ps2_send_device data s =
     (let (ok, s) = ps2_wait_write PS2_TIMEOUT_US s
      in if \<not> ok then (False, s) else (True, outb PS2_DATA_PORT data s))"

text \<open>None is the timeout; the caller's variable then keeps its value.\<close>

definition ps2_read_data :: "'a machine_scheme \<Rightarrow> u8 option \<times> 'a machine_scheme" where
  "ps2_read_data s =
     (let (ok, s) = ps2_wait_read PS2_TIMEOUT_DATA s
      in if \<not> ok then (None, s) else let (data, s) = inb PS2_DATA_PORT s in (Some data, s))"

partial_function (option) ps2_flush :: "'a machine_scheme \<Rightarrow> 'a machine_scheme option" where
  "ps2_flush s =
     (let (status, s) = inb PS2_CMD_PORT s
      in if status AND PS2_STATUS_OUTBUF \<noteq> 0 then ps2_flush (snd (inb PS2_DATA_PORT s)) else Some s)"

section \<open>Keyboard commands\<close>

primrec kbd_send_retry :: "nat \<Rightarrow> u8 \<Rightarrow> 'a machine_scheme \<Rightarrow> bool \<times> 'a machine_scheme" where
  "kbd_send_retry 0 cmd s = (False, s)"
| "kbd_send_retry (Suc n) cmd s =
     (let (ok, s) = ps2_send_device cmd s
      in if \<not> ok then (False, s)
         else case ps2_read_data s of
           (None, s) \<Rightarrow> (False, s)
         | (Some resp, s) \<Rightarrow>
             if resp = PS2_RESP_ACK then (True, s)
             else if resp = PS2_RESP_RESEND then kbd_send_retry n cmd s
             else (False, s))"

definition kbd_send_command :: "u8 \<Rightarrow> 'a machine_scheme \<Rightarrow> bool \<times> 'a machine_scheme" where
  "kbd_send_command cmd s = kbd_send_retry PS2_RETRIES cmd s"

primrec kbd_param_retry :: "nat \<Rightarrow> u8 \<Rightarrow> u8 \<Rightarrow> 'a machine_scheme \<Rightarrow> bool \<times> 'a machine_scheme" where
  "kbd_param_retry 0 cmd param s = (False, s)"
| "kbd_param_retry (Suc n) cmd param s =
     (let (ok, s) = ps2_send_device cmd s
      in if \<not> ok then (False, s)
         else case ps2_read_data s of
           (None, s) \<Rightarrow> (False, s)
         | (Some resp, s) \<Rightarrow>
             if resp = PS2_RESP_RESEND then kbd_param_retry n cmd param s
             else if resp \<noteq> PS2_RESP_ACK then (False, s)
             else
               let (ok, s) = ps2_send_device param s
               in if \<not> ok then (False, s)
                  else case ps2_read_data s of
                    (None, s) \<Rightarrow> (False, s)
                  | (Some resp, s) \<Rightarrow>
                      if resp = PS2_RESP_RESEND then kbd_param_retry n cmd param s
                      else if resp = PS2_RESP_ACK then (True, s)
                      else (False, s))"

definition kbd_send_command_with_param :: "u8 \<Rightarrow> u8 \<Rightarrow> 'a machine_scheme \<Rightarrow> bool \<times> 'a machine_scheme" where
  "kbd_send_command_with_param cmd param s = kbd_param_retry PS2_RETRIES cmd param s"

section \<open>LEDs and typematic rate\<close>

definition led_state :: "keyboard_state \<Rightarrow> u8" where
  "led_state k =
     (let led = 0;
          led = (if scrolllock k then led OR 0x01 else led);
          led = (if numlock k then led OR 0x02 else led)
      in if capslock k then led OR 0x04 else led)"

definition kbd_update_leds :: "'a keyboard_scheme \<Rightarrow> 'a keyboard_scheme" where
  "kbd_update_leds s =
     (let led = led_state (kbd_state s)
      in if led = led_cache s then s
         else let (ok, s) = kbd_send_command_with_param KBD_CMD_SET_LEDS led s
              in if ok then s\<lparr>led_cache := led\<rparr> else s)"

definition kbd_set_typematic :: "'a machine_scheme \<Rightarrow> 'a machine_scheme" where
  "kbd_set_typematic s = snd (kbd_send_command_with_param KBD_CMD_SET_RATE (push_bit 5 1) s)"

section \<open>ASCII\<close>

definition keycode_to_ascii_char :: "keyboard_state \<Rightarrow> keycode_t \<Rightarrow> u8" where
  "keycode_to_ascii_char k key =
     (let shift = lshift k \<or> rshift k
      in if is_letter_key key
         then let base = keycode_to_ascii ! key
              in if base = 0 then 0 else if capslock k \<noteq> shift then base - 32 else base
         else if is_kp_number key
         then if numlock k then keycode_to_ascii ! key else 0
         else if is_kp_operator key then keycode_to_ascii ! key
         else if shift \<and> keycode_to_ascii_shift ! key \<noteq> 0 then keycode_to_ascii_shift ! key
         else keycode_to_ascii ! key)"

section \<open>Events\<close>

definition set_modifier :: "keycode_t \<Rightarrow> bool \<Rightarrow> keyboard_state \<Rightarrow> keyboard_state" where
  "set_modifier key v k =
     (if key = KEY_LSHIFT then k\<lparr>lshift := v\<rparr>
      else if key = KEY_RSHIFT then k\<lparr>rshift := v\<rparr>
      else if key = KEY_LCTRL then k\<lparr>lctrl := v\<rparr>
      else if key = KEY_RCTRL then k\<lparr>rctrl := v\<rparr>
      else if key = KEY_LALT then k\<lparr>lalt := v\<rparr>
      else if key = KEY_RALT then k\<lparr>ralt := v\<rparr>
      else k)"

definition press_key :: "keycode_t \<Rightarrow> 'a keyboard_scheme \<Rightarrow> 'a keyboard_scheme" where
  "press_key key s =
     (let k = kbd_state s
      in if key = KEY_CAPSLOCK then kbd_update_leds (s\<lparr>kbd_state := k\<lparr>capslock := \<not> capslock k\<rparr>\<rparr>)
         else if key = KEY_NUMLOCK then kbd_update_leds (s\<lparr>kbd_state := k\<lparr>numlock := \<not> numlock k\<rparr>\<rparr>)
         else if key = KEY_SCROLLLOCK then kbd_update_leds (s\<lparr>kbd_state := k\<lparr>scrolllock := \<not> scrolllock k\<rparr>\<rparr>)
         else s\<lparr>kbd_state := set_modifier key True k\<rparr>)"

definition push_char :: "keycode_t \<Rightarrow> 'a keyboard_scheme \<Rightarrow> 'a keyboard_scheme" where
  "push_char key s =
     (let c = keycode_to_ascii_char (kbd_state s) key
      in if c \<noteq> 0 then s\<lparr>kbd_buffer := ring_buffer_push c (kbd_buffer s)\<rparr> else s)"

definition keyboard_handle_event :: "keyboard_event \<Rightarrow> 'a keyboard_scheme \<Rightarrow> 'a keyboard_scheme" where
  "keyboard_handle_event event s =
     (if ev_type event = KEY_EVENT_PRESS
      then let s = push_char (ev_key event) (press_key (ev_key event) s)
           in s\<lparr>repeat_key := ev_key event, repeat_timer := 0\<rparr>
      else let s = s\<lparr>kbd_state := set_modifier (ev_key event) False (kbd_state s)\<rparr>
           in if ev_key event = repeat_key s then s\<lparr>repeat_key := KEY_NONE, repeat_timer := 0\<rparr> else s)"

section \<open>Scan codes\<close>

definition make_event :: "keycode_t \<Rightarrow> key_event_t \<Rightarrow> bool \<Rightarrow> keyboard_event" where
  "make_event key type ext = \<lparr>ev_key = key, ev_type = type, ev_extended = ext\<rparr>"

definition keyboard_process_scancode :: "u8 \<Rightarrow> 'a keyboard_scheme \<Rightarrow> 'a keyboard_scheme" where
  "keyboard_process_scancode scancode s =
     (case scancode_st s of
        STATE_NORMAL \<Rightarrow>
          if scancode = 0xE0 then s\<lparr>scancode_st := STATE_EXPECT_E0_DATA\<rparr>
          else if scancode = 0xE1 then s\<lparr>scancode_st := STATE_EXPECT_E1_DATA_1\<rparr>
          else if scancode AND 0x80 \<noteq> 0
          then keyboard_handle_event
                 (make_event (set1_make_to_keycode ! unat (scancode AND 0x7F)) KEY_EVENT_RELEASE False) s
          else keyboard_handle_event (make_event (set1_make_to_keycode ! unat scancode) KEY_EVENT_PRESS False) s
      | STATE_EXPECT_E0_DATA \<Rightarrow>
          let s = s\<lparr>scancode_st := STATE_NORMAL\<rparr>
          in if scancode AND 0x80 \<noteq> 0
             then keyboard_handle_event
                    (make_event (e0_make_to_keycode ! unat (scancode AND 0x7F)) KEY_EVENT_RELEASE True) s
             else if scancode = 0x2A
             then s\<lparr>scancode_st := STATE_EXPECT_E0_RELEASE, e0_saved_data := scancode\<rparr>
             else keyboard_handle_event (make_event (e0_make_to_keycode ! unat scancode) KEY_EVENT_PRESS True) s
      | STATE_EXPECT_E0_RELEASE \<Rightarrow>
          keyboard_handle_event (make_event KEY_PRINTSCREEN KEY_EVENT_PRESS True) (s\<lparr>scancode_st := STATE_NORMAL\<rparr>)
      | STATE_EXPECT_E1_DATA_1 \<Rightarrow> s\<lparr>scancode_st := STATE_EXPECT_E1_DATA_2\<rparr>
      | STATE_EXPECT_E1_DATA_2 \<Rightarrow> s\<lparr>scancode_st := STATE_EXPECT_E1_RELEASE_1\<rparr>
      | STATE_EXPECT_E1_RELEASE_1 \<Rightarrow>
          if scancode = 0xE1 then s\<lparr>scancode_st := STATE_EXPECT_E1_RELEASE_2\<rparr>
          else s\<lparr>scancode_st := STATE_NORMAL\<rparr>
      | STATE_EXPECT_E1_RELEASE_2 \<Rightarrow>
          keyboard_handle_event (make_event KEY_PAUSE KEY_EVENT_PRESS True) (s\<lparr>scancode_st := STATE_NORMAL\<rparr>))"

section \<open>Key repeat and reading\<close>

definition keyboard_timer_tick :: "'a keyboard_scheme \<Rightarrow> 'a keyboard_scheme" where
  "keyboard_timer_tick s =
     (if repeat_key s = KEY_NONE then s
      else
        let s = s\<lparr>repeat_timer := repeat_timer s + 1\<rparr>
        in if repeat_timer s < repeat_delay_ms div 10 then s
           else let elapsed = repeat_timer s - repeat_delay_ms div 10
                in if elapsed > 0 \<and> elapsed mod (repeat_rate_ms div 10) = 0 then push_char (repeat_key s) s else s)"

definition keyboard_getchar :: "'a keyboard_scheme \<Rightarrow> u8 \<times> 'a keyboard_scheme" where
  "keyboard_getchar s = (let (c, rb) = ring_buffer_pop (kbd_buffer s) in (c, s\<lparr>kbd_buffer := rb\<rparr>))"

definition keyboard_getchar_nb :: "'a keyboard_scheme \<Rightarrow> u8 \<times> 'a keyboard_scheme" where
  "keyboard_getchar_nb s =
     (let (c, rb) = ring_buffer_pop (kbd_buffer s); s = s\<lparr>kbd_buffer := rb\<rparr> in if c \<noteq> 0 then (c, s) else (0, s))"

definition keyboard_peek_event :: "'a keyboard_scheme \<Rightarrow> bool" where
  "keyboard_peek_event s \<longleftrightarrow> \<not> ring_buffer_is_empty (kbd_buffer s)"

definition keyboard_get_state :: "'a keyboard_scheme \<Rightarrow> keyboard_state" where
  "keyboard_get_state s = kbd_state s"

partial_function (option) keyboard_drain :: "'a keyboard_scheme \<Rightarrow> 'a keyboard_scheme option" where
  "keyboard_drain s =
     (let (status, s) = inb PS2_CMD_PORT s
      in if status AND PS2_STATUS_OUTBUF \<noteq> 0
         then let (scancode, s) = inb PS2_DATA_PORT s in keyboard_drain (keyboard_process_scancode scancode s)
         else Some s)"

definition keyboard_irq_handler :: "u8 \<Rightarrow> 'a keyboard_scheme \<Rightarrow> 'a keyboard_scheme option" where
  "keyboard_irq_handler int_no s = keyboard_drain s"

partial_function (option) keyboard_getchar_blocking :: "'a keyboard_scheme \<Rightarrow> (u8 \<times> 'a keyboard_scheme) option" where
  "keyboard_getchar_blocking s =
     (let (c, s) = keyboard_getchar_nb s
      in if c \<noteq> 0 then Some (c, s)
         else do {
           s \<leftarrow> keyboard_drain s;
           let (c, s) = keyboard_getchar_nb s
           in if c \<noteq> 0 then Some (c, s) else keyboard_getchar_blocking s })"

section \<open>Initialisation\<close>

text \<open>The two self tests: true when the command was sent and the expected byte came back.\<close>

definition ps2_test ::
  "u8 \<Rightarrow> u8 \<Rightarrow> string \<Rightarrow> string \<Rightarrow> 'a machine_scheme \<Rightarrow> bool \<times> 'a machine_scheme" where
  "ps2_test cmd expected send_msg fail_msg s =
     (let (ok, s) = ps2_send_controller_cmd cmd s
      in if \<not> ok then (False, say send_msg s)
         else let (r, s) = ps2_read_data s; result = (case r of None \<Rightarrow> 0 | Some v \<Rightarrow> v)
              in if r = None \<or> result \<noteq> expected
                 then (False, say '')\<newline>'' (say_hex (ucast result) (say fail_msg s)))
                 else (True, s))"

definition keyboard_reset :: "'a machine_scheme \<Rightarrow> 'a machine_scheme option" where
  "keyboard_reset s =
     (let (ok, s) = kbd_send_command KBD_CMD_RESET s
      in if \<not> ok then Some (say ''[WARN] PS/2: Keyboard reset command failed\<newline>'' s)
         else let (r, s) = ps2_read_data s;
                  s = (case r of None \<Rightarrow> s
                       | Some bat \<Rightarrow>
                           if bat = PS2_RESP_BAT_OK then say ''  [KBD] Self-test passed\<newline>'' s
                           else say ''\<newline>'' (say_hex (ucast bat) (say ''  [KBD] Self-test result: 0x'' s)))
              in ps2_flush s)"

definition wait_input_clear :: "'a machine_scheme \<Rightarrow> 'a machine_scheme option" where
  "wait_input_clear s = map_option snd (poll8 PS2_CMD_PORT (\<lambda>v. v AND PS2_STATUS_INBUF = 0) s)"

definition keyboard_init :: "'a keyboard_scheme \<Rightarrow> 'a keyboard_scheme option" where
  "keyboard_init s =
     (let s = s\<lparr>kbd_state := \<lparr>lshift = False, rshift = False, lctrl = False, rctrl = False, lalt = False, ralt = False,
                   capslock = False, numlock = False, scrolllock = False\<rparr>,
                kbd_buffer := rb_empty, scancode_st := STATE_NORMAL, repeat_key := KEY_NONE,
                repeat_timer := 0, led_cache := 0xFF\<rparr>;
          s = snd (ps2_send_controller_cmd 0xAD s);
          s = snd (ps2_send_controller_cmd 0xA7 s);
          s = io_wait (io_wait s)
      in do {
        s \<leftarrow> ps2_flush s;
        let s = snd (ps2_send_controller_cmd PS2_CMD_READ_CFG s);
            (r, s) = ps2_read_data s;
            (cfg, s) = (case r of None \<Rightarrow> (0, say ''[WARN] PS/2: Failed to read config byte\<newline>'' s) | Some v \<Rightarrow> (v, s));
            cfg = cfg AND NOT (PS2_CFG_IRQ1 OR PS2_CFG_IRQ12 OR PS2_CFG_TRANSLATE OR PS2_CFG_CLK1);
            s = snd (ps2_send_controller_cmd PS2_CMD_WRITE_CFG s);
            s = io_wait (snd (ps2_send_device cfg s));
            s = snd (ps2_test 0xAA 0x55 ''[WARN] PS/2: Controller self-test send failed\<newline>''
                       ''[WARN] PS/2: Controller self-test failed ('' s);
            s = snd (ps2_send_controller_cmd PS2_CMD_WRITE_CFG s);
            s = io_wait (snd (ps2_send_device cfg s));
            (init_ok, s) = ps2_test 0xAB 0x00 ''[WARN] PS/2: Port 1 test send failed\<newline>''
                             ''[WARN] PS/2: Port 1 test failed ('' s
        in if \<not> init_ok
           then Some (say ''[FAIL] PS/2 Controller init failed, keyboard may not work\<newline>'' s)
           else do {
             s \<leftarrow> keyboard_reset (io_wait (snd (ps2_send_controller_cmd 0xAE s)));
             let s = kbd_set_typematic s;
                 (ok, s) = kbd_send_command KBD_CMD_ENABLE s;
                 s = (if ok then say ''  [KBD] Scanning enabled\<newline>'' s
                      else say ''[WARN] PS/2: Failed to enable scanning\<newline>'' s);
                 s = kbd_update_leds (s\<lparr>kbd_state := (kbd_state s)\<lparr>numlock := True\<rparr>\<rparr>)
             in do {
               s \<leftarrow> ps2_flush s;
               let (ov, gsi, isa_flags) = acpi_get_isa_override (isa_overrides s) 1;
                   s = ioapic_set_redirection (ucast gsi) IRQ_KEYBOARD False isa_flags s;
                   cfg = cfg OR (PS2_CFG_IRQ1 OR PS2_CFG_TRANSLATE)
               in do {
                 s \<leftarrow> wait_input_clear s;
                 s \<leftarrow> wait_input_clear (outb PS2_CMD_PORT PS2_CMD_WRITE_CFG s);
                 s \<leftarrow> ps2_flush (say ''  [KBD] IRQ1 enabled (unverified, trust the write).\<newline>'' (outb PS2_DATA_PORT cfg s));
                 let s = say_dec gsi (say ''[OK] PS/2 Keyboard initialized (IRQ1 -> GSI='' s);
                     s = say_dec (ucast IRQ_KEYBOARD) (say '' vector='' s);
                     s = (if gsi \<noteq> 1 \<or> isa_flags \<noteq> 0
                          then say '']'' (say_hex (ucast isa_flags) (say '' [override: flags=0x'' s)) else s);
                     s = say '')\<newline>'' s;
                     (low, s) = ioapic_read (IOAPIC_REDIR_BASE + gsi * 2) s;
                     s = say_hex (ucast low) (say ''  [DEBUG] IOAPIC redir low: 0x'' s)
                 in Some (say ''\<newline>'' s) }}}})"

definition keyboard_reenable_irq :: "'a keyboard_scheme \<Rightarrow> 'a keyboard_scheme option" where
  "keyboard_reenable_irq s =
     (let (ov, gsi, isa_flags) = acpi_get_isa_override (isa_overrides s) 1;
          s = ioapic_set_redirection (ucast gsi) IRQ_KEYBOARD False isa_flags s
      in do {
        s \<leftarrow> wait_input_clear s;
        (v, s) \<leftarrow> poll8 PS2_CMD_PORT (\<lambda>v. v AND PS2_STATUS_OUTBUF \<noteq> 0) (outb PS2_CMD_PORT PS2_CMD_READ_CFG s);
        let (cfg, s) = inb PS2_DATA_PORT s; cfg = cfg OR (PS2_CFG_IRQ1 OR PS2_CFG_TRANSLATE)
        in do {
          s \<leftarrow> wait_input_clear s;
          s \<leftarrow> wait_input_clear (outb PS2_CMD_PORT PS2_CMD_WRITE_CFG s);
          ps2_flush (outb PS2_DATA_PORT cfg s) }})"

end
