(* ===== verification/Keyboard_Properties.thy ===== *)
theory Keyboard_Properties
  imports Keyboard
begin

text \<open>
  Properties of the keyboard driver: which part of the state the controller protocol touches, the
  decoding of a stream of scan codes, the invariant of the reachable states, conversion to
  ASCII, key repeat, the bound on the accesses of a command and the end of a blocking read.
\<close>

section \<open>The controller protocol changes only the access history\<close>

definition io_only :: "'a machine_scheme \<Rightarrow> 'a machine_scheme \<Rightarrow> bool" where
  "io_only s t \<longleftrightarrow> t = s\<lparr>hist := hist t\<rparr>"

lemma io_only_refl [simp, intro]: "io_only s s"
  by (simp add: io_only_def)

lemma io_only_trans [trans]: "io_only s t \<Longrightarrow> io_only t u \<Longrightarrow> io_only s u"
  unfolding io_only_def by (metis machine.surjective machine.update_convs(2))

lemma io_only_access [simp, intro]: "io_only s (snd (inb p s))" "io_only s (outb p v s)" "io_only s (io_wait s)"
  by (simp_all add: io_only_def io_defs Let_def)

lemma io_only_waits: "io_only s (snd (ps2_wait_write n s)) \<and> io_only s (snd (ps2_wait_read n s))"
proof (induction n arbitrary: s)
  case (Suc n)
  have "io_only s (io_wait (snd (inb PS2_CMD_PORT s)))" by (rule io_only_trans[OF io_only_access(1)]) auto
  then show ?case
    using Suc[of "io_wait (snd (inb PS2_CMD_PORT s))"] by (auto simp: Let_def case_prod_beta intro: io_only_trans)
qed auto

lemmas io_only_wait [simp, intro] = io_only_waits[THEN conjunct1] io_only_waits[THEN conjunct2]

lemma io_only_send [simp, intro]: "io_only s (snd (ps2_send_device v s))" "io_only s (snd (ps2_read_data s))"
  by (auto simp: ps2_send_device_def ps2_read_data_def Let_def case_prod_beta intro: io_only_trans)

lemma io_only_retries: "io_only s (snd (kbd_send_retry n cmd s)) \<and> io_only s (snd (kbd_param_retry n cmd p s))"
proof (induction n arbitrary: s)
  case (Suc n)
  let ?a = "\<lambda>s. snd (ps2_read_data (snd (ps2_send_device cmd s)))"
  let ?b = "\<lambda>s. snd (ps2_read_data (snd (ps2_send_device p (?a s))))"
  have a: "io_only s (?a s)" by (rule io_only_trans[OF io_only_send(1)]) auto
  have b1: "io_only s (snd (ps2_send_device p (?a s)))" by (rule io_only_trans[OF a]) auto
  have b: "io_only s (?b s)" by (rule io_only_trans[OF b1]) auto
  have "io_only s (snd (kbd_send_retry (Suc n) cmd s))"
    using a io_only_trans[OF a Suc[THEN conjunct1]] by (auto simp: Let_def case_prod_beta split: option.splits)
  moreover have "io_only s (snd (kbd_param_retry (Suc n) cmd p s))"
    using a b1 b io_only_trans[OF a Suc[THEN conjunct2]] io_only_trans[OF b Suc[THEN conjunct2]]
    by (auto simp: Let_def case_prod_beta split: option.splits)
  ultimately show ?case ..
qed auto

lemmas io_only_retry = io_only_retries[THEN conjunct1] io_only_retries[THEN conjunct2]

lemma kbd_update_leds_fields [simp]:
  "kbd_state (kbd_update_leds s) = kbd_state s" "kbd_buffer (kbd_update_leds s) = kbd_buffer s"
  "scancode_st (kbd_update_leds s) = scancode_st s" "repeat_key (kbd_update_leds s) = repeat_key s"
  "repeat_timer (kbd_update_leds s) = repeat_timer s"
proof -
  obtain t where t: "snd (kbd_send_command_with_param KBD_CMD_SET_LEDS (led_state (kbd_state s)) s) = s\<lparr>hist := t\<rparr>"
    using io_only_retry(2) unfolding kbd_send_command_with_param_def io_only_def by metis
  show "kbd_state (kbd_update_leds s) = kbd_state s" "kbd_buffer (kbd_update_leds s) = kbd_buffer s"
    "scancode_st (kbd_update_leds s) = scancode_st s" "repeat_key (kbd_update_leds s) = repeat_key s"
    "repeat_timer (kbd_update_leds s) = repeat_timer s"
    by (simp_all add: kbd_update_leds_def Let_def case_prod_beta t)
qed

section \<open>Decoding\<close>

text \<open>
  What the keyboard sends (in translated set 1).  A key is a code below 128, preceded by E0 for the extended ones, with bit 7
  set on release.  The press of an extended key may come behind a fake shift, E0 2A; PrintScreen always does.  Pause is a
  sequence of its own.
\<close>

datatype stroke = Plain nat key_event_t | Extended nat key_event_t | Shifted nat | PrintScreen | Pause

definition code_byte :: "nat \<Rightarrow> key_event_t \<Rightarrow> u8" where
  "code_byte i e = word_of_nat i OR (case e of KEY_EVENT_PRESS \<Rightarrow> 0 | KEY_EVENT_RELEASE \<Rightarrow> 0x80)"

primrec stroke_bytes :: "stroke \<Rightarrow> u8 list" where
  "stroke_bytes (Plain i e) = [code_byte i e]"
| "stroke_bytes (Extended i e) = [0xE0, code_byte i e]"
| "stroke_bytes (Shifted i) = [0xE0, 0x2A, 0xE0, code_byte i KEY_EVENT_PRESS]"
| "stroke_bytes PrintScreen = [0xE0, 0x2A, 0xE0, 0x37]"
| "stroke_bytes Pause = [0xE1, 0x1D, 0x45, 0xE1, 0x9D, 0xC5]"

text \<open>What a stroke means, by the two code tables, and the events the driver handles besides.\<close>

primrec key_events :: "stroke \<Rightarrow> keyboard_event list" where
  "key_events (Plain i e) = [make_event (set1_make_to_keycode ! i) e False]"
| "key_events (Extended i e) = [make_event (e0_make_to_keycode ! i) e True]"
| "key_events (Shifted i) = [make_event (e0_make_to_keycode ! i) KEY_EVENT_PRESS True]"
| "key_events PrintScreen = [make_event KEY_PRINTSCREEN KEY_EVENT_PRESS True]"
| "key_events Pause = [make_event KEY_PAUSE KEY_EVENT_PRESS True]"

primrec spurious_events :: "stroke \<Rightarrow> keyboard_event list" where
  "spurious_events (Plain i e) = []"
| "spurious_events (Extended i e) = []"
| "spurious_events (Shifted i) = []"
| "spurious_events PrintScreen = [make_event KEY_KP_MULTIPLY KEY_EVENT_PRESS False]"
| "spurious_events Pause = [make_event KEY_NUMLOCK KEY_EVENT_RELEASE False]"

text \<open>An extended key behind a fake shift is misread: as PrintScreen and the plain key with the same code.\<close>

definition driver_events :: "stroke \<Rightarrow> keyboard_event list" where
  "driver_events k = (case k of
     Shifted i \<Rightarrow> [make_event KEY_PRINTSCREEN KEY_EVENT_PRESS True, make_event (set1_make_to_keycode ! i) KEY_EVENT_PRESS False]
   | _ \<Rightarrow> key_events k @ spurious_events k)"

text \<open>The second byte of a fake shift stays in \<^verbatim>\<open>e0_saved_data\<close>, which nothing reads.\<close>

definition handle_stroke :: "stroke \<Rightarrow> 'a keyboard_scheme \<Rightarrow> 'a keyboard_scheme" where
  "handle_stroke k s = fold keyboard_handle_event (driver_events k)
     (case k of Shifted i \<Rightarrow> s\<lparr>e0_saved_data := 0x2A\<rparr> | PrintScreen \<Rightarrow> s\<lparr>e0_saved_data := 0x2A\<rparr> | _ \<Rightarrow> s)"

text \<open>
  Codes whose release byte is a prefix byte do not exist, and E0 2A comes only as the fake shift of the two forms above.
\<close>

primrec stroke_ok :: "stroke \<Rightarrow> bool" where
  "stroke_ok (Plain i e) \<longleftrightarrow> i < 128 \<and> i \<noteq> 0x60 \<and> i \<noteq> 0x61"
| "stroke_ok (Extended i e) \<longleftrightarrow> i < 128 \<and> (i, e) \<noteq> (0x2A, KEY_EVENT_PRESS)"
| "stroke_ok (Shifted i) \<longleftrightarrow> i < 128"
| "stroke_ok PrintScreen \<longleftrightarrow> True"
| "stroke_ok Pause \<longleftrightarrow> True"

lemma code_byte_cases:
  assumes "i < 128"
  shows "code_byte i KEY_EVENT_PRESS = word_of_nat i" "unat (code_byte i KEY_EVENT_PRESS) = i"
    "code_byte i KEY_EVENT_PRESS AND 0x80 = 0" "code_byte i KEY_EVENT_RELEASE AND 0x80 \<noteq> 0"
    "unat (code_byte i KEY_EVENT_RELEASE AND 0x7F) = i"
    "code_byte i e = 0xE0 \<longleftrightarrow> e = KEY_EVENT_RELEASE \<and> i = 0x60"
    "code_byte i e = 0xE1 \<longleftrightarrow> e = KEY_EVENT_RELEASE \<and> i = 0x61"
    "code_byte i e = 0x2A \<longleftrightarrow> e = KEY_EVENT_PRESS \<and> i = 0x2A"
proof -
  have all: "list_all (\<lambda>i. unat (code_byte i KEY_EVENT_PRESS) = i \<and> code_byte i KEY_EVENT_PRESS AND 0x80 = 0
      \<and> code_byte i KEY_EVENT_RELEASE AND 0x80 \<noteq> 0 \<and> unat (code_byte i KEY_EVENT_RELEASE AND 0x7F) = i
      \<and> list_all (\<lambda>e. (code_byte i e = 0xE0 \<longleftrightarrow> e = KEY_EVENT_RELEASE \<and> i = 0x60)
         \<and> (code_byte i e = 0xE1 \<longleftrightarrow> e = KEY_EVENT_RELEASE \<and> i = 0x61)
         \<and> (code_byte i e = 0x2A \<longleftrightarrow> e = KEY_EVENT_PRESS \<and> i = 0x2A)) [KEY_EVENT_PRESS, KEY_EVENT_RELEASE]) [0..<128]"
    by code_simp
  then show "unat (code_byte i KEY_EVENT_PRESS) = i" "code_byte i KEY_EVENT_PRESS AND 0x80 = 0"
    "code_byte i KEY_EVENT_RELEASE AND 0x80 \<noteq> 0" "unat (code_byte i KEY_EVENT_RELEASE AND 0x7F) = i"
    "code_byte i e = 0xE0 \<longleftrightarrow> e = KEY_EVENT_RELEASE \<and> i = 0x60"
    "code_byte i e = 0xE1 \<longleftrightarrow> e = KEY_EVENT_RELEASE \<and> i = 0x61"
    "code_byte i e = 0x2A \<longleftrightarrow> e = KEY_EVENT_PRESS \<and> i = 0x2A"
    using assms by (cases e; auto simp: list_all_iff)+
  show "code_byte i KEY_EVENT_PRESS = word_of_nat i" by (simp add: code_byte_def)
qed

lemma handle_event_st [simp]: "scancode_st (keyboard_handle_event ev s) = scancode_st s"
  by (simp add: keyboard_handle_event_def press_key_def push_char_def Let_def)

lemma process_stroke:
  assumes "scancode_st s = STATE_NORMAL" "stroke_ok k"
  shows "fold keyboard_process_scancode (stroke_bytes k) s = handle_stroke k s"
proof -
  have reset: "s\<lparr>scancode_st := STATE_NORMAL\<rparr> = s" "s\<lparr>e0_saved_data := v, scancode_st := STATE_NORMAL\<rparr> = s\<lparr>e0_saved_data := v\<rparr>" for v
    using assms(1) by (cases s; simp)+
  have tables: "set1_make_to_keycode ! 0x37 = KEY_KP_MULTIPLY" "set1_make_to_keycode ! 0x45 = KEY_NUMLOCK" by code_simp+
  show ?thesis
  proof (cases k)
    case (Plain i e)
    then show ?thesis using assms code_byte_cases[of i]
      by (cases e) (auto simp: keyboard_process_scancode_def handle_stroke_def driver_events_def)
  next
    case (Extended i e)
    then show ?thesis using assms code_byte_cases[of i]
      by (cases e) (auto simp: keyboard_process_scancode_def Let_def reset handle_stroke_def driver_events_def)
  next
    case (Shifted i)
    then show ?thesis using assms code_byte_cases[of i]
      by (auto simp: keyboard_process_scancode_def Let_def reset handle_stroke_def driver_events_def)
  next
    case PrintScreen
    then show ?thesis using assms tables(1)
      by (simp add: keyboard_process_scancode_def Let_def reset handle_stroke_def driver_events_def)
  next
    case Pause
    then show ?thesis using assms tables(2)
      by (simp add: keyboard_process_scancode_def reset handle_stroke_def driver_events_def)
  qed
qed

lemma handle_events_st: "scancode_st (fold keyboard_handle_event evs s) = scancode_st s"
  by (induction evs arbitrary: s) simp_all

lemma handle_stroke_st: "scancode_st (handle_stroke k s) = scancode_st s"
  by (simp add: handle_stroke_def handle_events_st split: stroke.split)

text \<open>
  C13: On every stream of complete strokes (keys and extended keys, with and without a fake shift, PrintScreen and Pause) the byte-wise state
  machine does exactly what handling the driver's events stroke by stroke does, and is back in its normal state.  For plain and extended keys those
  are the events the keyboard means.  PrintScreen and Pause are recognised, but each with an event too many: the last byte of
  PrintScreen is taken for a press of keypad *, the last byte of Pause for a release of NumLock.  An extended key behind a fake shift is misread as
  PrintScreen and a plain key.
\<close>

theorem scancode_stream_decodes:
  assumes "scancode_st s = STATE_NORMAL" "list_all stroke_ok ks"
  shows "fold keyboard_process_scancode (concat (map stroke_bytes ks)) s = fold handle_stroke ks s
    \<and> scancode_st (fold keyboard_process_scancode (concat (map stroke_bytes ks)) s) = STATE_NORMAL"
  using assms
proof (induction ks arbitrary: s)
  case (Cons k ks)
  have "scancode_st (handle_stroke k s) = STATE_NORMAL" using Cons.prems(1) by (simp add: handle_stroke_st)
  from Cons.IH[OF this] show ?case using Cons.prems process_stroke[of s k] by auto
qed simp

definition keyboard_example :: "device \<Rightarrow> keyboard" where
  "keyboard_example d = apic_state.extend (machine.extend (blank_machine d) (apic_state.fields 0xFEE00000 0xFEC00000 []))
     (keyboard.fields \<lparr>lshift = False, rshift = False, lctrl = False, rctrl = False, lalt = False, ralt = False,
        capslock = False, numlock = True, scrolllock = False\<rparr> rb_empty STATE_NORMAL 0 KEY_NONE 0 2)"

lemmas keyboard_example_defs = keyboard_example_def apic_state.defs keyboard.defs machine.defs blank_machine_def
  heap_state.defs blank_heap_def

lemma keyboard_example_simps [simp]:
  "scancode_st (keyboard_example d) = STATE_NORMAL" "kbd_buffer (keyboard_example d) = rb_empty"
  "repeat_key (keyboard_example d) = KEY_NONE" "dev (keyboard_example d) = d" "hist (keyboard_example d) = []"
  "numlock (kbd_state (keyboard_example d))" "\<not> lshift (kbd_state (keyboard_example d))"
  "\<not> rshift (kbd_state (keyboard_example d))" "\<not> capslock (kbd_state (keyboard_example d))"
  by (simp_all add: keyboard_example_defs)

theorem scancode_stream_decodes_witness:
  "fold keyboard_process_scancode [0xE0, 0x48, 0x1E, 0xE0, 0x2A, 0xE0, 0x37] (keyboard_example (\<lambda>h l. 0))
     = fold keyboard_handle_event [make_event KEY_PRINTSCREEN KEY_EVENT_PRESS True, make_event KEY_KP_MULTIPLY KEY_EVENT_PRESS False]
         ((fold keyboard_handle_event [make_event KEY_UP KEY_EVENT_PRESS True, make_event KEY_A KEY_EVENT_PRESS False]
           (keyboard_example (\<lambda>h l. 0)))\<lparr>e0_saved_data := 0x2A\<rparr>)"
proof -
  have "e0_make_to_keycode ! 0x48 = KEY_UP" "set1_make_to_keycode ! 0x1E = KEY_A" by code_simp+
  then show ?thesis
    using scancode_stream_decodes[of "keyboard_example (\<lambda>h l. 0)"
        "[Extended 0x48 KEY_EVENT_PRESS, Plain 0x1E KEY_EVENT_PRESS, PrintScreen]"]
    by (simp add: code_byte_def handle_stroke_def driver_events_def)
qed

text \<open>
  With NumLock on, a keyboard brackets a cursor key with fake shifts: Up arrives as
  E0 2A E0 48.  The driver takes the third byte for PrintScreen and the fourth for a plain code, so the
  key types the digit of the keypad key with that code instead of being an Up event.
\<close>

theorem fake_shift_types_digit:
  assumes "scancode_st s = STATE_NORMAL" "numlock (kbd_state s)"
  shows "kbd_buffer (fold keyboard_process_scancode [0xE0, 0x2A, 0xE0, 0x48] s) = ring_buffer_push 56 (kbd_buffer s)
    \<and> repeat_key (fold keyboard_process_scancode [0xE0, 0x2A, 0xE0, 0x48] s) = KEY_KP_8"
proof -
  have t: "set1_make_to_keycode ! 0x48 = KEY_KP_8" "keycode_to_ascii ! KEY_KP_8 = 56"
    "keycode_to_ascii ! KEY_PRINTSCREEN = 0" "keycode_to_ascii_shift ! KEY_PRINTSCREEN = 0" by code_simp+
  have ps: "keycode_to_ascii_char k KEY_PRINTSCREEN = 0" for k
    using t(3,4) by (simp add: keycode_to_ascii_char_def is_letter_key_def is_kp_number_def is_kp_operator_def Let_def)
  have kp: "keycode_to_ascii_char k KEY_KP_8 = 56" if "numlock k" for k
    using t(2) that by (simp add: keycode_to_ascii_char_def is_letter_key_def is_kp_number_def Let_def)
  show ?thesis using assms t(1) ps kp
    by (simp add: keyboard_process_scancode_def keyboard_handle_event_def make_event_def press_key_def
        set_modifier_def push_char_def Let_def)
qed

theorem fake_shift_types_digit_witness:
  "kbd_buffer (fold keyboard_process_scancode [0xE0, 0x2A, 0xE0, 0x48] (keyboard_example (\<lambda>h l. 0)))
     = ring_buffer_push 56 rb_empty"
  using fake_shift_types_digit[of "keyboard_example (\<lambda>h l. 0)"] by simp

section \<open>The invariant of the reachable states\<close>

definition kbd_inv :: "'a keyboard_scheme \<Rightarrow> bool" where
  "kbd_inv s \<longleftrightarrow> rb_inv (kbd_buffer s) \<and> 0 \<notin> set (rb_chars (kbd_buffer s)) \<and> repeat_key s < 128"

text \<open>The entry points of the driver once it is initialised: a byte from the controller, a timer tick, a read.\<close>

inductive kbd_step :: "'a keyboard_scheme \<Rightarrow> 'a keyboard_scheme \<Rightarrow> bool" where
  byte: "kbd_step s (keyboard_process_scancode b s)"
| tick: "kbd_step s (keyboard_timer_tick s)"
| getchar: "kbd_step s (snd (keyboard_getchar s))"

lemma kbd_inv_push: "kbd_inv s \<Longrightarrow> kbd_inv (push_char key s)"
  using kq.push_inv_any[of "kbd_buffer s"] kq.push_abs_any[of "kbd_buffer s"]
  by (auto simp: kbd_inv_def push_char_def Let_def)

lemma kbd_inv_press: "kbd_inv s \<Longrightarrow> kbd_inv (press_key key s)"
  by (simp add: kbd_inv_def press_key_def Let_def)

lemma kbd_inv_event: "kbd_inv s \<Longrightarrow> ev_key ev < 128 \<Longrightarrow> kbd_inv (keyboard_handle_event ev s)"
  using kbd_inv_push[OF kbd_inv_press, of s "ev_key ev" "ev_key ev"]
  by (auto simp: kbd_inv_def keyboard_handle_event_def Let_def)

lemma table_key_less: "i < 128 \<Longrightarrow> set1_make_to_keycode ! i < 128" "i < 128 \<Longrightarrow> e0_make_to_keycode ! i < 128"
proof -
  have "length set1_make_to_keycode = 128" "length e0_make_to_keycode = 128" by code_simp+
  moreover have "list_all (\<lambda>k. k < 128) set1_make_to_keycode" "list_all (\<lambda>k. k < 128) e0_make_to_keycode" by code_simp+
  ultimately show "i < 128 \<Longrightarrow> set1_make_to_keycode ! i < 128" "i < 128 \<Longrightarrow> e0_make_to_keycode ! i < 128"
    by (auto simp: list_all_length)
qed

lemma code_less: "unat (b AND 0x7F :: u8) < 128" "b AND 0x80 = 0 \<Longrightarrow> unat b < 128"
proof -
  have "(0x7F :: u8) = mask 7" by (simp add: mask_numeral)
  then have "b AND 0x7F = take_bit 7 b" by (simp add: take_bit_eq_mask)
  then show small: "unat (b AND 0x7F :: u8) < 128"
    using take_bit_nat_less_exp[of 7 "unat b"] by (simp add: unsigned_take_bit_eq)
  assume "b AND 0x80 = 0"
  moreover have "b = (b AND 0x7F) OR (b AND 0x80)"
  proof -
    have "(0x7F OR 0x80 :: u8) = - 1" by simp
    then show ?thesis by (metis and.right_neutral bit.conj_disj_distrib)
  qed
  ultimately have "b = b AND 0x7F" by simp
  then show "unat b < 128" using small by simp
qed

lemma kbd_inv_byte: "kbd_inv s \<Longrightarrow> kbd_inv (keyboard_process_scancode b s)"
proof -
  assume inv: "kbd_inv s"
  then have st: "kbd_inv (s\<lparr>scancode_st := x\<rparr>)" "kbd_inv (s\<lparr>scancode_st := x, e0_saved_data := y\<rparr>)" for x y
    by (simp_all add: kbd_inv_def)
  have ev: "kbd_inv (keyboard_handle_event (make_event k t x) u)" if "kbd_inv u" "k < 128" for k t x and u :: "'a keyboard_scheme"
    using kbd_inv_event[OF that(1)] that(2) by (simp add: make_event_def)
  show ?thesis
    using inv st ev table_key_less code_less[of b]
    by (auto simp: keyboard_process_scancode_def Let_def split: scancode_state.splits)
qed

lemma kbd_inv_tick: "kbd_inv s \<Longrightarrow> kbd_inv (keyboard_timer_tick s)"
proof -
  assume inv: "kbd_inv s"
  then have t: "kbd_inv (s\<lparr>repeat_timer := x\<rparr>)" for x by (simp add: kbd_inv_def)
  show ?thesis using inv t kbd_inv_push[OF t] by (simp add: keyboard_timer_tick_def Let_def)
qed

lemma kbd_inv_getchar: "kbd_inv s \<Longrightarrow> kbd_inv (snd (keyboard_getchar s))"
  using kq.pop_inv[of "kbd_buffer s"] kq.pop_tl[of "kbd_buffer s"]
  by (cases "rb_chars (kbd_buffer s)") (auto simp: kbd_inv_def keyboard_getchar_def Let_def case_prod_beta)

text \<open>
  C29: In every state the driver can reach from a consistent one by bytes from the controller, timer ticks and
  reads, in any order, the ring buffer's indices are in range, no zero byte is buffered and the repeated key indexes the
  tables; hence a read returns 0 exactly when the buffer is empty, and otherwise the oldest character.
\<close>

theorem keyboard_reachable_inv:
  assumes "kbd_step\<^sup>*\<^sup>* s0 s" "kbd_inv s0"
  shows "kbd_inv s \<and> (fst (keyboard_getchar s) = 0 \<longleftrightarrow> \<not> keyboard_peek_event s)
    \<and> (keyboard_peek_event s \<longrightarrow> rb_chars (kbd_buffer s)
          = fst (keyboard_getchar s) # rb_chars (kbd_buffer (snd (keyboard_getchar s))))"
proof -
  have inv: "kbd_inv s"
    using assms
  proof (induction rule: rtranclp_induct)
    case (step t u)
    then show ?case by (auto elim!: kbd_step.cases intro: kbd_inv_byte kbd_inv_tick kbd_inv_getchar)
  qed simp
  then have rb: "rb_inv (kbd_buffer s)" "0 \<notin> set (rb_chars (kbd_buffer s))" by (simp_all add: kbd_inv_def)
  have empty: "keyboard_peek_event s \<longleftrightarrow> rb_chars (kbd_buffer s) \<noteq> []"
    using rb_empty_iff[OF rb(1)] length_rb_chars[of "kbd_buffer s"] by (auto simp: keyboard_peek_event_def)
  show ?thesis
  proof (cases "rb_chars (kbd_buffer s)")
    case Nil
    then show ?thesis using inv kq.pop_empty[OF rb(1)] empty by (simp add: keyboard_getchar_def case_prod_beta Let_def)
  next
    case (Cons c cs)
    then show ?thesis using inv rb(2) kq.pop_Cons[OF rb(1) Cons] empty by (simp add: keyboard_getchar_def case_prod_beta Let_def)
  qed
qed

lemma keyboard_example_inv: "kbd_inv (keyboard_example d)"
  by (simp add: kbd_inv_def rb_empty_facts)

theorem keyboard_reachable_inv_witness:
  "kbd_inv (keyboard_timer_tick (keyboard_process_scancode 0x1E (keyboard_example (\<lambda>h l. 0))))"
proof -
  have "kbd_step\<^sup>*\<^sup>* (keyboard_example (\<lambda>h l. 0))
      (keyboard_timer_tick (keyboard_process_scancode 0x1E (keyboard_example (\<lambda>h l. 0))))"
    by (meson kbd_step.intros r_into_rtranclp rtranclp.rtrancl_into_rtrancl)
  from keyboard_reachable_inv[OF this keyboard_example_inv] show ?thesis by simp
qed

section \<open>Characters\<close>

text \<open>The specification by the two tables alone.\<close>

definition ascii_ref :: "keyboard_state \<Rightarrow> keycode_t \<Rightarrow> u8" where
  "ascii_ref k key =
     (let shift = lshift k \<or> rshift k; plain = keycode_to_ascii ! key; shifted = keycode_to_ascii_shift ! key
      in if is_letter_key key then if capslock k \<noteq> shift then shifted else plain
         else if is_kp_number key \<and> \<not> numlock k then 0
         else if shift \<and> shifted \<noteq> 0 then shifted else plain)"

text \<open>
  The computed upper case and the case distinctions of the conversion agree with the two tables for
  every key and every state of the modifiers, and the result is a 7-bit character.
\<close>

theorem keycode_to_ascii_char_ref:
  assumes "key < 128"
  shows "keycode_to_ascii_char k key = ascii_ref k key \<and> keycode_to_ascii_char k key < 0x80"
proof -
  have len: "length keycode_to_ascii = 128" "length keycode_to_ascii_shift = 128" by code_simp+
  have "list_all (\<lambda>(key, p, q). (is_letter_key key \<longrightarrow> p \<noteq> 0 \<and> q = p - 32)
      \<and> (is_kp_number key \<or> is_kp_operator key \<longrightarrow> q = 0 \<or> q = p) \<and> p < 0x80 \<and> q < 0x80)
      (zip [0..<128] (zip keycode_to_ascii keycode_to_ascii_shift))" by code_simp
  moreover have "(key, keycode_to_ascii ! key, keycode_to_ascii_shift ! key)
      \<in> set (zip [0..<128] (zip keycode_to_ascii keycode_to_ascii_shift))"
    using assms len by (auto simp: in_set_zip intro!: exI[of _ key])
  ultimately have t: "is_letter_key key \<Longrightarrow> keycode_to_ascii ! key \<noteq> 0"
    "is_letter_key key \<Longrightarrow> keycode_to_ascii_shift ! key = keycode_to_ascii ! key - 32"
    "is_kp_number key \<or> is_kp_operator key \<Longrightarrow> keycode_to_ascii_shift ! key = 0
       \<or> keycode_to_ascii_shift ! key = keycode_to_ascii ! key"
    "keycode_to_ascii ! key < 0x80" "keycode_to_ascii_shift ! key < 0x80"
    unfolding list_all_iff by auto
  have "keycode_to_ascii_char k key = ascii_ref k key"
    using t(1-3) by (auto simp: keycode_to_ascii_char_def ascii_ref_def Let_def)
  moreover have "ascii_ref k key < 0x80" using t(4,5) by (simp add: ascii_ref_def Let_def)
  ultimately show ?thesis by simp
qed

theorem keycode_to_ascii_char_ref_witness:
  "keycode_to_ascii_char (kbd_state (keyboard_example (\<lambda>h l. 0))) KEY_A = ascii_ref (kbd_state (keyboard_example (\<lambda>h l. 0))) KEY_A"
  using keycode_to_ascii_char_ref[of KEY_A] by simp

section \<open>Table accesses\<close>

text \<open>
  The state of the decoder is typed when the repeated key indexes both character tables and the buffer holds seven-bit characters
  other than zero.
\<close>

definition kbd_typed :: "'a keyboard_scheme \<Rightarrow> bool" where
  "kbd_typed s \<longleftrightarrow> rb_inv (kbd_buffer s) \<and> (\<forall>c\<in>set (rb_chars (kbd_buffer s)). c \<noteq> 0 \<and> c < 0x80)
     \<and> repeat_key s < length keycode_to_ascii \<and> repeat_key s < length keycode_to_ascii_shift"

lemma ascii_lengths: "length keycode_to_ascii = 128" "length keycode_to_ascii_shift = 128"
  by code_simp+

lemma kbd_typed_push: "kbd_typed s \<Longrightarrow> key < 128 \<Longrightarrow> kbd_typed (push_char key s)"
  using kq.push_inv_any[of "kbd_buffer s"] kq.push_abs_any[of "kbd_buffer s"] keycode_to_ascii_char_ref[of key "kbd_state s"]
  by (auto simp: kbd_typed_def push_char_def Let_def)

lemma kbd_typed_event:
  assumes "kbd_typed s" "ev_key ev < 128"
  shows "kbd_typed (keyboard_handle_event ev s)"
proof -
  have "kbd_typed (press_key (ev_key ev) s)" using assms(1) by (simp add: kbd_typed_def press_key_def Let_def)
  then show ?thesis
    using assms kbd_typed_push[of "press_key (ev_key ev) s" "ev_key ev"] ascii_lengths
    by (auto simp: kbd_typed_def keyboard_handle_event_def Let_def)
qed

lemma decoder_event:
  "\<exists>t d. keyboard_process_scancode b s = s\<lparr>scancode_st := t, e0_saved_data := d\<rparr>
    \<or> (\<exists>ev. ev_key ev < 128 \<and> keyboard_process_scancode b s = keyboard_handle_event ev (s\<lparr>scancode_st := t, e0_saved_data := d\<rparr>))"
    (is "\<exists>t d. ?P t d")
proof -
  define ev where "ev = (if scancode_st s = STATE_NORMAL
      then if b AND 0x80 \<noteq> 0 then make_event (set1_make_to_keycode ! unat (b AND 0x7F)) KEY_EVENT_RELEASE False
           else make_event (set1_make_to_keycode ! unat b) KEY_EVENT_PRESS False
      else if scancode_st s = STATE_EXPECT_E0_DATA
      then if b AND 0x80 \<noteq> 0 then make_event (e0_make_to_keycode ! unat (b AND 0x7F)) KEY_EVENT_RELEASE True
           else make_event (e0_make_to_keycode ! unat b) KEY_EVENT_PRESS True
      else if scancode_st s = STATE_EXPECT_E0_RELEASE then make_event KEY_PRINTSCREEN KEY_EVENT_PRESS True
      else make_event KEY_PAUSE KEY_EVENT_PRESS True)"
  have key: "ev_key ev < 128" using table_key_less code_less[of b] by (simp add: ev_def make_event_def)
  have "\<exists>t d. keyboard_process_scancode b s = s\<lparr>scancode_st := t, e0_saved_data := d\<rparr>
      \<or> keyboard_process_scancode b s = keyboard_handle_event ev (s\<lparr>scancode_st := t, e0_saved_data := d\<rparr>)"
  proof (cases "scancode_st s = STATE_EXPECT_E0_DATA \<and> b = 0x2A")
    case True
    then show ?thesis
      by (intro exI[of _ STATE_EXPECT_E0_RELEASE] exI[of _ b]) (simp add: keyboard_process_scancode_def Let_def)
  next
    case False
    define t where "t = (case scancode_st s of
        STATE_NORMAL \<Rightarrow> if b = 0xE0 then STATE_EXPECT_E0_DATA else if b = 0xE1 then STATE_EXPECT_E1_DATA_1 else STATE_NORMAL
      | STATE_EXPECT_E1_DATA_1 \<Rightarrow> STATE_EXPECT_E1_DATA_2 | STATE_EXPECT_E1_DATA_2 \<Rightarrow> STATE_EXPECT_E1_RELEASE_1
      | STATE_EXPECT_E1_RELEASE_1 \<Rightarrow> if b = 0xE1 then STATE_EXPECT_E1_RELEASE_2 else STATE_NORMAL
      | _ \<Rightarrow> STATE_NORMAL)"
    have same: "scancode_st s = STATE_NORMAL \<Longrightarrow> s\<lparr>scancode_st := STATE_NORMAL\<rparr> = s" by simp
    have "keyboard_process_scancode b s = s\<lparr>scancode_st := t\<rparr> \<or> keyboard_process_scancode b s = keyboard_handle_event ev (s\<lparr>scancode_st := t\<rparr>)"
      using False by (cases "scancode_st s") (simp_all add: keyboard_process_scancode_def ev_def t_def Let_def same)
    then show ?thesis by (intro exI[of _ t] exI[of _ "e0_saved_data s"]) simp
  qed
  then show ?thesis using key by blast
qed

text \<open>
  C39: The decoder is type-safe: for every byte, valid or not, in every state of the sequence machine, it either only moves the machine or handles one
  event whose key code indexes both character tables, and it keeps the state typed: whatever bytes arrive, the buffer holds seven-bit
  characters other than zero.  A tick and a read keep it typed as well.
\<close>

theorem keyboard_decoder_typed:
  assumes "kbd_typed s"
  shows "(\<exists>t d. keyboard_process_scancode b s = s\<lparr>scancode_st := t, e0_saved_data := d\<rparr>
      \<or> (\<exists>ev. ev_key ev < length keycode_to_ascii \<and> ev_key ev < length keycode_to_ascii_shift
           \<and> keyboard_process_scancode b s = keyboard_handle_event ev (s\<lparr>scancode_st := t, e0_saved_data := d\<rparr>)))
    \<and> kbd_typed (fold keyboard_process_scancode bs s) \<and> kbd_typed (keyboard_timer_tick s) \<and> kbd_typed (snd (keyboard_getchar s))"
proof (intro conjI)
  show "\<exists>t d. keyboard_process_scancode b s = s\<lparr>scancode_st := t, e0_saved_data := d\<rparr>
      \<or> (\<exists>ev. ev_key ev < length keycode_to_ascii \<and> ev_key ev < length keycode_to_ascii_shift
           \<and> keyboard_process_scancode b s = keyboard_handle_event ev (s\<lparr>scancode_st := t, e0_saved_data := d\<rparr>))"
    unfolding ascii_lengths using decoder_event[of b s] by blast
  have more: "kbd_typed (u\<lparr>scancode_st := t, e0_saved_data := d\<rparr>) = kbd_typed u" for t d and u :: "'a keyboard_scheme"
    by (simp add: kbd_typed_def)
  have step: "kbd_typed (keyboard_process_scancode c u)" if "kbd_typed u" for c and u :: "'a keyboard_scheme"
    using decoder_event[of c u] that kbd_typed_event more by metis
  show "kbd_typed (fold keyboard_process_scancode bs s)"
    using assms step by (induction bs arbitrary: s) simp_all
  have t: "kbd_typed (s\<lparr>repeat_timer := x\<rparr>)" for x using assms by (simp add: kbd_typed_def)
  have "repeat_key s < 128" using assms ascii_lengths by (simp add: kbd_typed_def)
  then show "kbd_typed (keyboard_timer_tick s)"
    using assms t kbd_typed_push[OF t] by (simp add: keyboard_timer_tick_def Let_def)
  show "kbd_typed (snd (keyboard_getchar s))"
    using assms kq.pop_inv[of "kbd_buffer s"] kq.pop_tl[of "kbd_buffer s"]
    by (cases "rb_chars (kbd_buffer s)") (auto simp: kbd_typed_def keyboard_getchar_def Let_def case_prod_beta)
qed

theorem keyboard_decoder_typed_witness:
  "kbd_typed (keyboard_example (\<lambda>h l. 0)) \<and> kbd_typed (fold keyboard_process_scancode [0xFF, 0xE0, 0xFE, 0x1E] (keyboard_example (\<lambda>h l. 0)))"
proof -
  have "kbd_typed (keyboard_example (\<lambda>h l. 0))" by (simp add: kbd_typed_def rb_empty_facts ascii_lengths)
  then show ?thesis using keyboard_decoder_typed by blast
qed

end
