(* ===== verification/Keyboard_Driver.thy ===== *)
theory Keyboard_Driver
  imports Keyboard_Properties
begin

text \<open>
  Timing and progress of the keyboard driver: when a held key repeats, how many accesses a command to
  the keyboard can take, and that pending scan codes reach a blocked reader.
\<close>

section \<open>Key repeat\<close>

lemma keyboard_timer_tick_repeat:
  assumes "repeat_key s \<noteq> KEY_NONE" "unat (repeat_timer s) = n" "n + 1 < 4294967296"
  shows "unat (repeat_timer (keyboard_timer_tick s)) = n + 1" "repeat_key (keyboard_timer_tick s) = repeat_key s"
    "kbd_state (keyboard_timer_tick s) = kbd_state s"
    "kbd_buffer (keyboard_timer_tick s) =
       (if 50 < n + 1 \<and> (n + 1 - 50) mod 3 = 0 \<and> keycode_to_ascii_char (kbd_state s) (repeat_key s) \<noteq> 0
        then ring_buffer_push (keycode_to_ascii_char (kbd_state s) (repeat_key s)) (kbd_buffer s) else kbd_buffer s)"
proof -
  have t: "unat (repeat_timer s + 1) = n + 1"
    using assms(2,3) unat_add_lem[of "repeat_timer s" 1] by simp
  then have lt: "repeat_timer s + 1 < 50 \<longleftrightarrow> n + 1 < 50" by (simp add: word_less_nat_alt)
  have el: "unat (repeat_timer s + 1 - 50) = n + 1 - 50" if "\<not> n + 1 < 50"
    using that t by (subst unat_sub) (auto simp: word_le_nat_alt)
  have m: "(repeat_timer s + 1 - 50) mod 3 = 0 \<longleftrightarrow> (n + 1 - 50) mod 3 = 0" "0 < repeat_timer s + 1 - 50 \<longleftrightarrow> 50 < n + 1"
    if "\<not> n + 1 < 50"
    using el[OF that] by (simp_all add: word_unat_eq_iff unat_mod word_less_nat_alt)
  show "unat (repeat_timer (keyboard_timer_tick s)) = n + 1" "repeat_key (keyboard_timer_tick s) = repeat_key s"
    "kbd_state (keyboard_timer_tick s) = kbd_state s"
    using assms(1) t by (simp_all add: keyboard_timer_tick_def push_char_def Let_def)
  show "kbd_buffer (keyboard_timer_tick s) =
       (if 50 < n + 1 \<and> (n + 1 - 50) mod 3 = 0 \<and> keycode_to_ascii_char (kbd_state s) (repeat_key s) \<noteq> 0
        then ring_buffer_push (keycode_to_ascii_char (kbd_state s) (repeat_key s)) (kbd_buffer s) else kbd_buffer s)"
    using assms(1) lt m by (cases "n + 1 < 50") (simp_all add: keyboard_timer_tick_def push_char_def Let_def)
qed

text \<open>
  A key that stays down for \<open>n\<close> ticks puts its character into the buffer again
  \<open>(n - 50) div 3\<close> times: first after half a second and three ticks, then every third tick.
\<close>

theorem held_key_repeats:
  assumes "repeat_key s \<noteq> KEY_NONE" "repeat_timer s = 0" "n < 4294967296"
    "keycode_to_ascii_char (kbd_state s) (repeat_key s) = c" "c \<noteq> 0"
  shows "kbd_buffer ((keyboard_timer_tick ^^ n) s) = (ring_buffer_push c ^^ ((n - 50) div 3)) (kbd_buffer s)"
proof -
  have "unat (repeat_timer ((keyboard_timer_tick ^^ n) s)) = n \<and> repeat_key ((keyboard_timer_tick ^^ n) s) = repeat_key s
    \<and> kbd_state ((keyboard_timer_tick ^^ n) s) = kbd_state s
    \<and> kbd_buffer ((keyboard_timer_tick ^^ n) s) = (ring_buffer_push c ^^ ((n - 50) div 3)) (kbd_buffer s)"
    using assms(3)
  proof (induction n)
    case (Suc n)
    let ?t = "(keyboard_timer_tick ^^ n) s"
    have IH: "unat (repeat_timer ?t) = n" "repeat_key ?t = repeat_key s" "kbd_state ?t = kbd_state s"
      "kbd_buffer ?t = (ring_buffer_push c ^^ ((n - 50) div 3)) (kbd_buffer s)"
      using Suc by simp_all
    have "(Suc n - 50) div 3 = (if 50 < n + 1 \<and> (n + 1 - 50) mod 3 = 0 then Suc ((n - 50) div 3) else (n - 50) div 3)"
    proof (cases "50 \<le> n")
      case True
      then have "Suc n - 50 = Suc (n - 50)" by simp
      then show ?thesis using True by (simp add: div_Suc)
    qed auto
    then show ?case
      using keyboard_timer_tick_repeat[of ?t n] IH assms(1,4,5) Suc.prems by simp
  qed (use assms(2) in simp)
  then show ?thesis by simp
qed

theorem held_key_repeats_witness:
  "kbd_buffer ((keyboard_timer_tick ^^ 60) (keyboard_process_scancode 0x1E (keyboard_example (\<lambda>h l. 0))))
     = (ring_buffer_push 97 ^^ 4) rb_empty"
proof -
  let ?s = "keyboard_process_scancode 0x1E (keyboard_example (\<lambda>h l. 0))"
  have t: "set1_make_to_keycode ! 0x1E = KEY_A" "keycode_to_ascii ! KEY_A = 97" by code_simp+
  have c: "keycode_to_ascii_char (kbd_state (keyboard_example (\<lambda>h l. 0))) KEY_A = 97"
    using t(2) by (simp add: keycode_to_ascii_char_def is_letter_key_def Let_def)
  have s: "?s = (keyboard_example (\<lambda>h l. 0))\<lparr>kbd_buffer := ring_buffer_push 97 rb_empty, repeat_key := KEY_A, repeat_timer := 0\<rparr>"
    using t(1) c
    by (simp add: keyboard_process_scancode_def keyboard_handle_event_def make_event_def press_key_def set_modifier_def push_char_def Let_def)
  have kb: "kbd_buffer ?s = ring_buffer_push 97 rb_empty" by (simp add: s)
  have r: "kbd_buffer ((keyboard_timer_tick ^^ 60) ?s) = (ring_buffer_push 97 ^^ ((60 - 50) div 3)) (kbd_buffer ?s)"
    by (rule held_key_repeats) (use c in \<open>simp_all add: s\<close>)
  have "(ring_buffer_push 97 ^^ ((60 - 50) div 3)) (ring_buffer_push 97 rb_empty) = (ring_buffer_push 97 ^^ 4) rb_empty"
    using funpow_Suc_right[of 3 "ring_buffer_push 97"] by (simp add: comp_def fun_eq_iff)
  then show ?thesis unfolding r kb .
qed

section \<open>Commands to the keyboard\<close>

lemma ps2_wait_hist:
  "length (hist (snd (ps2_wait_write n s))) \<le> length (hist s) + 2 * n
   \<and> length (hist (snd (ps2_wait_read n s))) \<le> length (hist s) + 2 * n"
proof (induction n arbitrary: s)
  case (Suc n)
  have "length (hist (io_wait (snd (inb PS2_CMD_PORT s)))) = length (hist s) + 2" by (simp add: io_defs Let_def)
  then show ?case using Suc[of "io_wait (snd (inb PS2_CMD_PORT s))"] by (simp add: Let_def case_prod_beta inb_snd)
qed simp

lemma ps2_ready:
  "0 < n \<Longrightarrow> fst (inb PS2_CMD_PORT s) AND PS2_STATUS_INBUF = 0 \<Longrightarrow> ps2_wait_write n s = (True, snd (inb PS2_CMD_PORT s))"
  "0 < n \<Longrightarrow> fst (inb PS2_CMD_PORT s) AND PS2_STATUS_OUTBUF \<noteq> 0 \<Longrightarrow> ps2_wait_read n s = (True, snd (inb PS2_CMD_PORT s))"
  by (cases n; simp add: case_prod_beta Let_def)+

lemma ps2_transfer_hist:
  "length (hist (snd (ps2_send_device v s))) \<le> length (hist s) + 200001"
  "length (hist (snd (ps2_read_data s))) \<le> length (hist s) + 200001"
  using ps2_wait_hist[of PS2_TIMEOUT_US s]
  by (auto simp: ps2_send_device_def ps2_read_data_def Let_def case_prod_beta outb_state inb_snd)

lemma ps2_read_data_newest: "ps2_read_data s = (Some v, t) \<Longrightarrow> \<exists>w. hd (hist t) = Rd (Port8 PS2_DATA_PORT) w \<and> ucast w = v"
  by (auto simp: ps2_read_data_def Let_def case_prod_beta inb_def io_in_def split: if_splits)

lemma kbd_send_retry_bound:
  "length (hist (snd (kbd_send_retry n cmd s))) \<le> length (hist s) + n * 400002
   \<and> (fst (kbd_send_retry n cmd s) \<longrightarrow> (\<exists>w. hd (hist (snd (kbd_send_retry n cmd s))) = Rd (Port8 PS2_DATA_PORT) w \<and> ucast w = PS2_RESP_ACK))"
proof (induction n arbitrary: s)
  case (Suc n)
  obtain ok t where t: "ps2_send_device cmd s = (ok, t)" by (cases "ps2_send_device cmd s")
  obtain r u where u: "ps2_read_data t = (r, u)" by (cases "ps2_read_data t")
  have len: "length (hist t) \<le> length (hist s) + 200001" "length (hist u) \<le> length (hist t) + 200001"
    using ps2_transfer_hist(1)[of cmd s] ps2_transfer_hist(2)[of t] t u by simp_all
  show ?case
    using len Suc[of u] ps2_read_data_newest[of t _ u] u t by (auto simp: Let_def split: option.splits)
qed simp

text \<open>
  C30: Whatever the controller answers, a command to the keyboard returns after at most 1200006
  accesses, and it reports success only if the last byte read from the data port was the acknowledgement.
\<close>

theorem kbd_send_command_bounded:
  shows "length (hist (snd (kbd_send_command cmd s))) \<le> length (hist s) + 1200006
    \<and> (fst (kbd_send_command cmd s) \<longrightarrow>
         (\<exists>w. hd (hist (snd (kbd_send_command cmd s))) = Rd (Port8 PS2_DATA_PORT) w \<and> ucast w = PS2_RESP_ACK))"
  using kbd_send_retry_bound[of PS2_RETRIES cmd s] by (simp add: kbd_send_command_def)

text \<open>A controller that is ready at once and a keyboard that acknowledges every byte.\<close>

definition ack_device :: device where
  "ack_device h l = (if l = Port8 PS2_CMD_PORT then 1 else if l = Port8 PS2_DATA_PORT then 0xFA else 0)"

theorem kbd_send_command_bounded_witness:
  "fst (kbd_send_command KBD_CMD_ENABLE (keyboard_example ack_device))
   \<and> (\<exists>w. hd (hist (snd (kbd_send_command KBD_CMD_ENABLE (keyboard_example ack_device)))) = Rd (Port8 PS2_DATA_PORT) w
        \<and> ucast w = PS2_RESP_ACK)"
proof -
  have "fst (kbd_send_command KBD_CMD_ENABLE (keyboard_example ack_device))"
    by (simp add: kbd_send_command_def numeral_3_eq_3 ps2_send_device_def ps2_read_data_def ps2_ready
        inb_def io_in_def outb_def io_out_def ack_device_def Let_def)
  then show ?thesis using kbd_send_command_bounded[of KBD_CMD_ENABLE "keyboard_example ack_device"] by simp
qed

section \<open>From the controller to a blocked reader\<close>

text \<open>The lock keys make the driver talk to the keyboard; every other byte only changes the driver's own variables.\<close>

definition no_lock :: "u8 \<Rightarrow> bool" where
  "no_lock b \<longleftrightarrow> b \<noteq> 0x3A \<and> b \<noteq> 0x45 \<and> b \<noteq> 0x46"

lemma lock_codes:
  "i < 128 \<Longrightarrow> set1_make_to_keycode ! i \<in> {KEY_CAPSLOCK, KEY_NUMLOCK, KEY_SCROLLLOCK} \<Longrightarrow> i \<in> {0x3A, 0x45, 0x46}"
  "i < 128 \<Longrightarrow> e0_make_to_keycode ! i \<notin> {KEY_CAPSLOCK, KEY_NUMLOCK, KEY_SCROLLLOCK}"
proof -
  have l: "length set1_make_to_keycode = 128" "length e0_make_to_keycode = 128" by code_simp+
  have "list_all (\<lambda>(i, k). k \<in> {KEY_CAPSLOCK, KEY_NUMLOCK, KEY_SCROLLLOCK} \<longrightarrow> i \<in> {0x3A, 0x45, 0x46})
      (zip [0..<128] set1_make_to_keycode)"
    and e: "list_all (\<lambda>k. k \<notin> {KEY_CAPSLOCK, KEY_NUMLOCK, KEY_SCROLLLOCK}) e0_make_to_keycode" by code_simp+
  then have a: "(i, set1_make_to_keycode ! i) \<in> set (zip [0..<128] set1_make_to_keycode) \<Longrightarrow>
      set1_make_to_keycode ! i \<in> {KEY_CAPSLOCK, KEY_NUMLOCK, KEY_SCROLLLOCK} \<Longrightarrow> i \<in> {0x3A, 0x45, 0x46}"
    unfolding list_all_iff by blast
  have "i < 128 \<Longrightarrow> (i, set1_make_to_keycode ! i) \<in> set (zip [0..<128] set1_make_to_keycode)"
    using l by (auto simp: in_set_zip intro!: exI[of _ i])
  then show "i < 128 \<Longrightarrow> set1_make_to_keycode ! i \<in> {KEY_CAPSLOCK, KEY_NUMLOCK, KEY_SCROLLLOCK} \<Longrightarrow> i \<in> {0x3A, 0x45, 0x46}"
    using a by blast
  show "i < 128 \<Longrightarrow> e0_make_to_keycode ! i \<notin> {KEY_CAPSLOCK, KEY_NUMLOCK, KEY_SCROLLLOCK}"
    using e l by (simp add: list_all_length)
qed

text \<open>An update of the driver's variables and one of the access history can be exchanged.\<close>

lemma hist_swap:
  fixes s :: "'a keyboard_scheme"
  shows "s\<lparr>hist := h, kbd_state := a\<rparr> = s\<lparr>kbd_state := a, hist := h\<rparr>"
    "s\<lparr>hist := h, kbd_buffer := b\<rparr> = s\<lparr>kbd_buffer := b, hist := h\<rparr>"
    "s\<lparr>hist := h, scancode_st := c\<rparr> = s\<lparr>scancode_st := c, hist := h\<rparr>"
    "s\<lparr>hist := h, e0_saved_data := d\<rparr> = s\<lparr>e0_saved_data := d, hist := h\<rparr>"
    "s\<lparr>hist := h, repeat_key := e\<rparr> = s\<lparr>repeat_key := e, hist := h\<rparr>"
    "s\<lparr>hist := h, repeat_timer := f\<rparr> = s\<lparr>repeat_timer := f, hist := h\<rparr>"
  by (rule keyboard.equality; simp)+

lemma handle_event_hist:
  assumes "ev_type ev = KEY_EVENT_RELEASE \<or> ev_key ev \<notin> {KEY_CAPSLOCK, KEY_NUMLOCK, KEY_SCROLLLOCK}"
  shows "keyboard_handle_event ev (s\<lparr>hist := h\<rparr>) = (keyboard_handle_event ev s)\<lparr>hist := h\<rparr>
    \<and> hist (keyboard_handle_event ev s) = hist s \<and> dev (keyboard_handle_event ev s) = dev s"
proof (cases "ev_type ev")
  case KEY_EVENT_PRESS
  then have k: "ev_key ev \<noteq> KEY_CAPSLOCK" "ev_key ev \<noteq> KEY_NUMLOCK" "ev_key ev \<noteq> KEY_SCROLLLOCK" using assms by auto
  have press: "press_key (ev_key ev) t = t\<lparr>kbd_state := set_modifier (ev_key ev) True (kbd_state t)\<rparr>" for t :: "'a keyboard_scheme"
    using k by (simp add: press_key_def Let_def)
  show ?thesis using KEY_EVENT_PRESS
    by (simp add: keyboard_handle_event_def press push_char_def Let_def hist_swap)
next
  case KEY_EVENT_RELEASE
  then show ?thesis by (simp add: keyboard_handle_event_def Let_def hist_swap)
qed

lemma process_hist:
  assumes "no_lock b"
  shows "keyboard_process_scancode b (s\<lparr>hist := h\<rparr>) = (keyboard_process_scancode b s)\<lparr>hist := h\<rparr>
    \<and> hist (keyboard_process_scancode b s) = hist s \<and> dev (keyboard_process_scancode b s) = dev s"
proof -
  have ev: "keyboard_handle_event (make_event k t e) (u\<lparr>hist := h\<rparr>) = (keyboard_handle_event (make_event k t e) u)\<lparr>hist := h\<rparr>
      \<and> hist (keyboard_handle_event (make_event k t e) u) = hist u \<and> dev (keyboard_handle_event (make_event k t e) u) = dev u"
    if "t = KEY_EVENT_RELEASE \<or> k \<notin> {KEY_CAPSLOCK, KEY_NUMLOCK, KEY_SCROLLLOCK}" for k t e and u :: "'a keyboard_scheme"
    by (rule handle_event_hist) (use that in \<open>simp add: make_event_def\<close>)
  have plain: "set1_make_to_keycode ! unat b \<notin> {KEY_CAPSLOCK, KEY_NUMLOCK, KEY_SCROLLLOCK}" if "b AND 0x80 = 0"
    using lock_codes(1)[OF code_less(2)[OF that]] assms by (auto simp: no_lock_def word_unat_eq_iff)
  have ext: "e0_make_to_keycode ! unat b \<notin> {KEY_CAPSLOCK, KEY_NUMLOCK, KEY_SCROLLLOCK}" if "b AND 0x80 = 0"
    by (rule lock_codes(2)[OF code_less(2)[OF that]])
  show ?thesis
    using plain ext by (cases "scancode_st s") (simp_all add: keyboard_process_scancode_def Let_def ev hist_swap)
qed

text \<open>
  A controller with the bytes \<open>bs\<close> waiting: its status shows a byte and its data port yields the
  next one until all of them have been read.
\<close>

definition data_reads :: "io_op list \<Rightarrow> nat" where
  "data_reads h = length (filter (\<lambda>x. case x of Rd l v \<Rightarrow> l = Port8 PS2_DATA_PORT | Wr l v \<Rightarrow> False) h)"

definition pending :: "'a machine_scheme \<Rightarrow> u8 list \<Rightarrow> bool" where
  "pending s bs \<longleftrightarrow> (\<forall>g. dev s (g @ hist s) (Port8 PS2_CMD_PORT) = (if data_reads g < length bs then 1 else 0)
     \<and> (data_reads g < length bs \<longrightarrow> dev s (g @ hist s) (Port8 PS2_DATA_PORT) = ucast (bs ! data_reads g)))"

lemma pending_now:
  assumes "pending s bs"
  shows "dev s (hist s) (Port8 PS2_CMD_PORT) = (if bs = [] then 0 else 1)"
    "dev s (Rd (Port8 PS2_CMD_PORT) v # hist s) (Port8 PS2_DATA_PORT) = (if bs = [] then dev s (Rd (Port8 PS2_CMD_PORT) v # hist s) (Port8 PS2_DATA_PORT) else ucast (hd bs))"
proof -
  from assms have p: "dev s (g @ hist s) (Port8 PS2_CMD_PORT) = (if data_reads g < length bs then 1 else 0)"
    "data_reads g < length bs \<Longrightarrow> dev s (g @ hist s) (Port8 PS2_DATA_PORT) = ucast (bs ! data_reads g)" for g
    unfolding pending_def by auto
  show "dev s (hist s) (Port8 PS2_CMD_PORT) = (if bs = [] then 0 else 1)"
    using p(1)[of "[]"] by (simp add: data_reads_def)
  show "dev s (Rd (Port8 PS2_CMD_PORT) v # hist s) (Port8 PS2_DATA_PORT) = (if bs = [] then dev s (Rd (Port8 PS2_CMD_PORT) v # hist s) (Port8 PS2_DATA_PORT) else ucast (hd bs))"
    using p(2)[of "[Rd (Port8 PS2_CMD_PORT) v]"] by (simp add: data_reads_def hd_conv_nth)
qed

lemma pending_next:
  assumes "pending s (b # bs)" "dev t = dev s" "hist t = Rd (Port8 PS2_DATA_PORT) w # Rd (Port8 PS2_CMD_PORT) v # hist s"
  shows "pending t bs"
proof -
  have "data_reads (g @ [Rd (Port8 PS2_DATA_PORT) w, Rd (Port8 PS2_CMD_PORT) v]) = Suc (data_reads g)" for g
    by (simp add: data_reads_def)
  then show ?thesis
    using assms(1) unfolding pending_def assms(2,3)
    by (metis (no_types, lifting) append.assoc append_Cons append_Nil length_Cons not_less_eq nth_Cons_Suc)
qed

lemma keyboard_drain_pending:
  assumes "pending s bs" "list_all no_lock bs"
  shows "\<exists>h. keyboard_drain s = Some ((fold keyboard_process_scancode bs s)\<lparr>hist := h\<rparr>)"
  using assms
proof (induction bs arbitrary: s)
  case Nil
  then show ?case
    using pending_now(1)[OF Nil.prems(1)]
    by (subst keyboard_drain.simps) (auto simp: inb_def io_in_def Let_def)
next
  case (Cons b bs)
  let ?h = "Rd (Port8 PS2_DATA_PORT) (ucast b) # Rd (Port8 PS2_CMD_PORT) 1 # hist s"
  let ?t = "keyboard_process_scancode b (s\<lparr>hist := ?h\<rparr>)"
  have nb: "no_lock b" using Cons.prems(2) by simp
  note ph = process_hist[OF nb, of ?h s]
  have "pending ?t bs"
    by (rule pending_next[OF Cons.prems(1)]) (use ph in simp_all)
  then obtain h where h: "keyboard_drain ?t = Some ((fold keyboard_process_scancode bs ?t)\<lparr>hist := h\<rparr>)"
    using Cons by fastforce
  have step: "keyboard_drain s = keyboard_drain ?t"
    using pending_now[OF Cons.prems(1)]
    by (subst keyboard_drain.simps) (simp add: inb_def io_in_def Let_def)
  have "(fold keyboard_process_scancode bs ?t)\<lparr>hist := h\<rparr> = (fold keyboard_process_scancode bs (keyboard_process_scancode b s))\<lparr>hist := h\<rparr>"
  proof -
    have "fold keyboard_process_scancode bs (u\<lparr>hist := g\<rparr>) = (fold keyboard_process_scancode bs u)\<lparr>hist := g\<rparr>" for g and u :: "'a keyboard_scheme"
      using Cons.prems(2) by (induction bs arbitrary: u) (auto simp: process_hist)
    then show ?thesis using ph by simp
  qed
  then show ?case using step h by auto
qed

text \<open>
  C14: A blocked reader is served: when the controller holds bytes other than 3A, 45 and 46, the press codes of CapsLock, NumLock and ScrollLock, whose
  decoding puts a character into the empty buffer, the interrupt handler takes all of them and returns, and
  \<^verbatim>\<open>keyboard_getchar_blocking\<close> returns the first of the characters and leaves the others.  The three lock keys are excluded because
  their press makes the handler send the LED command, whose replies come through the same data port: with further bytes waiting
  the command takes one of them for its reply.
\<close>

theorem blocking_read_returns:
  assumes "pending s bs" "list_all no_lock bs" "kbd_inv s" "rb_chars (kbd_buffer s) = []"
    "rb_chars (kbd_buffer (fold keyboard_process_scancode bs s)) = c # cs"
  shows "\<exists>h t. keyboard_irq_handler n s = Some ((fold keyboard_process_scancode bs s)\<lparr>hist := h\<rparr>)
    \<and> keyboard_getchar_blocking s = Some (c, t) \<and> rb_chars (kbd_buffer t) = cs"
proof -
  obtain h where h: "keyboard_drain s = Some ((fold keyboard_process_scancode bs s)\<lparr>hist := h\<rparr>)"
    using keyboard_drain_pending[OF assms(1,2)] by blast
  let ?u = "(fold keyboard_process_scancode bs s)\<lparr>hist := h\<rparr>"
  have "kbd_inv (fold keyboard_process_scancode bs s)"
    using assms(3) by (induction bs arbitrary: s) (auto intro: kbd_inv_byte)
  then have u: "rb_inv (kbd_buffer ?u)" "0 \<notin> set (rb_chars (kbd_buffer ?u))" by (simp_all add: kbd_inv_def)
  have "ring_buffer_is_empty (kbd_buffer s)"
    using rb_empty_iff[of "kbd_buffer s"] assms(3,4) length_rb_chars[of "kbd_buffer s"] by (simp add: kbd_inv_def)
  then have "keyboard_getchar_nb s = (0, s)" by (simp add: keyboard_getchar_nb_def ring_buffer_pop_def)
  moreover have p: "fst (ring_buffer_pop (kbd_buffer ?u)) = c" "rb_chars (snd (ring_buffer_pop (kbd_buffer ?u))) = cs"
    using kq.pop_Cons[OF u(1)] assms(5) by simp_all
  moreover have "c \<noteq> 0" using u(2) assms(5) by auto
  ultimately have "keyboard_getchar_blocking s = Some (c, ?u\<lparr>kbd_buffer := snd (ring_buffer_pop (kbd_buffer ?u))\<rparr>)"
    using h by (subst keyboard_getchar_blocking.simps) (simp add: keyboard_getchar_nb_def case_prod_beta Let_def)
  moreover have "rb_chars (kbd_buffer (?u\<lparr>kbd_buffer := snd (ring_buffer_pop (kbd_buffer ?u))\<rparr>)) = cs" using p(2) by simp
  ultimately show ?thesis using h unfolding keyboard_irq_handler_def by blast
qed

definition queue_device :: "u8 list \<Rightarrow> device" where
  "queue_device bs h l =
     (if l = Port8 PS2_CMD_PORT then if data_reads h < length bs then 1 else 0
      else if l = Port8 PS2_DATA_PORT \<and> data_reads h < length bs then ucast (bs ! data_reads h) else 0)"

theorem blocking_read_returns_witness:
  "\<exists>t. keyboard_getchar_blocking (keyboard_example (queue_device [0x1E, 0x9E])) = Some (97, t)"
proof -
  let ?s = "keyboard_example (queue_device [0x1E, 0x9E])"
  have p: "pending ?s [0x1E, 0x9E]" by (simp add: pending_def queue_device_def)
  have l: "list_all no_lock [0x1E, 0x9E]" by (simp add: no_lock_def)
  have t: "set1_make_to_keycode ! 0x1E = KEY_A" "keycode_to_ascii ! KEY_A = 97" by code_simp+
  have c: "keycode_to_ascii_char (kbd_state ?s) KEY_A = 97"
    using t(2) by (simp add: keycode_to_ascii_char_def is_letter_key_def Let_def)
  have "kbd_buffer (fold keyboard_process_scancode [0x1E, 0x9E] ?s) = ring_buffer_push 97 rb_empty"
    using t(1) c
    by (simp add: keyboard_process_scancode_def keyboard_handle_event_def make_event_def press_key_def set_modifier_def push_char_def Let_def)
  then have "rb_chars (kbd_buffer (fold keyboard_process_scancode [0x1E, 0x9E] ?s)) = [97]"
    using kq.push_abs_any[OF rb_empty_facts(1), of 97] by (simp add: rb_empty_facts)
  from blocking_read_returns[OF p l keyboard_example_inv _ this] show ?thesis by (auto simp: rb_empty_facts)
qed

end
