(* ===== verification/Rtc.thy ===== *)
theory Rtc
  imports Ports
begin

text \<open>
  The real-time clock (\<^verbatim>\<open>kernel/BasicDrivers/rtc.c\<close>): reading the CMOS registers, the conversion from binary coded
  decimal and the packing of a time into the two 16-bit words of a FAT directory entry.
\<close>

abbreviation CMOS_ADDR :: u16 where "CMOS_ADDR \<equiv> 0x70"
abbreviation CMOS_DATA :: u16 where "CMOS_DATA \<equiv> 0x71"
abbreviation RTC_SECONDS :: u8 where "RTC_SECONDS \<equiv> 0x00"
abbreviation RTC_MINUTES :: u8 where "RTC_MINUTES \<equiv> 0x02"
abbreviation RTC_HOURS :: u8 where "RTC_HOURS \<equiv> 0x04"
abbreviation RTC_DAY :: u8 where "RTC_DAY \<equiv> 0x07"
abbreviation RTC_MONTH :: u8 where "RTC_MONTH \<equiv> 0x08"
abbreviation RTC_YEAR :: u8 where "RTC_YEAR \<equiv> 0x09"
abbreviation RTC_CENTURY :: u8 where "RTC_CENTURY \<equiv> 0x32"
abbreviation RTC_STATUS_A :: u8 where "RTC_STATUS_A \<equiv> 0x0A"
abbreviation RTC_STATUS_B :: u8 where "RTC_STATUS_B \<equiv> 0x0B"

record rtc_time_t =
  rtc_second :: u8
  rtc_minute :: u8
  rtc_hour :: u8
  rtc_day :: u8
  rtc_month :: u8
  rtc_year :: u16
  rtc_century :: u8

section \<open>Reading the clock\<close>

definition cmos_read :: "u8 \<Rightarrow> 'a machine_scheme \<Rightarrow> u8 \<times> 'a machine_scheme" where
  "cmos_read reg s = inb CMOS_DATA (io_wait (outb CMOS_ADDR (0x80 OR reg) s))"

definition rtc_is_updating :: "'a machine_scheme \<Rightarrow> bool \<times> 'a machine_scheme" where
  "rtc_is_updating s =
     (let (v, s) = inb CMOS_DATA (io_wait (outb CMOS_ADDR (0x80 OR RTC_STATUS_A) s)) in (v AND 0x80 \<noteq> 0, s))"

definition bcd_to_bin :: "u8 \<Rightarrow> u8" where
  "bcd_to_bin bcd = drop_bit 4 bcd * 10 + (bcd AND 0x0F)"

definition rtc_init :: "'a machine_scheme \<Rightarrow> 'a machine_scheme" where
  "rtc_init s = say ''[RTC] Driver initialized.\<newline>'' s"

partial_function (option) rtc_wait :: "'a machine_scheme \<Rightarrow> 'a machine_scheme option" where
  "rtc_wait s = (let (busy, s) = rtc_is_updating s in if busy then rtc_wait s else Some s)"

definition rtc_finish :: "u8 \<Rightarrow> u8 \<Rightarrow> rtc_time_t \<Rightarrow> rtc_time_t" where
  "rtc_finish status_b century t =
     (let t = (if status_b AND 0x04 = 0
               then let t = t\<lparr>rtc_second := bcd_to_bin (rtc_second t), rtc_minute := bcd_to_bin (rtc_minute t),
                              rtc_hour := bcd_to_bin (rtc_hour t), rtc_day := bcd_to_bin (rtc_day t),
                              rtc_month := bcd_to_bin (rtc_month t), rtc_year := ucast (bcd_to_bin (ucast (rtc_year t)))\<rparr>
                    in if century \<noteq> 0xFF \<and> century \<noteq> 0x00 then t\<lparr>rtc_century := bcd_to_bin century\<rparr> else t
               else t);
          t = (if rtc_century t = 0x00 \<or> rtc_century t = 0xFF then t\<lparr>rtc_century := 20\<rparr> else t)
      in t\<lparr>rtc_year := ucast (rtc_century t) * 100 + rtc_year t\<rparr>)"

text \<open>None when the clock never leaves its update cycle.\<close>

definition rtc_read_time :: "'a machine_scheme \<Rightarrow> (rtc_time_t \<times> 'a machine_scheme) option" where
  "rtc_read_time s =
     (case rtc_wait s of None \<Rightarrow> None | Some s \<Rightarrow>
        let (second, s) = cmos_read RTC_SECONDS s;
            (minute, s) = cmos_read RTC_MINUTES s;
            (hour, s) = cmos_read RTC_HOURS s;
            (day, s) = cmos_read RTC_DAY s;
            (month, s) = cmos_read RTC_MONTH s;
            (year, s) = cmos_read RTC_YEAR s;
            (century, s) = cmos_read RTC_CENTURY s;
            (status_b, s) = inb CMOS_DATA (io_wait (outb CMOS_ADDR (0x80 OR RTC_STATUS_B) s))
        in Some (rtc_finish status_b century
             \<lparr>rtc_second = second, rtc_minute = minute, rtc_hour = hour, rtc_day = day, rtc_month = month,
              rtc_year = ucast year, rtc_century = century\<rparr>, s))"

section \<open>Packed times\<close>

definition rtc_to_fat_time :: "rtc_time_t \<Rightarrow> u16" where
  "rtc_to_fat_time t =
     (let fat_time = 0;
          fat_time = fat_time OR (ucast (rtc_second t div 2) AND 0x1F);
          fat_time = fat_time OR push_bit 5 (ucast (rtc_minute t) AND 0x3F)
      in fat_time OR push_bit 11 (ucast (rtc_hour t) AND 0x1F))"

definition rtc_to_fat_date :: "rtc_time_t \<Rightarrow> u16" where
  "rtc_to_fat_date t =
     (let fat_date = 0;
          year_offset = rtc_year t - 1980;
          fat_date = fat_date OR (ucast (rtc_day t) AND 0x1F);
          fat_date = fat_date OR push_bit 5 (ucast (rtc_month t) AND 0x0F)
      in fat_date OR push_bit 9 (year_offset AND 0x7F))"

section \<open>Round trips\<close>

text \<open>What a reader of the FAT format recovers: hour, minute and seconds to the even second; year, month and day.\<close>

definition fat_time_fields :: "u16 \<Rightarrow> nat \<times> nat \<times> nat" where
  "fat_time_fields w = (unat (drop_bit 11 w), unat (drop_bit 5 w AND 0x3F), 2 * unat (w AND 0x1F))"

definition fat_date_fields :: "u16 \<Rightarrow> nat \<times> nat \<times> nat" where
  "fat_date_fields w = (1980 + unat (drop_bit 9 w), unat (drop_bit 5 w AND 0x0F), unat (w AND 0x1F))"

definition valid_time :: "rtc_time_t \<Rightarrow> bool" where
  "valid_time t \<longleftrightarrow> unat (rtc_second t) < 60 \<and> unat (rtc_minute t) < 60 \<and> unat (rtc_hour t) < 24
     \<and> unat (rtc_day t) < 32 \<and> unat (rtc_month t) < 13 \<and> 1980 \<le> unat (rtc_year t) \<and> unat (rtc_year t) < 2108"

lemma low_bits: "unat w < 2 ^ k \<Longrightarrow> k \<le> n \<Longrightarrow> \<not> bit (w :: 'a :: len word) n"
  by (metis bit_take_bit_iff leD take_bit_nat_eq_self unsigned_take_bit_eq word_unat_eq_iff)

lemma field_masks:
  "bit (0x1F :: u16) n \<longleftrightarrow> n < 5" "bit (0x3F :: u16) n \<longleftrightarrow> n < 6" "bit (0x0F :: u16) n \<longleftrightarrow> n < 4" "bit (0x7F :: u16) n \<longleftrightarrow> n < 7"
proof -
  have "(0x1F :: u16) = mask 5" "(0x3F :: u16) = mask 6" "(0x0F :: u16) = mask 4" "(0x7F :: u16) = mask 7"
    by (simp_all add: mask_numeral)
  then show "bit (0x1F :: u16) n \<longleftrightarrow> n < 5" "bit (0x3F :: u16) n \<longleftrightarrow> n < 6" "bit (0x0F :: u16) n \<longleftrightarrow> n < 4"
    "bit (0x7F :: u16) n \<longleftrightarrow> n < 7" by (simp_all only: bit_mask_iff) auto
qed

lemma pack_fields:
  fixes a b c :: u16
  assumes "unat a < 2 ^ i" "unat b < 2 ^ j" "unat c < 2 ^ k" "i + j + k = 16"
  defines "w \<equiv> (a OR push_bit i b) OR push_bit (i + j) c"
  shows "drop_bit (i + j) w = c" "drop_bit i w AND mask j = b" "w AND mask i = a"
proof -
  have z: "\<not> bit a n" if "i \<le> n" for n using low_bits[OF assms(1) that] .
  have y: "\<not> bit b n" if "j \<le> n" for n using low_bits[OF assms(2) that] .
  have x: "\<not> bit c n" if "k \<le> n" for n using low_bits[OF assms(3) that] .
  have y': "n < j" if "bit b n" for n using y[of n] that by (meson not_le)
  have z': "n < i" if "bit a n" for n using z[of n] that by (meson not_le)
  show "drop_bit (i + j) w = c"
    by (rule bit_word_eqI) (use assms(4) in \<open>auto simp: w_def bit_simps z y x intro: ccontr\<close>)
  show "drop_bit i w AND mask j = b"
    by (rule bit_word_eqI) (use assms(4) in \<open>auto simp: w_def bit_simps z y x dest: y'\<close>)
  show "w AND mask i = a"
    by (rule bit_word_eqI) (use assms(4) in \<open>auto simp: w_def bit_simps dest: z'\<close>)
qed

lemma and_mask_small: "unat (w :: 'a :: len word) < 2 ^ k \<Longrightarrow> w AND mask k = w"
  by (metis take_bit_eq_mask take_bit_nat_eq_self unsigned_take_bit_eq word_unat_eq_iff)

lemma field_mask_eqs: "(0x1F :: u16) = mask 5" "(0x3F :: u16) = mask 6" "(0x0F :: u16) = mask 4" "(0x7F :: u16) = mask 7"
  by (simp_all add: mask_numeral)

lemma unat_ucast8 [simp]: "unat (ucast (b :: u8) :: u16) = unat b"
  using unsigned_less[of b, where ?'a = nat] by (simp add: unsigned_ucast_eq take_bit_nat_eq_self)

text \<open>
  The packed time and date of every valid time read back as that time, the seconds rounded down to
  an even number, for all years the format can hold.
\<close>

theorem fat_time_roundtrip:
  assumes "valid_time t"
  shows "fat_time_fields (rtc_to_fat_time t) = (unat (rtc_hour t), unat (rtc_minute t), 2 * (unat (rtc_second t) div 2))
    \<and> fat_date_fields (rtc_to_fat_date t) = (unat (rtc_year t), unat (rtc_month t), unat (rtc_day t))"
proof -
  note v = assms[unfolded valid_time_def]
  have sec: "unat (ucast (rtc_second t div 2) :: u16) = unat (rtc_second t) div 2" by (simp add: unat_div)
  have yr: "unat (rtc_year t - 1980) = unat (rtc_year t) - 1980"
    using v by (subst unat_sub) (auto simp: word_le_nat_alt)
  have n: "5 + 6 = (11 :: nat)" "5 + 4 = (9 :: nat)" "5 + 6 + 5 = (16 :: nat)" "5 + 4 + 7 = (16 :: nat)" by simp_all
  have lt: "unat (ucast (rtc_second t div 2) :: u16) < 2 ^ 5" "unat (ucast (rtc_minute t) :: u16) < 2 ^ 6"
    "unat (ucast (rtc_hour t) :: u16) < 2 ^ 5" "unat (ucast (rtc_day t) :: u16) < 2 ^ 5"
    "unat (ucast (rtc_month t) :: u16) < 2 ^ 4" "unat (rtc_year t - 1980) < 2 ^ 7"
    using v sec yr by auto
  note T = pack_fields[OF lt(1,2,3) n(3), unfolded n(1)]
  note D = pack_fields[OF lt(4,5,6) n(4), unfolded n(2)]
  have small: "(ucast (rtc_second t div 2) :: u16) AND mask 5 = ucast (rtc_second t div 2)"
    "(ucast (rtc_minute t) :: u16) AND mask 6 = ucast (rtc_minute t)" "(ucast (rtc_hour t) :: u16) AND mask 5 = ucast (rtc_hour t)"
    "(ucast (rtc_day t) :: u16) AND mask 5 = ucast (rtc_day t)" "(ucast (rtc_month t) :: u16) AND mask 4 = ucast (rtc_month t)"
    "(rtc_year t - 1980) AND mask 7 = rtc_year t - 1980"
    by (rule and_mask_small[OF lt(1)] and_mask_small[OF lt(2)] and_mask_small[OF lt(3)] and_mask_small[OF lt(4)]
        and_mask_small[OF lt(5)] and_mask_small[OF lt(6)])+
  have "fat_time_fields (rtc_to_fat_time t) = (unat (rtc_hour t), unat (rtc_minute t), 2 * (unat (rtc_second t) div 2))"
    unfolding fat_time_fields_def rtc_to_fat_time_def Let_def or.left_neutral field_mask_eqs small T sec by simp
  moreover have "fat_date_fields (rtc_to_fat_date t) = (unat (rtc_year t), unat (rtc_month t), unat (rtc_day t))"
    using v unfolding fat_date_fields_def rtc_to_fat_date_def Let_def or.left_neutral field_mask_eqs small D yr by simp
  ultimately show ?thesis ..
qed

definition rtc_example :: rtc_time_t where
  "rtc_example = \<lparr>rtc_second = 59, rtc_minute = 30, rtc_hour = 23, rtc_day = 31, rtc_month = 12, rtc_year = 2026, rtc_century = 20\<rparr>"

theorem fat_time_roundtrip_witness:
  "fat_time_fields (rtc_to_fat_time rtc_example) = (23, 30, 58) \<and> fat_date_fields (rtc_to_fat_date rtc_example) = (2026, 12, 31)"
proof -
  have "valid_time rtc_example" by (simp add: valid_time_def rtc_example_def)
  from fat_time_roundtrip[OF this] show ?thesis by (simp add: rtc_example_def)
qed

section \<open>Reading back a clock\<close>

lemma ucast_u16: "ucast (ucast (b :: u8) :: u16) = b"
  by (rule bit_word_eqI) (auto simp: bit_simps)

definition to_bcd :: "nat \<Rightarrow> u8" where
  "to_bcd n = word_of_nat (n div 10 * 16 + n mod 10)"

lemma bcd_roundtrip: "n < 100 \<Longrightarrow> bcd_to_bin (to_bcd n) = word_of_nat n"
proof -
  have "list_all (\<lambda>n. bcd_to_bin (to_bcd n) = word_of_nat n) [0..<100]" by code_simp
  then show "n < 100 \<Longrightarrow> bcd_to_bin (to_bcd n) = word_of_nat n" by (simp add: list_all_iff)
qed

lemma to_bcd_special: "n < 100 \<Longrightarrow> to_bcd n = 0xFF \<longleftrightarrow> False" "n < 100 \<Longrightarrow> to_bcd n = 0 \<longleftrightarrow> n = 0"
proof -
  have "list_all (\<lambda>n. to_bcd n \<noteq> 0xFF \<and> (to_bcd n = 0 \<longleftrightarrow> n = 0)) [0..<100]" by code_simp
  then show "n < 100 \<Longrightarrow> to_bcd n = 0xFF \<longleftrightarrow> False" "n < 100 \<Longrightarrow> to_bcd n = 0 \<longleftrightarrow> n = 0" by (simp_all add: list_all_iff)
qed

text \<open>A CMOS chip with the given registers: the data port shows the register last selected.\<close>

definition cmos_chip :: "device \<Rightarrow> (u8 \<Rightarrow> u8) \<Rightarrow> bool" where
  "cmos_chip d regs \<longleftrightarrow> (\<forall>h r. d (Wr (Port8 0x80) 0 # Wr (Port8 CMOS_ADDR) (ucast (0x80 OR r)) # h) (Port8 CMOS_DATA) = ucast (regs r))"

lemma cmos_read_chip:
  assumes "cmos_chip (dev s) regs"
  shows "fst (cmos_read r s) = regs r" "dev (snd (cmos_read r s)) = dev s"
  using assms by (simp_all add: cmos_read_def cmos_chip_def io_defs Let_def)

text \<open>
  C34: On a clock that is not updating, holds its registers in binary coded decimal and has a century register
  (or none, read as 0), reading the time returns and gives exactly the date and time it holds.
\<close>

theorem rtc_read_time_correct:
  assumes chip: "cmos_chip (dev s) regs" and idle: "regs RTC_STATUS_A AND 0x80 = 0" and bcd: "regs RTC_STATUS_B AND 0x04 = 0"
    and vals: "regs RTC_SECONDS = to_bcd sec" "regs RTC_MINUTES = to_bcd mi" "regs RTC_HOURS = to_bcd ho" "regs RTC_DAY = to_bcd da"
      "regs RTC_MONTH = to_bcd mo" "regs RTC_YEAR = to_bcd ye" "regs RTC_CENTURY = to_bcd ce"
    and small: "sec < 100" "mi < 100" "ho < 100" "da < 100" "mo < 100" "ye < 100" "ce < 100"
  shows "\<exists>s'. rtc_read_time s = Some (\<lparr>rtc_second = word_of_nat sec, rtc_minute = word_of_nat mi, rtc_hour = word_of_nat ho,
      rtc_day = word_of_nat da, rtc_month = word_of_nat mo,
      rtc_year = word_of_nat ((if ce = 0 then 20 else ce) * 100 + ye), rtc_century = word_of_nat (if ce = 0 then 20 else ce)\<rparr>, s')"
proof -
  have upd: "rtc_is_updating s = (False, snd (cmos_read RTC_STATUS_A s))"
    using cmos_read_chip(1)[OF chip, of RTC_STATUS_A] idle
    by (simp add: rtc_is_updating_def cmos_read_def case_prod_beta Let_def)
  have w: "rtc_wait s = Some (snd (cmos_read RTC_STATUS_A s))" by (subst rtc_wait.simps) (simp add: upd)
  have chain: "cmos_chip (dev (snd (cmos_read r t))) regs" if "cmos_chip (dev t) regs" for r and t :: "'a machine_scheme"
    using cmos_read_chip(2)[OF that] that by simp
  have cu: "unat (word_of_nat n :: u8) = n" if "n < 100" for n using that by (simp add: unsigned_of_nat take_bit_nat_eq_self)
  have wide: "(ucast (word_of_nat n :: u8) :: u16) = word_of_nat n" if "n < 100" for n
    using cu[OF that] by (metis of_nat_unat)
  have nz: "(word_of_nat n :: u8) = 0 \<longleftrightarrow> n = 0" "(word_of_nat n :: u8) \<noteq> 0xFF" if "n < 100" for n
    using cu[OF that] that by (auto simp: word_unat_eq_iff)
  note c = chain[OF chip, of RTC_STATUS_A]
  note c1 = chain[OF c, of RTC_SECONDS]
  note c2 = chain[OF c1, of RTC_MINUTES]
  note c3 = chain[OF c2, of RTC_HOURS]
  note c4 = chain[OF c3, of RTC_DAY]
  note c5 = chain[OF c4, of RTC_MONTH]
  note c6 = chain[OF c5, of RTC_YEAR]
  note c7 = chain[OF c6, of RTC_CENTURY]
  note rd = cmos_read_chip(1)[OF c] cmos_read_chip(1)[OF c1] cmos_read_chip(1)[OF c2] cmos_read_chip(1)[OF c3]
    cmos_read_chip(1)[OF c4] cmos_read_chip(1)[OF c5] cmos_read_chip(1)[OF c6] cmos_read_chip(1)[OF c7]
  show ?thesis
    unfolding rtc_read_time_def w option.case cmos_read_def[of RTC_STATUS_B, symmetric] Let_def case_prod_beta
    using vals bcd small
    by (simp add: rd ucast_u16 rtc_finish_def Let_def bcd_roundtrip to_bcd_special wide nz)
qed

definition cmos_example :: device where
  "cmos_example h l = (case h of _ # Wr _ a # _ \<Rightarrow>
     if a = 0x80 then 0x56 else if a = 0x82 then 0x34 else if a = 0x84 then 0x12 else if a = 0x87 then 0x31
     else if a = 0x88 then 0x12 else if a = 0x89 then 0x26 else if a = 0xB2 then 0x20 else 0 | _ \<Rightarrow> 0)"

theorem rtc_read_time_correct_witness:
  "\<exists>s' t. rtc_read_time (blank_machine cmos_example) = Some (t, s') \<and> rtc_year t = 2026 \<and> rtc_second t = 56"
proof -
  let ?regs = "\<lambda>r. ucast (cmos_example [Wr (Port8 0x80) 0, Wr (Port8 CMOS_ADDR) (ucast (0x80 OR r))] (Port8 CMOS_DATA)) :: u8"
  have "cmos_chip (dev (blank_machine cmos_example)) ?regs" by (simp add: cmos_chip_def cmos_example_def)
  from rtc_read_time_correct[OF this, of 56 34 12 31 12 26 20] show ?thesis
    by (auto simp: cmos_example_def to_bcd_def)
qed

end
