(* ===== verification/Sched.thy ===== *)
theory Sched
  imports Keyboard
begin

text \<open>
  The scheduler (\<^verbatim>\<open>kernel/InitKernel/proc.c\<close>): process control blocks, the ready queue linked through
  their \<^verbatim>\<open>next\<close> fields, \<^verbatim>\<open>schedule\<close> and the start-up of the idle process.  Control blocks are
  objects in a store from addresses to records, so that the queue's pointers alias the current
  process exactly as in the code.  \<^verbatim>\<open>switch_to_proc\<close> (assembly) does not return: \<open>schedule\<close>
  hands back the process it switches to, or None when it returns to its caller.
\<close>

section \<open>State\<close>

abbreviation PROC_READY :: u8 where "PROC_READY \<equiv> 0"
abbreviation PROC_RUNNING :: u8 where "PROC_RUNNING \<equiv> 1"
abbreviation PROC_BLOCKED :: u8 where "PROC_BLOCKED \<equiv> 2"
abbreviation PROC_ZOMBIE :: u8 where "PROC_ZOMBIE \<equiv> 3"
abbreviation KERNEL_STACK_SIZE :: u64 where "KERNEL_STACK_SIZE \<equiv> 8192"
abbreviation MAX_FD :: nat where "MAX_FD \<equiv> 16"

record fd_t =
  fd_vnode :: u64
  fd_mode :: u32
  fd_offset :: u32

record pcb_t =
  pcb_rsp :: u64
  pcb_cr3 :: u64
  pcb_pid :: u64
  pcb_state :: u8
  pcb_time_slice :: u32
  pcb_next :: u64
  pcb_user_stack :: u64
  pcb_entry_point :: u64
  pcb_fds :: "fd_t list"
  pcb_kernel_stack :: u64

record proc_state = keyboard +
  pcbs :: "u64 \<Rightarrow> pcb_t"
  g_current_proc :: u64
  ready_queue_head :: u64
  ready_queue_tail :: u64
  next_pid :: u64
  ticks :: u64
  idle_proc :: u64
  scheduler_ready :: bool

definition set_pcb :: "u64 \<Rightarrow> (pcb_t \<Rightarrow> pcb_t) \<Rightarrow> 'a proc_state_scheme \<Rightarrow> 'a proc_state_scheme" where
  "set_pcb p f s = s\<lparr>pcbs := (pcbs s)(p := f (pcbs s p))\<rparr>"

definition increment_ticks :: "'a proc_state_scheme \<Rightarrow> 'a proc_state_scheme" where
  "increment_ticks s = s\<lparr>ticks := ticks s + 1\<rparr>"

definition get_ticks :: "'a proc_state_scheme \<Rightarrow> u64" where
  "get_ticks s = ticks s"

section \<open>The ready queue\<close>

definition enqueue :: "u64 \<Rightarrow> 'a proc_state_scheme \<Rightarrow> 'a proc_state_scheme" where
  "enqueue p s =
     (let s = set_pcb p (\<lambda>b. b\<lparr>pcb_next := 0\<rparr>) s;
          s = set_pcb p (\<lambda>b. b\<lparr>pcb_state := PROC_READY\<rparr>) s
      in if ready_queue_tail s \<noteq> 0
         then (set_pcb (ready_queue_tail s) (\<lambda>b. b\<lparr>pcb_next := p\<rparr>) s)\<lparr>ready_queue_tail := p\<rparr>
         else s\<lparr>ready_queue_tail := p, ready_queue_head := p\<rparr>)"

definition dequeue :: "'a proc_state_scheme \<Rightarrow> u64 \<times> 'a proc_state_scheme" where
  "dequeue s =
     (if ready_queue_head s = 0 then (0, s)
      else let ret = ready_queue_head s;
               s = s\<lparr>ready_queue_head := pcb_next (pcbs s ret)\<rparr>;
               s = (if ready_queue_head s = 0 then s\<lparr>ready_queue_tail := 0\<rparr> else s)
           in (ret, s))"

section \<open>Scheduling\<close>

definition schedule :: "'a proc_state_scheme \<Rightarrow> u64 option \<times> 'a proc_state_scheme" where
  "schedule s =
     (if \<not> scheduler_ready s then (None, s)
      else
        let prev = g_current_proc s;
            (next, s) = dequeue s;
            next = (if next = 0 then idle_proc s else next)
        in if prev = next then (None, s)
           else
             let s = (if pcb_state (pcbs s prev) = PROC_RUNNING
                      then set_pcb prev (\<lambda>b. b\<lparr>pcb_state := PROC_READY\<rparr>) (enqueue prev s) else s);
                 s = s\<lparr>g_current_proc := next\<rparr>;
                 s = set_pcb next (\<lambda>b. b\<lparr>pcb_state := PROC_RUNNING\<rparr>) s
             in (Some next, s))"

text \<open>
  A fresh kernel stack with the register frame that the interrupt return pops, as a list of
  64-bit values from the lowest address up.  \<open>entry\<close> stands for the address of \<^verbatim>\<open>idle_entry\<close>.
  The result is None when \<^verbatim>\<open>scheduler_init\<close> does not return: when the heap search does not end, and when no stack
  can be allocated, since the code then prints a message and halts the processor for ever.
\<close>

definition idle_frame :: "u64 \<Rightarrow> u64 list" where
  "idle_frame entry = replicate 17 0 @ [entry, 0x08, 0x202]"

definition scheduler_init :: "u64 \<Rightarrow> 'a proc_state_scheme \<Rightarrow> 'a proc_state_scheme option" where
  "scheduler_init entry s =
     (case kmalloc KERNEL_STACK_SIZE s of None \<Rightarrow> None | Some (kstack, s) \<Rightarrow>
        if kstack = 0 then None
        else
          let sp = ((kstack + KERNEL_STACK_SIZE) AND NOT 0xF) - 8 * 20;
              s = s\<lparr>hmem := fill64 (hmem s) sp (\<lambda>i. idle_frame entry ! i) 20\<rparr>;
              s = set_pcb (idle_proc s) (\<lambda>b. b\<lparr>pcb_kernel_stack := kstack, pcb_rsp := sp, pcb_pid := 0,
                    pcb_state := PROC_RUNNING, pcb_cr3 := 0, pcb_entry_point := 0, pcb_user_stack := 0\<rparr>) s;
              s = s\<lparr>g_current_proc := idle_proc s\<rparr>;
              s = s\<lparr>scheduler_ready := True\<rparr>
          in Some (say ''[OK] Scheduler initialized\<newline>'' s))"

definition scheduler_start :: "'a proc_state_scheme \<Rightarrow> u64 option \<times> 'a proc_state_scheme" where
  "scheduler_start s = schedule (say ''[OK] Scheduler running\<newline>'' s)"

section \<open>The queue it implements\<close>

text \<open>The list of processes a chain of \<^verbatim>\<open>next\<close> pointers visits.\<close>

primrec chain :: "(u64 \<Rightarrow> pcb_t) \<Rightarrow> u64 \<Rightarrow> u64 list \<Rightarrow> bool" where
  "chain m p [] \<longleftrightarrow> p = 0"
| "chain m p (x # xs) \<longleftrightarrow> p = x \<and> x \<noteq> 0 \<and> chain m (pcb_next (m x)) xs"

definition ready_list :: "'a proc_state_scheme \<Rightarrow> u64 list \<Rightarrow> bool" where
  "ready_list s xs \<longleftrightarrow> chain (pcbs s) (ready_queue_head s) xs \<and> distinct xs
     \<and> ready_queue_tail s = (if xs = [] then 0 else last xs)"

lemma chain_cong: "(\<And>x. x \<in> set xs \<Longrightarrow> pcb_next (m' x) = pcb_next (m x)) \<Longrightarrow> chain m' p xs = chain m p xs"
  by (induction xs arbitrary: p) auto

lemma chain_nonzero: "chain m p xs \<Longrightarrow> x \<in> set xs \<Longrightarrow> x \<noteq> 0"
  by (induction xs arbitrary: p) auto

lemma chain_snoc:
  assumes "chain m h xs" "distinct (xs @ [p])" "p \<noteq> 0" "xs \<noteq> []"
    "pcb_next (m' (last xs)) = p" "pcb_next (m' p) = 0" "\<And>x. x \<in> set xs \<Longrightarrow> x \<noteq> last xs \<Longrightarrow> pcb_next (m' x) = pcb_next (m x)"
  shows "chain m' h (xs @ [p])"
  using assms
proof (induction xs arbitrary: h)
  case (Cons x xs)
  show ?case
  proof (cases "xs = []")
    case True
    then show ?thesis using Cons.prems by auto
  next
    case False
    then have "x \<noteq> last xs" using Cons.prems(2) by auto
    then have "pcb_next (m' x) = pcb_next (m x)" using Cons.prems(7)[of x] False by simp
    moreover have "chain m' (pcb_next (m x)) (xs @ [p])"
      by (rule Cons.IH) (use Cons.prems False in auto)
    ultimately show ?thesis using Cons.prems(1) by simp
  qed
qed simp

lemma enqueue_ready_list:
  assumes "ready_list s xs" "p \<noteq> 0" "p \<notin> set xs"
  shows "ready_list (enqueue p s) (xs @ [p])"
proof (cases "xs = []")
  case True
  then show ?thesis using assms by (simp add: ready_list_def enqueue_def set_pcb_def Let_def)
next
  case False
  have "last xs \<noteq> p" "last xs \<noteq> 0" using assms(3) False chain_nonzero[of "pcbs s" _ xs "last xs"] assms(1)
    by (auto simp: ready_list_def)
  moreover have "chain (pcbs (enqueue p s)) (ready_queue_head s) (xs @ [p])"
    using assms False calculation
    by (intro chain_snoc[of "pcbs s"]) (auto simp: ready_list_def enqueue_def set_pcb_def Let_def)
  ultimately show ?thesis using assms False by (auto simp: ready_list_def enqueue_def set_pcb_def Let_def)
qed

lemma dequeue_empty: "ready_list s [] \<Longrightarrow> dequeue s = (0, s)"
  by (simp add: ready_list_def dequeue_def)

lemma dequeue_ready_list:
  assumes "ready_list s (x # xs)"
  shows "fst (dequeue s) = x" "ready_list (snd (dequeue s)) xs" "pcbs (snd (dequeue s)) = pcbs s"
    "g_current_proc (snd (dequeue s)) = g_current_proc s" "idle_proc (snd (dequeue s)) = idle_proc s"
    "scheduler_ready (snd (dequeue s)) = scheduler_ready s"
proof -
  have h: "ready_queue_head s = x" "x \<noteq> 0" "chain (pcbs s) (pcb_next (pcbs s x)) xs" using assms by (auto simp: ready_list_def)
  have e: "pcb_next (pcbs s x) = 0 \<longleftrightarrow> xs = []" using h(3) by (cases xs) auto
  show "fst (dequeue s) = x" "ready_list (snd (dequeue s)) xs" "pcbs (snd (dequeue s)) = pcbs s"
    "g_current_proc (snd (dequeue s)) = g_current_proc s" "idle_proc (snd (dequeue s)) = idle_proc s"
    "scheduler_ready (snd (dequeue s)) = scheduler_ready s"
    using h e assms by (auto simp: dequeue_def Let_def ready_list_def)
qed

text \<open>
  The ready queue as a queue in the sense of the contract, the state paired with the list of
  processes it holds.  A process can be added only while it is not in the queue.
\<close>

interpretation rq: fifo_queue
  "\<lambda>(s, xs). ready_list s xs" snd "\<lambda>(s, xs). (fst (dequeue s), (snd (dequeue s), tl xs))" 0
  "\<lambda>p (s, xs). (enqueue p s, xs @ [p])" "\<lambda>(s, xs) p. p \<noteq> 0 \<and> p \<notin> set xs"
proof unfold_locales
  fix q :: "'a proc_state_scheme \<times> u64 list" and x xs
  obtain s ys where q: "q = (s, ys)" by (cases q)
  assume inv: "(\<lambda>(s, xs). ready_list s xs) q"
  show "(\<lambda>(s, xs). ready_list s xs) (snd ((\<lambda>(s, xs). (fst (dequeue s), (snd (dequeue s), tl xs))) q))"
    using inv dequeue_empty[of s] dequeue_ready_list(2)[of s] by (cases ys) (auto simp: q)
  show "fst ((\<lambda>(s, xs). (fst (dequeue s), (snd (dequeue s), tl xs))) q) = 0
      \<and> snd (snd ((\<lambda>(s, xs). (fst (dequeue s), (snd (dequeue s), tl xs))) q)) = []" if "snd q = []"
    using inv that dequeue_empty[of s] by (simp add: q)
  show "fst ((\<lambda>(s, xs). (fst (dequeue s), (snd (dequeue s), tl xs))) q) = x
      \<and> snd (snd ((\<lambda>(s, xs). (fst (dequeue s), (snd (dequeue s), tl xs))) q)) = xs" if "snd q = x # xs"
    using inv that dequeue_ready_list(1)[of s x xs] by (simp add: q)
  show "(\<lambda>(s, xs). ready_list s xs) ((\<lambda>p (s, xs). (enqueue p s, xs @ [p])) x q)" if "(\<lambda>(s, xs) p. p \<noteq> 0 \<and> p \<notin> set xs) q x"
    using inv that enqueue_ready_list[of s ys x] by (simp add: q)
  show "snd ((\<lambda>p (s, xs). (enqueue p s, xs @ [p])) x q) = snd q @ [x]" if "(\<lambda>(s, xs) p. p \<noteq> 0 \<and> p \<notin> set xs) q x"
    by (simp add: q)
qed

end
