(* ===== verification/Heap_Frame.thy ===== *)
theory Heap_Frame
  imports Heap_Grow
begin

text \<open>
  What the heap operations leave alone: every field of the state besides the heap's own variables, the frame allocator
  and memory, in particular all fields of the components built on top of the heap.
\<close>

definition heap_rest :: "'a heap_state_scheme \<Rightarrow> 'a heap_state_scheme" where
  "heap_rest s = s\<lparr>mem := \<lambda>_. 0, pmm := \<lparr>pmm_bitmap = \<lambda>_. 0, total_pages = 0, used_pages = 0\<rparr>, hmem := \<lambda>_. 0,
     heap_mapped_size := 0, heap_allocated_bytes := 0, free_list_head := 0\<rparr>"

lemma heap_rest_upd [simp]:
  "heap_rest (s\<lparr>mem := m\<rparr>) = heap_rest s" "heap_rest (s\<lparr>pmm := q\<rparr>) = heap_rest s" "heap_rest (s\<lparr>hmem := h\<rparr>) = heap_rest s"
  "heap_rest (s\<lparr>heap_mapped_size := a\<rparr>) = heap_rest s" "heap_rest (s\<lparr>heap_allocated_bytes := b\<rparr>) = heap_rest s"
  "heap_rest (s\<lparr>free_list_head := c\<rparr>) = heap_rest s"
  by (simp_all add: heap_rest_def)

lemma heap_rest_fields:
  assumes "heap_rest t = heap_rest s"
  shows "t = s\<lparr>mem := mem t, pmm := pmm t, hmem := hmem t, heap_mapped_size := heap_mapped_size t,
    heap_allocated_bytes := heap_allocated_bytes t, free_list_head := free_list_head t\<rparr>"
  using assms by (cases s, cases t) (simp add: heap_rest_def)

lemma heap_rest_blocks [simp]:
  "heap_rest (hpoke a v s) = heap_rest s" "heap_rest (blk_set_size p z al s) = heap_rest s"
  "heap_rest (blk_set_prev_free p v s) = heap_rest s" "heap_rest (blk_set_next_free p v s) = heap_rest s"
  "heap_rest (blk_set_magic p s) = heap_rest s" "heap_rest (set_footer p s) = heap_rest s"
  "heap_rest (list_remove p s) = heap_rest s" "heap_rest (list_insert_head p s) = heap_rest s"
  by (simp_all add: hpoke_def blk_set_size_def blk_set_prev_free_def blk_set_next_free_def blk_set_magic_def set_footer_def
      list_remove_def list_insert_head_def Let_def)

lemma heap_rest_map_page [simp]: "heap_rest (snd (map_heap_page v s)) = heap_rest s"
proof -
  obtain m p where "snd (vmm_alloc_map v VMM_KERN_RW s) = s\<lparr>mem := m, pmm := p\<rparr>"
    using vmm_rest_fields[OF vmm_rest_alloc_map[of v VMM_KERN_RW s]] by blast
  then show ?thesis by (simp add: map_heap_page_def case_prod_beta Let_def)
qed

lemma heap_rest_expand: "expand_loop needed cur s = Some r \<Longrightarrow> heap_rest (snd r) = heap_rest s"
proof (induction rule: expand_loop.raw_induct[rotated, consumes 1])
  case (1 f needed cur s r)
  then show ?case by (fastforce split: if_splits)
qed

lemma heap_rest_grow: "grow_heap tot s = Some r \<Longrightarrow> heap_rest (snd r) = heap_rest s"
  using heap_rest_expand[of _ _ s]
  by (fastforce simp: grow_heap_def expand_to_def Let_def split: option.splits prod.splits bool.splits)

lemma heap_rest_place [simp]: "heap_rest (snd (place_block best tot s)) = heap_rest s"
  by (simp add: place_block_def split_block_def take_block_def Let_def)

lemma heap_rest_kmalloc:
  assumes "kmalloc sz s = Some (p, t)"
  shows "heap_rest t = heap_rest s"
proof -
  have place: "heap_rest t = heap_rest u" if "place_block b n u = (p, t)" for b n u
    using heap_rest_place[of b n u] that by simp
  have grow: "heap_rest u = heap_rest s" if "grow_heap n s = Some (b, u)" for b n u
    using heap_rest_grow[OF that] by simp
  show ?thesis
    using assms place[of _ _ s] place grow
    by (auto simp: kmalloc_def Let_def split: if_splits option.splits)
qed

lemma heap_rest_merge [simp]: "heap_rest (snd (merge_next p s)) = heap_rest s" "heap_rest (snd (merge_prev p s)) = heap_rest s"
  by (simp_all add: merge_next_def merge_prev_def Let_def)

lemma heap_rest_kfree: "heap_rest (kfree p s) = heap_rest s"
  by (simp add: kfree_def Let_def case_prod_beta)

text \<open>The heap invariant speaks of the heap's own fields only, whatever the state is extended with.\<close>

lemma heap_inv_cong:
  fixes s :: "'a heap_state_scheme" and t :: "'b heap_state_scheme"
  assumes "hmem t = hmem s" "heap_start t = heap_start s" "heap_max_size t = heap_max_size s"
    "heap_mapped_size t = heap_mapped_size s" "free_list_head t = free_list_head s"
  shows "heap_inv t B fl = heap_inv s B fl"
  using assms by (simp add: heap_inv_def heap_bounds_def)

lemma heap_inv_say [simp]: "heap_inv (say str s) B fl = heap_inv s B fl" "heap_inv (paint fg bg s) B fl = heap_inv s B fl"
  by (intro heap_inv_cong; simp add: say_def paint_def)+

end
