(* ===== verification/Sched_Properties.thy ===== *)
theory Sched_Properties
  imports Sched Keyboard_Properties Heap_Properties Heap_Frame
begin

text \<open>
  Properties of the scheduler: its invariant, round-robin order and fairness, the start-up on the kernel heap, and what happens
  when a process that is still queued becomes the current one.
\<close>

section \<open>Round robin\<close>

text \<open>The invariant: \<open>xs\<close> is the ready queue, the current process is not in it, and the idle process is one of them.\<close>

definition sched_inv :: "'a proc_state_scheme \<Rightarrow> u64 list \<Rightarrow> bool" where
  "sched_inv s xs \<longleftrightarrow> ready_list s xs \<and> scheduler_ready s \<and> g_current_proc s \<noteq> 0 \<and> g_current_proc s \<notin> set xs
     \<and> idle_proc s \<in> insert (g_current_proc s) (set xs)
     \<and> (g_current_proc s = idle_proc s \<longrightarrow> pcb_state (pcbs s (idle_proc s)) = PROC_RUNNING)"

lemma enqueue_fields:
  "g_current_proc (enqueue p s) = g_current_proc s" "idle_proc (enqueue p s) = idle_proc s"
  "scheduler_ready (enqueue p s) = scheduler_ready s"
  by (simp_all add: enqueue_def set_pcb_def Let_def)

lemma set_pcb_fields [simp]:
  "g_current_proc (set_pcb p f s) = g_current_proc s" "idle_proc (set_pcb p f s) = idle_proc s"
  "scheduler_ready (set_pcb p f s) = scheduler_ready s" "ready_queue_tail (set_pcb p f s) = ready_queue_tail s"
  "ready_queue_head (set_pcb p f s) = ready_queue_head s"
  "pcbs (set_pcb p f s) q = (if q = p then f (pcbs s p) else pcbs s q)"
  by (simp_all add: set_pcb_def)

lemma set_pcb_ready_list: "(\<And>b. pcb_next (f b) = pcb_next b) \<Longrightarrow> ready_list (set_pcb p f s) xs = ready_list s xs"
proof -
  assume "\<And>b. pcb_next (f b) = pcb_next b"
  then have "chain (pcbs (set_pcb p f s)) h xs = chain (pcbs s) h xs" for h by (intro chain_cong) simp
  then show "ready_list (set_pcb p f s) xs = ready_list s xs" by (simp add: ready_list_def)
qed

lemma current_ready_list: "ready_list (s\<lparr>g_current_proc := p\<rparr>) xs = ready_list s xs"
  by (simp add: ready_list_def)

lemma schedule_step:
  assumes "sched_inv s xs"
  shows "case xs of [] \<Rightarrow> schedule s = (None, s)
    | x # ys \<Rightarrow> fst (schedule s) = Some x \<and> g_current_proc (snd (schedule s)) = x
        \<and> pcb_state (pcbs (snd (schedule s)) x) = PROC_RUNNING
        \<and> sched_inv (snd (schedule s))
            (if pcb_state (pcbs s (g_current_proc s)) = PROC_RUNNING then ys @ [g_current_proc s] else ys)"
proof (cases xs)
  case Nil
  then have "ready_list s []" "g_current_proc s = idle_proc s" "scheduler_ready s" using assms by (auto simp: sched_inv_def)
  then show ?thesis using Nil dequeue_empty[of s] by (simp add: schedule_def Let_def)
next
  case (Cons x ys)
  obtain y d where y: "dequeue s = (y, d)" by (cases "dequeue s")
  let ?p = "g_current_proc s" and ?d = d
  have inv: "ready_list s (x # ys)" "scheduler_ready s" "?p \<noteq> 0" "?p \<noteq> x" "?p \<notin> set ys"
    "idle_proc s \<in> insert ?p (insert x (set ys))" "?p = idle_proc s \<longrightarrow> pcb_state (pcbs s (idle_proc s)) = PROC_RUNNING"
    using assms Cons by (auto simp: sched_inv_def)
  note d = dequeue_ready_list[OF inv(1), unfolded y fst_conv snd_conv]
  have x0: "x \<noteq> 0" "x \<notin> set ys" using inv(1) by (auto simp: ready_list_def)
  have eq: "dequeue s = (x, ?d)" using d(1) y by simp
  let ?run = "pcb_state (pcbs s ?p) = PROC_RUNNING"
  let ?e = "if ?run then set_pcb ?p (\<lambda>b. b\<lparr>pcb_state := PROC_READY\<rparr>) (enqueue ?p ?d) else ?d"
  let ?t = "set_pcb x (\<lambda>b. b\<lparr>pcb_state := PROC_RUNNING\<rparr>) (?e\<lparr>g_current_proc := x\<rparr>)"
  have sch: "schedule s = (Some x, ?t)"
    using inv(2,4) x0(1) d(3) by (simp add: schedule_def eq Let_def)
  have rl: "ready_list ?t (if ?run then ys @ [?p] else ys)"
    using enqueue_ready_list[OF d(2) inv(3,5)] d(2) by (simp add: set_pcb_ready_list current_ready_list)
  have flds: "g_current_proc ?t = x" "idle_proc ?t = idle_proc s" "scheduler_ready ?t" "pcb_state (pcbs ?t x) = PROC_RUNNING"
    using inv(2) d(4,5,6) by (cases ?run; simp add: enqueue_fields)+
  have "sched_inv ?t (if ?run then ys @ [?p] else ys)"
    unfolding sched_inv_def using rl flds x0 inv(4,6,7) by auto
  then show ?thesis using sch flds Cons by simp
qed

text \<open>
  C4: \<^verbatim>\<open>schedule\<close> is a round-robin step that keeps the scheduler's invariant: it switches to the head of the ready
  queue and appends the current process if that is still running (an exited one is dropped); with an empty queue it returns and
  changes nothing.
\<close>

theorem schedule_round_robin:
  assumes "sched_inv s xs"
  shows "case xs of [] \<Rightarrow> schedule s = (None, s)
    | x # ys \<Rightarrow> fst (schedule s) = Some x \<and> g_current_proc (snd (schedule s)) = x
        \<and> pcb_state (pcbs (snd (schedule s)) x) = PROC_RUNNING
        \<and> sched_inv (snd (schedule s))
            (if pcb_state (pcbs s (g_current_proc s)) = PROC_RUNNING then ys @ [g_current_proc s] else ys)"
  using assms by (rule schedule_step)

definition proc_example :: "proc_state" where
  "proc_example = keyboard.extend (keyboard_example (\<lambda>h l. 0)) (proc_state.fields
     (\<lambda>p. \<lparr>pcb_rsp = 0, pcb_cr3 = 0, pcb_pid = 0, pcb_state = (if p = 8 then PROC_RUNNING else PROC_READY), pcb_time_slice = 0,
           pcb_next = (if p = 16 then 24 else 0), pcb_user_stack = 0, pcb_entry_point = 0, pcb_fds = [], pcb_kernel_stack = 0\<rparr>)
     8 16 24 3 0 8 True)"

lemma proc_example_inv: "sched_inv proc_example [16, 24]"
  by (simp add: sched_inv_def ready_list_def proc_example_def keyboard.defs proc_state.defs)

theorem schedule_round_robin_witness:
  "fst (schedule proc_example) = Some 16 \<and> sched_inv (snd (schedule proc_example)) [24, 8]"
proof -
  have "pcb_state (pcbs proc_example (g_current_proc proc_example)) = PROC_RUNNING" "g_current_proc proc_example = 8"
    by (simp_all add: proc_example_def keyboard.defs proc_state.defs)
  then show ?thesis using schedule_round_robin[OF proc_example_inv] by simp
qed

section \<open>Fairness\<close>

lemma schedule_rotates:
  assumes "sched_inv s (x # ys)" "pcb_state (pcbs s (g_current_proc s)) = PROC_RUNNING"
  shows "sched_inv (snd (schedule s)) (ys @ [g_current_proc s])" "g_current_proc (snd (schedule s)) = x"
    "pcb_state (pcbs (snd (schedule s)) (g_current_proc (snd (schedule s)))) = PROC_RUNNING"
  using schedule_step[OF assms(1)] assms(2) by simp_all

text \<open>
  C19: No ready process starves: as long as every process just keeps running until it is preempted, the process at
  position \<open>k\<close> of the ready queue is the current one after exactly \<open>k + 1\<close> calls of \<^verbatim>\<open>schedule\<close>.
\<close>

theorem schedule_fair:
  assumes "sched_inv s xs" "pcb_state (pcbs s (g_current_proc s)) = PROC_RUNNING" "k < length xs"
  shows "g_current_proc (((\<lambda>s. snd (schedule s)) ^^ Suc k) s) = xs ! k"
  using assms
proof (induction k arbitrary: s xs)
  case 0
  then obtain x ys where "xs = x # ys" by (cases xs) auto
  then show ?case using schedule_rotates(2) 0 by auto
next
  case (Suc k)
  then obtain x ys where xs: "xs = x # ys" by (cases xs) auto
  note r = schedule_rotates[OF Suc.prems(1)[unfolded xs] Suc.prems(2)]
  have "g_current_proc (((\<lambda>s. snd (schedule s)) ^^ Suc k) (snd (schedule s))) = (ys @ [g_current_proc s]) ! k"
    by (rule Suc.IH[OF r(1,3)]) (use Suc.prems(3) xs in simp)
  moreover have "((\<lambda>s. snd (schedule s)) ^^ Suc (Suc k)) s = ((\<lambda>s. snd (schedule s)) ^^ Suc k) (snd (schedule s))"
    by (simp only: funpow_Suc_right comp_apply)
  ultimately show ?case using xs Suc.prems(3) by (simp add: nth_append del: funpow.simps)
qed

theorem schedule_fair_witness:
  "g_current_proc (((\<lambda>s. snd (schedule s)) ^^ Suc 1) proc_example) = 24"
proof -
  have "pcb_state (pcbs proc_example (g_current_proc proc_example)) = PROC_RUNNING"
    by (simp add: proc_example_def keyboard.defs proc_state.defs)
  from schedule_fair[OF proc_example_inv this, of 1] show ?thesis by simp
qed

section \<open>A queued current process\<close>

lemma chain_last: "chain m p xs \<Longrightarrow> xs \<noteq> [] \<Longrightarrow> pcb_next (m (last xs)) = 0"
proof (induction xs arbitrary: p)
  case (Cons x xs)
  then show ?case by (cases xs) auto
qed simp

text \<open>
  The system call \<^verbatim>\<open>execve\<close> makes a process current that \<^verbatim>\<open>proc_create_from_elf\<close> has just appended to the ready queue.
  When another process is ahead of it, the next call of \<^verbatim>\<open>schedule\<close> links the process to itself, so that the queue is no list any more.
\<close>

theorem schedule_breaks_queue:
  assumes "ready_list s (x # ys @ [g_current_proc s])" "scheduler_ready s"
    "pcb_state (pcbs s (g_current_proc s)) = PROC_RUNNING"
  shows "pcb_next (pcbs (snd (schedule s)) (g_current_proc s)) = g_current_proc s
    \<and> (\<forall>xs. \<not> ready_list (snd (schedule s)) xs)"
proof -
  obtain y d where y: "dequeue s = (y, d)" by (cases "dequeue s")
  let ?p = "g_current_proc s" and ?d = d
  note d = dequeue_ready_list[OF assms(1), unfolded y fst_conv snd_conv]
  have eq: "dequeue s = (x, ?d)" using d(1) y by simp
  have c: "chain (pcbs s) (ready_queue_head s) (x # ys @ [?p])" using assms(1) by (simp add: ready_list_def)
  have x0: "x \<noteq> 0" "?p \<noteq> 0" using chain_nonzero[OF c] by auto
  have xp: "x \<noteq> ?p" using assms(1) by (auto simp: ready_list_def)
  have tail: "ready_queue_tail ?d = ?p" using d(2) by (simp add: ready_list_def)
  have "snd (schedule s) = set_pcb x (\<lambda>b. b\<lparr>pcb_state := PROC_RUNNING\<rparr>)
      ((set_pcb ?p (\<lambda>b. b\<lparr>pcb_state := PROC_READY\<rparr>) (enqueue ?p ?d))\<lparr>g_current_proc := x\<rparr>)"
    using assms(2,3) x0 xp d(3) by (simp add: schedule_def eq Let_def)
  then have loop: "pcb_next (pcbs (snd (schedule s)) ?p) = ?p" and t: "ready_queue_tail (snd (schedule s)) = ?p"
    using x0 xp tail by (simp_all add: enqueue_def Let_def)
  have "\<not> ready_list (snd (schedule s)) xs" for xs
    using chain_last[of "pcbs (snd (schedule s))" _ xs] loop t x0(2) by (auto simp: ready_list_def)
  then show ?thesis using loop by blast
qed

definition proc_example_queued :: proc_state where
  "proc_example_queued = proc_example\<lparr>g_current_proc := 24, pcbs := (pcbs proc_example)(24 := (pcbs proc_example 24)\<lparr>pcb_state := PROC_RUNNING\<rparr>)\<rparr>"

theorem schedule_breaks_queue_witness:
  "pcb_next (pcbs (snd (schedule proc_example_queued)) 24) = 24"
proof -
  have "ready_list proc_example_queued (16 # [] @ [24])" "scheduler_ready proc_example_queued"
    "pcb_state (pcbs proc_example_queued 24) = PROC_RUNNING" and c: "g_current_proc proc_example_queued = 24"
    by (simp_all add: ready_list_def proc_example_queued_def proc_example_def keyboard.defs proc_state.defs)
  then show ?thesis using schedule_breaks_queue[of proc_example_queued 16 "[]"] unfolding c by simp
qed

section \<open>Start-up\<close>

lemma fill64_bytes_outside:
  assumes "8 * n \<le> m" "m < 18446744073709551616" "\<not> unat (x - p) < m"
  shows "fill64 h p g n x = h x"
  using assms(1)
proof (induction n)
  case (Suc n)
  have "\<not> unat (x - (p + 8 * word_of_nat n)) < 8"
  proof
    assume l: "unat (x - (p + 8 * word_of_nat n)) < 8"
    have u: "unat (8 * word_of_nat n :: u64) = 8 * n" using unat_of_nat64[of "8 * n"] Suc.prems assms(2) by simp
    have "x - p = 8 * word_of_nat n + (x - (p + 8 * word_of_nat n))" by simp
    then have "unat (x - p) = 8 * n + unat (x - (p + 8 * word_of_nat n))"
      using unat_add64[of "8 * word_of_nat n" "x - (p + 8 * word_of_nat n)"] u l Suc.prems assms(2) by simp
    then show False using l Suc.prems assms(3) by simp
  qed
  then show ?case using Suc by (simp add: store64_def)
qed simp

lemma stack_top:
  assumes "unat k = a + 32" "16 dvd a" "a + 32 + 8192 < 18446744073709551616"
  shows "(k + KERNEL_STACK_SIZE) AND NOT 0xF = k + KERNEL_STACK_SIZE"
proof -
  have u: "unat (k + KERNEL_STACK_SIZE) = a + 32 + 8192" using assms unat_add64[of k 8192] by simp
  have "(0xF :: u64) = mask 4" by (simp add: mask_numeral)
  then have "(k + KERNEL_STACK_SIZE) AND 0xF = take_bit 4 (k + KERNEL_STACK_SIZE)" by (simp add: take_bit_eq_mask)
  moreover have "take_bit 4 (unat (k + KERNEL_STACK_SIZE)) = 0"
    unfolding u using assms(2) by (auto simp: take_bit_eq_mod)
  ultimately have z: "(k + KERNEL_STACK_SIZE) AND 0xF = 0" by (simp add: word_unat_eq_iff unsigned_take_bit_eq)
  have "(k + KERNEL_STACK_SIZE) = ((k + KERNEL_STACK_SIZE) AND 0xF) OR ((k + KERNEL_STACK_SIZE) AND NOT 0xF)"
    by (rule bit_word_eqI) (simp only: bit_or_iff bit_and_iff bit_not_iff, auto)
  then show ?thesis unfolding z by simp
qed

text \<open>A frame of \<open>n\<close> words at the top of a freshly allocated kernel stack.\<close>

lemma stack_frame:
  assumes inv: "heap_inv s B fl" and a: "B a = Some (w, True)" "unat k = a + 32" "8192 + 48 \<le> w" and n: "8 * n \<le> 8192"
  defines "sp \<equiv> ((k + KERNEL_STACK_SIZE) AND NOT 0xF) - 8 * word_of_nat n"
  shows "heap_inv (s\<lparr>hmem := fill64 (hmem s) sp g n\<rparr>) B fl" "unat sp = a + 32 + 8192 - 8 * n"
    "\<And>i. i < n \<Longrightarrow> load64 (fill64 (hmem s) sp g n) (sp + 8 * word_of_nat i) = g i"
proof -
  have sp_lt: "a + w < 18446744073709551616" by (rule block_in_space[OF inv a(1)])
  have d: "16 dvd a" using layoutD(3)[OF heap_invD(2)[OF inv] a(1)] .
  have top: "(k + KERNEL_STACK_SIZE) AND NOT 0xF = k + KERNEL_STACK_SIZE"
    using stack_top[OF a(2) d] sp_lt a(3) by simp
  have un: "unat (8 * word_of_nat n :: u64) = 8 * n" using unat_of_nat64[of "8 * n"] n by simp
  have uk: "unat (k + KERNEL_STACK_SIZE) = a + 32 + 8192" using unat_add64[of k 8192] a(2,3) sp_lt by simp
  show sp: "unat sp = a + 32 + 8192 - 8 * n"
    unfolding sp_def top using uk un n by (subst unat_sub64) (auto simp: word_le_nat_alt)
  have al: "aligned 3 sp"
  proof -
    have "8 dvd a" using d by (rule dvd_trans[rotated]) simp
    then have "8 dvd a + 32 + 8192 - 8 * n" by (intro dvd_diff_nat dvd_add) simp_all
    then show ?thesis unfolding aligned_def sp by simp
  qed
  show "load64 (fill64 (hmem s) sp g n) (sp + 8 * word_of_nat i) = g i" if "i < n" for i
    using that n by (intro load64_fill64_same[OF al]) simp_all
  show "heap_inv (s\<lparr>hmem := fill64 (hmem s) sp g n\<rparr>) B fl"
  proof (rule payload_write_inv[OF inv a(1)])
    fix x :: u64 assume x: "\<not> (a + 32 \<le> unat x \<and> unat x < a + w - 16)"
    have "\<not> unat (x - sp) < 8 * n"
    proof
      assume l: "unat (x - sp) < 8 * n"
      have "unat (sp + (x - sp)) = unat sp + unat (x - sp)"
        using l sp n sp_lt a(3) by (intro unat_add64) linarith
      then have "unat x = unat sp + unat (x - sp)" by simp
      then show False using x l sp n a(3) by linarith
    qed
    then show "fill64 (hmem s) sp g n x = hmem s x"
      using n by (intro fill64_bytes_outside[of n "8 * n"]) simp_all
  qed
qed

lemma kmalloc_proc_fields:
  assumes "kmalloc sz s = Some (k, u)"
  shows "idle_proc u = idle_proc s" "pcbs u = pcbs s" "ready_queue_head u = ready_queue_head s" "ready_queue_tail u = ready_queue_tail s"
proof -
  obtain m p h x y z where "u = s\<lparr>mem := m, pmm := p, hmem := h, heap_mapped_size := x, heap_allocated_bytes := y, free_list_head := z\<rparr>"
    using heap_rest_fields[OF heap_rest_kmalloc[OF assms]] by blast
  then show "idle_proc u = idle_proc s" "pcbs u = pcbs s" "ready_queue_head u = ready_queue_head s" "ready_queue_tail u = ready_queue_tail s"
    by simp_all
qed

text \<open>The words of the frame at the top of the stack, as the processor takes them from the lowest address up.\<close>

lemma idle_frame_words:
  "i < 17 \<Longrightarrow> idle_frame entry ! i = 0" "idle_frame entry ! 17 = entry" "idle_frame entry ! 18 = 0x08" "idle_frame entry ! 19 = 0x202"
  by (simp_all add: idle_frame_def nth_append)

lemma scheduler_init_frame:
  assumes k: "kmalloc KERNEL_STACK_SIZE s = Some (k, u)" "heap_inv u B' fl'" "alloc_result s B KERNEL_STACK_SIZE k u B'" "k \<noteq> 0"
    and idle: "idle_proc s \<noteq> 0" and rl: "ready_list s []"
  shows "\<exists>t a w sp. scheduler_init entry s = Some t \<and> heap_inv t B' fl' \<and> sched_inv t [] \<and> g_current_proc t = idle_proc t
    \<and> B' a = Some (w, True) \<and> (\<forall>y. B a \<noteq> Some (y, True)) \<and> pcb_rsp (pcbs t (idle_proc t)) = sp
    \<and> a + 32 \<le> unat sp \<and> unat sp + 160 = a + 32 + 8192 \<and> a + 32 + 8192 \<le> a + w - 16
    \<and> (\<forall>i < 20. load64 (hmem t) (sp + 8 * word_of_nat i) = idle_frame entry ! i)"
proof -
  obtain a w where a: "unat k = a + 32" "B' a = Some (w, True)" "\<forall>y. B a \<noteq> Some (y, True)" "8192 + 48 \<le> w"
    using k(3,4) by (auto simp: alloc_result_def)
  let ?sp = "((k + KERNEL_STACK_SIZE) AND NOT 0xF) - 8 * 20"
  let ?m = "fill64 (hmem u) ?sp (\<lambda>i. idle_frame entry ! i) 20"
  note f = stack_frame(1,3)[OF k(2) a(2,1,4), where n = 20 and g = "\<lambda>i. idle_frame entry ! i"]
    and f2 = stack_frame(2)[OF k(2) a(2,1,4), where n = 20]
  let ?v = "(set_pcb (idle_proc u) (\<lambda>b. b\<lparr>pcb_kernel_stack := k, pcb_rsp := ?sp, pcb_pid := 0,
      pcb_state := PROC_RUNNING, pcb_cr3 := 0, pcb_entry_point := 0, pcb_user_stack := 0\<rparr>) (u\<lparr>hmem := ?m\<rparr>))
      \<lparr>g_current_proc := idle_proc u, scheduler_ready := True\<rparr>"
  let ?t = "say ''[OK] Scheduler initialized\<newline>'' ?v"
  have eq: "scheduler_init entry s = Some ?t" using k(4) by (simp add: scheduler_init_def k(1) Let_def set_pcb_def)
  have "heap_inv ?v B' fl' = heap_inv (u\<lparr>hmem := ?m\<rparr>) B' fl'" by (rule heap_inv_cong) (simp_all add: set_pcb_def)
  then have inv: "heap_inv ?t B' fl'" using f(1) by simp
  have sched: "sched_inv ?t []" and cur: "g_current_proc ?t = idle_proc ?t"
    using idle rl kmalloc_proc_fields[OF k(1)] by (simp_all add: sched_inv_def ready_list_def say_def)
  have rsp: "pcb_rsp (pcbs ?t (idle_proc ?t)) = ?sp" and hm: "hmem ?t = ?m" by (simp_all add: say_def set_pcb_def)
  have range: "a + 32 \<le> unat ?sp" "unat ?sp + 160 = a + 32 + 8192" "a + 32 + 8192 \<le> a + w - 16" using f2 a(4) by simp_all
  have words: "\<forall>i < 20. load64 (hmem ?t) (?sp + 8 * word_of_nat i) = idle_frame entry ! i"
    unfolding hm using f(2) by simp
  show ?thesis
    by (intro exI[of _ ?t] exI[of _ a] exI[of _ w] exI[of _ ?sp] conjI) (rule eq inv sched cur a(2,3) rsp range words)+
qed

text \<open>
  C33: On a consistent heap \<^verbatim>\<open>scheduler_init\<close> returns unless the idle stack cannot be allocated (then it halts), in particular whenever a
  free block of 8240 bytes exists.  When it returns, the idle process is current, the scheduler's invariant holds with an
  empty ready queue, and the heap is consistent.  The frame the idle process is resumed from fills the top of a stack block of its own and
  holds zero in the seventeen words of the registers, then the entry point, the kernel code segment and flags with interrupts
  enabled.  It ends exactly where the stack ends: the stack pointer and stack segment that the 64-bit interrupt return takes from
  the two words behind it are not part of it.
\<close>

theorem scheduler_init_correct:
  assumes inv: "heap_inv s B fl" and idle: "idle_proc s \<noteq> 0" and rl: "ready_list s []"
  shows "(scheduler_init entry s = None \<longleftrightarrow> (\<exists>u. kmalloc KERNEL_STACK_SIZE s = Some (0, u)))
    \<and> (\<forall>b \<in> set fl. \<forall>z. B b = Some (z, False) \<and> 8240 \<le> z \<longrightarrow> scheduler_init entry s \<noteq> None)
    \<and> (\<forall>t. scheduler_init entry s = Some t \<longrightarrow> (\<exists>B' fl' a w sp. heap_inv t B' fl' \<and> sched_inv t [] \<and> g_current_proc t = idle_proc t
         \<and> B' a = Some (w, True) \<and> (\<forall>y. B a \<noteq> Some (y, True)) \<and> pcb_rsp (pcbs t (idle_proc t)) = sp
         \<and> a + 32 \<le> unat sp \<and> unat sp + 160 = a + 32 + 8192 \<and> a + 32 + 8192 \<le> a + w - 16
         \<and> (\<forall>i < 17. load64 (hmem t) (sp + 8 * word_of_nat i) = 0) \<and> load64 (hmem t) (sp + 8 * 17) = entry
         \<and> load64 (hmem t) (sp + 8 * 18) = 0x08 \<and> load64 (hmem t) (sp + 8 * 19) = 0x202))"
proof -
  obtain k u B' fl' where k: "kmalloc KERNEL_STACK_SIZE s = Some (k, u)" "heap_inv u B' fl'" "alloc_result s B KERNEL_STACK_SIZE k u B'"
    and fit: "k = 0 \<Longrightarrow> \<forall>a \<in> set fl. \<forall>z. B a = Some (z, False) \<longrightarrow> z < unat (block_total KERNEL_STACK_SIZE)"
    using kmalloc_spec[OF inv, of KERNEL_STACK_SIZE] by (auto simp: alloc_result_def)
  have total: "unat (block_total KERNEL_STACK_SIZE) = 8240" by (simp add: block_total_def)
  show ?thesis
  proof (cases "k = 0")
    case True
    then have "scheduler_init entry s = None" by (simp add: scheduler_init_def k(1))
    then show ?thesis using k(1) True fit unfolding total by fastforce
  next
    case False
    obtain t a w sp where t: "scheduler_init entry s = Some t" "heap_inv t B' fl'" "sched_inv t []" "g_current_proc t = idle_proc t"
      "B' a = Some (w, True)" "\<forall>y. B a \<noteq> Some (y, True)" "pcb_rsp (pcbs t (idle_proc t)) = sp"
      "a + 32 \<le> unat sp" "unat sp + 160 = a + 32 + 8192" "a + 32 + 8192 \<le> a + w - 16"
      and words: "\<And>i. i < 20 \<Longrightarrow> load64 (hmem t) (sp + 8 * word_of_nat i) = idle_frame entry ! i"
      using scheduler_init_frame[OF k False idle rl, of entry] by blast
    have "load64 (hmem t) (sp + 8 * 17) = entry" "load64 (hmem t) (sp + 8 * 18) = 0x08" "load64 (hmem t) (sp + 8 * 19) = 0x202"
      using words[of 17] words[of 18] words[of 19] by (simp_all add: idle_frame_words)
    moreover have "\<forall>i < 17. load64 (hmem t) (sp + 8 * word_of_nat i) = 0" using words by (simp add: idle_frame_words)
    ultimately show ?thesis using t k(1) False by auto
  qed
qed

definition proc_example_heap :: proc_state where
  "proc_example_heap = proc_example\<lparr>hmem := hmem heap_example_big, heap_start := heap_start heap_example_big,
     heap_max_size := heap_max_size heap_example_big, heap_mapped_size := heap_mapped_size heap_example_big,
     free_list_head := free_list_head heap_example_big, ready_queue_head := 0, ready_queue_tail := 0\<rparr>"

lemma proc_example_heap_inv: "heap_inv proc_example_heap [unat VMM_HEAP_BASE \<mapsto> (16384, False)] [unat VMM_HEAP_BASE]"
  using heap_example_big_inv by (subst heap_inv_cong[of _ heap_example_big]) (simp_all add: proc_example_heap_def)

theorem scheduler_init_correct_witness:
  "\<exists>t. scheduler_init 0x100000 proc_example_heap = Some t \<and> sched_inv t []
    \<and> load64 (hmem t) (pcb_rsp (pcbs t (idle_proc t)) + 8 * 17) = 0x100000"
proof -
  have "idle_proc proc_example_heap \<noteq> 0" "ready_list proc_example_heap []"
    by (simp_all add: proc_example_heap_def proc_example_def ready_list_def keyboard.defs proc_state.defs)
  note c = scheduler_init_correct[OF proc_example_heap_inv this, of "0x100000"]
  have "scheduler_init 0x100000 proc_example_heap \<noteq> None"
    using c[THEN conjunct2, THEN conjunct1] by simp
  then obtain t where "scheduler_init 0x100000 proc_example_heap = Some t" by auto
  then show ?thesis using c by blast
qed

end
