(* ===== verification/Interrupts.thy ===== *)
theory Interrupts
  imports Sched
begin

text \<open>
  Descriptor tables, the timer and interrupt dispatch: \<^verbatim>\<open>kernel/EarlyKernel/gdt.c\<close>, the gates and the
  interrupt part of \<^verbatim>\<open>kernel/EarlyKernel/idt.c\<close> and \<^verbatim>\<open>kernel/BasicDrivers/apic_timer.c\<close>.  Addresses of assembly
  entry points and stacks are linker symbols, kept in a record.  Function pointers are the
  functions the kernel registers.  A handler that ends in a context switch does not return: the
  dispatch result holds the process switched to, and None outside is a wait that never ends.
\<close>

section \<open>State\<close>

record tss_entry =
  tss_rsp0 :: u64
  tss_ist1 :: u64
  tss_ist2 :: u64
  tss_ist3 :: u64
  tss_iopb_offset :: u16

record idt_entry =
  offset_low :: u16
  gate_selector :: u16
  gate_ist :: u8
  type_attr :: u8
  offset_mid :: u16
  offset_high :: u32
  gate_reserved :: u32

datatype irq_handler_fn = Apic_timer_irq_handler | Keyboard_irq_handler

datatype timer_callback_t = Keyboard_timer_tick

record symbols =
  sym_kernel_tss :: u64
  sym_gdt_entries :: u64
  sym_idt :: u64
  sym_kernel_interrupt_stack_top :: u64
  sym_double_fault_stack_top :: u64
  sym_nmi_stack_top :: u64
  sym_machine_check_stack_top :: u64
  isr_table :: "nat \<Rightarrow> u64"
  irq_table :: "nat \<Rightarrow> u64"
  isr_spurious :: u64
  isr80 :: u64

record kernel = proc_state +
  gdt_entries :: "u64 list"
  kernel_tss :: tss_entry
  gdtr :: "u64 \<times> u16"
  task_register :: u16
  idt :: "nat \<Rightarrow> idt_entry"
  idtr :: "u64 \<times> u16"
  irq_handlers :: "nat \<Rightarrow> irq_handler_fn option"
  timer_ticks :: u64
  timer_bus_freq :: u32
  timer_freq_hz :: u32
  timer_cb :: "timer_callback_t option"

abbreviation GDT_ENTRIES :: nat where "GDT_ENTRIES \<equiv> 7"
abbreviation IDT_ENTRIES :: nat where "IDT_ENTRIES \<equiv> 256"
abbreviation GDT_SELECTOR_KERNEL_CS :: u16 where "GDT_SELECTOR_KERNEL_CS \<equiv> 0x08"
abbreviation GDT_SELECTOR_USER_CS :: u16 where "GDT_SELECTOR_USER_CS \<equiv> 0x18"
abbreviation GDT_SELECTOR_TSS :: u16 where "GDT_SELECTOR_TSS \<equiv> 0x28"
abbreviation IDT_GATE_INTERRUPT :: u8 where "IDT_GATE_INTERRUPT \<equiv> 0x8E"
abbreviation TSS_SIZE :: u32 where "TSS_SIZE \<equiv> 104"

section \<open>Segment descriptors\<close>

definition make_seg :: "u32 \<Rightarrow> u32 \<Rightarrow> u8 \<Rightarrow> u8 \<Rightarrow> u64" where
  "make_seg limit base access flags =
     (let desc = 0;
          desc = desc OR ucast (limit AND 0xFFFF);
          desc = desc OR push_bit 16 (ucast (base AND 0xFFFF));
          desc = desc OR push_bit 32 (ucast (drop_bit 16 base) AND 0xFF);
          desc = desc OR push_bit 40 (ucast access);
          desc = desc OR push_bit 48 (ucast (drop_bit 16 limit) AND 0x0F);
          desc = desc OR push_bit 52 (ucast (flags AND 0x0F))
      in desc OR push_bit 56 (ucast (drop_bit 24 base) AND 0xFF))"

definition make_tss_desc :: "u64 \<Rightarrow> u32 \<Rightarrow> u64 \<times> u64" where
  "make_tss_desc base limit =
     (let low = 0;
          low = low OR ucast (limit AND 0xFFFF);
          low = low OR push_bit 16 (base AND 0xFFFF);
          low = low OR push_bit 32 (drop_bit 16 base AND 0xFF);
          low = low OR push_bit 40 0x89;
          low = low OR push_bit 48 (ucast (drop_bit 16 limit) AND 0x0F);
          low = low OR push_bit 56 (drop_bit 24 base AND 0xFF)
      in (low, drop_bit 32 base AND 0xFFFFFFFF))"

definition load_gdt :: "u64 \<Rightarrow> u16 \<Rightarrow> 'a kernel_scheme \<Rightarrow> 'a kernel_scheme" where
  "load_gdt gdt_base gdt_limit s = s\<lparr>gdtr := (gdt_base, gdt_limit)\<rparr>"

definition gdt_init :: "symbols \<Rightarrow> 'a kernel_scheme \<Rightarrow> 'a kernel_scheme" where
  "gdt_init sy s =
     (let g = replicate GDT_ENTRIES 0;
          g = g[0 := 0];
          g = g[1 := make_seg 0xFFFFF 0 0x9A 0xA];
          g = g[2 := make_seg 0xFFFFF 0 0x92 0xC];
          g = g[3 := make_seg 0xFFFFF 0 0xFA 0xA];
          g = g[4 := make_seg 0xFFFFF 0 0xF2 0xC];
          s = s\<lparr>kernel_tss := (kernel_tss s)\<lparr>tss_rsp0 := sym_kernel_interrupt_stack_top sy,
                tss_ist1 := sym_double_fault_stack_top sy, tss_ist2 := sym_nmi_stack_top sy,
                tss_ist3 := sym_machine_check_stack_top sy, tss_iopb_offset := ucast TSS_SIZE\<rparr>\<rparr>;
          (low, high) = make_tss_desc (sym_kernel_tss sy) (TSS_SIZE - 1);
          g = g[5 := low, 6 := high];
          s = load_gdt (sym_gdt_entries sy) 55 (s\<lparr>gdt_entries := g\<rparr>);
          s = s\<lparr>task_register := GDT_SELECTOR_TSS\<rparr>;
          star = push_bit 48 (ucast GDT_SELECTOR_KERNEL_CS) OR push_bit 32 (ucast (GDT_SELECTOR_USER_CS - 0x10));
          s = wrmsr 0xC0000081 star s;
          s = wrmsr 0xC0000084 0x200 s;
          (efer, s) = rdmsr 0xC0000080 s
      in wrmsr 0xC0000080 (efer OR 1) s)"

section \<open>Interrupt gates\<close>

definition idt_set_gate :: "u8 \<Rightarrow> u64 \<Rightarrow> u16 \<Rightarrow> u8 \<Rightarrow> u8 \<Rightarrow> 'a kernel_scheme \<Rightarrow> 'a kernel_scheme" where
  "idt_set_gate n handler selector attr ist s =
     s\<lparr>idt := (idt s)(unat n := \<lparr>offset_low = ucast (handler AND 0xFFFF), gate_selector = selector, gate_ist = ist,
        type_attr = attr, offset_mid = ucast (drop_bit 16 handler AND 0xFFFF),
        offset_high = ucast (drop_bit 32 handler AND 0xFFFFFFFF), gate_reserved = 0\<rparr>)\<rparr>"

text \<open>The loops of \<^verbatim>\<open>idt_init\<close>: clearing the offsets of the first \<open>n\<close> entries, and setting the gates below \<open>n\<close>.\<close>

primrec clear_gates :: "nat \<Rightarrow> 'a kernel_scheme \<Rightarrow> 'a kernel_scheme" where
  "clear_gates 0 s = s"
| "clear_gates (Suc i) s =
     (let s = clear_gates i s
      in s\<lparr>idt := (idt s)(i := (idt s i)\<lparr>offset_low := 0, offset_mid := 0, offset_high := 0\<rparr>)\<rparr>)"

definition exception_ist :: "nat \<Rightarrow> u8" where
  "exception_ist i = (if i = 2 then 2 else if i = 8 then 1 else if i = 18 then 3 else 0)"

primrec set_gates :: "nat \<Rightarrow> nat \<Rightarrow> (nat \<Rightarrow> u64) \<Rightarrow> (nat \<Rightarrow> u8) \<Rightarrow> 'a kernel_scheme \<Rightarrow> 'a kernel_scheme" where
  "set_gates base 0 tab ist s = s"
| "set_gates base (Suc i) tab ist s =
     idt_set_gate (word_of_nat (base + i)) (tab i) GDT_SELECTOR_KERNEL_CS IDT_GATE_INTERRUPT (ist i)
       (set_gates base i tab ist s)"

definition load_idt :: "symbols \<Rightarrow> 'a kernel_scheme \<Rightarrow> 'a kernel_scheme" where
  "load_idt sy s = s\<lparr>idtr := (sym_idt sy, 4095)\<rparr>"

definition idt_init :: "symbols \<Rightarrow> 'a kernel_scheme \<Rightarrow> 'a kernel_scheme" where
  "idt_init sy s =
     (let s = clear_gates IDT_ENTRIES s;
          s = set_gates 0 32 (isr_table sy) exception_ist s;
          s = load_idt sy s;
          s = idt_set_gate 0xFF (isr_spurious sy) GDT_SELECTOR_KERNEL_CS IDT_GATE_INTERRUPT 0 s;
          s = set_gates 0x20 16 (irq_table sy) (\<lambda>i. 0) s
      in idt_set_gate 0x80 (isr80 sy) GDT_SELECTOR_KERNEL_CS 0xEE 0 s)"

section \<open>Timer\<close>

abbreviation LAPIC_LVT_TIMER :: u32 where "LAPIC_LVT_TIMER \<equiv> 0x320"
abbreviation LAPIC_INIT_COUNT :: u32 where "LAPIC_INIT_COUNT \<equiv> 0x380"
abbreviation LAPIC_CUR_COUNT :: u32 where "LAPIC_CUR_COUNT \<equiv> 0x390"
abbreviation LAPIC_DIV_CONF :: u32 where "LAPIC_DIV_CONF \<equiv> 0x3E0"
abbreviation LAPIC_DIV_16 :: u32 where "LAPIC_DIV_16 \<equiv> 0x03"

definition pit_read_channel0 :: "'a machine_scheme \<Rightarrow> u16 \<times> 'a machine_scheme" where
  "pit_read_channel0 s =
     (let s = outb 0x43 (0x00 OR 0x00) s;
          (low, s) = inb 0x40 s;
          (high, s) = inb 0x40 s
      in (ucast low OR push_bit 8 (ucast high), s))"

definition pit_channel0_setup :: "'a machine_scheme \<Rightarrow> 'a machine_scheme" where
  "pit_channel0_setup s =
     (let s = outb 0x43 (0x00 OR 0x30 OR 0x06) s;
          s = outb 0x40 0xFF s
      in outb 0x40 0xFF s)"

partial_function (option) pit_wait :: "u16 \<Rightarrow> u16 \<Rightarrow> 'a machine_scheme \<Rightarrow> 'a machine_scheme option" where
  "pit_wait pit_start pit_target s =
     (let (pit_now, s) = pit_read_channel0 s
      in if pit_start - pit_now \<ge> pit_target then Some s else pit_wait pit_start pit_target s)"

definition calibrate_apic_timer :: "'a apic_state_scheme \<Rightarrow> (u32 \<times> 'a apic_state_scheme) option" where
  "calibrate_apic_timer s =
     (let s = lapic_write LAPIC_DIV_CONF LAPIC_DIV_16 s;
          s = lapic_write LAPIC_LVT_TIMER 0x10000 s;
          s = lapic_write LAPIC_INIT_COUNT 0xFFFFFFFF s;
          s = pit_channel0_setup s;
          (pit_start, s) = pit_read_channel0 s
      in case pit_wait pit_start 11931 s of None \<Rightarrow> None | Some s \<Rightarrow>
           let s = lapic_write LAPIC_INIT_COUNT 0 s;
               (cur, s) = lapic_read LAPIC_CUR_COUNT s;
               ticks_elapsed = 0xFFFFFFFF - cur
           in Some (ticks_elapsed * 100 * 16, s))"

definition timer_init_count :: "u32 \<Rightarrow> u32" where
  "timer_init_count bus_freq =
     (let init_count = bus_freq div 16 div 100;
          init_count = (if init_count = 0 then 1 else init_count)
      in if init_count > 0xFFFFFFFF then 0xFFFFFFFF else init_count)"

definition apic_timer_init :: "'a kernel_scheme \<Rightarrow> 'a kernel_scheme option" where
  "apic_timer_init s =
     (case calibrate_apic_timer s of None \<Rightarrow> None | Some (freq, s) \<Rightarrow>
        let s = s\<lparr>timer_bus_freq := freq\<rparr>
        in if timer_bus_freq s = 0
           then Some (paint VGA_LIGHT_GREY VGA_BLACK
                  (say ''  ERROR: LAPIC Timer calibration failed!\<newline>'' (paint VGA_RED VGA_BLACK s)))
           else
             let s = lapic_write LAPIC_DIV_CONF LAPIC_DIV_16 s;
                 init_count = timer_init_count (timer_bus_freq s);
                 s = s\<lparr>timer_freq_hz := 100\<rparr>;
                 s = lapic_write LAPIC_LVT_TIMER (ucast IRQ_APIC_TIMER OR 0x20000) s;
                 s = lapic_write LAPIC_INIT_COUNT init_count s;
                 s = say_dec (timer_bus_freq s div 1000000) (say ''[OK] LAPIC Timer: bus_freq='' s);
                 s = say_dec (timer_freq_hz s) (say '' MHz  freq='' s);
                 s = say_dec init_count (say '' Hz  init_count='' s)
             in Some (say ''\<newline>'' s))"

definition apic_timer_irq_handler :: "u8 \<Rightarrow> 'a kernel_scheme \<Rightarrow> u64 option \<times> 'a kernel_scheme" where
  "apic_timer_irq_handler int_no s =
     (let s = s\<lparr>timer_ticks := timer_ticks s + 1\<rparr>;
          s = (case timer_cb s of None \<Rightarrow> s | Some Keyboard_timer_tick \<Rightarrow> keyboard_timer_tick s)
      in schedule s)"

definition apic_timer_set_callback :: "timer_callback_t option \<Rightarrow> 'a kernel_scheme \<Rightarrow> 'a kernel_scheme" where
  "apic_timer_set_callback cb s = s\<lparr>timer_cb := cb\<rparr>"

definition apic_timer_get_ticks :: "'a kernel_scheme \<Rightarrow> u64" where
  "apic_timer_get_ticks s = timer_ticks s"

definition apic_timer_get_frequency :: "'a kernel_scheme \<Rightarrow> u32" where
  "apic_timer_get_frequency s = timer_freq_hz s"

section \<open>Dispatch\<close>

definition irq_register_handler :: "u8 \<Rightarrow> irq_handler_fn \<Rightarrow> 'a kernel_scheme \<Rightarrow> 'a kernel_scheme" where
  "irq_register_handler irq_num handler s =
     (if irq_num < 16 then s\<lparr>irq_handlers := (irq_handlers s)(unat irq_num := Some handler)\<rparr> else s)"

definition call_irq_handler ::
  "irq_handler_fn \<Rightarrow> u8 \<Rightarrow> 'a kernel_scheme \<Rightarrow> (u64 option \<times> 'a kernel_scheme) option" where
  "call_irq_handler f int_no s =
     (case f of Apic_timer_irq_handler \<Rightarrow> Some (apic_timer_irq_handler int_no s)
      | Keyboard_irq_handler \<Rightarrow> map_option (\<lambda>s. (None, s)) (keyboard_irq_handler int_no s))"

definition send_eoi :: "'a apic_state_scheme \<Rightarrow> 'a apic_state_scheme" where
  "send_eoi s = (if apic_lapic_base s \<noteq> 0 then lapic_write LAPIC_EOI 0 s else s)"

definition irq_handler :: "u64 \<Rightarrow> 'a kernel_scheme \<Rightarrow> (u64 option \<times> 'a kernel_scheme) option" where
  "irq_handler int_no s =
     (let irq_num = ucast (int_no - 0x20) :: u8;
          r = (case irq_handlers s (unat irq_num) of
                 Some f \<Rightarrow> if irq_num < 16 then call_irq_handler f (ucast int_no) s else Some (None, s)
               | None \<Rightarrow> Some (None, s))
      in case r of None \<Rightarrow> None
         | Some (Some next, s) \<Rightarrow> Some (Some next, s)
         | Some (None, s) \<Rightarrow> Some (None, send_eoi s))"

definition spurious_irq_handler :: "'a apic_state_scheme \<Rightarrow> 'a apic_state_scheme" where
  "spurious_irq_handler s = send_eoi s"

end
