(* ===== verification/Interrupts_Properties.thy ===== *)
theory Interrupts_Properties
  imports Interrupts Sched_Properties
begin

text \<open>
  Properties of the descriptor tables, the timer calibration and interrupt dispatch.
\<close>

section \<open>Segment descriptors\<close>

text \<open>The fields the processor reads from a segment descriptor.\<close>

definition desc_base :: "u64 \<Rightarrow> u32" where
  "desc_base d = ucast (drop_bit 16 d AND 0xFFFFFF) OR push_bit 24 (ucast (drop_bit 56 d))"

definition desc_limit :: "u64 \<Rightarrow> u32" where
  "desc_limit d = ucast (d AND 0xFFFF) OR push_bit 16 (ucast (drop_bit 48 d AND 0xF))"

definition desc_access :: "u64 \<Rightarrow> u8" where
  "desc_access d = ucast (drop_bit 40 d)"

definition desc_flags :: "u64 \<Rightarrow> u8" where
  "desc_flags d = ucast (drop_bit 52 d AND 0xF)"

lemma word_masks:
  "bit (0xFFFF :: u32) n \<longleftrightarrow> n < 16" "bit (0xFF :: u64) n \<longleftrightarrow> n < 8" "bit (0xF :: u64) n \<longleftrightarrow> n < 4" "bit (0xF :: u8) n \<longleftrightarrow> n < 4"
  "bit (0xFFFFFF :: u64) n \<longleftrightarrow> n < 24" "bit (0xFFFF :: u64) n \<longleftrightarrow> n < 16" "bit (0xFFFFFFFF :: u64) n \<longleftrightarrow> n < 32"
proof -
  have "(0xFFFF :: u32) = mask 16" "(0xFF :: u64) = mask 8" "(0xF :: u64) = mask 4" "(0xF :: u8) = mask 4"
    "(0xFFFFFF :: u64) = mask 24" "(0xFFFF :: u64) = mask 16" "(0xFFFFFFFF :: u64) = mask 32" by (simp_all add: mask_numeral)
  then show "bit (0xFFFF :: u32) n \<longleftrightarrow> n < 16" "bit (0xFF :: u64) n \<longleftrightarrow> n < 8" "bit (0xF :: u64) n \<longleftrightarrow> n < 4"
    "bit (0xF :: u8) n \<longleftrightarrow> n < 4" "bit (0xFFFFFF :: u64) n \<longleftrightarrow> n < 24" "bit (0xFFFF :: u64) n \<longleftrightarrow> n < 16"
    "bit (0xFFFFFFFF :: u64) n \<longleftrightarrow> n < 32" by (simp_all only: bit_mask_iff) auto
qed

lemma word_bit_beyond:
  fixes x :: u8 and y :: u32
  shows "8 \<le> n \<Longrightarrow> \<not> bit x n" "32 \<le> n \<Longrightarrow> \<not> bit y n" by (auto dest: bit_imp_le_length)

lemma make_seg_bit:
  "bit (make_seg limit base access flags) n \<longleftrightarrow>
     n < 16 \<and> bit limit n \<or> 16 \<le> n \<and> n < 40 \<and> bit base (n - 16) \<or> 40 \<le> n \<and> n < 48 \<and> bit access (n - 40)
     \<or> 48 \<le> n \<and> n < 52 \<and> bit limit (n - 32) \<or> 52 \<le> n \<and> n < 56 \<and> bit flags (n - 52) \<or> 56 \<le> n \<and> n < 64 \<and> bit base (n - 32)"
proof -
  have i: "32 \<le> n \<Longrightarrow> 16 + (n - 32) = n - 16" "48 \<le> n \<Longrightarrow> 16 + (n - 48) = n - 32" "56 \<le> n \<Longrightarrow> 24 + (n - 56) = n - 32" by auto
  consider "n < 16" | "16 \<le> n" "n < 32" | "32 \<le> n" "n < 40" | "40 \<le> n" "n < 48" | "48 \<le> n" "n < 52" | "52 \<le> n" "n < 56"
    | "56 \<le> n" "n < 64" | "64 \<le> n" by linarith
  then show ?thesis
    unfolding make_seg_def Let_def
    by cases (simp only: or.left_neutral bit_or_iff bit_push_bit_iff bit_and_iff bit_ucast_iff bit_drop_bit_eq comp_def word_masks possible_bit_word i;
        simp add: word_bit_beyond; auto)+
qed

lemma seg_fields:
  fixes limit base :: u32 and access flags :: u8
  assumes "unat limit < 2 ^ 20" "unat flags < 2 ^ 4"
  shows "desc_base (make_seg limit base access flags) = base" "desc_limit (make_seg limit base access flags) = limit"
    "desc_access (make_seg limit base access flags) = access" "desc_flags (make_seg limit base access flags) = flags"
proof -
  have l: "n < 20" if "bit limit n" for n
    using that assms(1) by (metis bit_take_bit_iff take_bit_nat_eq_self unsigned_take_bit_eq word_unat_eq_iff)
  have f: "n < 4" if "bit flags n" for n
    using that assms(2) by (metis bit_take_bit_iff take_bit_nat_eq_self unsigned_take_bit_eq word_unat_eq_iff)
  show "desc_base (make_seg limit base access flags) = base"
    by (rule bit_word_eqI, simp only: desc_base_def bit_or_iff bit_push_bit_iff bit_and_iff bit_ucast_iff bit_drop_bit_eq comp_def
        word_masks possible_bit_word make_seg_bit, auto)
  show "desc_limit (make_seg limit base access flags) = limit"
    by (rule bit_word_eqI, simp only: desc_limit_def bit_or_iff bit_push_bit_iff bit_and_iff bit_ucast_iff bit_drop_bit_eq comp_def
        word_masks possible_bit_word make_seg_bit, auto dest: l)
  show "desc_access (make_seg limit base access flags) = access"
    by (rule bit_word_eqI, simp only: desc_access_def bit_ucast_iff bit_drop_bit_eq comp_def make_seg_bit, auto)
  show "desc_flags (make_seg limit base access flags) = flags"
    by (rule bit_word_eqI, simp only: desc_flags_def bit_and_iff bit_ucast_iff bit_drop_bit_eq comp_def word_masks make_seg_bit, auto dest: f)
qed

lemma tss_desc_low: "fst (make_tss_desc base limit) = make_seg limit (ucast base) 0x89 0"
proof -
  have "ucast (ucast base AND 0xFFFF :: u32) = (base AND 0xFFFF :: u64)"
    "ucast (drop_bit 16 (ucast base) :: u32) AND 0xFF = (drop_bit 16 base AND 0xFF :: u64)"
    "ucast (drop_bit 24 (ucast base) :: u32) AND 0xFF = (drop_bit 24 base AND 0xFF :: u64)"
    by (rule bit_word_eqI, simp only: bit_and_iff bit_ucast_iff bit_drop_bit_eq comp_def word_masks possible_bit_word, auto)+
  moreover have "(ucast (0x89 :: u8) :: u64) = 0x89" "push_bit 52 (ucast ((0 :: u8) AND 0x0F)) = (0 :: u64)" by simp_all
  ultimately show ?thesis unfolding make_tss_desc_def make_seg_def Let_def fst_conv by (simp only: or.right_neutral)
qed

lemma tss_base_join: "ucast (ucast (base :: u64) :: u32) OR push_bit 32 (drop_bit 32 base AND 0xFFFFFFFF) = base"
  by (rule bit_word_eqI, simp only: bit_or_iff bit_push_bit_iff bit_and_iff bit_ucast_iff bit_drop_bit_eq comp_def word_masks
      possible_bit_word, auto)

text \<open>
  The descriptor table that \<^verbatim>\<open>gdt_init\<close> loads encodes what it is meant to: flat 4 GiB segments at base 0 with the kernel and
  user access rights and the long-mode code flag, and a task-state descriptor whose 64-bit base is the address of the TSS;
  the TSS holds the kernel interrupt stack.
\<close>

theorem gdt_init_correct:
  fixes s :: "'a kernel_scheme"
  defines "g \<equiv> \<lambda>sy (s :: 'a kernel_scheme). gdt_entries (gdt_init sy s)"
  shows "length (g sy s) = 7 \<and> g sy s ! 0 = 0
    \<and> map (\<lambda>i. (desc_base (g sy s ! i), desc_limit (g sy s ! i), desc_access (g sy s ! i), desc_flags (g sy s ! i))) [1, 2, 3, 4]
        = [(0, 0xFFFFF, 0x9A, 0xA), (0, 0xFFFFF, 0x92, 0xC), (0, 0xFFFFF, 0xFA, 0xA), (0, 0xFFFFF, 0xF2, 0xC)]
    \<and> ucast (desc_base (g sy s ! 5)) OR push_bit 32 (g sy s ! 6) = sym_kernel_tss sy
    \<and> desc_limit (g sy s ! 5) = 103 \<and> desc_access (g sy s ! 5) = 0x89
    \<and> tss_rsp0 (kernel_tss (gdt_init sy s)) = sym_kernel_interrupt_stack_top sy"
proof -
  obtain low high where d: "make_tss_desc (sym_kernel_tss sy) (TSS_SIZE - 1) = (low, high)" by fastforce
  have low: "low = make_seg (TSS_SIZE - 1) (ucast (sym_kernel_tss sy)) 0x89 0" using tss_desc_low[of "sym_kernel_tss sy" "TSS_SIZE - 1"] d by simp
  have high: "high = drop_bit 32 (sym_kernel_tss sy) AND 0xFFFFFFFF" using d by (simp add: make_tss_desc_def Let_def)
  have g: "g sy s = [0, make_seg 0xFFFFF 0 0x9A 0xA, make_seg 0xFFFFF 0 0x92 0xC, make_seg 0xFFFFF 0 0xFA 0xA, make_seg 0xFFFFF 0 0xF2 0xC, low, high]"
    unfolding g_def gdt_init_def d by (simp add: Let_def load_gdt_def io_defs numeral_eq_Suc)
  have t: "tss_rsp0 (kernel_tss (gdt_init sy s)) = sym_kernel_interrupt_stack_top sy"
    unfolding gdt_init_def d by (simp add: Let_def load_gdt_def io_defs)
  have base: "ucast (desc_base low) OR push_bit 32 high = sym_kernel_tss sy"
  proof -
    have "desc_base low = ucast (sym_kernel_tss sy)" unfolding low by (rule seg_fields(1)) simp_all
    then show ?thesis unfolding high using tss_base_join[of "sym_kernel_tss sy"] by (simp only:)
  qed
  show ?thesis unfolding g t by (simp add: seg_fields base, simp add: low seg_fields)
qed

section \<open>Interrupt gates\<close>

definition gate_offset :: "idt_entry \<Rightarrow> u64" where
  "gate_offset e = ucast (offset_low e) OR push_bit 16 (ucast (offset_mid e)) OR push_bit 32 (ucast (offset_high e))"

definition gate_present :: "idt_entry \<Rightarrow> bool" where
  "gate_present e \<longleftrightarrow> bit (type_attr e) 7"

definition gate_dpl :: "idt_entry \<Rightarrow> nat" where
  "gate_dpl e = unat (drop_bit 5 (type_attr e) AND 3)"

definition make_gate :: "u64 \<Rightarrow> u8 \<Rightarrow> u8 \<Rightarrow> idt_entry" where
  "make_gate handler attr ist = \<lparr>offset_low = ucast (handler AND 0xFFFF), gate_selector = GDT_SELECTOR_KERNEL_CS, gate_ist = ist,
     type_attr = attr, offset_mid = ucast (drop_bit 16 handler AND 0xFFFF),
     offset_high = ucast (drop_bit 32 handler AND 0xFFFFFFFF), gate_reserved = 0\<rparr>"

lemma gate_offset_make [simp]: "gate_offset (make_gate h attr ist) = h"
proof (rule bit_word_eqI)
  fix n assume n: "n < LENGTH(64)"
  have i: "16 \<le> n \<Longrightarrow> 16 + (n - 16) = n" "32 \<le> n \<Longrightarrow> 32 + (n - 32) = n" by auto
  consider "n < 16" | "16 \<le> n" "n < 32" | "32 \<le> n" by linarith
  then show "bit (gate_offset (make_gate h attr ist)) n \<longleftrightarrow> bit h n"
    unfolding gate_offset_def make_gate_def idt_entry.simps
    by cases (use n in \<open>simp_all only: bit_or_iff bit_push_bit_iff bit_and_iff bit_ucast_iff bit_drop_bit_eq comp_def word_masks
      possible_bit_word i, auto\<close>)
qed

lemma set_gates_idt:
  assumes "base + n \<le> 256"
  shows "idt (set_gates base n tab ist s) k
    = (if base \<le> k \<and> k < base + n then make_gate (tab (k - base)) IDT_GATE_INTERRUPT (ist (k - base)) else idt s k)"
  using assms
proof (induction n)
  case (Suc n)
  have "unat (word_of_nat (base + n) :: u8) = base + n" using Suc.prems by (simp add: unsigned_of_nat take_bit_nat_eq_self del: of_nat_add)
  then show ?case using Suc by (auto simp: idt_set_gate_def make_gate_def simp del: of_nat_add)
qed auto

lemma clear_gates_idt:
  "idt (clear_gates n s) k = (if k < n then (idt s k)\<lparr>offset_low := 0, offset_mid := 0, offset_high := 0\<rparr> else idt s k)"
  by (induction n) (auto simp: Let_def)

lemma idt_init_gate:
  assumes "k < 256"
  shows "idt (idt_init sy s) k =
    (if k = 0x80 then make_gate (isr80 sy) 0xEE 0
     else if k < 32 then make_gate (isr_table sy k) IDT_GATE_INTERRUPT (exception_ist k)
     else if k < 48 then make_gate (irq_table sy (k - 32)) IDT_GATE_INTERRUPT 0
     else if k = 255 then make_gate (isr_spurious sy) IDT_GATE_INTERRUPT 0
     else (idt s k)\<lparr>offset_low := 0, offset_mid := 0, offset_high := 0\<rparr>)"
  using assms
  by (simp add: idt_init_def Let_def idt_set_gate_def[of "0x80"] idt_set_gate_def[of "0xFF"] set_gates_idt load_idt_def clear_gates_idt make_gate_def)

text \<open>The stack the processor switches to for a gate with an entry of the interrupt stack table.\<close>

definition ist_stack :: "tss_entry \<Rightarrow> u8 \<Rightarrow> u64 option" where
  "ist_stack t ist = [1 \<mapsto> tss_ist1 t, 2 \<mapsto> tss_ist2 t, 3 \<mapsto> tss_ist3 t] ist"

lemma set_gates_tss [simp]: "kernel_tss (set_gates base n tab ist s) = kernel_tss s"
  by (induction n) (simp_all add: idt_set_gate_def Let_def)

lemma clear_gates_tss [simp]: "kernel_tss (clear_gates n s) = kernel_tss s"
  by (induction n) (simp_all add: Let_def)

lemma idt_init_tss: "kernel_tss (idt_init sy s) = kernel_tss s"
  by (simp add: idt_init_def idt_set_gate_def load_idt_def Let_def)

lemma gdt_init_ist:
  "tss_ist1 (kernel_tss (gdt_init sy s)) = sym_double_fault_stack_top sy" "tss_ist2 (kernel_tss (gdt_init sy s)) = sym_nmi_stack_top sy"
  "tss_ist3 (kernel_tss (gdt_init sy s)) = sym_machine_check_stack_top sy"
  by (cases "make_tss_desc (sym_kernel_tss sy) (TSS_SIZE - 1)", simp add: gdt_init_def Let_def load_gdt_def io_defs)+

text \<open>
  C20: After \<^verbatim>\<open>idt_init\<close> on a table that is zero at boot, vector 0x80 is the only one user code can
  raise by an instruction; the 32 exceptions, the 16 interrupt lines, the spurious vector and 0x80 lead to
  their own stub in the kernel code segment and every other vector is not present.  Double fault, NMI and machine check use entries
  1, 2 and 3 of the interrupt stack table and no other gate uses one; with the task state segment that \<^verbatim>\<open>gdt_init\<close> has filled,
  these are the double fault stack, the NMI stack and the machine check stack.
\<close>

theorem idt_init_correct:
  assumes "\<And>k. k < 256 \<Longrightarrow> type_attr (idt s k) = 0" "k < 256" "e = idt (idt_init sy s) k"
  shows "(gate_present e \<and> gate_dpl e = 3 \<longleftrightarrow> k = 0x80)
    \<and> (gate_present e \<longleftrightarrow> k < 48 \<or> k = 0x80 \<or> k = 0xFF)
    \<and> (gate_present e \<longrightarrow> gate_selector e = GDT_SELECTOR_KERNEL_CS
        \<and> gate_offset e = (if k < 32 then isr_table sy k else if k < 48 then irq_table sy (k - 32) else if k = 0x80 then isr80 sy else isr_spurious sy)
        \<and> gate_ist e = (if k = 8 then 1 else if k = 2 then 2 else if k = 18 then 3 else 0)
        \<and> ist_stack (kernel_tss (idt_init sy (gdt_init sy u))) (gate_ist e)
            = (if k = 8 then Some (sym_double_fault_stack_top sy) else if k = 2 then Some (sym_nmi_stack_top sy)
               else if k = 18 then Some (sym_machine_check_stack_top sy) else None))"
proof -
  have attr: "bit (0xEE :: u8) 7" "bit (0x8E :: u8) 7" "drop_bit 5 (0xEE :: u8) AND 3 = 3" "drop_bit 5 (0x8E :: u8) AND 3 = 0" by code_simp+
  have sel: "gate_selector (make_gate h a i) = GDT_SELECTOR_KERNEL_CS" "type_attr (make_gate h a i) = a" "gate_ist (make_gate h a i) = i" for h a i
    by (simp_all add: make_gate_def)
  have stack: "ist_stack (kernel_tss (idt_init sy (gdt_init sy u))) 1 = Some (sym_double_fault_stack_top sy)"
    "ist_stack (kernel_tss (idt_init sy (gdt_init sy u))) 2 = Some (sym_nmi_stack_top sy)"
    "ist_stack (kernel_tss (idt_init sy (gdt_init sy u))) 3 = Some (sym_machine_check_stack_top sy)"
    "ist_stack (kernel_tss (idt_init sy (gdt_init sy u))) 0 = None"
    by (simp_all add: ist_stack_def idt_init_tss gdt_init_ist)
  consider "k = 0x80" | "k < 32" | "32 \<le> k" "k < 48" | "k = 255" | "48 \<le> k" "k \<noteq> 0x80" "k \<noteq> 255" using assms(2) by linarith
  then show ?thesis
    unfolding assms(3) idt_init_gate[OF assms(2)] gate_present_def gate_dpl_def
    by cases (use assms(1,2) attr in \<open>auto simp: sel exception_ist_def stack\<close>)
qed

definition boot_symbols :: symbols where
  "boot_symbols = \<lparr>sym_kernel_tss = 0xFFFFFFFF80110000, sym_gdt_entries = 0xFFFFFFFF80111000, sym_idt = 0xFFFFFFFF80112000,
     sym_kernel_interrupt_stack_top = 0xFFFFFFFF80114000, sym_double_fault_stack_top = 0xFFFFFFFF80116000,
     sym_nmi_stack_top = 0xFFFFFFFF80118000, sym_machine_check_stack_top = 0xFFFFFFFF8011A000,
     isr_table = \<lambda>i. 0xFFFFFFFF80100000 + 16 * word_of_nat i, irq_table = \<lambda>i. 0xFFFFFFFF80101000 + 16 * word_of_nat i,
     isr_spurious = 0xFFFFFFFF80102000, isr80 = 0xFFFFFFFF80103000\<rparr>"

definition kernel_example :: kernel where
  "kernel_example = proc_state.extend proc_example
     (kernel.fields [] \<lparr>tss_rsp0 = 0, tss_ist1 = 0, tss_ist2 = 0, tss_ist3 = 0, tss_iopb_offset = 0\<rparr> (0, 0) 0
        (\<lambda>_. \<lparr>offset_low = 0, gate_selector = 0, gate_ist = 0, type_attr = 0, offset_mid = 0, offset_high = 0, gate_reserved = 0\<rparr>)
        (0, 0) [0 \<mapsto> Apic_timer_irq_handler, 1 \<mapsto> Keyboard_irq_handler] 0 0 0 (Some Keyboard_timer_tick))"

lemmas kernel_example_defs = kernel_example_def proc_example_def keyboard.defs proc_state.defs kernel.defs

theorem idt_init_correct_witness:
  "gate_offset (idt (idt_init boot_symbols kernel_example) 0x21) = 0xFFFFFFFF80101010
   \<and> gate_ist (idt (idt_init boot_symbols kernel_example) 8) = 1"
proof -
  have "type_attr (idt kernel_example k) = 0" for k by (simp add: kernel_example_defs)
  then show ?thesis
    using idt_init_correct[of kernel_example "0x21" "idt (idt_init boot_symbols kernel_example) 0x21" boot_symbols kernel_example]
      idt_init_correct[of kernel_example 8 "idt (idt_init boot_symbols kernel_example) 8" boot_symbols kernel_example]
    by (simp add: boot_symbols_def)
qed

section \<open>Timer\<close>

lemma schedule_frame: "hist (snd (schedule s)) = hist s" "apic_lapic_base (snd (schedule s)) = apic_lapic_base s"
  by (simp_all add: schedule_def Let_def dequeue_def enqueue_def set_pcb_def)

lemma keyboard_timer_tick_frame:
  "hist (keyboard_timer_tick s) = hist s" "sched_inv (keyboard_timer_tick s) xs = sched_inv s xs"
  "apic_lapic_base (keyboard_timer_tick s) = apic_lapic_base s"
  by (simp_all add: keyboard_timer_tick_def Let_def push_char_def sched_inv_def ready_list_def)

lemma timer_handler_schedules:
  assumes "sched_inv s xs"
  shows "case xs of [] \<Rightarrow> fst (apic_timer_irq_handler n s) = None | x # _ \<Rightarrow> fst (apic_timer_irq_handler n s) = Some x"
    and "hist (snd (apic_timer_irq_handler n s)) = hist s" "apic_lapic_base (snd (apic_timer_irq_handler n s)) = apic_lapic_base s"
proof -
  define t where "t = s\<lparr>timer_ticks := timer_ticks s + 1\<rparr>"
  define u where "u = (case timer_cb t of None \<Rightarrow> t | Some Keyboard_timer_tick \<Rightarrow> keyboard_timer_tick t)"
  have h: "apic_timer_irq_handler n s = schedule u" unfolding apic_timer_irq_handler_def t_def u_def Let_def ..
  have t: "sched_inv t xs" "hist t = hist s" "apic_lapic_base t = apic_lapic_base s"
    using assms by (simp_all add: t_def sched_inv_def ready_list_def)
  have u: "sched_inv u xs" "hist u = hist s" "apic_lapic_base u = apic_lapic_base s"
    using t by (simp_all add: u_def keyboard_timer_tick_frame split: option.split timer_callback_t.split)
  show "case xs of [] \<Rightarrow> fst (apic_timer_irq_handler n s) = None | x # _ \<Rightarrow> fst (apic_timer_irq_handler n s) = Some x"
    using schedule_step[OF u(1)] by (simp add: h split: list.splits)
  show "hist (snd (apic_timer_irq_handler n s)) = hist s" "apic_lapic_base (snd (apic_timer_irq_handler n s)) = apic_lapic_base s"
    using u by (simp_all add: h schedule_frame)
qed

text \<open>
  C35: A timer interrupt acknowledges itself to the local APIC only when nothing else is ready.  When the ready queue holds a
  process, the handler switches to it without having touched any device register: the end-of-interrupt
  write after the handler is never reached.
\<close>

theorem timer_interrupt_eoi:
  assumes "sched_inv s xs" "irq_handlers s 0 = Some Apic_timer_irq_handler" "apic_lapic_base s \<noteq> 0"
  shows "\<exists>t. case xs of
      [] \<Rightarrow> irq_handler 0x20 s = Some (None, t) \<and> hist t = Wr (Mmio (apic_lapic_base s + ucast LAPIC_EOI)) 0 # hist s
    | x # _ \<Rightarrow> irq_handler 0x20 s = Some (Some x, t) \<and> hist t = hist s"
proof -
  obtain r t where rt: "apic_timer_irq_handler 0x20 s = (r, t)" by fastforce
  note h = timer_handler_schedules[OF assms(1), where n = "0x20", unfolded rt fst_conv snd_conv]
  have "irq_handler 0x20 s = Some (case r of None \<Rightarrow> (None, send_eoi t) | Some x \<Rightarrow> (Some x, t))"
    using assms(2) rt by (simp add: irq_handler_def Let_def call_irq_handler_def split: option.split)
  then show ?thesis using h assms(3) by (cases xs) (auto simp: send_eoi_def lapic_write_def mmio_write_def io_out_def)
qed

theorem timer_interrupt_eoi_witness:
  "\<exists>t. irq_handler 0x20 (kernel_example\<lparr>apic_lapic_base := 0xFEE00000\<rparr>) = Some (Some 16, t) \<and> hist t = []"
proof -
  have "sched_inv (kernel_example\<lparr>apic_lapic_base := 0xFEE00000\<rparr>) [16, 24]"
    "irq_handlers (kernel_example\<lparr>apic_lapic_base := 0xFEE00000\<rparr>) 0 = Some Apic_timer_irq_handler"
    "hist (kernel_example\<lparr>apic_lapic_base := 0xFEE00000\<rparr>) = []"
    by (simp_all add: kernel_example_defs sched_inv_def ready_list_def keyboard_example_def machine.defs apic_state.defs apic_example_def)
  then show ?thesis using timer_interrupt_eoi[of "kernel_example\<lparr>apic_lapic_base := 0xFEE00000\<rparr>" "[16, 24]"] by simp
qed

text \<open>
  The bus frequency is computed as ticks per 10 ms times 1600 and divided again by the divisor and the rate: as long as
  that product fits 32 bits (a bus of less than 4.29 GHz) the timer is loaded with the ticks measured.
\<close>

lemma timer_period_roundtrip:
  assumes "0 < t" "unat t * 1600 < 2 ^ 32"
  shows "timer_init_count (t * 100 * 16) = t"
proof -
  have "unat (t * 100 * 16) = unat t * 1600" using assms(2) by (simp add: unat_word_ariths)
  then have "unat (t * 100 * 16 div 16 div 100) = unat t" by (simp add: unat_div)
  then have "t * 100 * 16 div 16 div 100 = t" by (simp only: word_unat_eq_iff)
  moreover have "\<not> t > 0xFFFFFFFF" using unsigned_less[of t, where ?'a = nat] by (simp add: not_less word_le_nat_alt)
  ultimately show ?thesis using assms(1) by (simp add: timer_init_count_def Let_def word_greater_zero_iff)
qed

text \<open>
  The calibration stops the timer by writing 0 to its initial count and only then reads the current count.  A local APIC whose
  count reads 0 once its initial count has been set to 0 therefore always gives the same frequency, whatever the bus:
  the timer is loaded with the constant 2684353.
\<close>

theorem timer_calibration_constant:
  assumes stopped: "\<And>h. dev s (Wr (Mmio (apic_lapic_base s + ucast LAPIC_INIT_COUNT)) 0 # h) (Mmio (apic_lapic_base s + ucast LAPIC_CUR_COUNT)) = 0"
    and ret: "calibrate_apic_timer s = Some (freq, t)"
  shows "freq = 4294965696 \<and> timer_init_count freq = 2684353"
proof -
  have wait: "dev u = dev s \<and> apic_lapic_base u = apic_lapic_base s"
    if "pit_wait a b v = Some u" "dev v = dev s \<and> apic_lapic_base v = apic_lapic_base s" for a b u and v :: "'a apic_state_scheme"
  proof -
    have "dev v = dev s \<and> apic_lapic_base v = apic_lapic_base s \<longrightarrow> dev u = dev s \<and> apic_lapic_base u = apic_lapic_base s"
      by (rule pit_wait.raw_induct[OF _ that(1)]) (auto simp: Let_def pit_read_channel0_def io_defs split: if_splits)
    then show ?thesis using that(2) by blast
  qed
  define w where "w = pit_channel0_setup (lapic_write LAPIC_INIT_COUNT 0xFFFFFFFF (lapic_write LAPIC_LVT_TIMER 0x10000
    (lapic_write LAPIC_DIV_CONF LAPIC_DIV_16 s)))"
  define v where "v = snd (pit_read_channel0 w)"
  have v: "dev v = dev s \<and> apic_lapic_base v = apic_lapic_base s"
    by (simp add: v_def w_def Let_def lapic_write_def pit_channel0_setup_def pit_read_channel0_def io_defs)
  obtain u where u: "pit_wait (fst (pit_read_channel0 w)) 11931 v = Some u"
    and f: "freq = (0xFFFFFFFF - fst (lapic_read LAPIC_CUR_COUNT (lapic_write LAPIC_INIT_COUNT 0 u))) * 100 * 16"
    using ret unfolding calibrate_apic_timer_def Let_def case_prod_beta w_def[symmetric] v_def[symmetric]
    by (auto split: option.splits)
  have "fst (lapic_read LAPIC_CUR_COUNT (lapic_write LAPIC_INIT_COUNT 0 u)) = 0"
    using wait[OF u v] stopped by (simp add: lapic_read_def lapic_write_def io_defs)
  then show ?thesis using f by (simp add: timer_init_count_def)
qed

definition pit_device :: device where
  "pit_device h l = (if l = Port8 0x40 \<and> length h < 9 then 0xFF else 0)"

theorem timer_calibration_constant_witness:
  "\<exists>t. calibrate_apic_timer (keyboard_example pit_device) = Some (4294965696, t)"
proof -
  obtain freq t where r: "calibrate_apic_timer (keyboard_example pit_device) = Some (freq, t)"
  proof -
    have "pit_wait 0xFFFF 11931 s = Some (snd (pit_read_channel0 s))" if "dev s = pit_device" "length (hist s) = 9" for s :: keyboard
      using that by (subst pit_wait.simps) (simp add: pit_read_channel0_def io_defs Let_def pit_device_def)
    then show thesis
      by (intro that[of "fst (the (calibrate_apic_timer (keyboard_example pit_device)))" "snd (the (calibrate_apic_timer (keyboard_example pit_device)))"])
        (simp add: calibrate_apic_timer_def Let_def case_prod_beta lapic_write_def pit_channel0_setup_def
          pit_read_channel0_def io_defs pit_device_def)
  qed
  moreover have "freq = 4294965696 \<and> timer_init_count freq = 2684353"
    by (rule timer_calibration_constant[OF _ r]) (simp add: pit_device_def)
  ultimately show ?thesis by simp
qed

end
