(* ===== verification/Ide.thy ===== *)
theory Ide
  imports Interrupts Bytes
begin

text \<open>
  The ATA disk driver (\<^verbatim>\<open>kernel/BasicDrivers/ide.c\<close>).  A sector buffer is the list of its 512 bytes: reading
  hands back the list (the inner None is the result \<^verbatim>\<open>false\<close>, which leaves the buffer alone), writing takes
  it.  The waits for the drive have no bound, so the outer None is a wait that never ends.
\<close>

abbreviation IDE_DATA :: u16 where "IDE_DATA \<equiv> 0x1F0"
abbreviation IDE_SECTOR_COUNT :: u16 where "IDE_SECTOR_COUNT \<equiv> 0x1F2"
abbreviation IDE_LBA_LOW :: u16 where "IDE_LBA_LOW \<equiv> 0x1F3"
abbreviation IDE_LBA_MID :: u16 where "IDE_LBA_MID \<equiv> 0x1F4"
abbreviation IDE_LBA_HIGH :: u16 where "IDE_LBA_HIGH \<equiv> 0x1F5"
abbreviation IDE_DRIVE_SEL :: u16 where "IDE_DRIVE_SEL \<equiv> 0x1F6"
abbreviation IDE_COMMAND :: u16 where "IDE_COMMAND \<equiv> 0x1F7"
abbreviation IDE_STATUS :: u16 where "IDE_STATUS \<equiv> 0x1F7"
abbreviation IDE_SR_BSY :: u8 where "IDE_SR_BSY \<equiv> 0x80"
abbreviation IDE_SR_DRDY :: u8 where "IDE_SR_DRDY \<equiv> 0x40"
abbreviation IDE_SR_DRQ :: u8 where "IDE_SR_DRQ \<equiv> 0x08"
abbreviation IDE_SR_ERR :: u8 where "IDE_SR_ERR \<equiv> 0x01"
abbreviation IDE_CMD_READ_SECTORS :: u8 where "IDE_CMD_READ_SECTORS \<equiv> 0x20"
abbreviation IDE_CMD_WRITE_SECTORS :: u8 where "IDE_CMD_WRITE_SECTORS \<equiv> 0x30"
abbreviation IDE_CMD_IDENTIFY :: u8 where "IDE_CMD_IDENTIFY \<equiv> 0xEC"
abbreviation IDE_CMD_CACHE_FLUSH :: u8 where "IDE_CMD_CACHE_FLUSH \<equiv> 0xE7"

record ide_state = kernel +
  ide_drive_sel :: u8

section \<open>Waiting\<close>

definition ide_wait_ready :: "'a machine_scheme \<Rightarrow> (int \<times> 'a machine_scheme) option" where
  "ide_wait_ready s =
     map_option (\<lambda>(status, s). (if status AND IDE_SR_DRDY \<noteq> 0 then 0 else -1, s))
       (poll8 IDE_STATUS (\<lambda>status. status AND IDE_SR_BSY = 0) s)"

definition ide_wait_drq :: "'a machine_scheme \<Rightarrow> (int \<times> 'a machine_scheme) option" where
  "ide_wait_drq s =
     map_option (\<lambda>(status, s). (if status AND IDE_SR_ERR \<noteq> 0 then -1 else 0, s))
       (poll8 IDE_STATUS (\<lambda>status. status AND (IDE_SR_DRQ OR IDE_SR_ERR) \<noteq> 0) s)"

definition ide_select_drive :: "u32 \<Rightarrow> 'a ide_state_scheme \<Rightarrow> 'a ide_state_scheme" where
  "ide_select_drive lba s =
     reads8 10 IDE_STATUS (outb IDE_DRIVE_SEL (ide_drive_sel s OR ucast (drop_bit 24 lba AND 0x0F)) s)"

section \<open>Detection\<close>

text \<open>\<^verbatim>\<open>for (i = 0; i < n; i++) inw(port);\<close>\<close>

primrec reads16 :: "nat \<Rightarrow> u16 \<Rightarrow> 'a machine_scheme \<Rightarrow> 'a machine_scheme" where
  "reads16 0 port s = s"
| "reads16 (Suc n) port s = reads16 n port (snd (inw port s))"

definition ide_probe_ata :: "u8 \<Rightarrow> 'a machine_scheme \<Rightarrow> (bool \<times> 'a machine_scheme) option" where
  "ide_probe_ata drive_sel s =
     (let s = reads8 10 IDE_STATUS (outb IDE_DRIVE_SEL drive_sel s);
          s = outb IDE_SECTOR_COUNT 0 s;
          s = outb IDE_LBA_LOW 0 s;
          s = outb IDE_LBA_MID 0 s;
          s = outb IDE_LBA_HIGH 0 s;
          s = outb IDE_COMMAND IDE_CMD_IDENTIFY s;
          (status, s) = inb IDE_STATUS s
      in if status = 0 then Some (False, s)
         else case ide_wait_ready s of None \<Rightarrow> None | Some (r, s) \<Rightarrow>
           if r \<noteq> 0 then Some (False, s)
           else let (mid, s) = inb IDE_LBA_MID s;
                    (high, s) = inb IDE_LBA_HIGH s
                in if mid = 0x14 \<and> high = 0xEB then Some (False, s)
                   else Some (True, reads16 256 IDE_DATA s))"

definition ide_init :: "'a ide_state_scheme \<Rightarrow> 'a ide_state_scheme option" where
  "ide_init s =
     (case ide_probe_ata 0xE0 (say ''[..] Initializing IDE...\<newline>'' s) of None \<Rightarrow> None | Some (ok, s) \<Rightarrow>
        if ok then Some (say ''[OK] IDE ATA master detected.\<newline>'' (s\<lparr>ide_drive_sel := 0xE0\<rparr>))
        else case ide_probe_ata 0xF0 s of None \<Rightarrow> None | Some (ok, s) \<Rightarrow>
          if ok then Some (say ''[OK] IDE ATA slave detected.\<newline>'' (s\<lparr>ide_drive_sel := 0xF0\<rparr>))
          else Some (paint VGA_LIGHT_GREY VGA_BLACK
                 (say ''  No IDE ATA device found.\<newline>'' (paint VGA_RED VGA_BLACK s))))"

section \<open>Sectors\<close>

definition ide_command :: "u32 \<Rightarrow> u8 \<Rightarrow> 'a ide_state_scheme \<Rightarrow> 'a ide_state_scheme" where
  "ide_command lba cmd s =
     (let s = ide_select_drive lba s;
          s = outb IDE_SECTOR_COUNT 1 s;
          s = outb IDE_LBA_LOW (ucast (lba AND 0xFF)) s;
          s = outb IDE_LBA_MID (ucast (drop_bit 8 lba AND 0xFF)) s;
          s = outb IDE_LBA_HIGH (ucast (drop_bit 16 lba AND 0xFF)) s
      in outb IDE_COMMAND cmd s)"

primrec ide_read_words :: "nat \<Rightarrow> 'a machine_scheme \<Rightarrow> u8 list \<times> 'a machine_scheme" where
  "ide_read_words 0 s = ([], s)"
| "ide_read_words (Suc i) s =
     (let (buffer, s) = ide_read_words i s;
          (data, s) = inw IDE_DATA s
      in (buffer @ [ucast (data AND 0xFF), ucast (drop_bit 8 data)], s))"

definition ide_read_sector :: "u32 \<Rightarrow> 'a ide_state_scheme \<Rightarrow> (u8 list option \<times> 'a ide_state_scheme) option" where
  "ide_read_sector lba s =
     (if ide_drive_sel s = 0 then Some (None, s)
      else case ide_wait_drq (ide_command lba IDE_CMD_READ_SECTORS s) of None \<Rightarrow> None | Some (r, s) \<Rightarrow>
        if r \<noteq> 0 then Some (None, s)
        else let (buffer, s) = ide_read_words 256 s in Some (Some buffer, s))"

primrec ide_write_words :: "nat \<Rightarrow> u8 list \<Rightarrow> 'a machine_scheme \<Rightarrow> 'a machine_scheme" where
  "ide_write_words 0 buffer s = s"
| "ide_write_words (Suc i) buffer s =
     (let s = ide_write_words i buffer s
      in outw IDE_DATA (push_bit 8 (ucast (buffer ! (i * 2 + 1))) OR ucast (buffer ! (i * 2))) s)"

definition ide_write_sector :: "u32 \<Rightarrow> u8 list \<Rightarrow> 'a ide_state_scheme \<Rightarrow> (bool \<times> 'a ide_state_scheme) option" where
  "ide_write_sector lba buffer s =
     (if ide_drive_sel s = 0 then Some (False, s)
      else case ide_wait_drq (ide_command lba IDE_CMD_WRITE_SECTORS s) of None \<Rightarrow> None | Some (r, s) \<Rightarrow>
        if r \<noteq> 0 then Some (False, s)
        else case ide_wait_ready (ide_write_words 256 buffer s) of None \<Rightarrow> None | Some (r, s) \<Rightarrow>
          if r \<noteq> 0 then Some (False, s)
          else case ide_wait_ready (outb IDE_COMMAND IDE_CMD_CACHE_FLUSH s) of None \<Rightarrow> None | Some (r, s) \<Rightarrow>
            Some (r = 0, s))"

end
