(* ===== verification/Fat32.thy ===== *)
theory Fat32
  imports Ide Rtc Heap_Frame
begin

text \<open>
  The FAT32 file system (\<^verbatim>\<open>kernel/BasicDrivers/fat32.c\<close>).  Mounted volumes are objects in a store from addresses
  to records.  The cached allocation table and the cluster buffers are heap blocks in the flat
  memory, where the code reads and writes them through its pointers; a file handle is passed and handed
  back by value.  None as a result of an operation: it does not return (the drive or the clock is never
  ready, a cluster chain has a cycle, or a division by zero ends in the exception handler).
\<close>

section \<open>Data\<close>

record fat32_fs_t =
  first_data_sector :: u32
  data_sectors :: u32
  total_clusters :: u32
  fat_start_sector :: u32
  fat_size_sectors :: u32
  sectors_per_cluster :: u32
  bytes_per_sector :: u32
  root_cluster :: u32
  fat :: u64

record fat32_file_t =
  file_fs :: u64
  start_cluster :: u32
  current_cluster :: u32
  file_size :: u32
  file_offset :: u32

record fat_state = ide_state +
  vols :: "u64 \<Rightarrow> fat32_fs_t"

abbreviation FAT_EOF :: u32 where "FAT_EOF \<equiv> 0x0FFFFFF8"
abbreviation FAT_MASK :: u32 where "FAT_MASK \<equiv> 0x0FFFFFFF"

definition put_mem :: "memory \<Rightarrow> u64 \<Rightarrow> u8 list \<Rightarrow> memory" where
  "put_mem m p bs = (\<lambda>x. if unat (x - p) < length bs then bs ! unat (x - p) else m x)"

definition get_mem :: "memory \<Rightarrow> u64 \<Rightarrow> nat \<Rightarrow> u8 list" where
  "get_mem m p n = map (\<lambda>i. m (p + word_of_nat i)) [0..<n]"

definition cluster_bytes :: "fat32_fs_t \<Rightarrow> u32" where
  "cluster_bytes fs = sectors_per_cluster fs * 512"

section \<open>Disk access\<close>

fun disk_read_from :: "u32 \<Rightarrow> u64 \<Rightarrow> u32 \<Rightarrow> nat \<Rightarrow> 'a ide_state_scheme \<Rightarrow> (int \<times> 'a ide_state_scheme) option" where
  "disk_read_from lba buf i 0 s = Some (0, s)"
| "disk_read_from lba buf i (Suc n) s =
     (case ide_read_sector (lba + i) s of None \<Rightarrow> None
      | Some (None, s) \<Rightarrow> Some (-1, s)
      | Some (Some b, s) \<Rightarrow> disk_read_from lba buf (i + 1) n (s\<lparr>hmem := put_mem (hmem s) (buf + ucast (i * 512)) b\<rparr>))"

definition disk_read :: "u32 \<Rightarrow> u32 \<Rightarrow> u64 \<Rightarrow> 'a ide_state_scheme \<Rightarrow> (int \<times> 'a ide_state_scheme) option" where
  "disk_read lba count buf s = disk_read_from lba buf 0 (unat count) s"

definition fat32_disk_read :: "u32 \<Rightarrow> u32 \<Rightarrow> u64 \<Rightarrow> 'a ide_state_scheme \<Rightarrow> (int \<times> 'a ide_state_scheme) option" where
  "fat32_disk_read lba count buf s = disk_read_from lba buf 0 (unat count) s"

fun disk_write_from :: "u32 \<Rightarrow> u64 \<Rightarrow> u32 \<Rightarrow> nat \<Rightarrow> 'a ide_state_scheme \<Rightarrow> (int \<times> 'a ide_state_scheme) option" where
  "disk_write_from lba buf i 0 s = Some (0, s)"
| "disk_write_from lba buf i (Suc n) s =
     (case ide_write_sector (lba + i) (get_mem (hmem s) (buf + ucast (i * 512)) 512) s of None \<Rightarrow> None
      | Some (ok, s) \<Rightarrow>
          if \<not> ok then Some (-1, say ''\<newline>'' (say_hex (ucast (lba + i)) (say ''[FAT32] Write error at LBA '' s)))
          else disk_write_from lba buf (i + 1) n s)"

definition disk_write :: "u32 \<Rightarrow> u32 \<Rightarrow> u64 \<Rightarrow> 'a ide_state_scheme \<Rightarrow> (int \<times> 'a ide_state_scheme) option" where
  "disk_write lba count buf s = disk_write_from lba buf 0 (unat count) s"

section \<open>Names\<close>

definition upcase :: "u8 \<Rightarrow> u8" where
  "upcase c = (if c \<ge> 0x61 \<and> c \<le> 0x7A then c - 32 else c)"

text \<open>The two loops of \<^verbatim>\<open>to_short\<close>: the characters they store, and the rest of the name.\<close>

fun short_base :: "nat \<Rightarrow> u8 list \<Rightarrow> u8 list \<times> u8 list" where
  "short_base i [] = ([], [])"
| "short_base i (c # cs) =
     (if i < 8 \<and> c \<noteq> 0x2E then let (out, rest) = short_base (i + 1) cs in (upcase c # out, rest) else ([], c # cs))"

fun short_ext :: "nat \<Rightarrow> u8 list \<Rightarrow> u8 list" where
  "short_ext i [] = []"
| "short_ext i (c # cs) = (if i < 11 then upcase c # short_ext (i + 1) cs else [])"

definition to_short :: "u8 list \<Rightarrow> u8 list" where
  "to_short name =
     (let (base, rest) = short_base 0 name;
          rest = (case rest of [] \<Rightarrow> [] | c # cs \<Rightarrow> if c = 0x2E then cs else rest);
          ext = short_ext 8 rest
      in base @ replicate (8 - length base) 0x20 @ ext @ replicate (3 - length ext) 0x20)"

section \<open>The allocation table\<close>

definition fat_entry :: "fat32_fs_t \<Rightarrow> u32 \<Rightarrow> memory \<Rightarrow> u32" where
  "fat_entry fs cluster m = load32 m (fat fs + 4 * ucast cluster)"

definition set_fat_entry :: "fat32_fs_t \<Rightarrow> u32 \<Rightarrow> u32 \<Rightarrow> 'a heap_state_scheme \<Rightarrow> 'a heap_state_scheme" where
  "set_fat_entry fs cluster v s = s\<lparr>hmem := put_mem (hmem s) (fat fs + 4 * ucast cluster) (bytes32 v)\<rparr>"

definition fat_next_cluster :: "fat32_fs_t \<Rightarrow> u32 \<Rightarrow> memory \<Rightarrow> u32" where
  "fat_next_cluster fs cluster m =
     (if cluster < 2 \<or> cluster \<ge> total_clusters fs + 2 then FAT_EOF else fat_entry fs cluster m AND FAT_MASK)"

definition cluster_to_lba :: "fat32_fs_t \<Rightarrow> u32 \<Rightarrow> u32" where
  "cluster_to_lba fs cluster = first_data_sector fs + (cluster - 2) * sectors_per_cluster fs"

definition find_free_cluster :: "fat32_fs_t \<Rightarrow> memory \<Rightarrow> u32" where
  "find_free_cluster fs m =
     (case find (\<lambda>i. fat_entry fs i m AND FAT_MASK = 0) (map word_of_nat [2..<unat (total_clusters fs + 2)]) of
        Some i \<Rightarrow> i | None \<Rightarrow> 0)"

section \<open>Mounting\<close>

text \<open>The fields of the boot sector, by their offset.\<close>

definition bpb_fs :: "u8 list \<Rightarrow> fat32_fs_t \<Rightarrow> fat32_fs_t" where
  "bpb_fs boot fs =
     (let total_sectors = (if get16 boot 0x13 \<noteq> 0 then ucast (get16 boot 0x13) else get32 boot 0x20);
          fat_size = get32 boot 0x24;
          first = ucast (get16 boot 0x0E) + ucast (boot ! 0x10) * fat_size
      in fs\<lparr>bytes_per_sector := 512, sectors_per_cluster := ucast (boot ! 0x0D), root_cluster := get32 boot 0x2C,
            fat_start_sector := ucast (get16 boot 0x0E), fat_size_sectors := fat_size, first_data_sector := first,
            data_sectors := total_sectors - first,
            total_clusters := (total_sectors - first) div ucast (boot ! 0x0D)\<rparr>)"

definition set_vol :: "u64 \<Rightarrow> (fat32_fs_t \<Rightarrow> fat32_fs_t) \<Rightarrow> 'a fat_state_scheme \<Rightarrow> 'a fat_state_scheme" where
  "set_vol fsp f s = s\<lparr>vols := (vols s)(fsp := f (vols s fsp))\<rparr>"

definition fat32_mount :: "u64 \<Rightarrow> 'a fat_state_scheme \<Rightarrow> (int \<times> 'a fat_state_scheme) option" where
  "fat32_mount fsp s =
     (case ide_read_sector 0 s of None \<Rightarrow> None
      | Some (None, s) \<Rightarrow> Some (-1, s)
      | Some (Some boot, s) \<Rightarrow>
          if boot ! 0x42 \<noteq> 0x28 \<and> boot ! 0x42 \<noteq> 0x29 then Some (-1, say ''[FAT32] Bad signature\<newline>'' s)
          else if get16 boot 0x0B \<noteq> 512 then Some (-1, say ''[FAT32] Sector size != 512\<newline>'' s)
          else if boot ! 0x0D = 0 then None
          else
            let s = set_vol fsp (bpb_fs boot) s
            in case kmalloc (ucast (fat_size_sectors (vols s fsp) * 512)) s of None \<Rightarrow> None | Some (p, s) \<Rightarrow>
                 let s = set_vol fsp (\<lambda>fs. fs\<lparr>fat := p\<rparr>) s
                 in if p = 0 then Some (-1, s)
                    else case disk_read (fat_start_sector (vols s fsp)) (fat_size_sectors (vols s fsp)) p s of
                        None \<Rightarrow> None
                      | Some (r, s) \<Rightarrow>
                          if r \<noteq> 0 then Some (-1, kfree p s)
                          else Some (0, say '' clusters.\<newline>''
                                 (say_dec (total_clusters (vols s fsp)) (say ''[FAT32] Mounted, '' s))))"

definition fat32_unmount :: "u64 \<Rightarrow> 'a fat_state_scheme \<Rightarrow> 'a fat_state_scheme" where
  "fat32_unmount fsp s =
     (if fat (vols s fsp) \<noteq> 0 then set_vol fsp (\<lambda>fs. fs\<lparr>fat := 0\<rparr>) (kfree (fat (vols s fsp)) s) else s)"

section \<open>Directories\<close>

text \<open>
  Entry \<open>i\<close> of a directory cluster at \<open>buf\<close>.  \<open>dir_scan\<close> is the loop over the entries from \<open>i\<close> on: it stops at a
  zero byte, skips deleted entries and long-name entries, and finds the first that satisfies \<open>P\<close>.
\<close>

definition dirent :: "u64 \<Rightarrow> nat \<Rightarrow> u64" where
  "dirent buf i = buf + 32 * word_of_nat i"

definition dir_count :: "fat32_fs_t \<Rightarrow> nat" where
  "dir_count fs = unat (cluster_bytes fs) div 32"

fun dir_scan :: "(memory \<Rightarrow> u64 \<Rightarrow> bool) \<Rightarrow> memory \<Rightarrow> u64 \<Rightarrow> nat \<Rightarrow> nat \<Rightarrow> nat option" where
  "dir_scan P m buf i 0 = None"
| "dir_scan P m buf i (Suc n) =
     (let e = dirent buf i
      in if m e = 0x00 then None
         else if m e = 0xE5 then dir_scan P m buf (i + 1) n
         else if m (e + 11) = 0x0F then dir_scan P m buf (i + 1) n
         else if P m e then Some i
         else dir_scan P m buf (i + 1) n)"

definition name_matches :: "u8 list \<Rightarrow> memory \<Rightarrow> u64 \<Rightarrow> bool" where
  "name_matches target m e \<longleftrightarrow> (\<forall>j < 11. upcase (m (e + word_of_nat j)) = target ! j)"

definition dirent_cluster :: "memory \<Rightarrow> u64 \<Rightarrow> u32" where
  "dirent_cluster m e = ucast (load16 m (e + 26)) OR push_bit 16 (ucast (load16 m (e + 20)))"

text \<open>The walk over the clusters of the root directory: where \<open>hit\<close> first holds, as a cluster and an index in it.\<close>

partial_function (option) dir_search ::
  "(memory \<Rightarrow> u64 \<Rightarrow> bool) \<Rightarrow> fat32_fs_t \<Rightarrow> u64 \<Rightarrow> u32 \<Rightarrow> 'a ide_state_scheme \<Rightarrow> ((u32 \<times> nat) option \<times> 'a ide_state_scheme) option" where
  "dir_search hit fs buf cluster s =
     (if cluster < FAT_EOF \<and> cluster \<ge> 2 then
        case disk_read (cluster_to_lba fs cluster) (sectors_per_cluster fs) buf s of None \<Rightarrow> None
        | Some (r, s) \<Rightarrow>
            if r \<noteq> 0 then Some (None, s)
            else case dir_scan hit (hmem s) buf 0 (dir_count fs) of
                Some i \<Rightarrow> Some (Some (cluster, i), s)
              | None \<Rightarrow> dir_search hit fs buf (fat_next_cluster fs cluster (hmem s)) s
      else Some (None, s))"

primrec list_name :: "nat \<Rightarrow> nat \<Rightarrow> u64 \<Rightarrow> 'a heap_state_scheme \<Rightarrow> 'a heap_state_scheme" where
  "list_name 0 j e s = s"
| "list_name (Suc n) j e s =
     (let c = hmem s (e + word_of_nat j) in if c = 0x20 then s else list_name n (Suc j) e (say_char c s))"

fun list_entries :: "u64 \<Rightarrow> nat \<Rightarrow> nat \<Rightarrow> 'a heap_state_scheme \<Rightarrow> 'a heap_state_scheme" where
  "list_entries buf i 0 s = s"
| "list_entries buf i (Suc n) s =
     (let e = dirent buf i
      in if hmem s e = 0x00 then s
         else if hmem s e = 0xE5 then list_entries buf (i + 1) n s
         else if hmem s (e + 11) = 0x0F then list_entries buf (i + 1) n s
         else let s = list_name 11 0 e s;
                  s = (if hmem s (e + 11) AND 0x10 \<noteq> 0 then say '' [DIR]\<newline>'' s
                       else say '')\<newline>'' (say_dec (load32 (hmem s) (e + 28)) (say '' ('' s)))
              in list_entries buf (i + 1) n s)"

partial_function (option) list_clusters :: "fat32_fs_t \<Rightarrow> u64 \<Rightarrow> u32 \<Rightarrow> 'a ide_state_scheme \<Rightarrow> 'a ide_state_scheme option" where
  "list_clusters fs buf cluster s =
     (if cluster < FAT_EOF \<and> cluster \<ge> 2 then
        case disk_read (cluster_to_lba fs cluster) (sectors_per_cluster fs) buf s of None \<Rightarrow> None
        | Some (r, s) \<Rightarrow>
            if r \<noteq> 0 then Some s
            else let s = list_entries buf 0 (dir_count fs) s
                 in list_clusters fs buf (fat_next_cluster fs cluster (hmem s)) s
      else Some s)"

definition fat32_list_root :: "u64 \<Rightarrow> 'a fat_state_scheme \<Rightarrow> 'a fat_state_scheme option" where
  "fat32_list_root fsp s =
     (case kmalloc (ucast (cluster_bytes (vols s fsp))) s of None \<Rightarrow> None | Some (buf, s) \<Rightarrow>
        if buf = 0 then Some s
        else map_option (kfree buf) (list_clusters (vols s fsp) buf (root_cluster (vols s fsp)) s))"

definition fat32_open :: "u64 \<Rightarrow> u8 list \<Rightarrow> fat32_file_t \<Rightarrow> 'a fat_state_scheme \<Rightarrow> ((int \<times> fat32_file_t) \<times> 'a fat_state_scheme) option" where
  "fat32_open fsp filename file s =
     (let target = to_short filename; fs = vols s fsp
      in case kmalloc (ucast (cluster_bytes fs)) s of None \<Rightarrow> None | Some (buf, s) \<Rightarrow>
           if buf = 0 then Some ((-1, file), s)
           else case dir_search (name_matches target) fs buf (root_cluster fs) s of None \<Rightarrow> None
             | Some (None, s) \<Rightarrow> Some ((-1, file), kfree buf s)
             | Some (Some (cluster, i), s) \<Rightarrow>
                 let e = dirent buf i; c = dirent_cluster (hmem s) e
                 in Some ((0, file\<lparr>file_fs := fsp, start_cluster := c, current_cluster := c,
                           file_size := load32 (hmem s) (e + 28), file_offset := 0\<rparr>), kfree buf s))"

section \<open>Files\<close>

text \<open>
  \<open>fat32_read_loop\<close>: the inner None is the early return of -1; otherwise what is left of \<^verbatim>\<open>remain\<close>, the cluster and
  the offset the loop ends with.
\<close>

partial_function (option) fat32_read_loop ::
  "fat32_fs_t \<Rightarrow> u64 \<Rightarrow> u32 \<Rightarrow> u32 \<Rightarrow> u32 \<Rightarrow> 'a ide_state_scheme \<Rightarrow> ((u32 \<times> u32 \<times> u32) option \<times> 'a ide_state_scheme) option" where
  "fat32_read_loop fs dst remain cluster offset s =
     (if remain \<noteq> 0 \<and> cluster < FAT_EOF \<and> cluster \<ge> 2 then
        case ide_read_sector (cluster_to_lba fs cluster + offset div 512) s of None \<Rightarrow> None
        | Some (None, s) \<Rightarrow> Some (None, s)
        | Some (Some temp, s) \<Rightarrow>
            let byte_off = offset mod 512;
                chunk = (if remain > 512 - byte_off then 512 - byte_off else remain);
                s = s\<lparr>hmem := put_mem (hmem s) dst (take (unat chunk) (drop (unat byte_off) temp))\<rparr>;
                offset = offset + chunk
            in if offset \<ge> cluster_bytes fs
               then fat32_read_loop fs (dst + ucast chunk) (remain - chunk) (fat_next_cluster fs cluster (hmem s)) 0 s
               else fat32_read_loop fs (dst + ucast chunk) (remain - chunk) cluster offset s
      else Some (Some (remain, cluster, offset), s))"

definition fat32_read :: "fat32_file_t \<Rightarrow> u64 \<Rightarrow> u32 \<Rightarrow> 'a fat_state_scheme \<Rightarrow> ((int \<times> fat32_file_t) \<times> 'a fat_state_scheme) option" where
  "fat32_read file buf sz s =
     map_option (\<lambda>(r, s). case r of
         None \<Rightarrow> ((-1, file), s)
       | Some (remain, cluster, offset) \<Rightarrow>
           ((sint (sz - remain), file\<lparr>current_cluster := cluster, file_offset := offset\<rparr>), s))
       (fat32_read_loop (vols s (file_fs file)) buf sz (current_cluster file) (file_offset file) s)"

text \<open>The step to the next cluster when the current one is full, allocating one at the end of the chain; 0: none is free.\<close>

definition next_write_cluster :: "fat32_fs_t \<Rightarrow> u32 \<Rightarrow> 'a heap_state_scheme \<Rightarrow> u32 option \<times> 'a heap_state_scheme" where
  "next_write_cluster fs cluster s =
     (let next = fat_next_cluster fs cluster (hmem s)
      in if next \<ge> FAT_EOF then
           let next = find_free_cluster fs (hmem s)
           in if next = 0 then (None, s)
              else (Some next, set_fat_entry fs next FAT_EOF (set_fat_entry fs cluster next s))
         else (Some next, s))"

partial_function (option) fat32_write_loop ::
  "fat32_fs_t \<Rightarrow> u64 \<Rightarrow> u32 \<Rightarrow> u32 \<Rightarrow> u32 \<Rightarrow> 'a ide_state_scheme \<Rightarrow> ((u32 \<times> u32) option \<times> 'a ide_state_scheme) option" where
  "fat32_write_loop fs src remain cluster offset s =
     (if remain \<noteq> 0 then
        let (c, s) = (if offset \<ge> cluster_bytes fs then next_write_cluster fs cluster s else (Some cluster, s));
            offset = (if offset \<ge> cluster_bytes fs then 0 else offset)
        in case c of None \<Rightarrow> Some (None, s)
           | Some cluster \<Rightarrow>
               case ide_read_sector (cluster_to_lba fs cluster + offset div 512) s of None \<Rightarrow> None
               | Some (None, s) \<Rightarrow> Some (None, s)
               | Some (Some temp, s) \<Rightarrow>
                   let byte_off = offset mod 512;
                       chunk = (if remain > 512 - byte_off then 512 - byte_off else remain);
                       temp = put_bytes (unat byte_off) (get_mem (hmem s) src (unat chunk)) temp
                   in case ide_write_sector (cluster_to_lba fs cluster + offset div 512) temp s of None \<Rightarrow> None
                      | Some (ok, s) \<Rightarrow>
                          if \<not> ok then Some (None, s)
                          else fat32_write_loop fs (src + ucast chunk) (remain - chunk) cluster (offset + chunk) s
      else Some (Some (cluster, offset), s))"

definition fat32_write :: "fat32_file_t \<Rightarrow> u64 \<Rightarrow> u32 \<Rightarrow> 'a fat_state_scheme \<Rightarrow> ((int \<times> fat32_file_t) \<times> 'a fat_state_scheme) option" where
  "fat32_write file buf sz s =
     map_option (\<lambda>(r, s). case r of
         None \<Rightarrow> ((-1, file), s)
       | Some (cluster, offset) \<Rightarrow>
           let file = file\<lparr>current_cluster := cluster, file_offset := offset\<rparr>;
               file = (if file_offset file > file_size file then file\<lparr>file_size := file_offset file\<rparr> else file)
           in ((sint sz, file), s))
       (fat32_write_loop (vols s (file_fs file)) buf sz (current_cluster file) (file_offset file) s)"

partial_function (option) fat32_seek_loop :: "fat32_fs_t \<Rightarrow> u32 \<Rightarrow> u32 \<Rightarrow> u32 \<Rightarrow> memory \<Rightarrow> (u32 \<times> u32) option" where
  "fat32_seek_loop fs cluster_size cluster remaining m =
     (if remaining \<ge> cluster_size then
        let next = fat_next_cluster fs cluster m
        in if next \<ge> FAT_EOF then Some (cluster, remaining)
           else fat32_seek_loop fs cluster_size next (remaining - cluster_size) m
      else Some (cluster, remaining))"

definition fat32_seek :: "fat32_file_t \<Rightarrow> u32 \<Rightarrow> 'a fat_state_scheme \<Rightarrow> fat32_file_t option" where
  "fat32_seek file offset s =
     (if file_fs file = 0 then Some file
      else let offset = (if offset > file_size file then file_size file else offset);
               fs = vols s (file_fs file)
           in map_option (\<lambda>(cluster, remaining). file\<lparr>current_cluster := cluster, file_offset := remaining\<rparr>)
                (fat32_seek_loop fs (sectors_per_cluster fs * bytes_per_sector fs) (start_cluster file) offset (hmem s)))"

section \<open>Updating the directory and the table\<close>

definition fat32_flush :: "u64 \<Rightarrow> 'a fat_state_scheme \<Rightarrow> 'a fat_state_scheme option" where
  "fat32_flush fsp s =
     (let fs = vols s fsp
      in if fat fs = 0 \<or> fat_size_sectors fs = 0 then Some s
         else case disk_write (fat_start_sector fs) (fat_size_sectors fs) (fat fs) (say ''[FAT32] Writing FAT...\<newline>'' s) of
             None \<Rightarrow> None
           | Some (r, s) \<Rightarrow> Some (say ''[FAT32] FAT flushed.\<newline>'' s))"

definition fat32_update_dir_entry :: "fat32_file_t \<Rightarrow> 'a fat_state_scheme \<Rightarrow> (int \<times> 'a fat_state_scheme) option" where
  "fat32_update_dir_entry file s =
     (if file_fs file = 0 then Some (-1, s)
      else let fs = vols s (file_fs file)
      in case kmalloc (ucast (cluster_bytes fs)) s of None \<Rightarrow> None | Some (buf, s) \<Rightarrow>
           if buf = 0 then Some (-1, s)
           else case rtc_read_time s of None \<Rightarrow> None | Some (now, s) \<Rightarrow>
             case dir_search (\<lambda>m e. dirent_cluster m e = start_cluster file) fs buf (root_cluster fs) s of None \<Rightarrow> None
             | Some (None, s) \<Rightarrow> Some (-1, kfree buf s)
             | Some (Some (cluster, i), s) \<Rightarrow>
                 let e = dirent buf i;
                     m = put_mem (hmem s) (e + 28) (bytes32 (file_size file));
                     m = put_mem m (e + 22) (bytes16 (rtc_to_fat_time now));
                     m = put_mem m (e + 24) (bytes16 (rtc_to_fat_date now))
                 in case disk_write (cluster_to_lba fs cluster) (sectors_per_cluster fs) buf (s\<lparr>hmem := m\<rparr>) of
                      None \<Rightarrow> None
                    | Some (r, s) \<Rightarrow> Some (if r \<noteq> 0 then -1 else 0, kfree buf s))"

definition fat32_close :: "fat32_file_t \<Rightarrow> 'a fat_state_scheme \<Rightarrow> 'a fat_state_scheme option" where
  "fat32_close file s =
     (if file_fs file = 0 then Some s
      else case fat32_update_dir_entry file s of None \<Rightarrow> None | Some (r, s) \<Rightarrow> fat32_flush (file_fs file) s)"

fun free_scan :: "memory \<Rightarrow> u64 \<Rightarrow> nat \<Rightarrow> nat \<Rightarrow> nat option" where
  "free_scan m buf i 0 = None"
| "free_scan m buf i (Suc n) =
     (if m (dirent buf i) = 0x00 \<or> m (dirent buf i) = 0xE5 then Some i else free_scan m buf (i + 1) n)"

partial_function (option) create_search ::
  "fat32_fs_t \<Rightarrow> u64 \<Rightarrow> u32 \<Rightarrow> 'a ide_state_scheme \<Rightarrow> ((u32 \<times> nat) option \<times> 'a ide_state_scheme) option" where
  "create_search fs buf cluster s =
     (if cluster < FAT_EOF \<and> cluster \<ge> 2 then
        case disk_read (cluster_to_lba fs cluster) (sectors_per_cluster fs) buf s of None \<Rightarrow> None
        | Some (r, s) \<Rightarrow>
            if r \<noteq> 0 then Some (None, s)
            else case free_scan (hmem s) buf 0 (dir_count fs) of
                Some i \<Rightarrow> Some (Some (cluster, i), s)
              | None \<Rightarrow>
                  let next = fat_next_cluster fs cluster (hmem s)
                  in if next \<ge> FAT_EOF then Some (None, s) else create_search fs buf next s
      else Some (None, s))"

definition new_entry :: "u64 \<Rightarrow> u8 list \<Rightarrow> u32 \<Rightarrow> rtc_time_t \<Rightarrow> memory \<Rightarrow> memory" where
  "new_entry e target clu now m =
     (let m = put_mem m e target;
          m = put_mem m (e + 11) [0x20];
          m = put_mem m (e + 26) (bytes16 (ucast (clu AND 0xFFFF)));
          m = put_mem m (e + 20) (bytes16 (ucast (drop_bit 16 clu)));
          m = put_mem m (e + 28) (bytes32 0);
          m = put_mem m (e + 14) (bytes16 (rtc_to_fat_time now));
          m = put_mem m (e + 16) (bytes16 (rtc_to_fat_date now));
          m = put_mem m (e + 22) (bytes16 (rtc_to_fat_time now));
          m = put_mem m (e + 24) (bytes16 (rtc_to_fat_date now))
      in put_mem m (e + 28) (bytes32 0))"

definition fat32_create_file :: "u64 \<Rightarrow> u8 list \<Rightarrow> fat32_file_t \<Rightarrow> 'a fat_state_scheme \<Rightarrow> ((int \<times> fat32_file_t) \<times> 'a fat_state_scheme) option" where
  "fat32_create_file fsp filename file s =
     (let target = to_short filename; fs = vols s fsp
      in case kmalloc (ucast (cluster_bytes fs)) s of None \<Rightarrow> None | Some (buf, s) \<Rightarrow>
           if buf = 0 then Some ((-1, file), s)
           else case create_search fs buf (root_cluster fs) s of None \<Rightarrow> None
             | Some (None, s) \<Rightarrow> Some ((-1, file), kfree buf s)
             | Some (Some (target_clu, entry_idx), s) \<Rightarrow>
                 let new_clu = find_free_cluster fs (hmem s)
                 in if new_clu = 0 then Some ((-1, file), kfree buf s)
                    else
                      let s = set_fat_entry fs new_clu FAT_EOF s
                      in case rtc_read_time s of None \<Rightarrow> None | Some (now, s) \<Rightarrow>
                           let s = s\<lparr>hmem := new_entry (dirent buf entry_idx) target new_clu now (hmem s)\<rparr>
                           in case disk_write (cluster_to_lba fs target_clu) (sectors_per_cluster fs) buf s of None \<Rightarrow> None
                              | Some (r, s) \<Rightarrow>
                                  map_option (\<lambda>s. ((0, file\<lparr>file_fs := fsp, start_cluster := new_clu, current_cluster := new_clu,
                                      file_size := 0, file_offset := 0\<rparr>), s))
                                    (fat32_flush fsp (kfree buf s)))"

partial_function (option) free_chain_loop :: "fat32_fs_t \<Rightarrow> u32 \<Rightarrow> 'a heap_state_scheme \<Rightarrow> 'a heap_state_scheme option" where
  "free_chain_loop fs cluster s =
     (if cluster \<ge> 2 \<and> cluster < FAT_EOF then
        let next = fat_entry fs cluster (hmem s) AND FAT_MASK;
            s = set_fat_entry fs cluster 0 s
        in if next \<ge> FAT_EOF then Some s else free_chain_loop fs next s
      else Some s)"

definition fat32_free_cluster_chain :: "fat32_fs_t \<Rightarrow> u32 \<Rightarrow> 'a heap_state_scheme \<Rightarrow> (int \<times> 'a heap_state_scheme) option" where
  "fat32_free_cluster_chain fs start s = map_option (\<lambda>s. (0, s)) (free_chain_loop fs start s)"

definition fat32_delete :: "u64 \<Rightarrow> u8 list \<Rightarrow> 'a fat_state_scheme \<Rightarrow> (int \<times> 'a fat_state_scheme) option" where
  "fat32_delete fsp filename s =
     (let target = to_short filename; fs = vols s fsp
      in case kmalloc (ucast (cluster_bytes fs)) s of None \<Rightarrow> None | Some (buf, s) \<Rightarrow>
           if buf = 0 then Some (-1, s)
           else case dir_search (name_matches target) fs buf (root_cluster fs) s of None \<Rightarrow> None
             | Some (None, s) \<Rightarrow> Some (-1, kfree buf s)
             | Some (Some (entry_cluster, i), s) \<Rightarrow>
                 let e = dirent buf i;
                     file_first_cluster = dirent_cluster (hmem s) e;
                     s = s\<lparr>hmem := (hmem s)(e := 0xE5)\<rparr>
                 in case disk_write (cluster_to_lba fs entry_cluster) (sectors_per_cluster fs) buf s of None \<Rightarrow> None
                    | Some (r, s) \<Rightarrow>
                        if r \<noteq> 0 then Some (-1, kfree buf s)
                        else
                          let s = kfree buf s
                          in case (if file_first_cluster \<noteq> 0 then fat32_free_cluster_chain fs file_first_cluster s else Some (0, s)) of
                               None \<Rightarrow> None
                             | Some (r, s) \<Rightarrow> map_option (\<lambda>s. (0, s)) (fat32_flush fsp s))"

end
