(* ===== verification/Fat32_Vfs.thy ===== *)
theory Fat32_Vfs
  imports Fat32
begin

text \<open>
  The adapter between FAT32 and the virtual file system (\<^verbatim>\<open>kernel/VFSAdapters/fat32_vfs.c\<close>) with the data
  types of \<^verbatim>\<open>include/kernel/vfs.h\<close>.  Nodes, file handles, directory handles and iterators are heap objects, kept
  in stores from the addresses that \<^verbatim>\<open>kmalloc\<close> hands out to records.  The operation tables are values: a node points to one of the
  two tables the adapter defines, or to none.
\<close>

section \<open>Data\<close>

abbreviation VFS_FLAG_DIR :: u32 where "VFS_FLAG_DIR \<equiv> 1"
abbreviation VFS_FLAG_FILE :: u32 where "VFS_FLAG_FILE \<equiv> 2"
abbreviation VFS_FLAG_MOUNTPOINT :: u32 where "VFS_FLAG_MOUNTPOINT \<equiv> 4"
abbreviation O_RDONLY :: u32 where "O_RDONLY \<equiv> 1"

datatype vfs_file_ops_t = fat32_dir_ops | fat32_file_ops

record vfs_node_t =
  node_name :: "u8 list"
  node_flags :: u32
  node_permissions :: u32
  node_inode :: u32
  node_size :: u32
  node_fs_data :: u64
  node_ops :: "vfs_file_ops_t option"

record vfs_dir_entry_t =
  entry_name :: "u8 list"
  entry_inode :: u32
  entry_type :: u32

record vfs_dir_t =
  dir_node :: u64
  dir_internal :: u64

record fat32_dir_iter_t =
  iter_cluster :: u32
  entry_offset :: u32

record mount_point_t =
  mp_device :: "u8 list"
  mp_path :: "u8 list"
  mp_fs_type :: u32
  mp_root :: u64
  mp_fs_data :: u64
  mp_next :: u64

record file_handle_t =
  fh_node :: u64
  fh_pos :: u32
  fh_flags :: u32
  fh_ref_count :: int

record vfs_state = fat_state +
  fat32_fs :: u64
  nodes :: "u64 \<Rightarrow> vfs_node_t"
  file_objs :: "u64 \<Rightarrow> fat32_file_t"
  dir_objs :: "u64 \<Rightarrow> vfs_dir_t"
  iters :: "u64 \<Rightarrow> fat32_dir_iter_t"
  mounts :: "u64 \<Rightarrow> mount_point_t"
  mount_list :: u64
  fd_table :: "file_handle_t list"

abbreviation SIZEOF_vfs_node_t :: u64 where "SIZEOF_vfs_node_t \<equiv> 320"
abbreviation SIZEOF_fat32_file_t :: u64 where "SIZEOF_fat32_file_t \<equiv> 24"
abbreviation SIZEOF_vfs_dir_t :: u64 where "SIZEOF_vfs_dir_t \<equiv> 16"
abbreviation SIZEOF_fat32_dir_iter_t :: u64 where "SIZEOF_fat32_dir_iter_t \<equiv> 8"
abbreviation SIZEOF_mount_point_t :: u64 where "SIZEOF_mount_point_t \<equiv> 352"

definition set_node :: "u64 \<Rightarrow> (vfs_node_t \<Rightarrow> vfs_node_t) \<Rightarrow> 'a vfs_state_scheme \<Rightarrow> 'a vfs_state_scheme" where
  "set_node n f s = s\<lparr>nodes := (nodes s)(n := f (nodes s n))\<rparr>"

definition set_file :: "u64 \<Rightarrow> fat32_file_t \<Rightarrow> 'a vfs_state_scheme \<Rightarrow> 'a vfs_state_scheme" where
  "set_file p v s = s\<lparr>file_objs := (file_objs s)(p := v)\<rparr>"

definition set_dir :: "u64 \<Rightarrow> (vfs_dir_t \<Rightarrow> vfs_dir_t) \<Rightarrow> 'a vfs_state_scheme \<Rightarrow> 'a vfs_state_scheme" where
  "set_dir d f s = s\<lparr>dir_objs := (dir_objs s)(d := f (dir_objs s d))\<rparr>"

definition set_iter :: "u64 \<Rightarrow> fat32_dir_iter_t \<Rightarrow> 'a vfs_state_scheme \<Rightarrow> 'a vfs_state_scheme" where
  "set_iter p v s = s\<lparr>iters := (iters s)(p := v)\<rparr>"

section \<open>Files\<close>

definition fat32_vfs_read :: "u64 \<Rightarrow> u64 \<Rightarrow> u32 \<Rightarrow> u32 \<Rightarrow> 'a vfs_state_scheme \<Rightarrow> (int \<times> 'a vfs_state_scheme) option" where
  "fat32_vfs_read node buf count offset s =
     (if node = 0 \<or> node_fs_data (nodes s node) = 0 then Some (-1, s)
      else let file = node_fs_data (nodes s node)
           in case fat32_seek (file_objs s file) offset s of None \<Rightarrow> None | Some f \<Rightarrow>
                map_option (\<lambda>((r, f), s). (r, set_file file f s)) (fat32_read f buf count s))"

definition fat32_vfs_write :: "u64 \<Rightarrow> u64 \<Rightarrow> u32 \<Rightarrow> u32 \<Rightarrow> 'a vfs_state_scheme \<Rightarrow> (int \<times> 'a vfs_state_scheme) option" where
  "fat32_vfs_write node buf count offset s =
     (if node = 0 \<or> node_fs_data (nodes s node) = 0 then Some (-1, s)
      else let file = node_fs_data (nodes s node)
           in case fat32_seek (file_objs s file) offset s of None \<Rightarrow> None | Some f \<Rightarrow>
                map_option (\<lambda>((r, f), s). (r, set_file file f s)) (fat32_write f buf count s))"

definition fat32_vfs_close :: "u64 \<Rightarrow> 'a vfs_state_scheme \<Rightarrow> (int \<times> 'a vfs_state_scheme) option" where
  "fat32_vfs_close node s =
     (if node = 0 \<or> node_fs_data (nodes s node) = 0 then Some (-1, s)
      else let file = node_fs_data (nodes s node)
           in map_option (\<lambda>s. (0, set_node node (\<lambda>n. n\<lparr>node_fs_data := 0\<rparr>) (kfree file s)))
                (fat32_close (file_objs s file) s))"

text \<open>\<open>no_file\<close> stands for the uninitialised local variable that \<^verbatim>\<open>fat32_open\<close> fills in.\<close>

definition no_file :: fat32_file_t where
  "no_file = \<lparr>file_fs = 0, start_cluster = 0, current_cluster = 0, file_size = 0, file_offset = 0\<rparr>"

definition fat32_vfs_finddir_dir :: "u64 \<Rightarrow> u8 list \<Rightarrow> 'a vfs_state_scheme \<Rightarrow> (u64 \<times> 'a vfs_state_scheme) option" where
  "fat32_vfs_finddir_dir dir name s =
     (if dir = 0 \<or> node_flags (nodes s dir) AND VFS_FLAG_DIR = 0 then Some (0, s)
      else if fat32_fs s = 0 then Some (0, s)
      else case fat32_open (fat32_fs s) name no_file s of None \<Rightarrow> None | Some ((r, tmp), s) \<Rightarrow>
        if r \<noteq> 0 then Some (0, s)
        else case kmalloc SIZEOF_vfs_node_t s of None \<Rightarrow> None | Some (node, s) \<Rightarrow>
          if node = 0 then map_option (\<lambda>s. (0, s)) (fat32_close tmp s)
          else
            let s = set_node node (\<lambda>n. n\<lparr>node_name := take 255 name, node_flags := VFS_FLAG_FILE,
                      node_size := file_size tmp, node_inode := start_cluster tmp\<rparr>) s
            in case kmalloc SIZEOF_fat32_file_t s of None \<Rightarrow> None | Some (file, s) \<Rightarrow>
                 if file = 0 then map_option (\<lambda>s. (0, s)) (fat32_close tmp (kfree node s))
                 else Some (node, set_node node (\<lambda>n. n\<lparr>node_fs_data := file, node_ops := Some fat32_file_ops\<rparr>)
                             (set_file file tmp s)))"

definition fat32_vfs_create :: "u64 \<Rightarrow> u8 list \<Rightarrow> u32 \<Rightarrow> 'a vfs_state_scheme \<Rightarrow> (int \<times> 'a vfs_state_scheme) option" where
  "fat32_vfs_create root name flags s =
     (if fat32_fs s = 0 then Some (-1, s)
      else case fat32_create_file (fat32_fs s) name no_file s of None \<Rightarrow> None | Some ((r, file), s) \<Rightarrow>
        if r \<noteq> 0 then Some (-1, s) else map_option (\<lambda>s. (0, s)) (fat32_close file s))"

definition fat32_vfs_delete :: "u64 \<Rightarrow> u8 list \<Rightarrow> 'a vfs_state_scheme \<Rightarrow> (int \<times> 'a vfs_state_scheme) option" where
  "fat32_vfs_delete root name s = (if fat32_fs s = 0 then Some (-1, s) else fat32_delete (fat32_fs s) name s)"

section \<open>Directory iteration\<close>

datatype readdir_result = Found nat | End_mark | Exhausted

text \<open>The loop over the entries of one cluster from index \<open>i\<close> on, and the index it leaves in the iterator.\<close>

fun readdir_scan :: "memory \<Rightarrow> u64 \<Rightarrow> nat \<Rightarrow> nat \<Rightarrow> readdir_result \<times> nat" where
  "readdir_scan m buf i 0 = (Exhausted, i)"
| "readdir_scan m buf i (Suc n) =
     (let e = dirent buf i
      in if m e = 0x00 then (End_mark, i + 1)
         else if m e = 0xE5 then readdir_scan m buf (i + 1) n
         else if m (e + 11) = 0x0F then readdir_scan m buf (i + 1) n
         else (Found i, i + 1))"

definition short_name_at :: "memory \<Rightarrow> u64 \<Rightarrow> u8 list" where
  "short_name_at m e = takeWhile (\<lambda>c. c \<noteq> 0x20) (get_mem m e 11)"

definition entry_at :: "memory \<Rightarrow> u64 \<Rightarrow> vfs_dir_entry_t" where
  "entry_at m e = \<lparr>entry_name = takeWhile (\<lambda>c. c \<noteq> 0) (short_name_at m e), entry_inode = dirent_cluster m e,
     entry_type = (if m (e + 11) AND 0x10 \<noteq> 0 then VFS_FLAG_DIR else VFS_FLAG_FILE)\<rparr>"

partial_function (option) readdir_loop ::
  "fat32_fs_t \<Rightarrow> u64 \<Rightarrow> u64 \<Rightarrow> 'a vfs_state_scheme \<Rightarrow> ((int \<times> vfs_dir_entry_t option) \<times> 'a vfs_state_scheme) option" where
  "readdir_loop fs iter buf s =
     (let cluster = iter_cluster (iters s iter)
      in if cluster \<ge> 2 \<and> cluster < FAT_EOF then
           case fat32_disk_read (cluster_to_lba fs cluster) (sectors_per_cluster fs) buf s of None \<Rightarrow> None
           | Some (r, s) \<Rightarrow>
               if r \<noteq> 0 then Some ((-1, None), s)
               else
                 let off = unat (entry_offset (iters s iter));
                     (found, off) = readdir_scan (hmem s) buf off (dir_count fs - off);
                     s = set_iter iter ((iters s iter)\<lparr>entry_offset := word_of_nat off\<rparr>) s
                 in case found of
                      End_mark \<Rightarrow> Some ((0, None), set_iter iter ((iters s iter)\<lparr>iter_cluster := FAT_EOF\<rparr>) s)
                    | Found i \<Rightarrow> Some ((1, Some (entry_at (hmem s) (dirent buf i))), s)
                    | Exhausted \<Rightarrow>
                        let next = fat_next_cluster fs cluster (hmem s)
                        in if next \<ge> FAT_EOF
                           then Some ((0, None), set_iter iter ((iters s iter)\<lparr>iter_cluster := FAT_EOF\<rparr>) s)
                           else readdir_loop fs iter buf (set_iter iter \<lparr>iter_cluster = next, entry_offset = 0\<rparr> s)
         else Some ((0, None), s))"

definition fat32_vfs_readdir :: "u64 \<Rightarrow> u64 \<Rightarrow> 'a vfs_state_scheme \<Rightarrow> ((int \<times> vfs_dir_entry_t option) \<times> 'a vfs_state_scheme) option" where
  "fat32_vfs_readdir node dir s =
     (if node = 0 \<or> node_flags (nodes s node) AND VFS_FLAG_DIR = 0 \<or> fat32_fs s = 0 then Some ((-1, None), s)
      else
        let fs = vols s (fat32_fs s)
        in case (if dir_internal (dir_objs s dir) \<noteq> 0 then Some (dir_internal (dir_objs s dir), s)
                 else map_option (\<lambda>(iter, s). (iter,
                     if iter = 0 then s
                     else set_dir dir (\<lambda>d. d\<lparr>dir_internal := iter\<rparr>)
                            (set_iter iter \<lparr>iter_cluster = root_cluster fs, entry_offset = 0\<rparr> s)))
                   (kmalloc SIZEOF_fat32_dir_iter_t s)) of
             None \<Rightarrow> None
           | Some (iter, s) \<Rightarrow>
               if iter = 0 then Some ((-1, None), s)
               else case kmalloc (ucast (cluster_bytes fs)) s of None \<Rightarrow> None | Some (buf, s) \<Rightarrow>
                 if buf = 0 then Some ((-1, None), s)
                 else map_option (\<lambda>(r, s). (r, kfree buf s)) (readdir_loop fs iter buf s))"

section \<open>Mounting\<close>

definition fat32_mount_to_vfs :: "u64 \<Rightarrow> 'a vfs_state_scheme \<Rightarrow> (u64 \<times> 'a vfs_state_scheme) option" where
  "fat32_mount_to_vfs fs s =
     (case kmalloc SIZEOF_vfs_node_t (s\<lparr>fat32_fs := fs\<rparr>) of None \<Rightarrow> None | Some (root, s) \<Rightarrow>
        if root = 0 then Some (0, s)
        else Some (root, set_node root (\<lambda>n. n\<lparr>node_name := [0x2F], node_flags := VFS_FLAG_DIR OR VFS_FLAG_MOUNTPOINT,
               node_size := 0, node_inode := 0, node_fs_data := 0, node_ops := Some fat32_dir_ops\<rparr>) s))"

end
