(* ===== verification/Vfs.thy ===== *)
theory Vfs
  imports Fat32_Vfs
begin

text \<open>
  The virtual file system (\<^verbatim>\<open>kernel/InitKernel/vfs.c\<close>): mount points, path resolution, nodes, directories and the
  table of 256 file descriptors.  Paths and names are the bytes of a C string without its terminator.
\<close>

abbreviation MAX_FDS :: nat where "MAX_FDS \<equiv> 256"
abbreviation SLASH :: u8 where "SLASH \<equiv> 0x2F"

definition say_bytes :: "u8 list \<Rightarrow> 'a vmm_state_scheme \<Rightarrow> 'a vmm_state_scheme" where
  "say_bytes bs s = say (map (\<lambda>b. char_of (unat b)) bs) s"

section \<open>Operation tables\<close>

text \<open>Which entries of a table are set, and the functions they hold.\<close>

definition has_rw :: "vfs_file_ops_t option \<Rightarrow> bool" where
  "has_rw ops \<longleftrightarrow> ops = Some fat32_file_ops"

definition has_dir :: "vfs_file_ops_t option \<Rightarrow> bool" where
  "has_dir ops \<longleftrightarrow> ops \<noteq> None"

definition has_readdir :: "vfs_file_ops_t option \<Rightarrow> bool" where
  "has_readdir ops \<longleftrightarrow> ops = Some fat32_dir_ops"

section \<open>Start and mounting\<close>

definition vfs_init :: "'a vfs_state_scheme \<Rightarrow> 'a vfs_state_scheme" where
  "vfs_init s = (say ''[VFS] Init.\<newline>'' s)
     \<lparr>fd_table := replicate MAX_FDS \<lparr>fh_node = 0, fh_pos = 0, fh_flags = 0, fh_ref_count = 0\<rparr>\<rparr>"

definition vfs_mount :: "u8 list \<Rightarrow> u8 list \<Rightarrow> u32 \<Rightarrow> u64 \<Rightarrow> 'a vfs_state_scheme \<Rightarrow> (int \<times> 'a vfs_state_scheme) option" where
  "vfs_mount device path fs_type fs_data s =
     (case kmalloc SIZEOF_mount_point_t s of None \<Rightarrow> None | Some (mp, s) \<Rightarrow>
        if mp = 0 then Some (-1, s)
        else
          let s = s\<lparr>mounts := (mounts s)(mp := \<lparr>mp_device = take 63 device, mp_path = take 255 path, mp_fs_type = fs_type,
                mp_root = fs_data, mp_fs_data = fs_data, mp_next = mount_list s\<rparr>)\<rparr>;
              s = s\<lparr>mount_list := mp\<rparr>
          in Some (0, say ''\<newline>'' (say_bytes (mp_path (mounts s mp)) (say (CHR 0x27 # '' at '') (say_bytes (mp_device (mounts s mp))
               (say (''[VFS] Mounted '' @ [CHR 0x27]) s))))))"

partial_function (option) root_mount :: "(u64 \<Rightarrow> mount_point_t) \<Rightarrow> u64 \<Rightarrow> u64 option" where
  "root_mount m mp =
     (if mp \<noteq> 0 then if mp_path (m mp) = [SLASH] then Some mp else root_mount m (mp_next (m mp)) else Some 0)"

section \<open>Path resolution\<close>

text \<open>The characters copied into \<^verbatim>\<open>token\<close>, at most 255, and the rest of the path.\<close>

fun path_token :: "nat \<Rightarrow> u8 list \<Rightarrow> u8 list \<times> u8 list" where
  "path_token i [] = ([], [])"
| "path_token i (c # cs) =
     (if c \<noteq> SLASH \<and> i < 255 then let (tok, rest) = path_token (i + 1) cs in (c # tok, rest) else ([], c # cs))"

definition skip_slash :: "u8 list \<Rightarrow> u8 list" where
  "skip_slash p = (case p of [] \<Rightarrow> [] | c # cs \<Rightarrow> if c = SLASH then cs else p)"

lemma path_token_length: "length (snd (path_token i p)) + length (fst (path_token i p)) = length p"
  by (induction i p rule: path_token.induct) (auto simp: case_prod_beta)

lemma path_step_shorter: "p \<noteq> [] \<Longrightarrow> length (skip_slash (snd (path_token 0 p))) < length p"
proof (cases p)
  case (Cons c cs)
  then show ?thesis
    using path_token_length[of 1 cs] by (auto simp: skip_slash_def case_prod_beta split: list.split)
qed simp

function resolve_from :: "u64 \<Rightarrow> u8 list \<Rightarrow> 'a vfs_state_scheme \<Rightarrow> (u64 \<times> 'a vfs_state_scheme) option" where
  "resolve_from current p s =
     (if p = [] then Some (current, s)
      else
        let (token, rest) = path_token 0 p;
            rest = skip_slash rest
        in if node_flags (nodes s current) AND VFS_FLAG_DIR = 0 \<or> \<not> has_dir (node_ops (nodes s current)) then Some (0, s)
           else case fat32_vfs_finddir_dir current token s of None \<Rightarrow> None
             | Some (next, s) \<Rightarrow> if next = 0 then Some (0, s) else resolve_from next rest s)"
  by pat_completeness auto
termination
  by (relation "measure (\<lambda>(c, p, s). length p)") (auto, metis path_step_shorter snd_conv)

definition resolve_path :: "u8 list \<Rightarrow> 'a vfs_state_scheme \<Rightarrow> (u64 \<times> 'a vfs_state_scheme) option" where
  "resolve_path path s =
     (case path of [] \<Rightarrow> Some (0, s)
      | c # p \<Rightarrow>
          if c \<noteq> SLASH then Some (0, s)
          else case root_mount (mounts s) (mount_list s) of None \<Rightarrow> None | Some mp \<Rightarrow>
            if mp = 0 \<or> mp_root (mounts s mp) = 0 then Some (0, s)
            else resolve_from (mp_root (mounts s mp)) p s)"

section \<open>Nodes\<close>

definition vfs_open_node :: "u8 list \<Rightarrow> 'a vfs_state_scheme \<Rightarrow> (u64 \<times> 'a vfs_state_scheme) option" where
  "vfs_open_node path s = resolve_path path s"

definition vfs_read_node :: "u64 \<Rightarrow> u64 \<Rightarrow> u32 \<Rightarrow> u32 \<Rightarrow> 'a vfs_state_scheme \<Rightarrow> (int \<times> 'a vfs_state_scheme) option" where
  "vfs_read_node node buf count offset s =
     (if node = 0 \<or> node_flags (nodes s node) AND VFS_FLAG_FILE = 0 \<or> \<not> has_rw (node_ops (nodes s node)) then Some (-1, s)
      else fat32_vfs_read node buf count offset s)"

definition vfs_write_node :: "u64 \<Rightarrow> u64 \<Rightarrow> u32 \<Rightarrow> u32 \<Rightarrow> 'a vfs_state_scheme \<Rightarrow> (int \<times> 'a vfs_state_scheme) option" where
  "vfs_write_node node buf count offset s =
     (if node = 0 \<or> node_flags (nodes s node) AND VFS_FLAG_FILE = 0 \<or> \<not> has_rw (node_ops (nodes s node)) then Some (-1, s)
      else fat32_vfs_write node buf count offset s)"

definition vfs_close_node :: "u64 \<Rightarrow> 'a vfs_state_scheme \<Rightarrow> (int \<times> 'a vfs_state_scheme) option" where
  "vfs_close_node node s =
     (if node = 0 \<or> \<not> has_rw (node_ops (nodes s node)) then Some (-1, s) else fat32_vfs_close node s)"

definition vfs_finddir :: "u64 \<Rightarrow> u8 list \<Rightarrow> 'a vfs_state_scheme \<Rightarrow> (u64 \<times> 'a vfs_state_scheme) option" where
  "vfs_finddir dir name s =
     (if dir = 0 \<or> node_flags (nodes s dir) AND VFS_FLAG_DIR = 0 \<or> \<not> has_dir (node_ops (nodes s dir)) then Some (0, s)
      else fat32_vfs_finddir_dir dir name s)"

definition vfs_stat_node :: "u64 \<Rightarrow> 'a vfs_state_scheme \<Rightarrow> (u32 \<times> u32 \<times> u32) option" where
  "vfs_stat_node node s =
     (if node = 0 then None
      else Some (node_size (nodes s node), node_flags (nodes s node), node_permissions (nodes s node)))"

definition vfs_create :: "u8 list \<Rightarrow> u32 \<Rightarrow> 'a vfs_state_scheme \<Rightarrow> (int \<times> 'a vfs_state_scheme) option" where
  "vfs_create path flags s =
     (case path of [] \<Rightarrow> Some (-1, s)
      | c # filename \<Rightarrow>
          if c \<noteq> SLASH then Some (-1, s)
          else case root_mount (mounts s) (mount_list s) of None \<Rightarrow> None | Some mp \<Rightarrow>
            let root = mp_root (mounts s mp)
            in if mp = 0 \<or> root = 0 then Some (-1, s)
               else if \<not> has_dir (node_ops (nodes s root)) then Some (-1, s)
               else fat32_vfs_create root filename flags s)"

definition vfs_delete :: "u8 list \<Rightarrow> 'a vfs_state_scheme \<Rightarrow> (int \<times> 'a vfs_state_scheme) option" where
  "vfs_delete path s =
     (case path of [] \<Rightarrow> Some (-1, s)
      | c # filename \<Rightarrow>
          if c \<noteq> SLASH then Some (-1, s)
          else case root_mount (mounts s) (mount_list s) of None \<Rightarrow> None | Some mp \<Rightarrow>
            let root = mp_root (mounts s mp)
            in if mp = 0 \<or> root = 0 then Some (-1, s)
               else if \<not> has_dir (node_ops (nodes s root)) then Some (-1, s)
               else fat32_vfs_delete root filename s)"

section \<open>Directories\<close>

definition vfs_opendir :: "u8 list \<Rightarrow> 'a vfs_state_scheme \<Rightarrow> (u64 \<times> 'a vfs_state_scheme) option" where
  "vfs_opendir path s =
     (case resolve_path path s of None \<Rightarrow> None | Some (node, s) \<Rightarrow>
        if node = 0 \<or> node_flags (nodes s node) AND VFS_FLAG_DIR = 0 then Some (0, s)
        else map_option (\<lambda>(dir, s). (dir, if dir = 0 then s else set_dir dir (\<lambda>_. \<lparr>dir_node = node, dir_internal = 0\<rparr>) s))
               (kmalloc SIZEOF_vfs_dir_t s))"

definition vfs_readdir :: "u64 \<Rightarrow> 'a vfs_state_scheme \<Rightarrow> ((int \<times> vfs_dir_entry_t option) \<times> 'a vfs_state_scheme) option" where
  "vfs_readdir dir s =
     (let node = dir_node (dir_objs s dir)
      in if dir = 0 \<or> node = 0 \<or> \<not> has_readdir (node_ops (nodes s node)) then Some ((-1, None), s)
         else fat32_vfs_readdir node dir s)"

definition vfs_closedir :: "u64 \<Rightarrow> 'a vfs_state_scheme \<Rightarrow> 'a vfs_state_scheme" where
  "vfs_closedir dir s =
     (if dir = 0 then s
      else let s = (if dir_internal (dir_objs s dir) \<noteq> 0
                    then set_dir dir (\<lambda>d. d\<lparr>dir_internal := 0\<rparr>) (kfree (dir_internal (dir_objs s dir)) s) else s)
           in kfree dir s)"

section \<open>File descriptors\<close>

definition fd_valid :: "int \<Rightarrow> 'a vfs_state_scheme \<Rightarrow> bool" where
  "fd_valid fd s \<longleftrightarrow> 0 \<le> fd \<and> fd < int MAX_FDS \<and> fh_node (fd_table s ! nat fd) \<noteq> 0"

definition vfs_open :: "u8 list \<Rightarrow> u32 \<Rightarrow> 'a vfs_state_scheme \<Rightarrow> (int \<times> 'a vfs_state_scheme) option" where
  "vfs_open path flags s =
     (case vfs_open_node path s of None \<Rightarrow> None | Some (node, s) \<Rightarrow>
        if node = 0 \<or> node_flags (nodes s node) AND VFS_FLAG_FILE = 0 then Some (-1, s)
        else case find (\<lambda>i. fh_node (fd_table s ! i) = 0) [0..<MAX_FDS] of
            None \<Rightarrow> Some (-1, s)
          | Some i \<Rightarrow>
              Some (int i, s\<lparr>fd_table := (fd_table s)[i := \<lparr>fh_node = node, fh_pos = 0, fh_flags = flags, fh_ref_count = 1\<rparr>]\<rparr>))"

definition advance_fd :: "int \<Rightarrow> int \<Rightarrow> 'a vfs_state_scheme \<Rightarrow> 'a vfs_state_scheme" where
  "advance_fd fd ret s =
     (if ret > 0 then s\<lparr>fd_table := (fd_table s)[nat fd := (fd_table s ! nat fd)\<lparr>fh_pos := fh_pos (fd_table s ! nat fd) + word_of_int ret\<rparr>]\<rparr>
      else s)"

definition vfs_read :: "int \<Rightarrow> u64 \<Rightarrow> u32 \<Rightarrow> 'a vfs_state_scheme \<Rightarrow> (int \<times> 'a vfs_state_scheme) option" where
  "vfs_read fd buf count s =
     (if \<not> fd_valid fd s then Some (-1, s)
      else map_option (\<lambda>(ret, s). (ret, advance_fd fd ret s))
             (vfs_read_node (fh_node (fd_table s ! nat fd)) buf count (fh_pos (fd_table s ! nat fd)) s))"

definition vfs_write :: "int \<Rightarrow> u64 \<Rightarrow> u32 \<Rightarrow> 'a vfs_state_scheme \<Rightarrow> (int \<times> 'a vfs_state_scheme) option" where
  "vfs_write fd buf count s =
     (if \<not> fd_valid fd s then Some (-1, s)
      else map_option (\<lambda>(ret, s). (ret, advance_fd fd ret s))
             (vfs_write_node (fh_node (fd_table s ! nat fd)) buf count (fh_pos (fd_table s ! nat fd)) s))"

definition vfs_close :: "int \<Rightarrow> 'a vfs_state_scheme \<Rightarrow> (int \<times> 'a vfs_state_scheme) option" where
  "vfs_close fd s =
     (if \<not> fd_valid fd s then Some (-1, s)
      else map_option (\<lambda>(r, s). (0, s\<lparr>fd_table := (fd_table s)[nat fd := (fd_table s ! nat fd)\<lparr>fh_node := 0, fh_ref_count := 0\<rparr>]\<rparr>))
             (vfs_close_node (fh_node (fd_table s ! nat fd)) s))"

definition vfs_get_size :: "int \<Rightarrow> 'a vfs_state_scheme \<Rightarrow> u64" where
  "vfs_get_size fd s = (if \<not> fd_valid fd s then 0 else ucast (node_size (nodes s (fh_node (fd_table s ! nat fd)))))"

end
