(* ===== verification/Elf64.thy ===== *)
theory Elf64
  imports Interrupts Bytes Vmm_Walk
begin

text \<open>
  The ELF loader (\<^verbatim>\<open>kernel/Userland/elf64.c\<close>) and the creation of processes from an image
  (\<^verbatim>\<open>kernel/InitKernel/proc.c\<close>).  The image and the segments it is copied to are bytes of the flat memory at
  virtual addresses that are mapped page by page, like the heap: mapping a new page makes its bytes zero,
  because \<^verbatim>\<open>vmm_alloc_map\<close> clears the frame.  An access of the loader to an address that the processor does not translate ends in the
  exception handler, which halts: the result is then None, as for a loop that does not end.
\<close>

abbreviation PT_LOAD :: u32 where "PT_LOAD \<equiv> 1"
abbreviation PF_W :: u32 where "PF_W \<equiv> 2"
abbreviation SIZEOF_Elf64_Ehdr :: u64 where "SIZEOF_Elf64_Ehdr \<equiv> 64"
abbreviation SIZEOF_Elf64_Phdr :: u64 where "SIZEOF_Elf64_Phdr \<equiv> 56"
abbreviation UINT64_MAX :: u64 where "UINT64_MAX \<equiv> 0xFFFFFFFFFFFFFFFF"

record Elf64_Phdr =
  p_type :: u32
  p_flags :: u32
  p_offset :: u64
  p_vaddr :: u64
  p_filesz :: u64
  p_memsz :: u64

record elf_load_result_t =
  elf_entry_point :: u64
  elf_size :: u64
  elf_base_vaddr :: u64
  elf_max_vaddr :: u64
  elf_success :: bool
  elf_error :: string

section \<open>Accesses that fault\<close>

text \<open>
  The kernel may access an address when it is canonical and the hardware walk gives a translation.  Write protection does
  not bind the kernel, since the boot code leaves it off.
\<close>

definition canonical :: "u64 \<Rightarrow> bool" where
  "canonical va \<longleftrightarrow> drop_bit 47 va = 0 \<or> drop_bit 47 va = 0x1FFFF"

definition accessible :: "'a vmm_state_scheme \<Rightarrow> u64 \<Rightarrow> bool" where
  "accessible s va \<longleftrightarrow> canonical va \<and> xlate (mem s) (s_pml4_virt s) va \<noteq> None"

definition accessible_range :: "'a vmm_state_scheme \<Rightarrow> u64 \<Rightarrow> nat \<Rightarrow> bool" where
  "accessible_range s a n \<longleftrightarrow> (\<forall>i < n. accessible s (a + word_of_nat i))"

section \<open>Reading the headers\<close>

definition e_machine :: "memory \<Rightarrow> u64 \<Rightarrow> u16" where "e_machine m f = load16 m (f + 18)"
definition e_entry :: "memory \<Rightarrow> u64 \<Rightarrow> u64" where "e_entry m f = load64 m (f + 24)"
definition e_phoff :: "memory \<Rightarrow> u64 \<Rightarrow> u64" where "e_phoff m f = load64 m (f + 32)"
definition e_phentsize :: "memory \<Rightarrow> u64 \<Rightarrow> u16" where "e_phentsize m f = load16 m (f + 54)"
definition e_phnum :: "memory \<Rightarrow> u64 \<Rightarrow> u16" where "e_phnum m f = load16 m (f + 56)"

definition phdr_at :: "memory \<Rightarrow> u64 \<Rightarrow> Elf64_Phdr" where
  "phdr_at m p =
     \<lparr>p_type = load32 m p, p_flags = load32 m (p + 4), p_offset = load64 m (p + 8), p_vaddr = load64 m (p + 16),
      p_filesz = load64 m (p + 32), p_memsz = load64 m (p + 40)\<rparr>"

definition phdr_addr :: "u64 \<Rightarrow> nat \<Rightarrow> u64" where
  "phdr_addr phdr i = phdr + SIZEOF_Elf64_Phdr * word_of_nat i"

text \<open>
  The size of the header table is an \<^verbatim>\<open>int\<close> product of two 16-bit fields, converted to 64 bits with its sign.
\<close>

definition phdr_table_end :: "memory \<Rightarrow> u64 \<Rightarrow> u64" where
  "phdr_table_end m f = e_phoff m f + scast (ucast (e_phentsize m f) * ucast (e_phnum m f) :: u32)"

definition elf_header_error :: "memory \<Rightarrow> u64 \<Rightarrow> u64 \<Rightarrow> string option" where
  "elf_header_error m f file_size =
     (if file_size < SIZEOF_Elf64_Ehdr \<or> m f \<noteq> 0x7F \<or> m (f + 1) \<noteq> 0x45 \<or> m (f + 2) \<noteq> 0x4C \<or> m (f + 3) \<noteq> 0x46
      then Some ''Invalid ELF magic''
      else if m (f + 4) \<noteq> 2 then Some ''Not a 64-bit ELF''
      else if e_machine m f \<noteq> 62 then Some ''Not an x86_64 ELF''
      else if phdr_table_end m f > file_size then Some ''Program headers beyond file size''
      else None)"

primrec elf_extent :: "memory \<Rightarrow> u64 \<Rightarrow> nat \<Rightarrow> u64 \<times> u64" where
  "elf_extent m phdr 0 = (UINT64_MAX, 0)"
| "elf_extent m phdr (Suc i) =
     (let (base, max_addr) = elf_extent m phdr i; p = phdr_at m (phdr_addr phdr i)
      in if p_type p = PT_LOAD
         then (if p_vaddr p < base then p_vaddr p else base,
               if p_vaddr p + p_memsz p > max_addr then p_vaddr p + p_memsz p else max_addr)
         else (base, max_addr))"

section \<open>Loading segments\<close>

definition map_user_page :: "u64 \<Rightarrow> u64 \<Rightarrow> 'a heap_state_scheme \<Rightarrow> int \<times> 'a heap_state_scheme" where
  "map_user_page virt perm s =
     (let (r, s) = vmm_alloc_map virt perm s
      in if r \<noteq> 0 then (r, s) else (0, s\<lparr>hmem := memset8 (hmem s) (virt AND PAGE_MASK) 0 4096\<rparr>))"

definition segment_perm :: "Elf64_Phdr \<Rightarrow> u64 \<Rightarrow> u64" where
  "segment_perm p va = (if va \<ge> p_vaddr p \<and> p_flags p AND PF_W \<noteq> 0 then VMM_PRESENT OR VMM_USER OR VMM_WRITE else VMM_PRESENT OR VMM_USER)"

text \<open>
  The program header is read through its pointer wherever the code does, since loading writes memory: in every round of
  the mapping loop, before the copy, and again for the part to clear.
\<close>

partial_function (option) map_segment :: "u64 \<Rightarrow> u64 \<Rightarrow> u64 \<Rightarrow> 'a heap_state_scheme \<Rightarrow> (bool \<times> 'a heap_state_scheme) option" where
  "map_segment p va seg_end s =
     (if va < seg_end then
        if \<not> vmm_is_mapped va s then
          let rs = map_user_page va (segment_perm (phdr_at (hmem s) p) va) s
          in if fst rs \<noteq> 0 then Some (False, snd rs) else map_segment p (va + VMM_PAGE_SIZE) seg_end (snd rs)
        else map_segment p (va + VMM_PAGE_SIZE) seg_end s
      else Some (True, s))"

definition copy_chunk :: "u64 \<Rightarrow> u64 \<Rightarrow> u64 \<Rightarrow> u64" where
  "copy_chunk va_copy offset bytes_left =
     (let chunk = (if bytes_left > VMM_PAGE_SIZE then VMM_PAGE_SIZE else bytes_left);
          page_offset = (va_copy + offset) AND (VMM_PAGE_SIZE - 1)
      in if chunk + page_offset > VMM_PAGE_SIZE then VMM_PAGE_SIZE - page_offset else chunk)"

partial_function (option) copy_segment :: "'a vmm_state_scheme \<Rightarrow> u64 \<Rightarrow> u64 \<Rightarrow> u64 \<Rightarrow> u64 \<Rightarrow> memory \<Rightarrow> memory option" where
  "copy_segment s va_copy src offset bytes_left m =
     (if bytes_left > 0 then
        let chunk = copy_chunk va_copy offset bytes_left
        in if accessible_range s (va_copy + offset) (unat chunk) \<and> accessible_range s (src + offset) (unat chunk)
           then copy_segment s va_copy src (offset + chunk) (bytes_left - chunk) (copy8 m (va_copy + offset) (src + offset) (unat chunk))
           else None
      else Some m)"

definition clear_bss :: "'a vmm_state_scheme \<Rightarrow> Elf64_Phdr \<Rightarrow> memory \<Rightarrow> memory option" where
  "clear_bss s p m =
     (if p_memsz p > p_filesz p then
        if accessible_range s (p_vaddr p + p_filesz p) (unat (p_memsz p - p_filesz p))
        then Some (memset8 m (p_vaddr p + p_filesz p) 0 (unat (p_memsz p - p_filesz p)))
        else None
      else Some m)"

definition load_segment :: "u64 \<Rightarrow> u64 \<Rightarrow> 'a heap_state_scheme \<Rightarrow> (bool \<times> 'a heap_state_scheme) option" where
  "load_segment file_data p s =
     (let ph = phdr_at (hmem s) p
      in if p_type ph \<noteq> PT_LOAD then Some (True, s)
         else
           let seg_start = p_vaddr ph AND PAGE_MASK;
               seg_end = (p_vaddr ph + p_memsz ph + VMM_PAGE_SIZE - 1) AND PAGE_MASK
           in case map_segment p seg_start seg_end s of None \<Rightarrow> None | Some (ok, s) \<Rightarrow>
                if \<not> ok then Some (False, s)
                else let ph = phdr_at (hmem s) p
                     in case copy_segment s (p_vaddr ph) (file_data + p_offset ph) 0 (p_filesz ph) (hmem s) of None \<Rightarrow> None
                        | Some m \<Rightarrow> map_option (\<lambda>m. (True, s\<lparr>hmem := m\<rparr>)) (clear_bss s (phdr_at m p) m))"

fun load_segments :: "u64 \<Rightarrow> u64 \<Rightarrow> nat \<Rightarrow> nat \<Rightarrow> 'a heap_state_scheme \<Rightarrow> (bool \<times> 'a heap_state_scheme) option" where
  "load_segments file_data phdr i 0 s = Some (True, s)"
| "load_segments file_data phdr i (Suc n) s =
     (case load_segment file_data (phdr_addr phdr i) s of None \<Rightarrow> None
      | Some (ok, s) \<Rightarrow> if \<not> ok then Some (False, s) else load_segments file_data phdr (Suc i) n s)"

definition elf_failed :: "string \<Rightarrow> elf_load_result_t" where
  "elf_failed msg = \<lparr>elf_entry_point = 0, elf_size = 0, elf_base_vaddr = 0, elf_max_vaddr = 0, elf_success = False, elf_error = msg\<rparr>"

text \<open>
  The file header is one object of 64 bytes, read once the size of the file has been checked.  The first loop over the
  program headers reads the type of each and, of a loadable one, fields up to its byte 48; the second loop reads no other bytes.
\<close>

definition phdrs_accessible :: "'a heap_state_scheme \<Rightarrow> u64 \<Rightarrow> nat \<Rightarrow> bool" where
  "phdrs_accessible s phdr n \<longleftrightarrow> (\<forall>i < n. accessible_range s (phdr_addr phdr i) 4
     \<and> (load32 (hmem s) (phdr_addr phdr i) = PT_LOAD \<longrightarrow> accessible_range s (phdr_addr phdr i) 48))"

definition elf64_load :: "u64 \<Rightarrow> u64 \<Rightarrow> 'a heap_state_scheme \<Rightarrow> (elf_load_result_t \<times> 'a heap_state_scheme) option" where
  "elf64_load file_data file_size s =
     (if SIZEOF_Elf64_Ehdr \<le> file_size \<and> \<not> accessible_range s file_data 64 then None
      else case elf_header_error (hmem s) file_data file_size of Some msg \<Rightarrow> Some (elf_failed msg, s)
      | None \<Rightarrow>
          let phdr = file_data + e_phoff (hmem s) file_data;
              n = unat (e_phnum (hmem s) file_data);
              (base, max_addr) = elf_extent (hmem s) phdr n
          in if \<not> phdrs_accessible s phdr n then None
             else if base = UINT64_MAX then Some (elf_failed ''No PT_LOAD segments found'', s)
             else case load_segments file_data phdr 0 n s of None \<Rightarrow> None
               | Some (ok, s) \<Rightarrow>
                   if \<not> ok then Some (elf_failed ''Failed to map page'', s)
                   else Some (\<lparr>elf_entry_point = e_entry (hmem s) file_data, elf_size = max_addr - base, elf_base_vaddr = base,
                               elf_max_vaddr = max_addr, elf_success = True, elf_error = ''''\<rparr>, s))"

section \<open>Creating a process\<close>

abbreviation USER_STACK_SIZE :: u64 where "USER_STACK_SIZE \<equiv> 16384"
abbreviation USER_STACK_TOP :: u64 where "USER_STACK_TOP \<equiv> 0x7FFFE000"
abbreviation SIZEOF_pcb_t :: u64 where "SIZEOF_pcb_t \<equiv> 320"
abbreviation GDT_SELECTOR_USER_DS :: u64 where "GDT_SELECTOR_USER_DS \<equiv> 0x20"

definition user_frame :: "u64 \<Rightarrow> u64 \<Rightarrow> u64 list" where
  "user_frame entry user_stack_top =
     replicate 17 0 @ [entry, ucast GDT_SELECTOR_USER_CS OR 3, 0x202, user_stack_top, GDT_SELECTOR_USER_DS OR 3]"

definition prepare_user_stack :: "u64 \<Rightarrow> u64 \<Rightarrow> u64 \<Rightarrow> 'a proc_state_scheme \<Rightarrow> 'a proc_state_scheme option" where
  "prepare_user_stack p entry user_stack_top s =
     (case kmalloc KERNEL_STACK_SIZE s of None \<Rightarrow> None | Some (kstack, s) \<Rightarrow>
        if kstack = 0 then Some s
        else
          let s = set_pcb p (\<lambda>b. b\<lparr>pcb_kernel_stack := kstack\<rparr>) s;
              sp = ((kstack + KERNEL_STACK_SIZE) AND NOT 0xF) - 8 * 22;
              s = s\<lparr>hmem := fill64 (hmem s) sp (\<lambda>i. user_frame entry user_stack_top ! i) 22\<rparr>
          in Some (set_pcb p (\<lambda>b. b\<lparr>pcb_rsp := sp, pcb_cr3 := 0\<rparr>) s))"

text \<open>The loop over the pages of the user stack; a page that cannot be mapped is passed over.\<close>

primrec map_user_stack :: "nat \<Rightarrow> u64 \<Rightarrow> 'a heap_state_scheme \<Rightarrow> 'a heap_state_scheme" where
  "map_user_stack 0 va s = s"
| "map_user_stack (Suc n) va s =
     map_user_stack n (va + VMM_PAGE_SIZE)
       (if \<not> vmm_is_mapped va s then snd (map_user_page va (VMM_PRESENT OR VMM_USER OR VMM_WRITE) s) else s)"

definition proc_create_from_elf :: "u64 \<Rightarrow> u64 \<Rightarrow> 'a proc_state_scheme \<Rightarrow> (u64 \<times> 'a proc_state_scheme) option" where
  "proc_create_from_elf elf_data sz s =
     (case elf64_load elf_data sz s of None \<Rightarrow> None | Some (elf, s) \<Rightarrow>
        if \<not> elf_success elf then Some (0, say ''\<newline>'' (say (elf_error elf) (say ''[ELF] load failed: '' s)))
        else case kmalloc SIZEOF_pcb_t s of None \<Rightarrow> None | Some (p, s) \<Rightarrow>
          if p = 0 then Some (0, s)
          else
            let s = set_pcb p (\<lambda>b. b\<lparr>pcb_fds := map (\<lambda>i. (pcb_fds b ! i)\<lparr>fd_vnode := 0\<rparr>) [0..<MAX_FD]\<rparr>) s;
                s = set_pcb p (\<lambda>b. b\<lparr>pcb_pid := next_pid s\<rparr>) s;
                s = s\<lparr>next_pid := next_pid s + 1\<rparr>;
                s = set_pcb p (\<lambda>b. b\<lparr>pcb_state := PROC_READY, pcb_next := 0, pcb_user_stack := USER_STACK_TOP\<rparr>) s;
                s = map_user_stack 4 (USER_STACK_TOP - USER_STACK_SIZE) s;
                s = set_pcb p (\<lambda>b. b\<lparr>pcb_entry_point := elf_entry_point elf, pcb_cr3 := 0\<rparr>) s
            in map_option (\<lambda>s. (p, enqueue p s)) (prepare_user_stack p (elf_entry_point elf) USER_STACK_TOP s))"

end
