(* ===== verification/Syscall.thy ===== *)
theory Syscall
  imports Vfs Elf64
begin

text \<open>
  System calls and processor exceptions (\<^verbatim>\<open>kernel/EarlyKernel/idt.c\<close>): the handler behind \<^verbatim>\<open>int 0x80\<close> with its six
  calls, and the report of an exception.  A call that ends in a context switch does not return to its caller: the result
  holds the process switched to.  The user's path argument is the string at its address in the flat memory.
\<close>

record syscall_frame =
  sf_rax :: u64
  sf_rdi :: u64
  sf_rsi :: u64
  sf_rdx :: u64
  sf_r10 :: u64
  sf_r8 :: u64
  sf_r9 :: u64
  sf_rcx :: u64
  sf_r11 :: u64
  sf_rip :: u64

record interrupt_frame =
  fr_r15 :: u64
  fr_r14 :: u64
  fr_r13 :: u64
  fr_r12 :: u64
  fr_r11 :: u64
  fr_r10 :: u64
  fr_r9 :: u64
  fr_r8 :: u64
  fr_rbp :: u64
  fr_rdi :: u64
  fr_rsi :: u64
  fr_rdx :: u64
  fr_rcx :: u64
  fr_rbx :: u64
  fr_rax :: u64
  fr_int_no :: u64
  fr_err_code :: u64
  fr_rip :: u64
  fr_cs :: u64
  fr_rflags :: u64
  fr_rsp :: u64
  fr_ss :: u64

section \<open>execve and exit\<close>

text \<open>The string at an address, up to its terminator.\<close>

partial_function (option) cstring :: "memory \<Rightarrow> u64 \<Rightarrow> u8 list option" where
  "cstring m p = (if m p = 0 then Some [] else Option.bind (cstring m (p + 1)) (\<lambda>cs. Some (m p # cs)))"

fun close_fds :: "u64 \<Rightarrow> nat \<Rightarrow> nat \<Rightarrow> 'a vfs_state_scheme \<Rightarrow> 'a vfs_state_scheme option" where
  "close_fds p i 0 s = Some s"
| "close_fds p i (Suc n) s =
     (if fd_vnode (pcb_fds (pcbs s p) ! i) \<noteq> 0 then
        case vfs_close_node (fd_vnode (pcb_fds (pcbs s p) ! i)) s of None \<Rightarrow> None
        | Some (r, s) \<Rightarrow>
            close_fds p (Suc i) n (set_pcb p (\<lambda>b. b\<lparr>pcb_fds := (pcb_fds b)[i := (pcb_fds b ! i)\<lparr>fd_vnode := 0\<rparr>]\<rparr>) s)
      else close_fds p (Suc i) n s)"

definition retire_process :: "u64 \<Rightarrow> 'a vfs_state_scheme \<Rightarrow> 'a vfs_state_scheme option" where
  "retire_process cur s =
     (if cur = 0 then Some s
      else let s = set_pcb cur (\<lambda>b. b\<lparr>pcb_state := PROC_ZOMBIE\<rparr>) s;
               s = (if pcb_kernel_stack (pcbs s cur) \<noteq> 0 then kfree (pcb_kernel_stack (pcbs s cur)) s else s)
           in close_fds cur 0 MAX_FD s)"

definition replace_process :: "u64 \<Rightarrow> u64 \<Rightarrow> 'a vfs_state_scheme \<Rightarrow> 'a vfs_state_scheme option" where
  "replace_process cur new_proc s =
     map_option (\<lambda>s. set_pcb new_proc (\<lambda>b. b\<lparr>pcb_state := PROC_RUNNING\<rparr>) (s\<lparr>g_current_proc := new_proc\<rparr>)) (retire_process cur s)"

definition sys_execve :: "u64 \<Rightarrow> u64 \<Rightarrow> 'a vfs_state_scheme \<Rightarrow> (u64 \<times> 'a vfs_state_scheme) option" where
  "sys_execve cur path s =
     (if path = 0 \<or> path < 0x100000 then Some (-1, s)
      else case cstring (hmem s) path of None \<Rightarrow> None | Some name \<Rightarrow>
      case vfs_open name O_RDONLY s of None \<Rightarrow> None | Some (fd, s) \<Rightarrow>
        if fd < 0 then Some (-2, s)
        else
          let file_size = vfs_get_size fd s
          in if file_size = 0 then map_option (\<lambda>(r, s). (-1, s)) (vfs_close fd s)
             else case kmalloc file_size s of None \<Rightarrow> None | Some (elf_buf, s) \<Rightarrow>
               if elf_buf = 0 then map_option (\<lambda>(r, s). (-12, s)) (vfs_close fd s)
               else case vfs_read fd elf_buf (ucast file_size) s of None \<Rightarrow> None | Some (n, s) \<Rightarrow>
                 if n \<noteq> sint (ucast file_size :: u32) then map_option (\<lambda>(r, s). (-1, s)) (vfs_close fd (kfree elf_buf s))
                 else case vfs_close fd s of None \<Rightarrow> None | Some (r, s) \<Rightarrow>
                   case proc_create_from_elf elf_buf file_size s of None \<Rightarrow> None | Some (new_proc, s) \<Rightarrow>
                     let s = kfree elf_buf s
                     in if new_proc = 0 then Some (-1, s)
                        else map_option (\<lambda>s. (0, s)) (replace_process cur new_proc s))"

definition sys_exit :: "u64 \<Rightarrow> u64 \<Rightarrow> 'a proc_state_scheme \<Rightarrow> u64 option \<times> 'a proc_state_scheme" where
  "sys_exit cur code s =
     (let s = say ''[exit] PID '' s;
          s = (if cur \<noteq> 0 then say_dec (ucast (pcb_pid (pcbs s cur))) s else s);
          s = say ''\<newline>'' (say_dec (ucast code) (say '' exited with '' s));
          s = (if cur \<noteq> 0 then set_pcb cur (\<lambda>b. b\<lparr>pcb_state := PROC_ZOMBIE\<rparr>) s else s)
      in schedule s)"

section \<open>Dispatch\<close>

definition syscall_handler ::
  "syscall_frame \<Rightarrow> 'a vfs_state_scheme \<Rightarrow> ((u64 option \<times> syscall_frame) \<times> 'a vfs_state_scheme) option" where
  "syscall_handler frame s =
     (let cur = g_current_proc s
      in if sf_rax frame = 1 then Some ((None, frame\<lparr>sf_rax := 0\<rparr>), say_char (ucast (sf_rdi frame)) s)
         else if sf_rax frame = 2 then
           map_option (\<lambda>(c, s). ((None, frame\<lparr>sf_rax := scast c\<rparr>), s)) (keyboard_getchar_blocking s)
         else if sf_rax frame = 3 then
           Some ((None, frame\<lparr>sf_rax := (if cur \<noteq> 0 then pcb_pid (pcbs s cur) else 0)\<rparr>), s)
         else if sf_rax frame = 59 then
           map_option (\<lambda>(r, s). ((None, frame\<lparr>sf_rax := r\<rparr>), s)) (sys_execve cur (sf_rdi frame) s)
         else if sf_rax frame = 60 then
           (let (sw, s) = sys_exit cur (sf_rdi frame) s in Some ((sw, frame), s))
         else Some ((None, frame\<lparr>sf_rax := -1\<rparr>), s))"

definition int80_handler ::
  "interrupt_frame \<Rightarrow> 'a vfs_state_scheme \<Rightarrow> ((u64 option \<times> interrupt_frame) \<times> 'a vfs_state_scheme) option" where
  "int80_handler frame s =
     map_option (\<lambda>((sw, sf), s). ((sw, frame\<lparr>fr_rax := sf_rax sf\<rparr>), s))
       (syscall_handler \<lparr>sf_rax = fr_rax frame, sf_rdi = fr_rdi frame, sf_rsi = fr_rsi frame, sf_rdx = fr_rdx frame, sf_r10 = fr_r10 frame,
          sf_r8 = fr_r8 frame, sf_r9 = fr_r9 frame, sf_rcx = 0, sf_r11 = 0, sf_rip = 0\<rparr> s)"

section \<open>Exceptions\<close>

definition exception_names :: "string list" where
  "exception_names =
     [''Division By Zero'', ''Debug'', ''Non Maskable Interrupt'', ''Breakpoint'',
      ''Overflow'', ''Bound Range Exceeded'', ''Invalid Opcode'',
      ''Device Not Available'', ''Double Fault'', ''Coprocessor Segment Overrun'',
      ''Invalid TSS'', ''Segment Not Present'', ''Stack-Segment Fault'',
      ''General Protection Fault'', ''Page Fault'', ''Reserved'',
      ''x87 FPU Error'', ''Alignment Check'', ''Machine Check'',
      ''SIMD Floating-Point'', ''Virtualization Exception'', ''Control Protection'']"

text \<open>How an exception ends: back to the interrupted code, in another process, or with the processor halted.\<close>

datatype exception_end = Resume interrupt_frame | Switch u64 | Halt

definition exception_handler ::
  "u64 \<Rightarrow> interrupt_frame \<Rightarrow> 'a vfs_state_scheme \<Rightarrow> (exception_end \<times> 'a vfs_state_scheme) option" where
  "exception_handler cr2 frame s =
     (if fr_int_no frame = 0x80 then
        map_option (\<lambda>((sw, frame), s). (case sw of None \<Rightarrow> Resume frame | Some p \<Rightarrow> Switch p, s)) (int80_handler frame s)
      else
        let from_ring = ucast (fr_cs frame AND 0x3) :: u8;
            s = say (CHR 0x0A # ''!!! CPU Exception: '') (paint VGA_RED VGA_BLACK s);
            s = say (if fr_int_no frame < 22 then exception_names ! unat (fr_int_no frame) else ''Unknown'') s;
            s = say_dec (ucast (fr_int_no frame)) (say (CHR 0x0A # ''  INT: '') s);
            s = say_hex (fr_err_code frame) (say ''  ERR: '' s);
            s = say_hex (fr_rip frame) (say (CHR 0x0A # ''  RIP: '') s);
            s = say_hex (fr_cs frame) (say ''  CS: '' s);
            s = say_hex (fr_rflags frame) (say ''  RFLAGS: '' s);
            s = say_hex (fr_rsp frame) (say (CHR 0x0A # ''  RSP: '') s);
            s = (if fr_int_no frame = 14 then say_hex cr2 (say (CHR 0x0A # ''  CR2: '') s) else s);
            s = (if from_ring \<noteq> 0
                 then say_hex (fr_ss frame) (say ''  SS: '' (say_hex (fr_rsp frame) (say (CHR 0x0A # ''  [User] RSP: '') s))) else s);
            s = say_hex (fr_rdi frame) (say (CHR 0x0A # ''  RDI='') s);
            s = say_hex (fr_rsi frame) (say '' RSI='' s);
            s = say_hex (fr_rax frame) (say '' RAX='' s);
            s = say_hex (fr_rbp frame) (say '' RBP='' s)
        in Some (Halt, say ''\<newline>'' s))"

text \<open>One round of the loop in \<^verbatim>\<open>kernel_idle_loop\<close>.\<close>

definition kernel_idle_step :: "'a keyboard_scheme \<Rightarrow> 'a keyboard_scheme" where
  "kernel_idle_step s = (let (c, s) = keyboard_getchar_nb s in if c \<noteq> 0 then say_char c s else s)"

end
