(* ===== verification/Pci.thy ===== *)
theory Pci
  imports Ports
begin

text \<open>
  PCI enumeration (\<^verbatim>\<open>kernel/BasicDrivers/pci.c\<close>): configuration space access through the address and data ports, probing of
  base address registers, and the loops over buses, slots and functions.
\<close>

abbreviation PCI_CONFIG_ADDRESS :: u16 where "PCI_CONFIG_ADDRESS \<equiv> 0xCF8"
abbreviation PCI_CONFIG_DATA :: u16 where "PCI_CONFIG_DATA \<equiv> 0xCFC"
abbreviation PCI_BAR0 :: u8 where "PCI_BAR0 \<equiv> 0x10"
abbreviation PCI_BAR_IO :: u8 where "PCI_BAR_IO \<equiv> 1"
abbreviation PCI_BAR_MEM :: u8 where "PCI_BAR_MEM \<equiv> 0"

record pci_device_t =
  pci_bus :: u8
  pci_slot :: u8
  pci_function :: u8
  vendor_id :: u16
  device_id :: u16
  class_code :: u8
  pci_subclass :: u8
  prog_if :: u8
  header_type :: u8
  bar :: "u32 list"
  bar_addr :: "u64 list"
  bar_size :: "u32 list"
  bar_type :: "u8 list"

section \<open>Configuration space\<close>

definition pci_address :: "u8 \<Rightarrow> u8 \<Rightarrow> u8 \<Rightarrow> u8 \<Rightarrow> u32" where
  "pci_address bus slot func offset =
     0x80000000 OR push_bit 16 (ucast bus) OR push_bit 11 (ucast slot) OR push_bit 8 (ucast func) OR ucast (offset AND 0xFC)"

definition pci_config_read :: "u8 \<Rightarrow> u8 \<Rightarrow> u8 \<Rightarrow> u8 \<Rightarrow> 'a machine_scheme \<Rightarrow> u32 \<times> 'a machine_scheme" where
  "pci_config_read bus slot func offset s =
     inl PCI_CONFIG_DATA (io_wait (outl PCI_CONFIG_ADDRESS (pci_address bus slot func offset) s))"

definition pci_config_write :: "u8 \<Rightarrow> u8 \<Rightarrow> u8 \<Rightarrow> u8 \<Rightarrow> u32 \<Rightarrow> 'a machine_scheme \<Rightarrow> 'a machine_scheme" where
  "pci_config_write bus slot func offset value s =
     outl PCI_CONFIG_DATA value (io_wait (outl PCI_CONFIG_ADDRESS (pci_address bus slot func offset) s))"

definition pci_device_exists :: "u8 \<Rightarrow> u8 \<Rightarrow> u8 \<Rightarrow> 'a machine_scheme \<Rightarrow> bool \<times> 'a machine_scheme" where
  "pci_device_exists bus slot func s =
     (let (v, s) = pci_config_read bus slot func 0 s; vendor = ucast (v AND 0xFFFF) :: u16
      in (vendor \<noteq> 0xFFFF, s))"

definition class_names :: "string list" where
  "class_names =
     [''Legacy'', ''Mass Storage'', ''Network'', ''Display'', ''Multimedia'', ''Memory'', ''Bridge'', ''Communication'',
      ''Base System Periph.'', ''Input'', ''Docking'', ''Processor'', ''Serial Bus'', ''Wireless'', ''Intelligent IO'',
      ''Satellite'', ''Encryption'', ''Data Acquisition'']"

section \<open>Base address registers\<close>

definition pci_probe_bar :: "nat \<Rightarrow> pci_device_t \<Rightarrow> 'a machine_scheme \<Rightarrow> pci_device_t \<times> 'a machine_scheme" where
  "pci_probe_bar i d s =
     (let bar_val = bar d ! i;
          reg = PCI_BAR0 + word_of_nat i * 4;
          s = pci_config_write (pci_bus d) (pci_slot d) (pci_function d) reg 0xFFFFFFFF s;
          (bar_resp, s) = pci_config_read (pci_bus d) (pci_slot d) (pci_function d) reg s;
          s = pci_config_write (pci_bus d) (pci_slot d) (pci_function d) reg bar_val s
      in if bar_resp = 0 \<or> bar_resp = 0xFFFFFFFF
         then (d\<lparr>bar_size := (bar_size d)[i := 0]\<rparr>, s)
         else if bar_val AND 1 \<noteq> 0
         then (d\<lparr>bar_type := (bar_type d)[i := PCI_BAR_IO], bar_addr := (bar_addr d)[i := ucast (bar_val AND 0xFFFFFFFC)],
                   bar_size := (bar_size d)[i := (NOT (bar_resp AND 0xFFFFFFFC) + 1) AND 0xFFFFFFFF]\<rparr>, s)
         else (d\<lparr>bar_type := (bar_type d)[i := PCI_BAR_MEM], bar_addr := (bar_addr d)[i := ucast (bar_val AND 0xFFFFFFF0)],
                   bar_size := (bar_size d)[i := NOT (bar_resp AND 0xFFFFFFF0) + 1]\<rparr>, s))"

primrec pci_probe_bars :: "nat \<Rightarrow> pci_device_t \<Rightarrow> 'a machine_scheme \<Rightarrow> pci_device_t \<times> 'a machine_scheme" where
  "pci_probe_bars 0 d s = (d, s)"
| "pci_probe_bars (Suc i) d s =
     (let (d, s) = pci_probe_bars i d s;
          (v, s) = pci_config_read (pci_bus d) (pci_slot d) (pci_function d) (PCI_BAR0 + word_of_nat i * 4) s
      in pci_probe_bar i (d\<lparr>bar := (bar d)[i := v]\<rparr>) s)"

section \<open>Report\<close>

primrec pci_print_bars :: "nat \<Rightarrow> pci_device_t \<Rightarrow> 'a machine_scheme \<Rightarrow> 'a machine_scheme" where
  "pci_print_bars 0 d s = s"
| "pci_print_bars (Suc i) d s =
     (let s = pci_print_bars i d s
      in if bar_size d ! i = 0 then s
         else
           let s = say '': '' (say_dec (word_of_nat i) (say ''      BAR'' s));
               s = (if bar_type d ! i = PCI_BAR_IO then say_hex (bar_addr d ! i) (say ''I/O  '' s)
                    else say_hex (bar_addr d ! i) (say ''MMIO '' s))
           in say '' bytes\<newline>'' (say_hex (ucast (bar_size d ! i)) (say '' size='' s)))"

definition pci_print_device :: "pci_device_t \<Rightarrow> 'a machine_scheme \<Rightarrow> 'a machine_scheme" where
  "pci_print_device d s =
     (let s = paint VGA_LIGHT_GREY VGA_BLACK s;
          s = say '':'' (say_dec (ucast (pci_bus d)) s);
          s = say ''.'' (say_dec (ucast (pci_slot d)) s);
          s = say_dec (ucast (pci_function d)) s;
          s = say_hex (ucast (vendor_id d)) (say ''  '' s);
          s = say_hex (ucast (device_id d)) (say '':'' s);
          s = say_hex (ucast (class_code d)) (say ''  Class '' s);
          s = say_hex (ucast (pci_subclass d)) (say ''.'' s);
          s = say_hex (ucast (prog_if d)) (say ''.'' s);
          class_name = (if class_code d < 18 then class_names ! unat (class_code d) else ''Unknown'');
          s = say '')\<newline>'' (say class_name (say '' ('' s))
      in pci_print_bars 6 d s)"

section \<open>Enumeration\<close>

text \<open>Reading one function's registers into the device record; the flag is the multi-function bit.\<close>

definition pci_read_function :: "u8 \<Rightarrow> pci_device_t \<Rightarrow> 'a machine_scheme \<Rightarrow> (bool \<times> pci_device_t) \<times> 'a machine_scheme" where
  "pci_read_function func d s =
     (let (id_reg, s) = pci_config_read (pci_bus d) (pci_slot d) func 0x00 s;
          d = d\<lparr>vendor_id := ucast (id_reg AND 0xFFFF), device_id := ucast (drop_bit 16 id_reg)\<rparr>;
          (class_reg, s) = pci_config_read (pci_bus d) (pci_slot d) func 0x08 s;
          d = d\<lparr>class_code := ucast (drop_bit 24 class_reg AND 0xFF), pci_subclass := ucast (drop_bit 16 class_reg AND 0xFF),
                    prog_if := ucast (drop_bit 8 class_reg AND 0xFF)\<rparr>;
          (header_reg, s) = pci_config_read (pci_bus d) (pci_slot d) func 0x0C s;
          d = d\<lparr>header_type := ucast (drop_bit 16 header_reg AND 0x7F)\<rparr>;
          (d, s) = pci_probe_bars 6 d s
      in ((header_reg AND 0x800000 \<noteq> 0, d), pci_print_device d s))"

primrec pci_functions :: "nat \<Rightarrow> pci_device_t \<Rightarrow> 'a machine_scheme \<Rightarrow> pci_device_t \<times> 'a machine_scheme" where
  "pci_functions 0 d s = (d, s)"
| "pci_functions (Suc n) d s =
     (let (d, s) = pci_functions n d s;
          func = word_of_nat (Suc n) :: u8;
          (ex, s) = pci_device_exists (pci_bus d) (pci_slot d) func s
      in if \<not> ex then (d, s)
         else let ((_, d), s) = pci_read_function func (d\<lparr>pci_function := func\<rparr>) s in (d, s))"

text \<open>\<open>dev0\<close> stands for the uninitialised local variable.\<close>

definition pci_slot_scan :: "pci_device_t \<Rightarrow> u8 \<Rightarrow> u8 \<Rightarrow> 'a machine_scheme \<Rightarrow> 'a machine_scheme" where
  "pci_slot_scan dev0 bus slot s =
     (let (ex, s) = pci_device_exists bus slot 0 s
      in if \<not> ex then s
         else
           let ((multifunc, d), s) = pci_read_function 0 (dev0\<lparr>pci_bus := bus, pci_slot := slot, pci_function := 0\<rparr>) s
           in if multifunc then snd (pci_functions 7 d s) else s)"

primrec pci_slots :: "pci_device_t \<Rightarrow> u8 \<Rightarrow> nat \<Rightarrow> 'a machine_scheme \<Rightarrow> 'a machine_scheme" where
  "pci_slots dev0 bus 0 s = s"
| "pci_slots dev0 bus (Suc n) s = pci_slot_scan dev0 bus (word_of_nat n) (pci_slots dev0 bus n s)"

primrec pci_buses :: "pci_device_t \<Rightarrow> nat \<Rightarrow> 'a machine_scheme \<Rightarrow> 'a machine_scheme" where
  "pci_buses dev0 0 s = s"
| "pci_buses dev0 (Suc n) s = pci_slots dev0 (word_of_nat n) 32 (pci_buses dev0 n s)"

definition pci_enumerate :: "pci_device_t \<Rightarrow> 'a machine_scheme \<Rightarrow> 'a machine_scheme" where
  "pci_enumerate dev0 s =
     say ''[OK] PCI enumeration complete.\<newline>'' (pci_buses dev0 256 (say ''[..] Enumerating PCI bus...\<newline>'' s))"

definition pci_init :: "pci_device_t \<Rightarrow> 'a machine_scheme \<Rightarrow> 'a machine_scheme" where
  "pci_init dev0 s = pci_enumerate dev0 s"

end
