(* ===== verification/Boot.thy ===== *)
theory Boot
  imports Syscall Pci
begin

text \<open>
  Start-up: \<^verbatim>\<open>kernel/EarlyKernel/main.c\<close> (boot information, descriptor tables, frame allocator) and
  \<^verbatim>\<open>kernel/InitKernel/main.c\<close> (memory, devices, file system, scheduler, the first process).  What the linker, the boot code and the
  compiler decide is kept in a record: symbol addresses, the page table root, and where the local variables
  \<^verbatim>\<open>fs\<close> and \<^verbatim>\<open>buf\<close> and the uninitialised PCI record lie.
\<close>

record boot_env =
  be_symbols :: symbols
  be_cr3 :: u64
  be_kernel_end_phys :: u64
  be_idle_entry :: u64
  be_fs :: u64
  be_buf :: u64
  be_pci :: pci_device_t

section \<open>Boot information\<close>

definition next_tag :: "memory \<Rightarrow> u64 \<Rightarrow> u64" where
  "next_tag m tag = tag + ucast ((load32 m (tag + 4) + 7) AND NOT 7)"

definition show_tag :: "u64 \<Rightarrow> 'a vmm_state_scheme \<Rightarrow> 'a vmm_state_scheme option" where
  "show_tag tag s =
     (let m = mem s; type = load32 m tag
      in if type = 1 then map_option (\<lambda>str. say_char 10 (say_bytes str (say ''  [Cmdline] '' s))) (cstring m (tag + 8))
         else if type = 2 then map_option (\<lambda>str. say_char 10 (say_bytes str (say ''  [Bootloader] '' s))) (cstring m (tag + 8))
         else if type = 4 then
           Some (say '' KB\<newline>'' (say_dec (load32 m (tag + 12)) (say '' KB, upper: '' (say_dec (load32 m (tag + 8))
             (say ''  [Memory] lower: '' s)))))
         else if type = 8 then
           Some (say_char 10 (say_hex (load64 m (tag + 8)) (say '' @ '' (say_dec (ucast (m (tag + 28)))
             (say ''x'' (say_dec (load32 m (tag + 24)) (say ''x'' (say_dec (load32 m (tag + 20)) (say ''  [Framebuffer] '' s)))))))))
         else Some s)"

partial_function (option) show_tags :: "u64 \<Rightarrow> 'a vmm_state_scheme \<Rightarrow> 'a vmm_state_scheme option" where
  "show_tags tag s =
     (if load32 (mem s) tag \<noteq> 0 then Option.bind (show_tag tag s) (\<lambda>s. show_tags (next_tag (mem s) tag) s) else Some s)"

definition parse_multiboot_tags :: "u64 \<Rightarrow> 'a vmm_state_scheme \<Rightarrow> 'a vmm_state_scheme option" where
  "parse_multiboot_tags mbi_addr s = show_tags (mbi_addr + 8) s"

definition mmap_entry_at :: "memory \<Rightarrow> u64 \<Rightarrow> multiboot2_mmap_entry" where
  "mmap_entry_at m p = \<lparr>me_addr = load64 m p, me_len = load64 m (p + 8), me_type = load32 m (p + 16), me_zero = load32 m (p + 20)\<rparr>"

text \<open>The first tag of type 6, or None inside when the list ends before one.\<close>

partial_function (option) find_mmap_tag :: "memory \<Rightarrow> u64 \<Rightarrow> u64 option option" where
  "find_mmap_tag m tag =
     (if load32 m tag \<noteq> 0 then if load32 m tag = 6 then Some (Some tag) else find_mmap_tag m (next_tag m tag) else Some None)"

definition mmap_entries :: "memory \<Rightarrow> u64 \<Rightarrow> multiboot2_mmap_entry list" where
  "mmap_entries m tag =
     (let count = ucast ((ucast (load32 m (tag + 4)) - 16 :: u64) div ucast (load32 m (tag + 8))) :: u32
      in map (\<lambda>i. mmap_entry_at m (tag + 16 + 24 * word_of_nat i)) [0..<unat count])"

definition init_pmm :: "u64 \<Rightarrow> u64 \<Rightarrow> 'a vmm_state_scheme \<Rightarrow> 'a vmm_state_scheme option" where
  "init_pmm kernel_end_phys mbi_addr s =
     (case find_mmap_tag (mem s) (mbi_addr + 8) of None \<Rightarrow> None
      | Some None \<Rightarrow> Some (say ''  WARNING: No memory map tag found!\<newline>'' (paint VGA_RED VGA_BLACK s))
      | Some (Some tag) \<Rightarrow>
          if load32 (mem s) (tag + 8) = 0 then None
          else Some (s\<lparr>pmm := pmm_init (mmap_entries (mem s) tag) kernel_end_phys (pmm s)\<rparr>))"

section \<open>The second stage\<close>

primrec show_bytes :: "nat \<Rightarrow> u8 list \<Rightarrow> 'a vmm_state_scheme \<Rightarrow> 'a vmm_state_scheme" where
  "show_bytes 0 b s = s"
| "show_bytes (Suc i) b s =
     (let s = say '' '' (say_hex (ucast (b ! i)) (show_bytes i b s)) in if (i + 1) mod 16 = 0 then say ''\<newline>'' s else s)"

definition test_sector :: "'a ide_state_scheme \<Rightarrow> 'a ide_state_scheme option" where
  "test_sector s =
     (case ide_read_sector 0 (say ''[..] Reading sector 0...\<newline>'' s) of None \<Rightarrow> None
      | Some (Some b, s) \<Rightarrow> Some (say ''\<newline>'' (show_bytes 64 b (say ''[OK] Sector 0:\<newline>'' s)))
      | Some (None, s) \<Rightarrow>
          Some (paint VGA_LIGHT_GREY VGA_BLACK (say ''  IDE read failed!\<newline>'' (paint VGA_RED VGA_BLACK s))))"

definition show_time :: "'a machine_scheme \<Rightarrow> 'a machine_scheme option" where
  "show_time s =
     (case rtc_read_time s of None \<Rightarrow> None | Some (now, s) \<Rightarrow>
        let s = say ''-'' (say_dec (ucast (rtc_year now)) (say ''[RTC] Current time: '' s));
            s = say ''-'' (say_dec (ucast (rtc_month now)) s);
            s = say '' '' (say_dec (ucast (rtc_day now)) s);
            s = say '':'' (say_dec (ucast (rtc_hour now)) s);
            s = say '':'' (say_dec (ucast (rtc_minute now)) s);
            s = say ''\<newline>'' (say_dec (ucast (rtc_second now)) s);
            s = say_hex (ucast (rtc_to_fat_time now)) (say ''[RTC] FAT time=0x'' s);
            s = say_hex (ucast (rtc_to_fat_date now)) (say '' FAT date=0x'' s)
        in Some (say ''\<newline>'' s))"

definition path_of :: "string \<Rightarrow> u8 list" where
  "path_of str = map of_char str"

text \<open>\<^verbatim>\<open>sizeof(buf) - 1\<close> is 127; the terminator lets \<^verbatim>\<open>tty_print\<close> end.\<close>

definition show_readme :: "u64 \<Rightarrow> 'a vfs_state_scheme \<Rightarrow> 'a vfs_state_scheme option" where
  "show_readme buf s =
     (case vfs_open (path_of ''/README.TXT'') O_RDONLY s of None \<Rightarrow> None | Some (fd, s) \<Rightarrow>
        if fd < 0 then Some (say ''[VFS] README.TXT not found via VFS.\<newline>'' s)
        else case vfs_read fd buf 127 s of None \<Rightarrow> None | Some (n, s) \<Rightarrow>
          Option.bind
            (if n > 0 then
               let s = s\<lparr>hmem := (hmem s)(buf + word_of_int n := 0)\<rparr>
               in map_option (\<lambda>str. say (CHR 0x0A # ''--- end ---\<newline>'') (say_bytes str (say ''--- VFS README.TXT ---\<newline>'' s)))
                    (cstring (hmem s) buf)
             else Some s)
            (\<lambda>s. map_option snd (vfs_close fd s)))"

partial_function (option) show_directory :: "u64 \<Rightarrow> 'a vfs_state_scheme \<Rightarrow> 'a vfs_state_scheme option" where
  "show_directory dir s =
     Option.bind (vfs_readdir dir s) (\<lambda>((r, ent), s).
       case ent of None \<Rightarrow> Some s
       | Some e \<Rightarrow>
           if r > 0
           then show_directory dir (say (if entry_type e = VFS_FLAG_DIR then '' [DIR]\<newline>'' else ''\<newline>'')
                  (say_bytes (entry_name e) (say ''  '' s)))
           else Some s)"

definition show_root :: "'a vfs_state_scheme \<Rightarrow> 'a vfs_state_scheme option" where
  "show_root s =
     (case vfs_opendir [SLASH] s of None \<Rightarrow> None | Some (dir, s) \<Rightarrow>
        if dir = 0 then Some s
        else map_option (vfs_closedir dir) (show_directory dir (say ''[VFS] Root directory contents:\<newline>'' s)))"

definition init_filesystem :: "boot_env \<Rightarrow> 'a vfs_state_scheme \<Rightarrow> 'a vfs_state_scheme option" where
  "init_filesystem be s =
     (case fat32_mount (be_fs be) s of None \<Rightarrow> None | Some (r, s) \<Rightarrow>
        if r \<noteq> 0 then Some (say ''[FAIL] FAT32 mount failed.\<newline>'' s)
        else case fat32_mount_to_vfs (be_fs be) (say ''[OK] FAT32 mounted. Integrating with VFS...\<newline>'' s) of None \<Rightarrow> None
          | Some (root, s) \<Rightarrow>
              if root = 0 then Some s
              else case vfs_mount (path_of ''ata0'') [SLASH] 1 root s of None \<Rightarrow> None | Some (r, s) \<Rightarrow>
                Option.bind (show_readme (be_buf be) (say ''[VFS] FAT32 mounted at /.\<newline>'' s)) show_root)"

definition test_check :: "string \<Rightarrow> string \<Rightarrow> 'a heap_state_scheme \<Rightarrow> 'a heap_state_scheme option" where
  "test_check ok_msg fail_msg s =
     (case heap_check s of None \<Rightarrow> None | Some (r, s) \<Rightarrow>
        if r = 0 then Some (say ok_msg s)
        else Some (paint VGA_LIGHT_GREY VGA_BLACK (say fail_msg (paint VGA_RED VGA_BLACK s))))"

definition test_heap :: "'a heap_state_scheme \<Rightarrow> 'a heap_state_scheme option" where
  "test_heap s =
     (case kmalloc 128 s of None \<Rightarrow> None | Some (a, s) \<Rightarrow>
      case kmalloc 200 s of None \<Rightarrow> None | Some (b, s) \<Rightarrow>
        if a \<noteq> 0 \<and> b \<noteq> 0 then
          let s = say ''\<newline>'' (say_hex b (say '' b=0x'' (say_hex a (say ''[OK] kmalloc: a=0x'' s))));
              s = say ''[OK] Freed a\<newline>'' (kfree a s)
          in case kmalloc 100 s of None \<Rightarrow> None | Some (c, s) \<Rightarrow>
               case heap_dump (say ('' (should reuse a'' @ [CHR 0x27] @ ''s space)\<newline>'') (say_hex c (say ''[OK] kmalloc c=0x'' s))) of
                 None \<Rightarrow> None
               | Some s \<Rightarrow> Some (say ''[OK] Freed b and c\<newline>'' (kfree c (kfree b s)))
        else Some (paint VGA_LIGHT_GREY VGA_BLACK (say ''  ERROR: kmalloc test failed!\<newline>'' (paint VGA_RED VGA_BLACK s))))"

definition load_first_process :: "'a vfs_state_scheme \<Rightarrow> 'a vfs_state_scheme option" where
  "load_first_process s =
     (case vfs_open (path_of ''/ISHELL'') O_RDONLY (say ''[..] Loading ELF program from disk...\<newline>'' s) of None \<Rightarrow> None
      | Some (fd, s) \<Rightarrow>
          if fd < 0 then Some (say ''[WARN] /USER.ELF not found! Starting scheduler without user process.\<newline>'' s)
          else
            let file_size = vfs_get_size fd s
            in Option.bind
                 (if file_size > 0 then
                    case kmalloc file_size s of None \<Rightarrow> None | Some (elf_buf, s) \<Rightarrow>
                      if elf_buf = 0 then Some s
                      else case vfs_read fd elf_buf (ucast file_size) s of None \<Rightarrow> None | Some (n, s) \<Rightarrow>
                        map_option (kfree elf_buf)
                          (if n = sint (ucast file_size :: u32) then
                             case proc_create_from_elf elf_buf file_size s of None \<Rightarrow> None | Some (p, s) \<Rightarrow>
                               if p \<noteq> 0
                               then Some (say '')\<newline>'' (say_dec (ucast (pcb_pid (pcbs s p))) (say ''[OK] User process created (PID='' s)))
                               else Some (say ''[FAIL] Could not create process from ELF\<newline>'' s)
                           else Some s)
                  else Some s)
                 (\<lambda>s. map_option snd (vfs_close fd s)))"

definition banner :: "'a vmm_state_scheme \<Rightarrow> 'a vmm_state_scheme" where
  "banner s =
     (let s = paint VGA_GREEN VGA_BLACK s;
          s = say '' ____          _     _   ___   ____  \<newline>'' s;
          s = say (''/ ___|  _   _ | | __(_) / _ '' @ [CHR 0x5C] @ '' / ___| \<newline>'') s;
          s = say ([CHR 0x5C] @ ''___ '' @ [CHR 0x5C] @ '' | | | || |/ /| || | | |'' @ [CHR 0x5C] @ ''___ '' @ [CHR 0x5C] @ '' \<newline>'') s;
          s = say '' ___) || |_| ||   < | || |_| | ___) |\<newline>'' s;
          s = say (''|____/  '' @ [CHR 0x5C] @ ''__,_||_|'' @ [CHR 0x5C] @ ''_'' @ [CHR 0x5C] @ ''_| '' @ [CHR 0x5C] @ ''___/ |____/ \<newline>\<newline>'') s;
          s = paint VGA_LIGHT_GREY VGA_BLACK s
      in say ''SukiOS v0.1.0 - x86_64\<newline>\<newline>'' s)"

definition init_memory :: "boot_env \<Rightarrow> 'a heap_state_scheme \<Rightarrow> 'a heap_state_scheme" where
  "init_memory be s =
     (let s = say ''\<newline>'' (vmm_init (be_cr3 be) s);
          s = heap_init VMM_HEAP_BASE VMM_HEAP_SIZE (say ''[..] Initializing kernel heap...\<newline>'' s);
          (heap_total, heap_used, heap_free) = heap_get_stats s;
          s = say '' ('' (say_hex VMM_HEAP_BASE (say ''[OK] Kernel heap at '' s));
          s = say '' KB mapped)\<newline>'' (say_dec (ucast (heap_total div 1024)) s)
      in say ''\<newline>'' s)"

definition init_devices :: "boot_env \<Rightarrow> 'a ide_state_scheme \<Rightarrow> 'a ide_state_scheme option" where
  "init_devices be s =
     Option.bind (apic_init s) (\<lambda>s.
     Option.bind (ide_init (say (CHR 0x0A # ''[..] Initializing IDE...\<newline>'')
       (pci_init (be_pci be) (say (CHR 0x0A # ''[..] Initializing PCI...\<newline>'') s)))) (\<lambda>s.
     Option.bind (test_sector s) (\<lambda>s. show_time (rtc_init s))))"

definition init_scheduler :: "boot_env \<Rightarrow> 'a proc_state_scheme \<Rightarrow> 'a proc_state_scheme option" where
  "init_scheduler be s =
     scheduler_init (be_idle_entry be) (say (CHR 0x0A # ''[..] Initializing process scheduler...\<newline>'') s)"

definition init_timer :: "'a kernel_scheme \<Rightarrow> 'a kernel_scheme option" where
  "init_timer s =
     apic_timer_init (irq_register_handler 0 Apic_timer_irq_handler (say (CHR 0x0A # ''[..] Initializing LAPIC Timer...\<newline>'') s))"

definition init_keyboard :: "'a kernel_scheme \<Rightarrow> 'a kernel_scheme option" where
  "init_keyboard s =
     map_option (apic_timer_set_callback (Some Keyboard_timer_tick))
       (keyboard_init (irq_register_handler 1 Keyboard_irq_handler (say (CHR 0x0A # ''[..] Initializing PS/2 Keyboard...\<newline>'') s)))"

definition run_heap_tests :: "'a heap_state_scheme \<Rightarrow> 'a heap_state_scheme option" where
  "run_heap_tests s =
     Option.bind (test_check ''[OK] Initial heap integrity check passed\<newline>'' ''[FAIL] Initial heap check failed!\<newline>''
       (say (CHR 0x0A # ''[..] Testing kernel heap...\<newline>'') s)) (\<lambda>s.
     Option.bind (test_heap s)
       (test_check ''[OK] Final heap integrity check passed\<newline>'' ''[FAIL] Final heap check failed!\<newline>''))"

definition booted :: "'a vmm_state_scheme \<Rightarrow> 'a vmm_state_scheme" where
  "booted s =
     (let s = say (CHR 0x0A # ''SukiOS booted successfully!\<newline>'') (paint VGA_GREEN VGA_BLACK s)
      in say (CHR 0x0A # ''Keyboard ready.\<newline>'') (paint VGA_LIGHT_GREY VGA_BLACK s))"

definition init_kernel :: "boot_env \<Rightarrow> 'a vfs_state_scheme \<Rightarrow> (u64 option \<times> 'a vfs_state_scheme) option" where
  "init_kernel be s =
     Option.bind (init_devices be (init_memory be (banner s))) (\<lambda>s.
     Option.bind (init_filesystem be s) (\<lambda>s.
     Option.bind (init_scheduler be s) (\<lambda>s.
     Option.bind (init_timer s) (\<lambda>s.
     Option.bind (init_keyboard s) (\<lambda>s.
     Option.bind (run_heap_tests s) (\<lambda>s.
     Option.bind (load_first_process (booted s)) (\<lambda>s.
     Option.bind (keyboard_reenable_irq s) (\<lambda>s. Some (scheduler_start s)))))))))"

section \<open>The first stage\<close>

text \<open>False: the kernel has halted because of a bad magic number.\<close>

definition early_tables :: "boot_env \<Rightarrow> 'a kernel_scheme \<Rightarrow> 'a kernel_scheme" where
  "early_tables be s =
     (let s = gdt_init (be_symbols be) (say ''[..] Initializing GDT...\<newline>'' (say ''[OK] Boot info parsed\<newline>'' s));
          s = say ''  TSS loaded  RSP0='' (say ''[OK] GDT initialized\<newline>'' s);
          s = say ''  IST: DF=1 NMI=2 MC=3\<newline>'' (say_hex (tss_rsp0 (kernel_tss s)) s);
          s = say ''[OK] PIC remapped\<newline>'' (pic_init (say ''[..] Remapping PIC...\<newline>'' s))
      in say ''[OK] IDT initialized\<newline>'' (idt_init (be_symbols be) (say ''[..] Initializing IDT...\<newline>'' s)))"

definition show_memory :: "'a vmm_state_scheme \<Rightarrow> 'a vmm_state_scheme" where
  "show_memory s =
     (let s = say (CHR 0x0A # ''Memory: '') (say ''[OK] PMM initialized\<newline>'' s);
          s = say '' KB free, '' (say_dec (ucast (pmm_get_free_pages (pmm s) * PAGE_SIZE div 1024)) s);
          s = say '' pages used\<newline>'' (say_dec (ucast (pmm_get_used_pages (pmm s))) s)
      in say (CHR 0x0A # ''Entering InitKernel...\<newline>\<newline>'') s)"

definition kernel_main :: "boot_env \<Rightarrow> u32 \<Rightarrow> u64 \<Rightarrow> 'a vfs_state_scheme \<Rightarrow> ((bool \<times> u64 option) \<times> 'a vfs_state_scheme) option" where
  "kernel_main be magic mbi_addr s =
     (let s = s\<lparr>con := tty_init (con s)\<rparr>;
          s = paint VGA_LIGHT_GREY VGA_BLACK (say ''SukiOS EarlyKernel\<newline>'' (paint VGA_GREEN VGA_BLACK s))
      in if magic \<noteq> 0x36D76289
         then Some ((False, None), say ''ERROR: Invalid Multiboot2 magic!\<newline>'' (paint VGA_RED VGA_BLACK s))
         else
           Option.bind (parse_multiboot_tags mbi_addr (say ''[..] Parsing boot info...\<newline>'' (say ''[OK] Multiboot2 verified\<newline>'' s))) (\<lambda>s.
           Option.bind (init_pmm (be_kernel_end_phys be) mbi_addr (say ''[..] Initializing PMM...\<newline>'' (early_tables be s))) (\<lambda>s.
           map_option (\<lambda>(sw, s). ((True, sw), s)) (init_kernel be (show_memory s)))))"

end
