(* ===== verification/Boot_Properties.thy ===== *)
theory Boot_Properties
  imports Boot Vmm_Properties
begin

text \<open>
  The boot information: the walk over the tags ends, and the frame allocator is set up from the memory map that the
  boot loader passed.
\<close>

section \<open>The tag list\<close>

text \<open>
  A tag is its type and its size in bytes.  \<open>tags_at\<close> says that the given tags lie one after the other from an address on, each
  padded to a multiple of eight bytes, and that the end tag follows.
\<close>

definition padded :: "nat \<Rightarrow> nat" where
  "padded n = (n + 7) div 8 * 8"

primrec tags_at :: "memory \<Rightarrow> nat \<Rightarrow> (u32 \<times> nat) list \<Rightarrow> bool" where
  "tags_at m a [] \<longleftrightarrow> load32 m (word_of_nat a) = 0"
| "tags_at m a (t # ts) \<longleftrightarrow> load32 m (word_of_nat a) = fst t \<and> fst t \<noteq> 0 \<and> load32 m (word_of_nat a + 4) = word_of_nat (snd t)
     \<and> snd t + 7 < 4294967296 \<and> tags_at m (a + padded (snd t)) ts"

definition tags_end :: "nat \<Rightarrow> (u32 \<times> nat) list \<Rightarrow> nat" where
  "tags_end a ts = a + sum_list (map (padded \<circ> snd) ts)"

lemma tags_end_simps [simp]: "tags_end a [] = a" "tags_end a (t # ts) = tags_end (a + padded (snd t)) ts"
  by (simp_all add: tags_end_def add.assoc)

lemma tags_at_append: "tags_at m a (ts @ us) \<Longrightarrow> tags_at m (tags_end a ts) us"
  by (induction ts arbitrary: a) simp_all

lemma round_up_8:
  assumes "n + 7 < 4294967296"
  shows "ucast ((word_of_nat n + 7 :: u32) AND NOT 7) = (word_of_nat (padded n) :: u64)"
proof -
  have "(word_of_nat n + 7 :: u32) AND NOT 7 = push_bit 3 (drop_bit 3 (word_of_nat (n + 7)))"
  proof (rule bit_word_eqI)
    fix k assume "k < LENGTH(32)"
    have "bit (7 :: u32) k \<longleftrightarrow> k < 3" using bit_mask_iff[of 3 k, where ?'a = u32] by (auto simp: mask_numeral)
    then show "bit ((word_of_nat n + 7 :: u32) AND NOT 7) k = bit (push_bit 3 (drop_bit 3 (word_of_nat (n + 7) :: u32))) k"
      using \<open>k < LENGTH(32)\<close> by (auto simp: bit_simps not_less)
  qed
  moreover have "unat (push_bit 3 (drop_bit 3 (word_of_nat (n + 7) :: u32))) = padded n"
  proof -
    have "unat (word_of_nat (n + 7) :: u32) = n + 7"
      using assms by (simp add: unsigned_of_nat take_bit_nat_eq_self del: of_nat_add)
    then have d: "unat (drop_bit 3 (word_of_nat (n + 7) :: u32)) = (n + 7) div 8"
      by (simp add: drop_bit_eq_div unat_div del: of_nat_add)
    have "(n + 7) div 8 * 8 < 4294967296" using assms div_times_less_eq_dividend[of "n + 7" 8] by linarith
    then have "unat (drop_bit 3 (word_of_nat (n + 7) :: u32) * 8) = (n + 7) div 8 * 8"
      by (subst unat_mult_lem[THEN iffD1]) (simp_all add: d del: of_nat_add)
    then show ?thesis by (simp add: push_bit_eq_mult padded_def del: of_nat_add)
  qed
  ultimately show ?thesis by (metis of_nat_unat)
qed

lemma next_tag_at:
  assumes "tags_at m a (t # ts)"
  shows "next_tag m (word_of_nat a) = word_of_nat (a + padded (snd t))"
  using assms round_up_8[of "snd t"] by (simp add: next_tag_def)

lemma find_mmap_tag_first:
  assumes "tags_at m a (pre @ t # post)" "\<forall>p\<in>set pre. fst p \<noteq> 6" "fst t = 6"
  shows "find_mmap_tag m (word_of_nat a) = Some (Some (word_of_nat (tags_end a pre)))"
  using assms
proof (induction pre arbitrary: a)
  case Nil
  then show ?case by (subst find_mmap_tag.simps) simp
next
  case (Cons p pre)
  have "find_mmap_tag m (word_of_nat (a + padded (snd p))) = Some (Some (word_of_nat (tags_end a (p # pre))))"
    using Cons.IH[of "a + padded (snd p)"] Cons.prems by simp
  then show ?case
    using Cons.prems next_tag_at[of m a p "pre @ t # post"] by (subst find_mmap_tag.simps) simp
qed

lemma find_mmap_tag_none:
  assumes "tags_at m a ts" "\<forall>p\<in>set ts. fst p \<noteq> 6"
  shows "find_mmap_tag m (word_of_nat a) = Some None"
  using assms
proof (induction ts arbitrary: a)
  case Nil
  then show ?case by (subst find_mmap_tag.simps) simp
next
  case (Cons p ts)
  then have "find_mmap_tag m (word_of_nat (a + padded (snd p))) = Some None" by (intro Cons.IH) simp_all
  then show ?case
    using Cons.prems next_tag_at[of m a p ts] by (subst find_mmap_tag.simps) simp
qed

lemma first_tag: "mbi + 8 = (word_of_nat (unat mbi + 8) :: u64)"
  by simp

lemma mmap_entries_at:
  assumes "load32 m (tag + 4) = word_of_nat (16 + 24 * length es)" "load32 m (tag + 8) = 24" "16 + 24 * length es < 4294967296"
    "\<forall>i < length es. mmap_entry_at m (tag + 16 + 24 * word_of_nat i) = es ! i"
  shows "mmap_entries m tag = es"
proof -
  have "(ucast (word_of_nat (16 + 24 * length es) :: u32) :: u64) - 16 = word_of_nat (24 * length es)"
  proof -
    have "(ucast (word_of_nat (16 + 24 * length es) :: u32) :: u64) = word_of_nat (16 + 24 * length es)"
      using assms(3) by (intro word64_eqI) (simp add: unsigned_ucast_eq unsigned_of_nat take_bit_nat_eq_self del: of_nat_add of_nat_mult)
    then show ?thesis by (simp only: of_nat_add) simp
  qed
  moreover have "(word_of_nat (24 * length es) :: u64) div 24 = word_of_nat (length es)"
    using assms(3) by (intro word64_eqI) (simp add: unat_div unat_of_nat64 del: of_nat_mult)
  moreover have "unat (ucast (word_of_nat (length es) :: u64) :: u32) = length es"
    using assms(3) by (simp add: unsigned_ucast_eq unsigned_of_nat take_bit_nat_eq_self)
  ultimately show ?thesis
    using assms(4) by (auto simp: mmap_entries_def assms(1,2) Let_def intro!: nth_equalityI)
qed

section \<open>The walk over all tags\<close>

text \<open>The two kinds of string tag end with a terminator.\<close>

primrec strings_end :: "memory \<Rightarrow> nat \<Rightarrow> (u32 \<times> nat) list \<Rightarrow> bool" where
  "strings_end m a [] \<longleftrightarrow> True"
| "strings_end m a (t # ts) \<longleftrightarrow> (fst t \<in> {1, 2} \<longrightarrow> 8 < snd t \<and> m (word_of_nat (a + snd t - 1)) = 0) \<and> strings_end m (a + padded (snd t)) ts"

lemma cstring_ends: "m (p + word_of_nat n) = 0 \<Longrightarrow> \<exists>cs. cstring m p = Some cs"
proof (induction n arbitrary: p)
  case 0
  then show ?case by (subst cstring.simps) simp
next
  case (Suc n)
  have "m (p + 1 + word_of_nat n) = 0" using Suc.prems by (simp add: add.assoc)
  then obtain cs where "cstring m (p + 1) = Some cs" using Suc.IH by blast
  then show ?case by (subst cstring.simps) simp
qed

lemma mem_say [simp]: "mem (say x s) = mem s" "mem (say_hex v s) = mem s" "mem (say_dec d s) = mem s" "mem (say_char c s) = mem s"
  "mem (say_bytes b s) = mem s"
  by (simp_all add: say_defs say_bytes_def)

lemma show_tag_returns:
  assumes "strings_end (mem s) a (t # ts)" "load32 (mem s) (word_of_nat a) = fst t"
  shows "\<exists>u. show_tag (word_of_nat a) s = Some u \<and> mem u = mem s"
proof -
  have "\<exists>cs. cstring (mem s) (word_of_nat a + 8) = Some cs" if "fst t \<in> {1, 2}"
  proof (rule cstring_ends)
    have t: "8 < snd t" "mem s (word_of_nat (a + snd t - 1)) = 0" using assms(1) that by auto
    then have "word_of_nat a + 8 + word_of_nat (snd t - 9) = (word_of_nat (a + 8 + (snd t - 9)) :: u64)" "a + 8 + (snd t - 9) = a + snd t - 1"
      by simp_all
    then show "mem s (word_of_nat a + 8 + word_of_nat (snd t - 9)) = 0" using t(2) by (simp only:)
  qed
  then show ?thesis using assms(2) by (auto simp: show_tag_def Let_def)
qed

lemma show_tags_returns:
  assumes "tags_at (mem s) a ts" "strings_end (mem s) a ts"
  shows "\<exists>u. show_tags (word_of_nat a) s = Some u \<and> mem u = mem s"
  using assms
proof (induction ts arbitrary: a s)
  case Nil
  then show ?case by (subst show_tags.simps) simp
next
  case (Cons t ts)
  obtain u where u: "show_tag (word_of_nat a) s = Some u" "mem u = mem s"
    using show_tag_returns[OF Cons.prems(2)] Cons.prems(1) by auto
  moreover obtain v where "show_tags (word_of_nat (a + padded (snd t))) u = Some v" "mem v = mem u"
    using Cons.IH[of u "a + padded (snd t)"] Cons.prems u(2) by auto
  moreover have "load32 (mem s) (word_of_nat a) \<noteq> 0" using Cons.prems(1) by simp
  ultimately show ?case
    using next_tag_at[OF Cons.prems(1)] by (subst show_tags.simps) simp
qed

section \<open>Usable frames\<close>

text \<open>
  The frames below the allocator's limit all of whose bytes lie in an entry of usable memory, and the frames with a byte
  below the end of the kernel.  An entry that does not wrap around has room for rounding its start up.
\<close>

definition frames_of :: "multiboot2_mmap_entry \<Rightarrow> nat set" where
  "frames_of e = {p. p < PMM_MAX_PAGES \<and> me_type e = 1
     \<and> (\<forall>x. 4096 * p \<le> x \<and> x < 4096 * p + 4096 \<longrightarrow> unat (me_addr e) \<le> x \<and> x < unat (me_addr e) + unat (me_len e))}"

definition frames_below :: "u64 \<Rightarrow> nat set" where
  "frames_below k = {p. \<exists>x. 4096 * p \<le> x \<and> x < 4096 * p + 4096 \<and> x < unat k}"

definition entry_fits :: "multiboot2_mmap_entry \<Rightarrow> bool" where
  "entry_fits e \<longleftrightarrow> unat (me_addr e) + unat (me_len e) < 2 ^ 64 \<and> unat (me_addr e) + 4095 < 2 ^ 64"

lemma unat_round_up: "unat x + 4095 < 2 ^ 64 \<Longrightarrow> unat ((x + PAGE_SIZE - 1) div PAGE_SIZE :: u64) = (unat x + 4095) div 4096"
proof -
  assume "unat x + 4095 < 2 ^ 64"
  then have "unat (x + 4095) = unat x + 4095" by (simp add: unat_word_ariths)
  moreover have "x + PAGE_SIZE - 1 = x + 4095" by simp
  ultimately show ?thesis by (simp only: unat_div) simp
qed

lemma entry_pages_frames:
  assumes "entry_fits e"
  shows "entry_pages e = frames_of e"
proof -
  have u: "unat (me_addr e + me_len e) = unat (me_addr e) + unat (me_len e)"
    using assms by (simp add: entry_fits_def unat_word_ariths)
  have "unat (entry_start_page e) = (unat (me_addr e) + 4095) div 4096"
    "unat (entry_end_page e) = (unat (me_addr e) + unat (me_len e)) div 4096"
    using assms unat_round_up[of "me_addr e"]
    by (simp_all add: entry_fits_def entry_start_page_def entry_end_page_def unat_div u)
  moreover have "(\<forall>x. 4096 * p \<le> x \<and> x < 4096 * p + 4096 \<longrightarrow> a \<le> x \<and> x < b) \<longleftrightarrow> (a + 4095) div 4096 \<le> p \<and> p < b div 4096" for a b p :: nat
  proof
    assume "\<forall>x. 4096 * p \<le> x \<and> x < 4096 * p + 4096 \<longrightarrow> a \<le> x \<and> x < b"
    from this[rule_format, of "4096 * p"] this[rule_format, of "4096 * p + 4095"]
    show "(a + 4095) div 4096 \<le> p \<and> p < b div 4096" by linarith
  qed linarith
  ultimately show ?thesis by (auto simp: entry_pages_def frames_of_def)
qed

lemma kernel_pages_frames: "k \<le> 18446744073709547520 \<Longrightarrow> kernel_pages k = frames_below k"
proof -
  assume "k \<le> 18446744073709547520"
  then have "unat ((k + PAGE_SIZE - 1) div PAGE_SIZE) = (unat k + 4095) div 4096"
    by (intro unat_round_up) (simp add: word_le_nat_alt)
  moreover have "p < (n + 4095) div 4096 \<longleftrightarrow> (\<exists>x. 4096 * p \<le> x \<and> x < 4096 * p + 4096 \<and> x < n)" for p n :: nat
  proof
    assume "p < (n + 4095) div 4096"
    then show "\<exists>x. 4096 * p \<le> x \<and> x < 4096 * p + 4096 \<and> x < n" by (intro exI[of _ "4096 * p"]) linarith
  qed linarith
  ultimately show ?thesis by (auto simp: frames_below_def)
qed

lemma entries_disjoint_frames: "\<forall>e\<in>set es. entry_fits e \<Longrightarrow> sorted_wrt (\<lambda>e f. frames_of e \<inter> frames_of f = {}) es \<Longrightarrow> entries_disjoint es"
  by (induction es) (auto simp: entry_pages_frames)

section \<open>From the boot loader to the frame allocator\<close>

text \<open>
  C18: On well-formed boot information both walks over the tags end.  The frame allocator is set up from the first memory map tag: when its
  entries do not wrap around and share no frame, the free frames are exactly those all of whose bytes are usable memory and none of whose bytes lies
  below the end of the kernel, the allocator's invariant holds, and nothing else of the state changes.  Without a memory map
  the allocator is left alone and a warning is printed.
\<close>

theorem init_pmm_correct:
  assumes "tags_at (mem s) (unat mbi + 8) ts" "strings_end (mem s) (unat mbi + 8) ts"
  shows "(\<exists>u. parse_multiboot_tags mbi s = Some u \<and> mem u = mem s)
    \<and> ((\<forall>t\<in>set ts. fst t \<noteq> 6) \<longrightarrow>
         init_pmm k mbi s = Some (say ''  WARNING: No memory map tag found!\<newline>'' (paint VGA_RED VGA_BLACK s)))
    \<and> (\<forall>pre post es p. ts = pre @ (6, 16 + 24 * length es) # post \<and> (\<forall>t\<in>set pre. fst t \<noteq> 6) \<and> p = word_of_nat (tags_end (unat mbi + 8) pre)
         \<and> load32 (mem s) (p + 8) = 24 \<and> (\<forall>i < length es. mmap_entry_at (mem s) (p + 16 + 24 * word_of_nat i) = es ! i)
         \<and> (\<forall>e\<in>set es. entry_fits e) \<and> sorted_wrt (\<lambda>e f. frames_of e \<inter> frames_of f = {}) es \<and> 0 < k \<and> k \<le> 18446744073709547520 \<longrightarrow>
         (\<exists>u. init_pmm k mbi s = Some (s\<lparr>pmm := u\<rparr>) \<and> pmm_inv u \<and> free_set u = (\<Union>e\<in>set es. frames_of e) - frames_below k))"
proof (intro conjI allI impI, goal_cases)
  case 1
  then show ?case using show_tags_returns[OF assms] unfolding parse_multiboot_tags_def first_tag .
next
  case 2
  then show ?case using find_mmap_tag_none[OF assms(1)] unfolding init_pmm_def first_tag by (simp del: of_nat_add)
next
  case (3 pre post es p)
  let ?t = "(6, 16 + 24 * length es) :: u32 \<times> nat"
  have tags: "tags_at (mem s) (unat mbi + 8) (pre @ ?t # post)" using assms(1) 3 by simp
  then have "tags_at (mem s) (tags_end (unat mbi + 8) pre) (?t # post)" by (rule tags_at_append)
  then have "load32 (mem s) (p + 4) = word_of_nat (16 + 24 * length es)" "16 + 24 * length es < 4294967296" using 3 by simp_all
  then have "mmap_entries (mem s) p = es" using 3 by (intro mmap_entries_at) blast+
  moreover have "find_mmap_tag (mem s) (mbi + 8) = Some (Some p)"
    using find_mmap_tag_first[OF tags] 3 unfolding first_tag by simp
  moreover have "load32 (mem s) (p + 8) \<noteq> 0" using 3 by auto
  ultimately have "init_pmm k mbi s = Some (s\<lparr>pmm := pmm_init es k (pmm s)\<rparr>)" by (simp add: init_pmm_def)
  moreover have kernel: "kernel_pages k = frames_below k" using 3 by (intro kernel_pages_frames) blast
  moreover have "pmm_inv (pmm_init es k (pmm s))" using 3 entries_disjoint_frames[of es] by (intro pmm_init_inv) auto
  moreover have "free_set (pmm_init es k (pmm s)) = (\<Union>e\<in>set es. frames_of e) - frames_below k"
    unfolding pmm_init_spec(1) kernel using 3 by (simp add: entry_pages_frames)
  ultimately show ?case by blast
qed

text \<open>Boot information at 0x1000: a command line, a memory map with one entry of a megabyte, and the end tag.\<close>

definition boot_info :: memory where
  "boot_info x =
     (let b = bytes32 1 @ bytes32 12 @ [0x61, 0x62, 0x63, 0, 0, 0, 0, 0] @ bytes32 6 @ bytes32 40 @ bytes32 24 @ bytes32 0
            @ replicate 10 0 @ [0x10] @ replicate 5 0 @ bytes32 1 @ bytes32 0;
          i = unat (x - 0x1008) in if i < length b then b ! i else 0)"

definition boot_example :: vmm_state where
  "boot_example = vmm_example\<lparr>mem := boot_info\<rparr>"

lemma boot_info_mmap: "mmap_entry_at boot_info 0x1028 = \<lparr>me_addr = 0, me_len = 0x100000, me_type = 1, me_zero = 0\<rparr>"
  by (simp add: mmap_entry_at_def load64_def load32_def load16_def boot_info_def bytes32_def bytes16_def upt_rec word_rcat_def
      nth_append)

lemma boot_info_tags: "tags_at boot_info 0x1008 [(1, 12), (6, 40)]" "strings_end boot_info 0x1008 [(1, 12), (6, 40)]"
  by (simp_all add: padded_def load32_def load16_def boot_info_def bytes32_def bytes16_def nth_append)

theorem init_pmm_correct_witness:
  "\<exists>u. init_pmm 0x3000 0x1000 boot_example = Some (boot_example\<lparr>pmm := u\<rparr>) \<and> pmm_inv u \<and> free_set u = {3..<256}"
proof -
  let ?es = "[\<lparr>me_addr = 0, me_len = 0x100000, me_type = 1, me_zero = 0\<rparr>] :: multiboot2_mmap_entry list"
  let ?ts = "[(1, 12), (6, 40)] :: (u32 \<times> nat) list"
  have m: "mem boot_example = boot_info" by (simp add: boot_example_def)
  have a: "unat (0x1000 :: u64) + 8 = 0x1008" by simp
  have "load32 boot_info 0x1020 = 24"
    by (simp add: load32_def load16_def boot_info_def bytes32_def bytes16_def nth_append)
  then have "?ts = [(1, 12)] @ (6, 16 + 24 * length ?es) # [] \<and> (\<forall>t\<in>set [(1 :: u32, 12 :: nat)]. fst t \<noteq> 6)
    \<and> 0x1018 = (word_of_nat (tags_end 0x1008 [(1, 12)]) :: u64) \<and> load32 boot_info (0x1018 + 8) = 24
    \<and> (\<forall>i < length ?es. mmap_entry_at boot_info (0x1018 + 16 + 24 * word_of_nat i) = ?es ! i)
    \<and> (\<forall>e\<in>set ?es. entry_fits e) \<and> sorted_wrt (\<lambda>e f. frames_of e \<inter> frames_of f = {}) ?es \<and> (0 :: u64) < 0x3000 \<and> (0x3000 :: u64) \<le> 18446744073709547520"
    using boot_info_mmap by (simp add: padded_def entry_fits_def)
  then obtain u where u: "init_pmm 0x3000 0x1000 boot_example = Some (boot_example\<lparr>pmm := u\<rparr>)" "pmm_inv u"
    "free_set u = (\<Union>e\<in>set ?es. frames_of e) - frames_below 0x3000"
    using init_pmm_correct[of boot_example "0x1000" ?ts "0x3000", unfolded m a, OF boot_info_tags] by blast
  have "(\<Union>e\<in>set ?es. frames_of e) = {0..<256}"
    by (simp add: entry_pages_frames[symmetric] entry_fits_def entry_pages_def entry_start_page_def entry_end_page_def)
  moreover have "frames_below 0x3000 = {0..<3}" unfolding kernel_pages_frames[symmetric, of "0x3000", simplified] by simp
  ultimately have "free_set u = {3..<256}" using u(3) by auto
  then show ?thesis using u(1,2) by blast
qed

end
