(* ===== verification/Pci_Properties.thy ===== *)
theory Pci_Properties
  imports Pci
begin

text \<open>
  Probing the base address registers of a PCI function.  The configuration space is a device: it keeps the address written last
  and one register per address, of which some bits are writable and the others have fixed values.
\<close>

section \<open>Configuration space as a device\<close>

record config_space =
  cfg_address :: u32
  cfg_regs :: "u32 \<Rightarrow> u32"

fun config_step :: "(u32 \<Rightarrow> u32) \<Rightarrow> (u32 \<Rightarrow> u32) \<Rightarrow> io_op \<Rightarrow> config_space \<Rightarrow> config_space" where
  "config_step W F (Wr (Port32 p) v) c =
     (if p = PCI_CONFIG_ADDRESS then c\<lparr>cfg_address := ucast v\<rparr>
      else if p = PCI_CONFIG_DATA
      then c\<lparr>cfg_regs := (cfg_regs c)(cfg_address c := (ucast v AND W (cfg_address c)) OR F (cfg_address c))\<rparr>
      else c)"
| "config_step W F _ c = c"

definition config_after :: "(u32 \<Rightarrow> u32) \<Rightarrow> (u32 \<Rightarrow> u32) \<Rightarrow> config_space \<Rightarrow> io_op list \<Rightarrow> config_space" where
  "config_after W F c h = foldr (config_step W F) h c"

definition config_device :: "(u32 \<Rightarrow> u32) \<Rightarrow> (u32 \<Rightarrow> u32) \<Rightarrow> config_space \<Rightarrow> device \<Rightarrow> device" where
  "config_device W F c d h l =
     (if l = Port32 PCI_CONFIG_DATA then ucast (cfg_regs (config_after W F c h) (cfg_address (config_after W F c h))) else d h l)"

text \<open>The machine has such a device, whose registers now hold \<open>R\<close>; \<open>W\<close> gives the writable bits and \<open>F\<close> the values of the others.\<close>

definition config_is :: "(u32 \<Rightarrow> u32) \<Rightarrow> (u32 \<Rightarrow> u32) \<Rightarrow> (u32 \<Rightarrow> u32) \<Rightarrow> 'a machine_scheme \<Rightarrow> bool" where
  "config_is W F R s \<longleftrightarrow> (\<exists>c d. dev s = config_device W F c d \<and> cfg_regs (config_after W F c (hist s)) = R)"

lemma config_after_Cons [simp]: "config_after W F c (x # h) = config_step W F x (config_after W F c h)"
  by (simp add: config_after_def)

lemma config_read:
  assumes "config_is W F R s"
  obtains h where "pci_config_read b sl f r s = (R (pci_address b sl f r), s\<lparr>hist := h\<rparr>)" "config_is W F R (s\<lparr>hist := h\<rparr>)"
proof -
  obtain c d where c: "dev s = config_device W F c d" "cfg_regs (config_after W F c (hist s)) = R"
    using assms by (auto simp: config_is_def)
  let ?s = "snd (pci_config_read b sl f r s)"
  have "pci_config_read b sl f r s = (R (pci_address b sl f r), s\<lparr>hist := hist ?s\<rparr>)"
    using c by (simp add: pci_config_read_def io_defs config_device_def Let_def)
  moreover have "config_is W F R (s\<lparr>hist := hist ?s\<rparr>)"
    using c unfolding config_is_def by (intro exI[of _ c] exI[of _ d]) (simp add: pci_config_read_def io_defs Let_def)
  ultimately show ?thesis by (rule that)
qed

lemma config_write:
  assumes "config_is W F R s"
  obtains h where "pci_config_write b sl f r v s = s\<lparr>hist := h\<rparr>"
    "config_is W F (R(pci_address b sl f r := (v AND W (pci_address b sl f r)) OR F (pci_address b sl f r))) (s\<lparr>hist := h\<rparr>)"
proof -
  obtain c d where c: "dev s = config_device W F c d" "cfg_regs (config_after W F c (hist s)) = R"
    using assms by (auto simp: config_is_def)
  let ?s = "pci_config_write b sl f r v s"
  have "?s = s\<lparr>hist := hist ?s\<rparr>" by (simp add: pci_config_write_def io_defs)
  moreover have "config_is W F (R(pci_address b sl f r := (v AND W (pci_address b sl f r)) OR F (pci_address b sl f r))) (s\<lparr>hist := hist ?s\<rparr>)"
    using c unfolding config_is_def by (intro exI[of _ c] exI[of _ d]) (simp add: pci_config_write_def io_defs)
  ultimately show ?thesis by (rule that)
qed

section \<open>Base address registers\<close>

text \<open>
  An absent register is all zero; an I/O or memory register decodes a range of \<open>2 ^ k\<close> bytes and has its kind in the low bits.
\<close>

datatype bar_kind = No_bar | Io_bar nat | Mem_bar nat u32

fun bar_kind_ok :: "bar_kind \<Rightarrow> bool" where
  "bar_kind_ok No_bar = True"
| "bar_kind_ok (Io_bar k) = (2 \<le> k \<and> k < 32)"
| "bar_kind_ok (Mem_bar k f) = (4 \<le> k \<and> k < 32 \<and> f < 16 \<and> \<not> bit f 0)"

fun bar_writable :: "bar_kind \<Rightarrow> u32" where
  "bar_writable No_bar = 0"
| "bar_writable (Io_bar k) = NOT (mask k)"
| "bar_writable (Mem_bar k f) = NOT (mask k)"

fun bar_fixed :: "bar_kind \<Rightarrow> u32" where
  "bar_fixed No_bar = 0"
| "bar_fixed (Io_bar k) = 1"
| "bar_fixed (Mem_bar k f) = f"

fun bar_bytes :: "bar_kind \<Rightarrow> u32" where
  "bar_bytes No_bar = 0"
| "bar_bytes (Io_bar k) = 2 ^ k"
| "bar_bytes (Mem_bar k f) = 2 ^ k"

definition bar_reg :: "pci_device_t \<Rightarrow> nat \<Rightarrow> u32" where
  "bar_reg d i = pci_address (pci_bus d) (pci_slot d) (pci_function d) (PCI_BAR0 + word_of_nat i * 4)"

text \<open>What the device record says of register \<open>i\<close>, given its value.\<close>

definition bar_described :: "bar_kind \<Rightarrow> u32 \<Rightarrow> pci_device_t \<Rightarrow> nat \<Rightarrow> bool" where
  "bar_described k v d i \<longleftrightarrow> bar d ! i = v \<and> bar_size d ! i = bar_bytes k
     \<and> (k \<noteq> No_bar \<longrightarrow> bar_addr d ! i = ucast (v AND bar_writable k)
          \<and> bar_type d ! i = (case k of Io_bar _ \<Rightarrow> PCI_BAR_IO | _ \<Rightarrow> PCI_BAR_MEM))"

lemma low_mask_bits: "bit (0xFFFFFFFC :: u32) n \<longleftrightarrow> 2 \<le> n \<and> n < 32" "bit (0xFFFFFFF0 :: u32) n \<longleftrightarrow> 4 \<le> n \<and> n < 32"
proof -
  have "(0xFFFFFFFC :: u32) = NOT (mask 2)" "(0xFFFFFFF0 :: u32) = NOT (mask 4)" by (simp_all add: mask_numeral)
  then show "bit (0xFFFFFFFC :: u32) n \<longleftrightarrow> 2 \<le> n \<and> n < 32" "bit (0xFFFFFFF0 :: u32) n \<longleftrightarrow> 4 \<le> n \<and> n < 32"
    by (auto simp only: bit_not_iff) (auto simp: bit_simps)
qed

lemma small_bits:
  assumes "(f :: u32) < 16" "bit f n"
  shows "n < 4"
proof -
  have "unat f < 2 ^ 4" using assms(1) by (simp add: word_less_nat_alt)
  then have "take_bit 4 (unat f) = unat f" by (rule take_bit_nat_eq_self)
  then have "take_bit 4 f = f" by (simp add: word_unat_eq_iff unsigned_take_bit_eq)
  then show ?thesis using assms(2) bit_take_bit_iff[of 4 f n] by simp
qed

lemma and_1_bit: "(v AND 1 \<noteq> 0) = bit (v :: u32) 0"
  by (simp add: and_one_eq bit_0 odd_iff_mod_2_eq_one)

lemma not_mask_bits: "bit (NOT (mask k) :: u32) n \<longleftrightarrow> k \<le> n \<and> n < 32"
  by (auto simp: bit_simps)

text \<open>The answer of a register to a write of ones: what the code reads off it.\<close>

lemma mem_bar_answer:
  assumes "4 \<le> k" "k < 32" "f < 16" "\<not> bit f 0" "v = (v AND NOT (mask k)) OR (f :: u32)"
  shows "NOT (mask k) OR f \<noteq> 0" "NOT (mask k) OR f \<noteq> 0xFFFFFFFF" "v AND 1 = 0"
    "NOT ((NOT (mask k) OR f) AND 0xFFFFFFF0) + 1 = 2 ^ k" "v AND 0xFFFFFFF0 = v AND NOT (mask k)"
proof -
  let ?a = "NOT (mask k) OR f"
  have a: "bit ?a n \<longleftrightarrow> k \<le> n \<and> n < 32 \<or> bit f n" for n by (simp add: bit_or_iff not_mask_bits)
  have v: "bit v n \<longleftrightarrow> bit v n \<and> k \<le> n \<and> n < 32 \<or> bit f n" for n
    by (subst assms(5)) (simp add: bit_or_iff bit_and_iff not_mask_bits)
  have "bit ?a k" "\<not> bit ?a 0" "\<not> bit v 0" using a[of k] a[of 0] v[of 0] assms by simp_all
  moreover have "bit (0xFFFFFFFF :: u32) 0" by simp
  ultimately show "?a \<noteq> 0" "?a \<noteq> 0xFFFFFFFF" "v AND 1 = 0" using and_1_bit[of v] by (metis bit_0_eq bot_apply bot_bool_def, metis, blast)
  have low: "\<not> bit f n" if "4 \<le> n" for n using small_bits[OF assms(3), of n] that by linarith
  have "?a AND 0xFFFFFFF0 = NOT (mask k)"
    by (rule bit_word_eqI) (use assms(1) low in \<open>auto simp: bit_and_iff a low_mask_bits not_mask_bits simp del: bit_numeral_word_iff\<close>)
  then show "NOT (?a AND 0xFFFFFFF0) + 1 = 2 ^ k" by (simp add: mask_eq_exp_minus_1)
  have "k \<le> n" if "bit v n" "4 \<le> n" for n using v[of n] low[of n] that by auto
  then show "v AND 0xFFFFFFF0 = v AND NOT (mask k)"
    by (intro bit_word_eqI) (use assms(1) in \<open>auto simp: bit_and_iff low_mask_bits not_mask_bits simp del: bit_numeral_word_iff\<close>)
qed

lemma io_bar_answer:
  assumes "2 \<le> k" "k < 32" "v = (v AND NOT (mask k)) OR (1 :: u32)"
  shows "NOT (mask k) OR 1 \<noteq> (0 :: u32)" "NOT (mask k) OR 1 \<noteq> (0xFFFFFFFF :: u32)" "v AND 1 \<noteq> 0"
    "(NOT ((NOT (mask k) OR 1) AND 0xFFFFFFFC) + 1) AND 0xFFFFFFFF = (2 ^ k :: u32)" "v AND 0xFFFFFFFC = v AND NOT (mask k)"
proof -
  let ?a = "NOT (mask k) OR 1 :: u32"
  have one: "bit (1 :: u32) n \<longleftrightarrow> n = 0" for n by (simp add: bit_1_iff)
  have a: "bit ?a n \<longleftrightarrow> k \<le> n \<and> n < 32 \<or> n = 0" for n by (simp add: bit_or_iff not_mask_bits one)
  have v: "bit v n \<longleftrightarrow> bit v n \<and> k \<le> n \<and> n < 32 \<or> n = 0" for n
    by (subst assms(3)) (simp add: bit_or_iff bit_and_iff not_mask_bits one)
  have "bit ?a 0" "\<not> bit ?a 1" "bit v 0" using a[of 0] a[of 1] v[of 0] assms by simp_all
  moreover have "bit (0xFFFFFFFF :: u32) 1" by simp
  ultimately show "?a \<noteq> 0" "?a \<noteq> 0xFFFFFFFF" "v AND 1 \<noteq> 0" using and_1_bit[of v] by (metis bit_0_eq bot_apply bot_bool_def, metis, blast)
  have "?a AND 0xFFFFFFFC = NOT (mask k)"
    by (rule bit_word_eqI) (use assms(1) in \<open>auto simp: bit_and_iff a low_mask_bits not_mask_bits simp del: bit_numeral_word_iff\<close>)
  moreover have "(x :: u32) AND 0xFFFFFFFF = x" for x
  proof -
    have "(0xFFFFFFFF :: u32) = - 1" by simp
    then show ?thesis by (simp only: and.right_neutral)
  qed
  ultimately show "(NOT (?a AND 0xFFFFFFFC) + 1) AND 0xFFFFFFFF = 2 ^ k" by (simp add: mask_eq_exp_minus_1)
  have "k \<le> n" if "bit v n" "2 \<le> n" for n using v[of n] that by auto
  then show "v AND 0xFFFFFFFC = v AND NOT (mask k)"
    by (intro bit_word_eqI) (use assms(1) in \<open>auto simp: bit_and_iff low_mask_bits not_mask_bits simp del: bit_numeral_word_iff\<close>)
qed

section \<open>Probing\<close>

text \<open>The lists of a device record have an element for each register.\<close>

definition bars_ok :: "pci_device_t \<Rightarrow> bool" where
  "bars_ok d \<longleftrightarrow> length (bar d) = 6 \<and> length (bar_addr d) = 6 \<and> length (bar_size d) = 6 \<and> length (bar_type d) = 6"

text \<open>\<open>d'\<close> is \<open>d\<close> but for what it says of register \<open>i\<close>.\<close>

definition same_but :: "nat \<Rightarrow> pci_device_t \<Rightarrow> pci_device_t \<Rightarrow> bool" where
  "same_but i d d' \<longleftrightarrow> pci_bus d' = pci_bus d \<and> pci_slot d' = pci_slot d \<and> pci_function d' = pci_function d \<and> bars_ok d'
     \<and> (\<forall>j. j \<noteq> i \<longrightarrow> bar d' ! j = bar d ! j \<and> bar_addr d' ! j = bar_addr d ! j \<and> bar_size d' ! j = bar_size d ! j
          \<and> bar_type d' ! j = bar_type d ! j)"

lemma pci_probe_bar_correct:
  assumes c: "config_is W F R s" and r: "R (bar_reg d i) = (R (bar_reg d i) AND W (bar_reg d i)) OR F (bar_reg d i)"
    and k: "bar_kind_ok k" "W (bar_reg d i) = bar_writable k" "F (bar_reg d i) = bar_fixed k"
    and d: "bars_ok d" "i < 6" "bar d ! i = R (bar_reg d i)"
  shows "config_is W F R (snd (pci_probe_bar i d s)) \<and> bar_described k (R (bar_reg d i)) (fst (pci_probe_bar i d s)) i
    \<and> same_but i d (fst (pci_probe_bar i d s))"
proof -
  let ?a = "bar_reg d i" and ?R = "R(bar_reg d i := W (bar_reg d i) OR F (bar_reg d i))"
  obtain h where h: "pci_config_write (pci_bus d) (pci_slot d) (pci_function d) (PCI_BAR0 + word_of_nat i * 4) 0xFFFFFFFF s = s\<lparr>hist := h\<rparr>"
    "config_is W F (R(?a := (0xFFFFFFFF AND W ?a) OR F ?a)) (s\<lparr>hist := h\<rparr>)"
    unfolding bar_reg_def by (rule config_write[OF c])
  have ones: "(0xFFFFFFFF AND x :: u32) = x" for x
  proof -
    have "(0xFFFFFFFF :: u32) = - 1" by simp
    then show ?thesis by (simp only: and.left_neutral)
  qed
  obtain h' where h': "pci_config_read (pci_bus d) (pci_slot d) (pci_function d) (PCI_BAR0 + word_of_nat i * 4) (s\<lparr>hist := h\<rparr>)
      = (?R ?a, s\<lparr>hist := h, hist := h'\<rparr>)" "config_is W F ?R (s\<lparr>hist := h, hist := h'\<rparr>)"
    unfolding bar_reg_def by (rule config_read[OF h(2)[unfolded ones bar_reg_def]])
  obtain h'' where h'': "pci_config_write (pci_bus d) (pci_slot d) (pci_function d) (PCI_BAR0 + word_of_nat i * 4) (R ?a) (s\<lparr>hist := h, hist := h'\<rparr>)
      = s\<lparr>hist := h, hist := h', hist := h''\<rparr>" "config_is W F (?R(?a := (R ?a AND W ?a) OR F ?a)) (s\<lparr>hist := h, hist := h', hist := h''\<rparr>)"
    unfolding bar_reg_def by (rule config_write[OF h'(2)[unfolded bar_reg_def]])
  have "?R(?a := (R ?a AND W ?a) OR F ?a) = R" unfolding r[symmetric] by simp
  then have state: "config_is W F R (s\<lparr>hist := h''\<rparr>)" using h''(2) by simp
  define v where "v = R ?a"
  have v: "v = (v AND bar_writable k) OR bar_fixed k" using r k by (simp add: v_def)
  note steps = h(1) h'(1)[simplified] h''(1)[simplified] d(3)
  show ?thesis
  proof (cases k)
    case No_bar
    then show ?thesis using state d k
      by (simp add: pci_probe_bar_def steps Let_def bar_described_def same_but_def bars_ok_def)
  next
    case (Io_bar n)
    have n: "2 \<le> n" "n < 32" using k(1) Io_bar by simp_all
    note facts = io_bar_answer[OF n v[unfolded Io_bar bar_writable.simps bar_fixed.simps]]
    show ?thesis using state d k facts
      by (simp add: pci_probe_bar_def steps Let_def bar_described_def same_but_def bars_ok_def Io_bar v_def)
  next
    case (Mem_bar n f)
    have n: "4 \<le> n" "n < 32" "f < 16" "\<not> bit f 0" using k(1) Mem_bar by simp_all
    note facts = mem_bar_answer[OF n v[unfolded Mem_bar bar_writable.simps bar_fixed.simps]]
    show ?thesis using state d k facts
      by (simp add: pci_probe_bar_def steps Let_def bar_described_def same_but_def bars_ok_def Mem_bar v_def)
  qed
qed

definition bars_wired :: "(u32 \<Rightarrow> u32) \<Rightarrow> (u32 \<Rightarrow> u32) \<Rightarrow> (u32 \<Rightarrow> u32) \<Rightarrow> (nat \<Rightarrow> bar_kind) \<Rightarrow> pci_device_t \<Rightarrow> bool" where
  "bars_wired W F R ks d \<longleftrightarrow> (\<forall>i < 6. bar_kind_ok (ks i) \<and> W (bar_reg d i) = bar_writable (ks i) \<and> F (bar_reg d i) = bar_fixed (ks i)
     \<and> R (bar_reg d i) = (R (bar_reg d i) AND W (bar_reg d i)) OR F (bar_reg d i))"

lemma pci_probe_bars_upto:
  assumes "config_is W F R s" "bars_ok d" "bars_wired W F R ks d" "n \<le> 6"
  shows "config_is W F R (snd (pci_probe_bars n d s)) \<and> bars_ok (fst (pci_probe_bars n d s))
    \<and> bar_reg (fst (pci_probe_bars n d s)) = bar_reg d \<and> (\<forall>i < n. bar_described (ks i) (R (bar_reg d i)) (fst (pci_probe_bars n d s)) i)"
  using assms(4)
proof (induction n)
  case 0
  then show ?case using assms by simp
next
  case (Suc n)
  obtain e t where e: "pci_probe_bars n d s = (e, t)" by (cases "pci_probe_bars n d s")
  have IH: "config_is W F R t" "bars_ok e" "bar_reg e = bar_reg d" "\<forall>i < n. bar_described (ks i) (R (bar_reg d i)) e i"
    using Suc e by simp_all
  let ?r = "PCI_BAR0 + word_of_nat n * 4 :: u8"
  obtain h where h: "pci_config_read (pci_bus e) (pci_slot e) (pci_function e) ?r t = (R (bar_reg e n), t\<lparr>hist := h\<rparr>)"
    "config_is W F R (t\<lparr>hist := h\<rparr>)"
    unfolding bar_reg_def by (rule config_read[OF IH(1)])
  let ?e = "e\<lparr>bar := (bar e)[n := R (bar_reg d n)]\<rparr>"
  have reg: "bar_reg ?e = bar_reg d" using IH(3) by (simp add: bar_reg_def fun_eq_iff)
  have "bars_ok ?e" "bar ?e ! n = R (bar_reg d n)" using IH(2) Suc.prems by (simp_all add: bars_ok_def)
  moreover have "n < 6" using Suc.prems by simp
  ultimately have p: "config_is W F R (snd (pci_probe_bar n ?e (t\<lparr>hist := h\<rparr>)))"
    "bar_described (ks n) (R (bar_reg d n)) (fst (pci_probe_bar n ?e (t\<lparr>hist := h\<rparr>))) n"
    "same_but n ?e (fst (pci_probe_bar n ?e (t\<lparr>hist := h\<rparr>)))"
    using pci_probe_bar_correct[OF h(2), of ?e n "ks n"] assms(3) by (auto simp: reg bars_wired_def)
  have step: "pci_probe_bars (Suc n) d s = pci_probe_bar n ?e (t\<lparr>hist := h\<rparr>)"
    using IH(3) by (simp add: e h(1) Let_def)
  have "bar_described (ks i) (R (bar_reg d i)) (fst (pci_probe_bar n ?e (t\<lparr>hist := h\<rparr>))) i" if "i < Suc n" for i
    using that p(2,3) IH(4) by (cases "i = n") (auto simp: same_but_def bar_described_def)
  moreover have "bar_reg (fst (pci_probe_bar n ?e (t\<lparr>hist := h\<rparr>))) = bar_reg d" "bars_ok (fst (pci_probe_bar n ?e (t\<lparr>hist := h\<rparr>)))"
    using p(3) IH(3) by (auto simp: same_but_def bar_reg_def fun_eq_iff)
  ultimately show ?case unfolding step using p(1) by blast
qed

text \<open>
  C21: Probing the six base address registers of a PCI function is not destructive: every register of the configuration space holds afterwards
  what it held before.  The device record then has for each register its value, and the size, the kind and the base address of the range
  it decodes; a register that is not implemented is reported with size 0.
\<close>

theorem pci_probe_bars_correct:
  assumes "config_is W F R s" "bars_ok d" "bars_wired W F R ks d"
  shows "config_is W F R (snd (pci_probe_bars 6 d s))
    \<and> (\<forall>i < 6. bar_described (ks i) (R (bar_reg d i)) (fst (pci_probe_bars 6 d s)) i)"
  using pci_probe_bars_upto[OF assms, of 6] by simp

text \<open>A function whose first register decodes 32 I/O ports at 0xC000 and whose others are absent.\<close>

definition pci_example :: pci_device_t where
  "pci_example = \<lparr>pci_bus = 0, pci_slot = 1, pci_function = 0, vendor_id = 0, device_id = 0, class_code = 0, pci_subclass = 0, prog_if = 0,
     header_type = 0, bar = replicate 6 0, bar_addr = replicate 6 0, bar_size = replicate 6 0, bar_type = replicate 6 0\<rparr>"

definition pci_example_regs :: "u32 \<Rightarrow> u32" where
  "pci_example_regs a = (if a = bar_reg pci_example 0 then 0xC001 else 0)"

definition pci_example_writable :: "u32 \<Rightarrow> u32" where
  "pci_example_writable a = (if a = bar_reg pci_example 0 then NOT (mask 5) else 0)"

definition pci_example_fixed :: "u32 \<Rightarrow> u32" where
  "pci_example_fixed a = (if a = bar_reg pci_example 0 then 1 else 0)"

lemma pci_example_bars: "i < 6 \<Longrightarrow> bar_reg pci_example i = bar_reg pci_example 0 \<longleftrightarrow> i = 0"
proof -
  assume "i < 6"
  then have "i \<in> {0, 1, 2, 3, 4, 5}" by auto
  then show ?thesis by (auto simp: bar_reg_def pci_example_def pci_address_def)
qed

theorem pci_probe_bars_correct_witness:
  "bar_size (fst (pci_probe_bars 6 pci_example (blank_machine (config_device pci_example_writable pci_example_fixed
     \<lparr>cfg_address = 0, cfg_regs = pci_example_regs\<rparr> (\<lambda>_ _. 0))))) ! 0 = 32"
proof -
  let ?s = "blank_machine (config_device pci_example_writable pci_example_fixed \<lparr>cfg_address = 0, cfg_regs = pci_example_regs\<rparr> (\<lambda>_ _. 0))"
  let ?ks = "\<lambda>i. if i = 0 then Io_bar 5 else No_bar"
  have "config_is pci_example_writable pci_example_fixed pci_example_regs ?s"
    unfolding config_is_def by (intro exI[of _ "\<lparr>cfg_address = 0, cfg_regs = pci_example_regs\<rparr>"] exI) (simp add: config_after_def)
  moreover have "bars_ok pci_example" by (simp add: bars_ok_def pci_example_def)
  moreover have "(0xC001 :: u32) = (0xC001 AND NOT (mask 5)) OR 1" by (simp add: mask_numeral)
  then have "bars_wired pci_example_writable pci_example_fixed pci_example_regs ?ks pci_example"
    by (auto simp: bars_wired_def pci_example_bars pci_example_writable_def pci_example_fixed_def pci_example_regs_def)
  ultimately show ?thesis
    using pci_probe_bars_correct[of pci_example_writable pci_example_fixed pci_example_regs ?s pci_example ?ks]
    by (auto simp: bar_described_def dest: spec[of _ 0])
qed

end
