(* ===== verification/Ide_Disk.thy ===== *)
theory Ide_Disk
  imports Ide Interrupts_Properties
begin

text \<open>
  The disk driver on an ATA disk.  The disk is a device in the sense of the port interface: a state machine over the
  history of accesses that keeps the address registers, the phase of a transfer and the contents, as the ATA
  standard describes programmed transfers of one sector with 28-bit addresses.  All other ports are left to an
  arbitrary device.
\<close>

section \<open>The disk\<close>

datatype ata_phase = Idle | Reading nat nat | Writing nat "u8 list"

record ata =
  a_low :: u8
  a_mid :: u8
  a_high :: u8
  a_sel :: u8
  a_phase :: ata_phase
  a_disk :: "nat \<Rightarrow> u8 list"

definition ata_lba :: "ata \<Rightarrow> nat" where
  "ata_lba a = unat (a_low a) + 256 * unat (a_mid a) + 65536 * unat (a_high a) + 16777216 * unat (a_sel a AND 0x0F)"

fun ata_step :: "io_op \<Rightarrow> ata \<Rightarrow> ata" where
  "ata_step (Wr (Port8 p) v) a =
     (if p = IDE_LBA_LOW then a\<lparr>a_low := ucast v\<rparr>
      else if p = IDE_LBA_MID then a\<lparr>a_mid := ucast v\<rparr>
      else if p = IDE_LBA_HIGH then a\<lparr>a_high := ucast v\<rparr>
      else if p = IDE_DRIVE_SEL then a\<lparr>a_sel := ucast v\<rparr>
      else if p = IDE_COMMAND then
        a\<lparr>a_phase := (if v = 0x20 then Reading (ata_lba a) 0 else if v = 0x30 then Writing (ata_lba a) [] else Idle)\<rparr>
      else a)"
| "ata_step (Rd (Port16 p) v) a =
     (if p = IDE_DATA then
        case a_phase a of Reading l k \<Rightarrow> a\<lparr>a_phase := (if k + 1 = 256 then Idle else Reading l (k + 1))\<rparr> | _ \<Rightarrow> a
      else a)"
| "ata_step (Wr (Port16 p) v) a =
     (if p = IDE_DATA then
        case a_phase a of
          Writing l bs \<Rightarrow>
            let bs = bs @ [ucast v, ucast (drop_bit 8 v)]
            in if length bs = 512 then a\<lparr>a_disk := (a_disk a)(l := bs), a_phase := Idle\<rparr> else a\<lparr>a_phase := Writing l bs\<rparr>
        | _ \<Rightarrow> a
      else a)"
| "ata_step _ a = a"

definition ata_after :: "ata \<Rightarrow> io_op list \<Rightarrow> ata" where
  "ata_after a0 h = foldr ata_step h a0"

definition ata_device :: "ata \<Rightarrow> device \<Rightarrow> device" where
  "ata_device a0 d0 h l =
     (if l = Port8 IDE_STATUS then if a_phase (ata_after a0 h) = Idle then 0x40 else 0x48
      else if l = Port16 IDE_DATA then
        (case a_phase (ata_after a0 h) of
           Reading lba k \<Rightarrow> ucast (a_disk (ata_after a0 h) lba ! (2 * k)) OR push_bit 8 (ucast (a_disk (ata_after a0 h) lba ! (2 * k + 1)))
         | _ \<Rightarrow> 0)
      else d0 h l)"

text \<open>The machine's drive is present and holds the sectors \<open>D\<close>, each of 512 bytes.\<close>

definition disk_is :: "(nat \<Rightarrow> u8 list) \<Rightarrow> 'a ide_state_scheme \<Rightarrow> bool" where
  "disk_is D s \<longleftrightarrow> ide_drive_sel s \<in> {0xE0, 0xF0} \<and> (\<forall>i. length (D i) = 512)
     \<and> (\<exists>a0 d0. dev s = ata_device a0 d0 \<and> a_disk (ata_after a0 (hist s)) = D)"

lemma ata_after_Cons [simp]: "ata_after a0 (x # h) = ata_step x (ata_after a0 h)"
  by (simp add: ata_after_def)

section \<open>Addressing\<close>

lemma lba_registers:
  fixes lba :: u32
  assumes "unat lba < 2 ^ 28"
  shows "unat (ucast (lba AND 0xFF) :: u8) + 256 * unat (ucast (drop_bit 8 lba AND 0xFF) :: u8)
      + 65536 * unat (ucast (drop_bit 16 lba AND 0xFF) :: u8) + 16777216 * unat (ucast (drop_bit 24 lba AND 0x0F) :: u8) = unat lba"
proof -
  have c: "ucast (x AND 0xFF) = (ucast x :: u8)" "ucast (x AND 0x0F) = (ucast x AND 0x0F :: u8)" for x :: u32
  proof -
    have m: "(0xFF :: u32) = mask 8" "(0x0F :: u32) = mask 4" "(0x0F :: u8) = mask 4" by (simp_all add: mask_numeral)
    show "ucast (x AND 0xFF) = (ucast x :: u8)" "ucast (x AND 0x0F) = (ucast x AND 0x0F :: u8)"
      unfolding m by (rule bit_word_eqI, auto simp: bit_simps)+
  qed
  have d: "unat (drop_bit k lba) = unat lba div 2 ^ k" for k by (simp only: unat_drop_bit_eq) (simp only: drop_bit_eq_div)
  have b: "unat (ucast (drop_bit k lba AND 0xFF) :: u8) = unat lba div 2 ^ k mod 256" for k
    unfolding c using d by (simp add: unsigned_ucast_eq take_bit_eq_mod del: drop_bit_eq_div)
  have "unat (y AND 0x0F :: u8) = unat y mod 16" for y
  proof -
    have "(0x0F :: u8) = mask 4" by (simp add: mask_numeral)
    then have "y AND 0x0F = take_bit 4 y" by (simp only: take_bit_eq_mask)
    then show ?thesis by (simp only: unsigned_take_bit_eq) (simp add: take_bit_eq_mod)
  qed
  then have n: "unat (ucast (drop_bit 24 lba AND 0x0F) :: u8) = unat lba div 2 ^ 24 mod 16"
    unfolding c using d[of 24] by (simp add: unsigned_ucast_eq take_bit_eq_mod mod_mod_cancel)
  define x y z where xyz: "x = unat lba div 256" "y = x div 256" "z = y div 256"
  have div: "unat lba div 2 ^ 8 = x" "unat lba div 2 ^ 16 = y" "unat lba div 2 ^ 24 = z" by (simp_all add: xyz div_mult2_eq[symmetric])
  have "unat lba = 256 * x + unat lba mod 256" "x = 256 * y + x mod 256" "y = 256 * z + y mod 256" "z mod 16 = z"
    using assms div(3) by (simp_all add: xyz(1) xyz(2) xyz(3))
  then show ?thesis using b[of 0] b[of 8] b[of 16] n unfolding div by simp
qed

section \<open>A command\<close>

text \<open>Every step of the driver leaves a state that differs from \<open>s\<close> in its history only.\<close>

lemma reads8_ata: "\<exists>h. reads8 n p s = s\<lparr>hist := h\<rparr> \<and> ata_after a0 h = ata_after a0 (hist s)"
proof (induction n arbitrary: s)
  case (Suc n)
  obtain h where "reads8 n p (snd (inb p s)) = (snd (inb p s))\<lparr>hist := h\<rparr>" "ata_after a0 h = ata_after a0 (hist (snd (inb p s)))"
    using Suc[of "snd (inb p s)"] by blast
  then show ?case by (auto simp: inb_snd)
next
  case 0
  show ?case by (rule exI[of _ "hist s"]) simp
qed

lemma drive_nibble:
  assumes "d \<in> {0xE0, 0xF0 :: u8}"
  shows "(d OR ucast (x AND 0x0F :: u32)) AND 0x0F = ucast (x AND 0x0F)"
proof -
  have m: "(0x0F :: u32) = mask 4" "(0x0F :: u8) = mask 4" by (simp_all add: mask_numeral)
  have "d AND mask 4 = 0" using assms by (auto simp: mask_numeral)
  then have d: "\<not> (bit d n \<and> n < 4)" for n by (metis bit_0_eq bit_and_iff bit_mask_iff bot_apply bot_bool_def bit_imp_le_length impossible_bit possible_bit_word)
  show ?thesis unfolding m by (rule bit_word_eqI) (use d in \<open>auto simp: bit_simps\<close>)
qed

lemma ide_command_ata:
  assumes lba: "unat lba < 2 ^ 28" and sel: "ide_drive_sel s \<in> {0xE0, 0xF0}" and cmd: "cmd \<in> {0x20, 0x30}"
  shows "\<exists>h. ide_command lba cmd s = s\<lparr>hist := h\<rparr> \<and> a_disk (ata_after a0 h) = a_disk (ata_after a0 (hist s))
    \<and> a_phase (ata_after a0 h) = (if cmd = 0x20 then Reading (unat lba) 0 else Writing (unat lba) [])"
proof -
  define t where "t = outb IDE_DRIVE_SEL (ide_drive_sel s OR ucast (drop_bit 24 lba AND 0x0F)) s"
  obtain h where h: "reads8 10 IDE_STATUS t = t\<lparr>hist := h\<rparr>" "ata_after a0 h = ata_after a0 (hist t)"
    using reads8_ata by blast
  define g where "g = Wr (Port8 IDE_COMMAND) (ucast cmd) # Wr (Port8 IDE_LBA_HIGH) (ucast (ucast (drop_bit 16 lba AND 0xFF) :: u8))
    # Wr (Port8 IDE_LBA_MID) (ucast (ucast (drop_bit 8 lba AND 0xFF) :: u8)) # Wr (Port8 IDE_LBA_LOW) (ucast (ucast (lba AND 0xFF) :: u8))
    # Wr (Port8 IDE_SECTOR_COUNT) 1 # h"
  have eq: "ide_command lba cmd s = s\<lparr>hist := g\<rparr>"
    unfolding ide_command_def ide_select_drive_def Let_def t_def[symmetric] h(1) g_def by (simp add: t_def outb_state)
  have at: "ata_after a0 (hist t) = (ata_after a0 (hist s))\<lparr>a_sel := ide_drive_sel s OR ucast (drop_bit 24 lba AND 0x0F)\<rparr>"
    by (simp add: t_def outb_state)
  have "ata_after a0 g = (ata_after a0 (hist s))\<lparr>a_sel := ide_drive_sel s OR ucast (drop_bit 24 lba AND 0x0F),
      a_low := ucast (lba AND 0xFF), a_mid := ucast (drop_bit 8 lba AND 0xFF), a_high := ucast (drop_bit 16 lba AND 0xFF),
      a_phase := (if cmd = 0x20 then Reading (unat lba) 0 else Writing (unat lba) [])\<rparr>"
    using cmd lba_registers[OF lba] drive_nibble[OF sel, of "drop_bit 24 lba"] by (auto simp: g_def h(2) at ata_lba_def)
  then show ?thesis using eq by (intro exI[of _ g]) simp
qed

lemma busy_ready:
  assumes "dev s = ata_device a0 d0" "a_phase (ata_after a0 (hist s)) \<noteq> Idle"
  shows "\<exists>h. ide_wait_drq s = Some (0, s\<lparr>hist := h\<rparr>) \<and> ata_after a0 h = ata_after a0 (hist s)"
proof -
  have "fst (inb IDE_STATUS s) = 0x48" using assms by (simp add: inb_fst ata_device_def)
  then have "ide_wait_drq s = Some (0, snd (inb IDE_STATUS s))"
    unfolding ide_wait_drq_def poll8_unfold[of _ _ s] by (simp add: case_prod_beta)
  then show ?thesis by (intro exI[of _ "hist (snd (inb IDE_STATUS s))"]) (simp add: inb_snd)
qed

lemma idle_ready:
  assumes "dev s = ata_device a0 d0" "a_phase (ata_after a0 (hist s)) = Idle"
  shows "\<exists>h. ide_wait_ready s = Some (0, s\<lparr>hist := h\<rparr>) \<and> ata_after a0 h = ata_after a0 (hist s)"
proof -
  have "fst (inb IDE_STATUS s) = 0x40" using assms by (simp add: inb_fst ata_device_def)
  then have "ide_wait_ready s = Some (0, snd (inb IDE_STATUS s))"
    unfolding ide_wait_ready_def poll8_unfold[of _ _ s] by (simp add: case_prod_beta)
  then show ?thesis by (intro exI[of _ "hist (snd (inb IDE_STATUS s))"]) (simp add: inb_snd)
qed

section \<open>Reading\<close>

lemma word_bytes:
  fixes x y :: u8
  shows "ucast (ucast (ucast x OR push_bit 8 (ucast y) :: u64) AND 0xFF :: u16) = x"
    "ucast (drop_bit 8 (ucast (ucast x OR push_bit 8 (ucast y) :: u64) :: u16)) = y"
    "ucast (ucast (push_bit 8 (ucast y) OR ucast x :: u16) :: u64) = x"
    "ucast (drop_bit 8 (ucast (push_bit 8 (ucast y) OR ucast x :: u16) :: u64)) = y"
proof -
  have m: "(0xFF :: u16) = mask 8" by (simp add: mask_numeral)
  show "ucast (ucast (ucast x OR push_bit 8 (ucast y) :: u64) AND 0xFF :: u16) = x"
    unfolding m by (rule bit_word_eqI) (auto simp: bit_simps)
  show "ucast (drop_bit 8 (ucast (ucast x OR push_bit 8 (ucast y) :: u64) :: u16)) = y"
    "ucast (ucast (push_bit 8 (ucast y) OR ucast x :: u16) :: u64) = x"
    "ucast (drop_bit 8 (ucast (push_bit 8 (ucast y) OR ucast x :: u16) :: u64)) = y"
    by (rule bit_word_eqI, auto simp: bit_simps dest: bit_imp_le_length)+
qed

lemma take_two: "Suc (2 * n) < length xs \<Longrightarrow> take (2 * Suc n) xs = take (2 * n) xs @ [xs ! (2 * n), xs ! (2 * n + 1)]"
  by (simp add: take_Suc_conv_app_nth)

lemma ide_read_words_ata:
  assumes "dev s = ata_device a0 d0" "a_phase (ata_after a0 (hist s)) = Reading l 0"
    "length (a_disk (ata_after a0 (hist s)) l) = 512" "n \<le> 256"
  shows "\<exists>h. ide_read_words n s = (take (2 * n) (a_disk (ata_after a0 (hist s)) l), s\<lparr>hist := h\<rparr>)
    \<and> a_disk (ata_after a0 h) = a_disk (ata_after a0 (hist s)) \<and> a_phase (ata_after a0 h) = (if n = 256 then Idle else Reading l n)"
  using assms(4)
proof (induction n)
  case 0
  then show ?case using assms(2) by (intro exI[of _ "hist s"]) simp
next
  case (Suc n)
  then obtain h where h: "ide_read_words n s = (take (2 * n) (a_disk (ata_after a0 (hist s)) l), s\<lparr>hist := h\<rparr>)"
    "a_disk (ata_after a0 h) = a_disk (ata_after a0 (hist s))" "a_phase (ata_after a0 h) = Reading l n" by auto
  let ?v = "ata_device a0 d0 h (Port16 IDE_DATA)"
  have v: "?v = ucast (a_disk (ata_after a0 (hist s)) l ! (2 * n)) OR push_bit 8 (ucast (a_disk (ata_after a0 (hist s)) l ! (2 * n + 1)))"
    using h by (simp add: ata_device_def)
  have "ide_read_words (Suc n) s = (take (2 * Suc n) (a_disk (ata_after a0 (hist s)) l), s\<lparr>hist := Rd (Port16 IDE_DATA) ?v # h\<rparr>)"
    using Suc.prems assms(1,3) by (subst take_two) (auto simp: h(1) inw_def io_in_def Let_def v word_bytes)
  then show ?case using h(2,3) by (intro exI[of _ "Rd (Port16 IDE_DATA) ?v # h"]) auto
qed

lemma ide_read_sector_ata:
  assumes "disk_is D s" "unat lba < 2 ^ 28"
  shows "\<exists>h. ide_read_sector lba s = Some (Some (D (unat lba)), s\<lparr>hist := h\<rparr>) \<and> disk_is D (s\<lparr>hist := h\<rparr>)"
proof -
  obtain a0 d0 where d: "dev s = ata_device a0 d0" "a_disk (ata_after a0 (hist s)) = D" and sel: "ide_drive_sel s \<in> {0xE0, 0xF0}"
    and len: "\<And>i. length (D i) = 512" using assms(1) by (auto simp: disk_is_def)
  obtain h1 where h1: "ide_command lba 0x20 s = s\<lparr>hist := h1\<rparr>" "a_disk (ata_after a0 h1) = D" "a_phase (ata_after a0 h1) = Reading (unat lba) 0"
    using ide_command_ata[OF assms(2) sel, of "0x20" a0] d by auto
  obtain h2 where h2: "ide_wait_drq (s\<lparr>hist := h1\<rparr>) = Some (0, s\<lparr>hist := h2\<rparr>)" "ata_after a0 h2 = ata_after a0 h1"
    using busy_ready[of "s\<lparr>hist := h1\<rparr>" a0 d0] d h1 by auto
  obtain h3 where h3: "ide_read_words 256 (s\<lparr>hist := h2\<rparr>) = (D (unat lba), s\<lparr>hist := h3\<rparr>)" "a_disk (ata_after a0 h3) = D"
    using ide_read_words_ata[of "s\<lparr>hist := h2\<rparr>" a0 d0 "unat lba" 256] d h1 h2 len[of "unat lba"] by auto
  have "ide_read_sector lba s = Some (Some (D (unat lba)), s\<lparr>hist := h3\<rparr>)"
    using sel by (auto simp: ide_read_sector_def h1 h2 h3)
  moreover have "disk_is D (s\<lparr>hist := h3\<rparr>)" using d h3 sel len by (auto simp: disk_is_def)
  ultimately show ?thesis by blast
qed

section \<open>Writing\<close>

lemma ide_write_words_ata:
  assumes "a_phase (ata_after a0 (hist s)) = Writing l []" "length buffer = 512" "n \<le> 256"
  shows "\<exists>h. ide_write_words n buffer s = s\<lparr>hist := h\<rparr>
    \<and> (if n = 256 then a_phase (ata_after a0 h) = Idle \<and> a_disk (ata_after a0 h) = (a_disk (ata_after a0 (hist s)))(l := buffer)
       else a_phase (ata_after a0 h) = Writing l (take (2 * n) buffer) \<and> a_disk (ata_after a0 h) = a_disk (ata_after a0 (hist s)))"
  using assms(3)
proof (induction n)
  case 0
  then show ?case using assms(1) by (intro exI[of _ "hist s"]) simp
next
  case (Suc n)
  then obtain h where h: "ide_write_words n buffer s = s\<lparr>hist := h\<rparr>" "a_phase (ata_after a0 h) = Writing l (take (2 * n) buffer)"
    "a_disk (ata_after a0 h) = a_disk (ata_after a0 (hist s))" by auto
  let ?v = "push_bit 8 (ucast (buffer ! (n * 2 + 1))) OR ucast (buffer ! (n * 2)) :: u16"
  have b: "take (2 * Suc n) buffer = take (2 * n) buffer @ [ucast (ucast ?v :: u64), ucast (drop_bit 8 (ucast ?v :: u64))]"
    using Suc.prems assms(2) by (subst take_two) (auto simp: word_bytes mult.commute)
  have l: "length (take (2 * n) buffer @ [ucast (ucast ?v :: u64), ucast (drop_bit 8 (ucast ?v :: u64))]) = 2 * Suc n"
    using Suc.prems assms(2) by simp
  define g where g: "g = Wr (Port16 IDE_DATA) (ucast ?v) # h"
  have w: "ide_write_words (Suc n) buffer s = s\<lparr>hist := g\<rparr>"
    by (simp add: h(1) outw_def io_out_def g)
  have a: "ata_after a0 g =
      (if Suc n = 256 then (ata_after a0 h)\<lparr>a_disk := (a_disk (ata_after a0 h))(l := take (2 * Suc n) buffer), a_phase := Idle\<rparr>
       else (ata_after a0 h)\<lparr>a_phase := Writing l (take (2 * Suc n) buffer)\<rparr>)"
    unfolding b g using l h(2) Suc.prems by (simp add: Let_def)
  have "take (2 * Suc n) buffer = buffer" if "Suc n = 256" using that assms(2) by simp
  then show ?case using w a h(3) by (intro exI[of _ g]) auto
qed

lemma ide_write_sector_ata:
  assumes "disk_is D s" "unat lba < 2 ^ 28" "length buffer = 512"
  shows "\<exists>h. ide_write_sector lba buffer s = Some (True, s\<lparr>hist := h\<rparr>) \<and> disk_is (D(unat lba := buffer)) (s\<lparr>hist := h\<rparr>)"
proof -
  obtain a0 d0 where d: "dev s = ata_device a0 d0" "a_disk (ata_after a0 (hist s)) = D" and sel: "ide_drive_sel s \<in> {0xE0, 0xF0}"
    and len: "\<And>i. length (D i) = 512" using assms(1) by (auto simp: disk_is_def)
  obtain h1 where h1: "ide_command lba 0x30 s = s\<lparr>hist := h1\<rparr>" "a_disk (ata_after a0 h1) = D" "a_phase (ata_after a0 h1) = Writing (unat lba) []"
    using ide_command_ata[OF assms(2) sel, of "0x30" a0] d by auto
  obtain h2 where h2: "ide_wait_drq (s\<lparr>hist := h1\<rparr>) = Some (0, s\<lparr>hist := h2\<rparr>)" "ata_after a0 h2 = ata_after a0 h1"
    using busy_ready[of "s\<lparr>hist := h1\<rparr>" a0 d0] d h1 by auto
  obtain h3 where h3: "ide_write_words 256 buffer (s\<lparr>hist := h2\<rparr>) = s\<lparr>hist := h3\<rparr>"
    "a_phase (ata_after a0 h3) = Idle" "a_disk (ata_after a0 h3) = D(unat lba := buffer)"
    using ide_write_words_ata[of a0 "s\<lparr>hist := h2\<rparr>" "unat lba" buffer 256] h1 h2 assms(3) by auto
  obtain h4 where h4: "ide_wait_ready (s\<lparr>hist := h3\<rparr>) = Some (0, s\<lparr>hist := h4\<rparr>)" "ata_after a0 h4 = ata_after a0 h3"
    using idle_ready[of "s\<lparr>hist := h3\<rparr>" a0 d0] d h3 by auto
  obtain h5 where h5: "ide_wait_ready (s\<lparr>hist := Wr (Port8 IDE_COMMAND) 0xE7 # h4\<rparr>) = Some (0, s\<lparr>hist := h5\<rparr>)"
    "ata_after a0 h5 = ata_after a0 (Wr (Port8 IDE_COMMAND) 0xE7 # h4)"
    using idle_ready[of "s\<lparr>hist := Wr (Port8 IDE_COMMAND) 0xE7 # h4\<rparr>" a0 d0] d by auto
  have "ide_write_sector lba buffer s = Some (True, s\<lparr>hist := h5\<rparr>)"
    using sel h5(1) by (auto simp: ide_write_sector_def h1 h2 h3 h4 outb_state)
  moreover have "disk_is (D(unat lba := buffer)) (s\<lparr>hist := h5\<rparr>)"
    using d h3 h4 h5(2) sel len assms(3) by (auto simp: disk_is_def)
  ultimately show ?thesis by blast
qed

text \<open>
  On an ATA disk that follows the standard, reading a sector within the 28-bit range returns and delivers exactly the sector's
  512 bytes, and writing returns and changes exactly that sector, so that what was written is read back; both
  leave every other part of the state alone.
\<close>

theorem ide_sector_roundtrip:
  assumes "disk_is D s" "unat lba < 2 ^ 28" "length buffer = 512" "unat lba' < 2 ^ 28"
  shows "\<exists>h h'. ide_write_sector lba buffer s = Some (True, s\<lparr>hist := h\<rparr>)
    \<and> ide_read_sector lba' (s\<lparr>hist := h\<rparr>) = Some (Some (if lba' = lba then buffer else D (unat lba')), s\<lparr>hist := h'\<rparr>)
    \<and> disk_is (D(unat lba := buffer)) (s\<lparr>hist := h'\<rparr>)"
proof -
  obtain h where h: "ide_write_sector lba buffer s = Some (True, s\<lparr>hist := h\<rparr>)" "disk_is (D(unat lba := buffer)) (s\<lparr>hist := h\<rparr>)"
    using ide_write_sector_ata[OF assms(1-3)] by blast
  obtain h' where "ide_read_sector lba' (s\<lparr>hist := h\<rparr>) = Some (Some ((D(unat lba := buffer)) (unat lba')), s\<lparr>hist := h'\<rparr>)"
    "disk_is (D(unat lba := buffer)) (s\<lparr>hist := h'\<rparr>)"
    using ide_read_sector_ata[OF h(2) assms(4)] by auto
  then show ?thesis using h by (intro exI[of _ h] exI[of _ h']) (simp add: word_unat_eq_iff)
qed

definition blank_ata :: "(nat \<Rightarrow> u8 list) \<Rightarrow> ata" where
  "blank_ata D = \<lparr>a_low = 0, a_mid = 0, a_high = 0, a_sel = 0, a_phase = Idle, a_disk = D\<rparr>"

definition ide_example :: "(nat \<Rightarrow> u8 list) \<Rightarrow> ide_state" where
  "ide_example D = kernel.extend (kernel_example\<lparr>dev := ata_device (blank_ata D) (\<lambda>h l. 0), hist := []\<rparr>) (ide_state.fields 0xE0)"

lemma ide_example_disk: "(\<And>i. length (D i) = 512) \<Longrightarrow> disk_is D (ide_example D)"
  unfolding disk_is_def
  by (intro conjI allI exI[of _ "blank_ata D"] exI[of _ "\<lambda>h l. 0"])
     (simp_all add: ide_example_def kernel.defs ide_state.defs ata_after_def blank_ata_def)

theorem ide_sector_roundtrip_witness:
  "\<exists>h h'. ide_write_sector 7 (replicate 512 1) (ide_example (\<lambda>_. replicate 512 0)) = Some (True, ide_example (\<lambda>_. replicate 512 0)\<lparr>hist := h\<rparr>)
   \<and> ide_read_sector 7 (ide_example (\<lambda>_. replicate 512 0)\<lparr>hist := h\<rparr>) = Some (Some (replicate 512 1), ide_example (\<lambda>_. replicate 512 0)\<lparr>hist := h'\<rparr>)"
  using ide_sector_roundtrip[OF ide_example_disk, of "\<lambda>_. replicate 512 0" 7 "replicate 512 1" 7] by auto

end
