(* ===== verification/Ide_Sectors.thy ===== *)
theory Ide_Sectors
  imports Ide_Disk
begin

text \<open>
  Transfers of several sectors, the inline functions of \<^verbatim>\<open>include/kernel/ide.h\<close>.  A read gives the bytes that were stored
  in the buffer, also when it fails in the middle.
\<close>

primrec read_sectors_from :: "u32 \<Rightarrow> nat \<Rightarrow> nat \<Rightarrow> 'a ide_state_scheme \<Rightarrow> ((bool \<times> u8 list) \<times> 'a ide_state_scheme) option" where
  "read_sectors_from lba i 0 s = Some ((True, []), s)"
| "read_sectors_from lba i (Suc n) s =
     (case ide_read_sector (lba + word_of_nat i) s of None \<Rightarrow> None
      | Some (None, s) \<Rightarrow> Some ((False, []), s)
      | Some (Some b, s) \<Rightarrow> map_option (\<lambda>((ok, bs), s). ((ok, b @ bs), s)) (read_sectors_from lba (i + 1) n s))"

definition ide_read_sectors :: "u32 \<Rightarrow> u8 \<Rightarrow> 'a ide_state_scheme \<Rightarrow> ((bool \<times> u8 list) \<times> 'a ide_state_scheme) option" where
  "ide_read_sectors lba count s = read_sectors_from lba 0 (unat count) s"

primrec write_sectors_from :: "u32 \<Rightarrow> nat \<Rightarrow> nat \<Rightarrow> u8 list \<Rightarrow> 'a ide_state_scheme \<Rightarrow> (bool \<times> 'a ide_state_scheme) option" where
  "write_sectors_from lba i 0 buffer s = Some (True, s)"
| "write_sectors_from lba i (Suc n) buffer s =
     (case ide_write_sector (lba + word_of_nat i) (take 512 (drop (i * 512) buffer)) s of None \<Rightarrow> None
      | Some (ok, s) \<Rightarrow> if ok then write_sectors_from lba (i + 1) n buffer s else Some (False, s))"

definition ide_write_sectors :: "u32 \<Rightarrow> u8 \<Rightarrow> u8 list \<Rightarrow> 'a ide_state_scheme \<Rightarrow> (bool \<times> 'a ide_state_scheme) option" where
  "ide_write_sectors lba count buffer s = write_sectors_from lba 0 (unat count) buffer s"

section \<open>On a disk\<close>

definition sector_bytes :: "u8 list \<Rightarrow> nat \<Rightarrow> u8 list" where
  "sector_bytes buffer i = take 512 (drop (i * 512) buffer)"

text \<open>The disk with the sectors from \<open>l\<close> on replaced by the pieces \<open>i\<close> to \<open>i + n\<close> of a buffer.\<close>

definition put_sectors :: "nat \<Rightarrow> nat \<Rightarrow> nat \<Rightarrow> u8 list \<Rightarrow> (nat \<Rightarrow> u8 list) \<Rightarrow> nat \<Rightarrow> u8 list" where
  "put_sectors l i n buffer D k = (if l + i \<le> k \<and> k < l + i + n then sector_bytes buffer (k - l) else D k)"

lemma put_sectors_Suc: "put_sectors l (i + 1) n buffer (D(l + i := sector_bytes buffer i)) = put_sectors l i (Suc n) buffer D"
  by (auto simp: put_sectors_def fun_eq_iff)

lemma sector_number:
  assumes "unat (lba :: u32) + i < 2 ^ 28"
  shows "unat (lba + word_of_nat i) = unat lba + i"
proof -
  have i: "unat (word_of_nat i :: u32) = i" using assms by (simp add: unsigned_of_nat take_bit_nat_eq_self)
  then show ?thesis using assms by (subst unat_add_lem[THEN iffD1]) simp_all
qed

lemma read_sectors_disk:
  assumes "disk_is D s" "unat lba + i + n \<le> 2 ^ 28"
  shows "\<exists>h. read_sectors_from lba i n s = Some ((True, concat (map (\<lambda>j. D (unat lba + j)) [i..<i + n])), s\<lparr>hist := h\<rparr>)
    \<and> disk_is D (s\<lparr>hist := h\<rparr>)"
  using assms
proof (induction n arbitrary: i s)
  case 0
  then show ?case by (intro exI[of _ "hist s"]) simp
next
  case (Suc n)
  have l: "unat (lba + word_of_nat i) = unat lba + i" using Suc.prems(2) by (intro sector_number) simp
  obtain h where h: "ide_read_sector (lba + word_of_nat i) s = Some (Some (D (unat lba + i)), s\<lparr>hist := h\<rparr>)" "disk_is D (s\<lparr>hist := h\<rparr>)"
    using ide_read_sector_ata[OF Suc.prems(1), of "lba + word_of_nat i"] Suc.prems(2) unfolding l by auto
  obtain h' where "read_sectors_from lba (i + 1) n (s\<lparr>hist := h\<rparr>)
      = Some ((True, concat (map (\<lambda>j. D (unat lba + j)) [i + 1..<i + 1 + n])), s\<lparr>hist := h'\<rparr>)" "disk_is D (s\<lparr>hist := h'\<rparr>)"
    using Suc.IH[OF h(2), of "i + 1"] Suc.prems(2) by auto
  then show ?case by (intro exI[of _ h']) (simp add: h(1) upt_conv_Cons del: upt_Suc)
qed

lemma write_sectors_disk:
  assumes "disk_is D s" "unat lba + i + n \<le> 2 ^ 28" "(i + n) * 512 \<le> length buffer"
  shows "\<exists>h. write_sectors_from lba i n buffer s = Some (True, s\<lparr>hist := h\<rparr>)
    \<and> disk_is (put_sectors (unat lba) i n buffer D) (s\<lparr>hist := h\<rparr>)"
  using assms
proof (induction n arbitrary: i s D)
  case 0
  have "put_sectors (unat lba) i 0 buffer D = D" by (auto simp: put_sectors_def fun_eq_iff)
  then show ?case using 0 by (intro exI[of _ "hist s"]) simp
next
  case (Suc n)
  have l: "unat (lba + word_of_nat i) = unat lba + i" using Suc.prems(2) by (intro sector_number) simp
  have b: "length (sector_bytes buffer i) = 512" using Suc.prems(3) by (simp add: sector_bytes_def)
  obtain h where h: "ide_write_sector (lba + word_of_nat i) (sector_bytes buffer i) s = Some (True, s\<lparr>hist := h\<rparr>)"
    "disk_is (D(unat lba + i := sector_bytes buffer i)) (s\<lparr>hist := h\<rparr>)"
    using ide_write_sector_ata[OF Suc.prems(1) _ b, of "lba + word_of_nat i"] Suc.prems(2) unfolding l by auto
  obtain h' where "write_sectors_from lba (i + 1) n buffer (s\<lparr>hist := h\<rparr>) = Some (True, s\<lparr>hist := h'\<rparr>)"
    "disk_is (put_sectors (unat lba) i (Suc n) buffer D) (s\<lparr>hist := h'\<rparr>)"
    using Suc.IH[OF h(2), of "i + 1"] Suc.prems(2,3) unfolding put_sectors_Suc by auto
  then show ?case by (intro exI[of _ h']) (simp add: h(1)[unfolded sector_bytes_def])
qed

lemma concat_sectors: "length buffer = n * 512 \<Longrightarrow> concat (map (sector_bytes buffer) [0..<n]) = buffer"
proof (induction n arbitrary: buffer)
  case (Suc n)
  have "map (sector_bytes buffer) [0..<Suc n] = take 512 buffer # map (sector_bytes (drop 512 buffer)) [0..<n]"
    by (simp add: sector_bytes_def upt_conv_Cons map_Suc_upt[symmetric] add.commute del: upt_Suc)
  then show ?case using Suc.IH[of "drop 512 buffer"] Suc.prems by simp
qed simp

text \<open>
  C10: On an ATA disk that follows the standard, writing a buffer of whole sectors within the 28-bit range returns and changes exactly these
  sectors, and reading them back returns and delivers the buffer; both leave everything of the machine but the
  history of port accesses alone.
\<close>

theorem ide_sectors_roundtrip:
  assumes "disk_is D s" "unat lba + unat count \<le> 2 ^ 28" "length buffer = unat count * 512"
  shows "\<exists>h h'. ide_write_sectors lba count buffer s = Some (True, s\<lparr>hist := h\<rparr>)
    \<and> ide_read_sectors lba count (s\<lparr>hist := h\<rparr>) = Some ((True, buffer), s\<lparr>hist := h'\<rparr>)
    \<and> disk_is (\<lambda>k. if unat lba \<le> k \<and> k < unat lba + unat count then take 512 (drop ((k - unat lba) * 512) buffer) else D k) (s\<lparr>hist := h'\<rparr>)"
proof -
  let ?D = "put_sectors (unat lba) 0 (unat count) buffer D"
  obtain h where h: "ide_write_sectors lba count buffer s = Some (True, s\<lparr>hist := h\<rparr>)" "disk_is ?D (s\<lparr>hist := h\<rparr>)"
    using write_sectors_disk[OF assms(1), of lba 0 "unat count" buffer] assms(2,3) by (auto simp: ide_write_sectors_def)
  have "map (\<lambda>j. ?D (unat lba + j)) [0..<unat count] = map (sector_bytes buffer) [0..<unat count]"
    by (auto simp: put_sectors_def)
  then have "concat (map (\<lambda>j. ?D (unat lba + j)) [0..<unat count]) = buffer" using concat_sectors[OF assms(3)] by (simp only:)
  then obtain h' where r: "ide_read_sectors lba count (s\<lparr>hist := h\<rparr>) = Some ((True, buffer), s\<lparr>hist := h'\<rparr>)" "disk_is ?D (s\<lparr>hist := h'\<rparr>)"
    using read_sectors_disk[OF h(2), of lba 0 "unat count"] assms(2) by (auto simp: ide_read_sectors_def simp del: map_eq_conv)
  have eq: "?D = (\<lambda>k. if unat lba \<le> k \<and> k < unat lba + unat count then take 512 (drop ((k - unat lba) * 512) buffer) else D k)"
    by (auto simp: put_sectors_def sector_bytes_def fun_eq_iff)
  show ?thesis using h(1) r(1) r(2)[unfolded eq] by blast
qed

theorem ide_sectors_roundtrip_witness:
  "\<exists>h h'. ide_write_sectors 7 2 (replicate 1024 1) (ide_example (\<lambda>_. replicate 512 0)) = Some (True, ide_example (\<lambda>_. replicate 512 0)\<lparr>hist := h\<rparr>)
   \<and> ide_read_sectors 7 2 (ide_example (\<lambda>_. replicate 512 0)\<lparr>hist := h\<rparr>) = Some ((True, replicate 1024 1), ide_example (\<lambda>_. replicate 512 0)\<lparr>hist := h'\<rparr>)"
  using ide_sectors_roundtrip[OF ide_example_disk, of "\<lambda>_. replicate 512 0" 7 2 "replicate 1024 1"] by fastforce

end
