(* ===== verification/Fat32_Table.thy ===== *)
theory Fat32_Table
  imports Fat32
begin

text \<open>
  Short names and the allocation table of the FAT32 driver: the shape of short names, the lowest free cluster, chains of clusters
  and their release.
\<close>

section \<open>Short names\<close>

lemma upcase_idem [simp]: "upcase (upcase c) = upcase c"
proof (cases "c \<ge> 0x61 \<and> c \<le> 0x7A")
  case True
  then have "unat (c - 32) = unat c - 32" "unat c \<le> 0x7A" by (auto simp: unat_sub word_le_nat_alt)
  then have "\<not> c - 32 \<ge> 0x61" by (simp add: word_le_nat_alt)
  then show ?thesis using True by (simp add: upcase_def)
qed (simp add: upcase_def)

lemma upcase_dot [simp]: "upcase c = 0x2E \<longleftrightarrow> c = 0x2E"
proof (cases "c \<ge> 0x61 \<and> c \<le> 0x7A")
  case True
  then have "c - 32 \<noteq> 0x2E" "c \<noteq> 0x2E" by (auto simp: eq_diff_eq[symmetric] diff_eq_eq)
  then show ?thesis using True by (simp add: upcase_def)
next
  case False
  then have "upcase c = c" unfolding upcase_def by simp
  then show ?thesis by simp
qed

lemma short_base_eq:
  "short_base i cs = (map upcase (takeWhile (\<lambda>c. c \<noteq> 0x2E) (take (8 - i) cs)), drop (length (takeWhile (\<lambda>c. c \<noteq> 0x2E) (take (8 - i) cs))) cs)"
proof (induction i cs rule: short_base.induct)
  case (2 i c cs)
  then have "i < 8 \<Longrightarrow> 8 - i = Suc (7 - i)" by simp
  with 2 show ?case by (cases "i < 8") (auto simp: Let_def)
qed simp

lemma short_ext_eq: "short_ext i cs = map upcase (take (11 - i) cs)"
proof (induction i cs rule: short_ext.induct)
  case (2 i c cs)
  then have "i < 11 \<Longrightarrow> 11 - i = Suc (10 - i)" by simp
  with 2 show ?case by (cases "i < 11") auto
qed simp

definition pad :: "nat \<Rightarrow> u8 list \<Rightarrow> u8 list" where
  "pad n cs = cs @ replicate (n - length cs) 0x20"

text \<open>
  \<^verbatim>\<open>to_short\<close> always fills exactly the eleven bytes of a directory name, does not depend on the case of the name, and turns a
  name of at most eight characters, a dot and at most three characters into the two padded upper-case fields.
\<close>

theorem to_short_correct:
  "length (to_short name) = 11 \<and> to_short (map upcase name) = to_short name
   \<and> (\<forall>base ext. 0x2E \<notin> set base \<and> length base \<le> 8 \<and> length ext \<le> 3 \<longrightarrow>
        to_short (base @ 0x2E # ext) = pad 8 (map upcase base) @ pad 3 (map upcase ext)
        \<and> to_short base = pad 8 (map upcase base) @ pad 3 [])"
proof (intro conjI allI impI)
  obtain b rest where b: "short_base 0 name = (b, rest)" by fastforce
  have "length b \<le> 8" using b length_takeWhile_le[of "\<lambda>c. c \<noteq> 0x2E" "take 8 name"] by (auto simp: short_base_eq)
  then show "length (to_short name) = 11" by (simp add: to_short_def b short_ext_eq Let_def)
  have tw: "takeWhile (\<lambda>c. c \<noteq> 0x2E) (map upcase xs) = map upcase (takeWhile (\<lambda>c. c \<noteq> 0x2E) xs)" for xs
    by (induction xs) auto
  show "to_short (map upcase name) = to_short name"
    by (simp add: to_short_def short_base_eq short_ext_eq take_map drop_map tw Let_def split: list.split)
next
  fix base ext :: "u8 list"
  assume a: "0x2E \<notin> set base \<and> length base \<le> 8 \<and> length ext \<le> 3"
  have tw: "takeWhile (\<lambda>c. c \<noteq> 0x2E) (take 8 (base @ 0x2E # ext)) = base" "takeWhile (\<lambda>c. c \<noteq> 0x2E) (take 8 base) = base"
  proof -
    have "takeWhile (\<lambda>c. c \<noteq> 0x2E) (take n (0x2E # ext)) = []" for n by (cases n) auto
    moreover have "\<forall>c \<in> set base. c \<noteq> 0x2E" using a by auto
    ultimately show "takeWhile (\<lambda>c. c \<noteq> 0x2E) (take 8 (base @ 0x2E # ext)) = base"
      using a by (simp add: takeWhile_append del: take_Cons')
    show "takeWhile (\<lambda>c. c \<noteq> 0x2E) (take 8 base) = base" using a by (auto simp: takeWhile_eq_all_conv)
  qed
  have "short_base 0 (base @ 0x2E # ext) = (map upcase base, 0x2E # ext)" "short_base 0 base = (map upcase base, [])"
    unfolding short_base_eq using tw by simp_all
  then show "to_short (base @ 0x2E # ext) = pad 8 (map upcase base) @ pad 3 (map upcase ext)"
    "to_short base = pad 8 (map upcase base) @ pad 3 []"
    using a by (simp_all add: to_short_def short_ext_eq pad_def)
qed

theorem to_short_correct_witness:
  "to_short [0x61, 0x2E, 0x63] = [0x41, 0x20, 0x20, 0x20, 0x20, 0x20, 0x20, 0x20, 0x43, 0x20, 0x20]"
proof -
  have "to_short ([0x61] @ 0x2E # [0x63]) = pad 8 (map upcase [0x61]) @ pad 3 (map upcase [0x63])"
    using to_short_correct[THEN conjunct2, THEN conjunct2, rule_format, of "[0x61]" "[0x63]"] by simp
  moreover have "upcase 0x61 = 0x41" "upcase 0x63 = 0x43" by (simp_all add: upcase_def)
  moreover have "pad 8 [x] = [x, 0x20, 0x20, 0x20, 0x20, 0x20, 0x20, 0x20]" "pad 3 [x] = [x, 0x20, 0x20]" for x
    by (simp_all add: pad_def eval_nat_numeral)
  ultimately show ?thesis by simp
qed

section \<open>Table entries in memory\<close>

lemma put_mem_other: "\<not> unat (x - p) < length bs \<Longrightarrow> put_mem m p bs x = m x"
  by (simp add: put_mem_def)

lemma fat_offset_unat: "unat (4 * ucast (c :: u32) :: u64) = 4 * unat c"
proof -
  have c: "unat c < 4294967296" using unsigned_less[of c, where ?'a = nat] by simp
  have "(ucast c :: u64) = word_of_nat (unat c)" by (simp only: of_nat_unat) 
  then have "(4 * ucast c :: u64) = word_of_nat (4 * unat c)" by simp
  then show ?thesis using c by (simp only: unat_of_nat64) 
qed

lemma fat_byte_unat: "k < 4 \<Longrightarrow> unat (4 * ucast (e :: u32) + word_of_nat k :: u64) = 4 * unat e + k"
proof -
  assume "k < 4"
  then have "unat (4 * ucast e :: u64) + k < 18446744073709551616"
    using unsigned_less[of e, where ?'a = nat] unfolding fat_offset_unat by simp
  then show ?thesis by (simp only: unat_add_nat64 fat_offset_unat)
qed

lemma fat_entry_bytes:
  fixes c d :: u32
  assumes "i < 4" "j < 4" "fat fs + 4 * ucast c + word_of_nat i = fat fs + 4 * ucast d + word_of_nat j"
  shows "c = d"
proof -
  have "4 * ucast c + word_of_nat i = (4 * ucast d + word_of_nat j :: u64)"
    using assms(3) unfolding add.assoc by (simp only: add_left_cancel)
  from arg_cong[OF this, of unat] have "4 * unat c + i = 4 * unat d + j" by (simp only: fat_byte_unat assms(1,2))
  then have "unat c = unat d" using assms(1,2) by presburger
  then show ?thesis by (simp only: word_unat_eq_iff)
qed

lemma put_mem_at: "i < length bs \<Longrightarrow> length bs < 18446744073709551616 \<Longrightarrow> put_mem m p bs (p + word_of_nat i) = bs ! i"
  by (simp add: put_mem_def unat_of_nat64)

lemma load32_put_same: "load32 (put_mem m p (bytes32 v)) p = v"
proof -
  have b: "put_mem m p (bytes32 v) (p + word_of_nat i) = bytes32 v ! i" if "i < 4" for i using that by (intro put_mem_at) simp_all
  have v: "put_mem m p (bytes32 v) p = ucast (ucast v :: u16)" "put_mem m p (bytes32 v) (p + 1) = ucast (drop_bit 8 (ucast v :: u16))"
    "put_mem m p (bytes32 v) (p + 2) = ucast (ucast (drop_bit 16 v) :: u16)"
    "put_mem m p (bytes32 v) (p + 3) = ucast (drop_bit 8 (ucast (drop_bit 16 v) :: u16))"
    using b[of 0] b[of 1] b[of 2] b[of 3] by (simp_all add: bytes32_def bytes16_def)
  show ?thesis unfolding load32_bytes v join_bytes16 by (rule join_bytes32)
qed

lemma fat_entry_set:
  "fat_entry fs c (put_mem m (fat fs + 4 * ucast d) (bytes32 v)) = (if c = d then v else fat_entry fs c m)"
proof (cases "c = d")
  case False
  have "\<not> unat (fat fs + 4 * ucast c + word_of_nat i - (fat fs + 4 * ucast d)) < 4" if "i < 4" for i
  proof
    let ?j = "unat (fat fs + 4 * ucast c + word_of_nat i - (fat fs + 4 * ucast d))"
    assume "?j < 4"
    moreover have "fat fs + 4 * ucast c + word_of_nat i = fat fs + 4 * ucast d + word_of_nat ?j" by simp
    ultimately show False using fat_entry_bytes[OF that, of ?j fs c d] False by simp
  qed
  then show ?thesis using False unfolding fat_entry_def by (simp add: put_mem_def cong: load32_cong)
qed (simp add: fat_entry_def load32_put_same)

lemma fat_entry_set_fat_entry [simp]:
  "fat_entry fs c (hmem (set_fat_entry fs d v s)) = (if c = d then v else fat_entry fs c (hmem s))"
  by (simp add: set_fat_entry_def fat_entry_set)

section \<open>Free clusters\<close>

text \<open>
  \<^verbatim>\<open>find_free_cluster\<close> returns the lowest data cluster whose entry is free, and 0 exactly when every data cluster is in use.
\<close>

theorem find_free_cluster_lowest:
  fixes fs m
  defines "c \<equiv> find_free_cluster fs m"
  shows "(c = 0 \<longleftrightarrow> (\<forall>i. 2 \<le> i \<and> i < total_clusters fs + 2 \<longrightarrow> fat_entry fs i m AND FAT_MASK \<noteq> 0))
    \<and> (c \<noteq> 0 \<longrightarrow> 2 \<le> c \<and> c < total_clusters fs + 2 \<and> fat_entry fs c m AND FAT_MASK = 0
        \<and> (\<forall>i. 2 \<le> i \<and> i < c \<longrightarrow> fat_entry fs i m AND FAT_MASK \<noteq> 0))"
proof -
  let ?P = "\<lambda>i. fat_entry fs i m AND FAT_MASK = 0" and ?n = "unat (total_clusters fs + 2)"
  have wn: "unat (word_of_nat k :: u32) = k" if "k < ?n" for k
    using that unsigned_less[of "total_clusters fs + 2", where ?'a = nat] by (simp add: unsigned_of_nat take_bit_nat_eq_self)
  have mem: "2 \<le> i \<and> i < total_clusters fs + 2 \<longleftrightarrow> (\<exists>k. 2 \<le> k \<and> k < ?n \<and> i = word_of_nat k)" for i
    using wn by (auto simp: word_le_nat_alt word_less_nat_alt intro!: exI[of _ "unat i"])
  show ?thesis
  proof (cases "find ?P (map word_of_nat [2..<?n])")
    case None
    then have "\<forall>k. 2 \<le> k \<and> k < ?n \<longrightarrow> \<not> ?P (word_of_nat k)" by (auto simp: find_None_iff)
    then show ?thesis using None mem by (auto simp: c_def find_free_cluster_def)
  next
    case (Some x)
    then obtain k where k: "k < length [2..<?n]" "?P (map word_of_nat [2..<?n] ! k)" "x = map word_of_nat [2..<?n] ! k"
      "\<forall>j<k. \<not> ?P (map word_of_nat [2..<?n] ! j)" by (auto simp: find_Some_iff)
    then have x: "x = word_of_nat (k + 2)" "k + 2 < ?n" "?P x" by (auto simp: add.commute)
    have low: "\<not> ?P i" if "2 \<le> i" "i < x" for i
    proof -
      have "unat i - 2 < k" "2 \<le> unat i" using that x wn[of "k + 2"] by (auto simp: word_le_nat_alt word_less_nat_alt)
      then have "\<not> ?P (word_of_nat (2 + (unat i - 2)))" using k(1,4) by (auto dest!: spec[of _ "unat i - 2"])
      then show ?thesis using \<open>2 \<le> unat i\<close> by simp
    qed
    have r: "2 \<le> x" "x < total_clusters fs + 2" using x wn[of "k + 2"] by (auto simp: word_le_nat_alt word_less_nat_alt)
    then have "x \<noteq> 0" by auto
    then show ?thesis using Some r x(3) low by (auto simp: c_def find_free_cluster_def)
  qed
qed

section \<open>Chains\<close>

text \<open>
  A chain of data clusters: each entry holds the next cluster, the last one an end mark.
\<close>

fun cluster_chain :: "fat32_fs_t \<Rightarrow> memory \<Rightarrow> u32 list \<Rightarrow> bool" where
  "cluster_chain fs m [] \<longleftrightarrow> False"
| "cluster_chain fs m [c] \<longleftrightarrow> 2 \<le> c \<and> c < total_clusters fs + 2 \<and> c < FAT_EOF \<and> FAT_EOF \<le> fat_entry fs c m AND FAT_MASK"
| "cluster_chain fs m (c # d # cs) \<longleftrightarrow>
     2 \<le> c \<and> c < total_clusters fs + 2 \<and> c < FAT_EOF \<and> fat_entry fs c m AND FAT_MASK = d \<and> cluster_chain fs m (d # cs)"

lemma cluster_chain_cong:
  "(\<And>c. c \<in> set cs \<Longrightarrow> fat_entry fs c m' = fat_entry fs c m) \<Longrightarrow> cluster_chain fs m' cs = cluster_chain fs m cs"
  by (induction fs m cs rule: cluster_chain.induct) auto

lemma cluster_chain_in: "cluster_chain fs m cs \<Longrightarrow> c \<in> set cs \<Longrightarrow> 2 \<le> c \<and> c < total_clusters fs + 2 \<and> c < FAT_EOF"
  by (induction fs m cs rule: cluster_chain.induct) auto

lemma cluster_chain_unique: "cluster_chain fs m (c # xs) \<Longrightarrow> cluster_chain fs m (c # ys) \<Longrightarrow> xs = ys"
proof (induction xs arbitrary: c ys)
  case Nil
  then show ?case by (cases ys) (auto dest: cluster_chain_in[of _ _ "_ # _"] simp: not_less[symmetric])
next
  case (Cons x xs)
  have "x < FAT_EOF" using Cons.prems(1) by (auto dest: cluster_chain_in[where c = x])
  then show ?case using Cons by (cases ys) (auto simp: not_less[symmetric])
qed

lemma cluster_chain_suffix: "cluster_chain fs m (xs @ c # ys) \<Longrightarrow> cluster_chain fs m (c # ys)"
proof (induction xs)
  case (Cons x xs)
  then show ?case by (cases xs) auto
qed simp

lemma cluster_chain_distinct: "cluster_chain fs m cs \<Longrightarrow> distinct cs"
proof (rule ccontr)
  assume c: "cluster_chain fs m cs" and "\<not> distinct cs"
  then obtain xs ys zs c where cs: "cs = xs @ [c] @ ys @ [c] @ zs" using not_distinct_decomp by blast
  have "cluster_chain fs m (c # ys @ c # zs)" using cluster_chain_suffix[of fs m xs c "ys @ c # zs"] c cs by simp
  moreover from this have "cluster_chain fs m (c # zs)" using cluster_chain_suffix[of fs m "c # ys" c zs] by simp
  ultimately have "ys @ c # zs = zs" by (rule cluster_chain_unique)
  then have "length (ys @ c # zs) = length zs" by simp
  then show False by simp
qed

section \<open>Releasing a chain\<close>

lemma free_chain_ends: "\<exists>t. free_chain_loop fs c s = Some t"
proof (induction "card {d. fat_entry fs d (hmem s) AND FAT_MASK \<noteq> 0}" arbitrary: c s rule: less_induct)
  case less
  let ?next = "fat_entry fs c (hmem s) AND FAT_MASK" and ?t = "set_fat_entry fs c 0 s"
  show ?case
  proof (cases "c \<ge> 2 \<and> c < FAT_EOF \<and> ?next < FAT_EOF")
    case True
    have eq: "free_chain_loop fs c s = free_chain_loop fs ?next ?t"
      using True by (subst free_chain_loop.simps) (auto simp: Let_def)
    show ?thesis
    proof (cases "?next = 0")
      case True
      then show ?thesis unfolding eq by (subst free_chain_loop.simps) simp
    next
      case False
      have "{d. fat_entry fs d (hmem ?t) AND FAT_MASK \<noteq> 0} = {d. fat_entry fs d (hmem s) AND FAT_MASK \<noteq> 0} - {c}" by auto
      moreover have "c \<in> {d. fat_entry fs d (hmem s) AND FAT_MASK \<noteq> 0}" using False by simp
      ultimately have "card {d. fat_entry fs d (hmem ?t) AND FAT_MASK \<noteq> 0} < card {d. fat_entry fs d (hmem s) AND FAT_MASK \<noteq> 0}"
        by (metis card_Diff1_less finite)
      then show ?thesis unfolding eq by (rule less)
    qed
  next
    case False
    then show ?thesis by (subst free_chain_loop.simps) (auto simp: Let_def)
  qed
qed

lemma free_chain_frees:
  assumes "cluster_chain fs (hmem s) (c # cs)"
  shows "\<exists>t. free_chain_loop fs c s = Some t \<and> t = s\<lparr>hmem := hmem t\<rparr>
    \<and> (\<forall>d. fat_entry fs d (hmem t) = (if d \<in> set (c # cs) then 0 else fat_entry fs d (hmem s)))"
  using assms
proof (induction cs arbitrary: c s)
  case Nil
  then show ?case
    by (subst free_chain_loop.simps) (auto simp: Let_def set_fat_entry_def fat_entry_set)
next
  case (Cons d cs)
  let ?t = "set_fat_entry fs c 0 s"
  have c: "2 \<le> c" "c < FAT_EOF" "fat_entry fs c (hmem s) AND FAT_MASK = d" "cluster_chain fs (hmem s) (d # cs)"
    and d: "d < FAT_EOF" "c \<notin> set (d # cs)"
    using Cons.prems cluster_chain_in[of fs "hmem s" "c # d # cs" d] cluster_chain_distinct[of fs "hmem s" "c # d # cs"] by auto
  have "cluster_chain fs (hmem ?t) (d # cs)" using c(4) d(2) by (subst cluster_chain_cong[where m = "hmem s"]) auto
  from Cons.IH[OF this] obtain t where t: "free_chain_loop fs d ?t = Some t" "t = ?t\<lparr>hmem := hmem t\<rparr>"
    "\<forall>e. fat_entry fs e (hmem t) = (if e \<in> set (d # cs) then 0 else fat_entry fs e (hmem ?t))" by blast
  have "free_chain_loop fs c s = Some t"
    using c d(1) t(1) by (subst free_chain_loop.simps) (simp add: Let_def not_le)
  moreover have "t = s\<lparr>hmem := hmem t\<rparr>" using t(2) by (metis (no_types, lifting) set_fat_entry_def heap_state.surjective heap_state.update_convs(1))
  ultimately show ?case using t(3) by auto
qed

text \<open>
  C11: Releasing a cluster chain always ends, even when the table is corrupt and the chain runs in a circle, because every visited entry
  is cleared; for a proper chain exactly its clusters become free and no other entry changes.
\<close>

theorem free_cluster_chain_correct:
  "(\<exists>t. fat32_free_cluster_chain fs c s = Some (0, t))
   \<and> (\<forall>cs. cluster_chain fs (hmem s) (c # cs) \<longrightarrow>
        (\<exists>t. fat32_free_cluster_chain fs c s = Some (0, t) \<and> t = s\<lparr>hmem := hmem t\<rparr>
          \<and> (\<forall>d. fat_entry fs d (hmem t) = (if d \<in> set (c # cs) then 0 else fat_entry fs d (hmem s)))))"
proof (intro conjI allI impI)
  show "\<exists>t. fat32_free_cluster_chain fs c s = Some (0, t)"
    using free_chain_ends[of fs c s] by (auto simp: fat32_free_cluster_chain_def)
  fix cs assume "cluster_chain fs (hmem s) (c # cs)"
  from free_chain_frees[OF this] show "\<exists>t. fat32_free_cluster_chain fs c s = Some (0, t) \<and> t = s\<lparr>hmem := hmem t\<rparr>
          \<and> (\<forall>d. fat_entry fs d (hmem t) = (if d \<in> set (c # cs) then 0 else fat_entry fs d (hmem s)))"
    unfolding fat32_free_cluster_chain_def by (metis (no_types, lifting) option.simps(9))
qed

definition fat_example :: fat32_fs_t where
  "fat_example = \<lparr>first_data_sector = 40, data_sectors = 64, total_clusters = 64, fat_start_sector = 32, fat_size_sectors = 1,
     sectors_per_cluster = 1, bytes_per_sector = 512, root_cluster = 2, fat = 0x1000\<rparr>"

definition fat_example_mem :: memory where
  "fat_example_mem = put_mem (put_mem (\<lambda>_. 0) (0x1000 + 4 * ucast (2 :: u32)) (bytes32 0x0FFFFFFF)) (0x1000 + 4 * ucast (3 :: u32)) (bytes32 2)"

lemma fat_example_entry: "fat_entry fat_example c fat_example_mem = (if c = 3 then 2 else if c = 2 then 0x0FFFFFFF else 0)"
proof -
  have "fat_entry fat_example c (\<lambda>_. 0) = 0" by (simp add: fat_entry_def load32_def load16_def)
  then show ?thesis
    using fat_entry_set[of fat_example c "put_mem (\<lambda>_. 0) (0x1000 + 4 * ucast (2 :: u32)) (bytes32 0x0FFFFFFF)" 3 2]
      fat_entry_set[of fat_example c "\<lambda>_. 0" 2 "0x0FFFFFFF"]
    unfolding fat_example_mem_def by (simp add: fat_example_def)
qed

lemma fat_example_chain: "cluster_chain fat_example fat_example_mem [3, 2]"
  by (simp add: fat_example_entry) (simp add: fat_example_def)

theorem find_free_cluster_lowest_witness: "find_free_cluster fat_example fat_example_mem \<noteq> 0"
proof -
  have "2 \<le> (4 :: u32) \<and> 4 < total_clusters fat_example + 2 \<and> fat_entry fat_example 4 fat_example_mem AND FAT_MASK = 0"
    by (simp add: fat_example_entry) (simp add: fat_example_def)
  then show ?thesis using find_free_cluster_lowest[of fat_example fat_example_mem] by blast
qed

theorem free_cluster_chain_correct_witness:
  "\<exists>t. fat32_free_cluster_chain fat_example 3 (blank_heap\<lparr>hmem := fat_example_mem\<rparr>) = Some (0, t) \<and> fat_entry fat_example 2 (hmem t) = 0"
proof -
  have "cluster_chain fat_example (hmem (blank_heap\<lparr>hmem := fat_example_mem\<rparr>)) [3, 2]" using fat_example_chain by simp
  then show ?thesis using free_cluster_chain_correct[of fat_example 3 "blank_heap\<lparr>hmem := fat_example_mem\<rparr>"] by fastforce
qed

end
