(* ===== verification/Fat32_Files.thy ===== *)
theory Fat32_Files
  imports Fat32_Table Ide_Disk
begin

text \<open>
  Reading files of a FAT32 volume on a disk: positions in a chain of clusters, seeking and reading.
\<close>

section \<open>Volumes\<close>

text \<open>The parameters of a volume are sound: clusters are not empty and lie within the 28-bit sector range.\<close>

definition volume_ok :: "fat32_fs_t \<Rightarrow> bool" where
  "volume_ok fs \<longleftrightarrow> 0 < unat (sectors_per_cluster fs) \<and> unat (sectors_per_cluster fs) \<le> 255 \<and> bytes_per_sector fs = 512
     \<and> unat (first_data_sector fs) + unat (total_clusters fs) * unat (sectors_per_cluster fs) \<le> 2 ^ 28"

definition first_sector :: "fat32_fs_t \<Rightarrow> u32 \<Rightarrow> nat" where
  "first_sector fs c = unat (first_data_sector fs) + (unat c - 2) * unat (sectors_per_cluster fs)"

definition cluster_data :: "fat32_fs_t \<Rightarrow> (nat \<Rightarrow> u8 list) \<Rightarrow> u32 \<Rightarrow> u8 list" where
  "cluster_data fs D c = concat (map (\<lambda>i. D (first_sector fs c + i)) [0..<unat (sectors_per_cluster fs)])"

abbreviation cluster_size :: "fat32_fs_t \<Rightarrow> nat" where
  "cluster_size fs \<equiv> 512 * unat (sectors_per_cluster fs)"

text \<open>The bytes of a file are those of its clusters, one after another.\<close>

definition chain_data :: "fat32_fs_t \<Rightarrow> (nat \<Rightarrow> u8 list) \<Rightarrow> u32 list \<Rightarrow> u8 list" where
  "chain_data fs D cs = concat (map (cluster_data fs D) cs)"

lemma unat_cluster_bytes: "volume_ok fs \<Longrightarrow> unat (cluster_bytes fs) = cluster_size fs"
  by (simp add: cluster_bytes_def volume_ok_def unat_word_ariths)

lemma data_cluster:
  assumes "volume_ok fs" "2 \<le> c" "c < total_clusters fs + 2"
  shows "2 \<le> unat c" "unat c < unat (total_clusters fs) + 2" "first_sector fs c + unat (sectors_per_cluster fs) \<le> 2 ^ 28"
proof -
  let ?n = "unat (total_clusters fs)" and ?s = "unat (sectors_per_cluster fs)"
  have "?n \<le> ?n * ?s" using assms(1) by (simp add: volume_ok_def)
  then have "?n \<le> 2 ^ 28" using assms(1) unfolding volume_ok_def by linarith
  then have "unat (total_clusters fs + 2) = ?n + 2" by (simp add: unat_word_ariths)
  then show c: "2 \<le> unat c" "unat c < ?n + 2" using assms(2,3) by (auto simp: word_le_nat_alt word_less_nat_alt)
  then have "(unat c - 2) + 1 \<le> ?n" by simp
  then have "((unat c - 2) + 1) * ?s \<le> ?n * ?s" by (rule mult_le_mono1)
  then show "first_sector fs c + ?s \<le> 2 ^ 28" using assms(1) unfolding first_sector_def volume_ok_def by (simp add: algebra_simps)
qed

lemma sector_of_offset:
  assumes "volume_ok fs" "2 \<le> c" "c < total_clusters fs + 2" "unat off < cluster_size fs"
  shows "unat (cluster_to_lba fs c + off div 512) = first_sector fs c + unat off div 512"
    "first_sector fs c + unat off div 512 < 2 ^ 28" "unat off div 512 < unat (sectors_per_cluster fs)"
proof -
  let ?s = "unat (sectors_per_cluster fs)"
  show k: "unat off div 512 < ?s" using assms(4) by (simp add: less_mult_imp_div_less mult.commute)
  note c = data_cluster[OF assms(1-3)]
  show l: "first_sector fs c + unat off div 512 < 2 ^ 28" using c(3) k by linarith
  have "unat (c - 2) = unat c - 2" using assms(2) by (simp add: unat_sub)
  moreover have "(unat c - 2) * ?s < 2 ^ 28" "unat (first_data_sector fs) + (unat c - 2) * ?s < 2 ^ 28"
    using l unfolding first_sector_def by linarith+
  ultimately have "unat (cluster_to_lba fs c) = first_sector fs c"
    by (simp add: cluster_to_lba_def first_sector_def unat_word_ariths)
  then show "unat (cluster_to_lba fs c + off div 512) = first_sector fs c + unat off div 512"
    using l by (simp add: unat_word_ariths unat_div)
qed

section \<open>Blocks of a byte string\<close>

lemma length_concat_same: "(\<And>x. x \<in> set xs \<Longrightarrow> length x = k) \<Longrightarrow> length (concat xs) = k * length xs"
  by (induction xs) auto

lemma drop_concat_block:
  assumes "\<And>x. x \<in> set xs \<Longrightarrow> length x = k" "i < length xs" "r \<le> k"
  shows "drop (k * i + r) (concat xs) = drop r (xs ! i) @ concat (drop (Suc i) xs)"
  using assms
proof (induction xs arbitrary: i)
  case (Cons x xs)
  then show ?case
    by (cases i) (auto simp: algebra_simps)
qed simp

lemma length_cluster_data: "(\<And>i. length (D i) = 512) \<Longrightarrow> length (cluster_data fs D c) = cluster_size fs"
  unfolding cluster_data_def by (subst length_concat_same[where k = 512]) auto

lemma cluster_data_block:
  assumes "\<And>i. length (D i) = 512" "unat off div 512 < unat (sectors_per_cluster fs)"
  shows "drop (unat off) (cluster_data fs D c) = drop (unat off mod 512) (D (first_sector fs c + unat off div 512))
    @ concat (drop (Suc (unat off div 512)) (map (\<lambda>i. D (first_sector fs c + i)) [0..<unat (sectors_per_cluster fs)]))"
proof -
  have "unat off = 512 * (unat off div 512) + unat off mod 512" by simp
  then show ?thesis
    unfolding cluster_data_def
    using drop_concat_block[of "map (\<lambda>i. D (first_sector fs c + i)) [0..<unat (sectors_per_cluster fs)]" 512 "unat off div 512" "unat off mod 512"]
      assms by (auto simp: order.strict_implies_order)
qed

section \<open>Memory that is written piece by piece\<close>

lemma put_mem_Nil [simp]: "put_mem m p [] = m"
  by (simp add: put_mem_def)

lemma put_mem_append:
  assumes "length xs + length ys < 18446744073709551616"
  shows "put_mem (put_mem m p xs) (p + word_of_nat (length xs)) ys = put_mem m p (xs @ ys)"
proof
  fix x
  show "put_mem (put_mem m p xs) (p + word_of_nat (length xs)) ys x = put_mem m p (xs @ ys) x"
    using assms unat_minus_shift[of "length xs" x p] unsigned_less[of "x - p"]
    by (auto simp: put_mem_def nth_append)
qed

text \<open>The region of \<open>n\<close> bytes at \<open>dst\<close> holds no entry of the allocation table for the given clusters.\<close>

definition fat_clear :: "fat32_fs_t \<Rightarrow> u32 list \<Rightarrow> u64 \<Rightarrow> nat \<Rightarrow> bool" where
  "fat_clear fs cs dst n \<longleftrightarrow> (\<forall>c \<in> set cs. \<forall>k < 4. n \<le> unat (fat fs + 4 * ucast c + word_of_nat k - dst))"

lemma fat_clear_shift: "fat_clear fs cs dst (n + k) \<Longrightarrow> n + k < 18446744073709551616 \<Longrightarrow> fat_clear fs cs (dst + word_of_nat k) n"
  unfolding fat_clear_def by (intro ballI allI impI) (drule bspec, assumption, drule spec, drule mp, assumption, simp add: unat_minus_shift)

lemma fat_clear_entry:
  assumes "fat_clear fs cs dst n" "length bs \<le> n" "c \<in> set cs"
  shows "fat_entry fs c (put_mem m dst bs) = fat_entry fs c m"
  unfolding fat_entry_def
proof (rule load32_cong)
  fix i :: nat assume "i < 4"
  then show "put_mem m dst bs (fat fs + 4 * ucast c + word_of_nat i) = m (fat fs + 4 * ucast c + word_of_nat i)"
    using assms unfolding fat_clear_def by (intro put_mem_other) (meson leD order_trans)
qed

section \<open>Reading\<close>

lemma chain_data_Cons: "chain_data fs D (c # cs) = cluster_data fs D c @ chain_data fs D cs"
  by (simp add: chain_data_def)

lemma chain_clear:
  assumes "cluster_chain fs m cs" "fat_clear fs cs dst n" "length bs \<le> n"
  shows "cluster_chain fs (put_mem m dst bs) cs"
  using assms(1) by (subst cluster_chain_cong) (auto simp: fat_clear_entry[OF assms(2,3)])

lemma chain_next:
  assumes "cluster_chain fs m (c # cs)"
  shows "cs = d # ds \<Longrightarrow> fat_next_cluster fs c m = d \<and> cluster_chain fs m (d # ds)"
    "cs = [] \<Longrightarrow> FAT_EOF \<le> fat_next_cluster fs c m"
  using assms cluster_chain_in[OF assms, of c] by (auto simp: fat_next_cluster_def not_less[symmetric])

lemma block_end: "x + (k - x mod k) = k * (x div k + 1)" if "0 < k" for x k :: nat
proof -
  have "k * (x div k) + x mod k = x" "x mod k < k" using that by simp_all
  then show ?thesis unfolding distrib_left mult_1_right by linarith
qed

text \<open>What one round of the loop takes from the sector is the next piece of the file.\<close>

lemma sector_piece:
  fixes off remain chunk :: u32
  assumes "volume_ok fs" "\<And>i. length (D i) = 512" "unat off < cluster_size fs"
    "chunk = (if remain > 512 - off mod 512 then 512 - off mod 512 else remain)" "remain \<noteq> 0"
  shows "unat chunk = min (unat remain) (512 - unat off mod 512)" "0 < unat chunk" "unat chunk \<le> unat remain"
    "unat off + unat chunk \<le> cluster_size fs" "unat (off + chunk) = unat off + unat chunk"
    "take (unat chunk) (drop (unat (off mod 512)) (D (first_sector fs c + unat off div 512))) = take (unat chunk) (drop (unat off) (chain_data fs D (c # cs)))"
proof -
  have m: "unat (off mod 512) = unat off mod 512" by (simp add: unat_mod)
  have b: "unat (512 - off mod 512) = 512 - unat off mod 512"
    by (subst unat_sub) (auto simp: m word_le_nat_alt)
  show n: "unat chunk = min (unat remain) (512 - unat off mod 512)"
    using assms(4) b by (auto simp: word_less_nat_alt)
  have "unat remain > 0" using assms(5) by (simp add: unat_gt_0)
  then show "0 < unat chunk" "unat chunk \<le> unat remain" using n by auto
  have k: "unat off div 512 < unat (sectors_per_cluster fs)" using assms(3) by (simp add: less_mult_imp_div_less mult.commute)
  then have "512 * (unat off div 512 + 1) \<le> cluster_size fs" by (simp add: Suc_le_eq)
  moreover have "unat off + (512 - unat off mod 512) = 512 * (unat off div 512 + 1)" by (rule block_end) simp
  ultimately show u: "unat off + unat chunk \<le> cluster_size fs" using n by linarith
  have "cluster_size fs \<le> 512 * 255" using assms(1) by (simp add: volume_ok_def)
  then have "unat off + unat chunk < 4294967296" using u by linarith
  then show "unat (off + chunk) = unat off + unat chunk" by (simp add: unat_word_ariths)
  have "unat chunk \<le> length (drop (unat off mod 512) (D (first_sector fs c + unat off div 512)))" using n assms(2) by simp
  then show "take (unat chunk) (drop (unat (off mod 512)) (D (first_sector fs c + unat off div 512))) = take (unat chunk) (drop (unat off) (chain_data fs D (c # cs)))"
    using assms(3) by (simp add: chain_data_Cons length_cluster_data[OF assms(2)] cluster_data_block[OF assms(2) k] m)
qed

lemma hist_hmem: "s\<lparr>hist := h, hmem := m\<rparr> = s\<lparr>hmem := m, hist := h\<rparr>"
  by simp

text \<open>Where reading stops: in front of the rest of the data, or behind the last cluster.\<close>

definition stops_at :: "fat32_fs_t \<Rightarrow> (nat \<Rightarrow> u8 list) \<Rightarrow> u32 list \<Rightarrow> u8 list \<Rightarrow> u32 \<Rightarrow> u32 \<Rightarrow> bool" where
  "stops_at fs D cs rest c off \<longleftrightarrow>
     (if rest = [] then FAT_EOF \<le> c \<and> off = 0
      else \<exists>pre post. cs = pre @ c # post \<and> unat off < cluster_size fs \<and> rest = drop (unat off) (chain_data fs D (c # post)))"

lemma disk_is_hmem [simp]: "disk_is D (s\<lparr>hmem := m\<rparr>) = disk_is D s" "disk_is D (s\<lparr>hmem := m, hist := h\<rparr>) = disk_is D (s\<lparr>hist := h\<rparr>)"
  by (simp_all add: disk_is_def)

lemma disk_is_length: "disk_is D s \<Longrightarrow> length (D i) = 512"
  by (simp add: disk_is_def)

lemma stops_at_Cons: "stops_at fs D cs rest c off \<Longrightarrow> stops_at fs D (d # cs) rest c off"
  unfolding stops_at_def by (metis append_Cons)

lemma fat32_read_loop_end: "remain = 0 \<or> FAT_EOF \<le> c \<Longrightarrow> fat32_read_loop fs dst remain c off s = Some (Some (remain, c, off), s)"
  by (subst fat32_read_loop.simps) (auto simp: not_less[symmetric])

lemma fat32_read_loop_step:
  assumes "volume_ok fs" "disk_is D s" "cluster_chain fs (hmem s) (c # cs)" "unat off < cluster_size fs"
    "fat_clear fs (c # cs) dst (unat remain)" "remain \<noteq> 0"
    "chunk = (if remain > 512 - off mod 512 then 512 - off mod 512 else remain)"
  defines "m \<equiv> put_mem (hmem s) dst (take (unat chunk) (drop (unat off) (chain_data fs D (c # cs))))"
  shows "\<exists>h. fat32_read_loop fs dst remain c off s =
      (if unat off + unat chunk = cluster_size fs
       then fat32_read_loop fs (dst + ucast chunk) (remain - chunk) (fat_next_cluster fs c m) 0 (s\<lparr>hmem := m, hist := h\<rparr>)
       else fat32_read_loop fs (dst + ucast chunk) (remain - chunk) c (off + chunk) (s\<lparr>hmem := m, hist := h\<rparr>))
    \<and> disk_is D (s\<lparr>hmem := m, hist := h\<rparr>) \<and> cluster_chain fs m (c # cs)"
proof -
  note len = disk_is_length[OF assms(2)]
  note piece = sector_piece[OF assms(1) len assms(4) assms(7,6)]
  have c: "2 \<le> c" "c < total_clusters fs + 2" "c < FAT_EOF" using cluster_chain_in[OF assms(3), of c] by auto
  note sec = sector_of_offset[OF assms(1) c(1,2) assms(4)]
  obtain h where h: "ide_read_sector (cluster_to_lba fs c + off div 512) s = Some (Some (D (first_sector fs c + unat off div 512)), s\<lparr>hist := h\<rparr>)"
    "disk_is D (s\<lparr>hist := h\<rparr>)"
    using ide_read_sector_ata[OF assms(2), of "cluster_to_lba fs c + off div 512"] sec(1,2) by auto
  have m: "put_mem (hmem s) dst (take (unat chunk) (drop (unat (off mod 512)) (D (first_sector fs c + unat off div 512)))) = m"
    unfolding m_def by (rule arg_cong[OF piece(6)])
  have ge: "cluster_bytes fs \<le> off + chunk \<longleftrightarrow> unat off + unat chunk = cluster_size fs"
    using piece(4,5) by (auto simp: word_le_nat_alt unat_cluster_bytes[OF assms(1)])
  have "fat32_read_loop fs dst remain c off s =
      (if unat off + unat chunk = cluster_size fs
       then fat32_read_loop fs (dst + ucast chunk) (remain - chunk) (fat_next_cluster fs c m) 0 (s\<lparr>hmem := m, hist := h\<rparr>)
       else fat32_read_loop fs (dst + ucast chunk) (remain - chunk) c (off + chunk) (s\<lparr>hmem := m, hist := h\<rparr>))"
    using c assms(6) by (subst fat32_read_loop.simps) (simp add: h(1) Let_def assms(7)[symmetric] ge hist_hmem m)
  moreover have "cluster_chain fs m (c # cs)"
    unfolding m_def using piece(3) by (intro chain_clear[OF assms(3,5)]) simp
  ultimately show ?thesis using h(2) by auto
qed

lemma fat_clear_subset: "fat_clear fs cs dst n \<Longrightarrow> set ds \<subseteq> set cs \<Longrightarrow> fat_clear fs ds dst n"
  by (auto simp: fat_clear_def)

lemma drop_cluster:
  assumes "disk_is D s"
  shows "drop (cluster_size fs) (chain_data fs D (c # cs)) = chain_data fs D cs"
  using length_cluster_data[of D fs c] disk_is_length[OF assms] by (simp add: chain_data_Cons)

text \<open>The data read by two successive rounds, seen as one.\<close>

lemma take_split: "k \<le> n \<Longrightarrow> take k xs @ take (n - k) (drop k xs) = take n xs" "k \<le> n \<Longrightarrow> drop (n - k) (drop k xs) = drop n xs"
  by (metis le_add_diff_inverse take_add) simp

lemma put_mem_two:
  assumes "k \<le> length xs" "k \<le> n" "n < 4294967296"
  shows "put_mem (put_mem m p (take k xs)) (p + word_of_nat k) (take (n - k) (drop k xs)) = put_mem m p (take n xs)"
proof -
  have "length (take k xs) = k" using assms(1) by simp
  moreover have "length (take (n - k) (drop k xs)) \<le> n - k" by simp
  ultimately show ?thesis
    using put_mem_append[of "take k xs" "take (n - k) (drop k xs)" m p] assms(2,3) take_split(1)[OF assms(2), of xs] by simp
qed

lemma fat32_read_loop_chain:
  fixes s :: "'a ide_state_scheme"
  assumes "volume_ok fs" "disk_is D s" "cluster_chain fs (hmem s) (c # cs)" "unat off < cluster_size fs"
    "fat_clear fs (c # cs) dst (unat remain)"
  shows "\<exists>h r c' off'. fat32_read_loop fs dst remain c off s = Some (Some (r, c', off'),
      s\<lparr>hmem := put_mem (hmem s) dst (take (unat remain) (drop (unat off) (chain_data fs D (c # cs)))), hist := h\<rparr>)
    \<and> unat r = unat remain - length (drop (unat off) (chain_data fs D (c # cs))) \<and> disk_is D (s\<lparr>hist := h\<rparr>)
    \<and> stops_at fs D (c # cs) (drop (unat remain) (drop (unat off) (chain_data fs D (c # cs)))) c' off'"
  using assms(2-)
proof (induction "unat remain" arbitrary: remain dst c cs off s rule: less_induct)
  case less
  let ?data = "drop (unat off) (chain_data fs D (c # cs))"
  note len = disk_is_length[OF less.prems(1)]
  have ne: "length ?data > 0" using less.prems(3) length_cluster_data[of D fs c, OF len] by (simp add: chain_data_Cons)
  show ?case
  proof (cases "remain = 0")
    case True
    have "s = s\<lparr>hmem := hmem s, hist := hist s\<rparr>" by simp
    moreover have "stops_at fs D (c # cs) ?data c off" using ne less.prems(3) unfolding stops_at_def by fastforce
    ultimately show ?thesis using True less.prems(1) ne
      by (intro exI[of _ "hist s"] exI[of _ "0 :: u32"] exI[of _ c] exI[of _ off]) (simp add: fat32_read_loop_end)
  next
    case False
    define chunk where chunk: "chunk = (if remain > 512 - off mod 512 then 512 - off mod 512 else remain)"
    define m where m: "m = put_mem (hmem s) dst (take (unat chunk) ?data)"
    note piece = sector_piece[OF assms(1) len less.prems(3) chunk False]
    obtain h where h: "fat32_read_loop fs dst remain c off s =
      (if unat off + unat chunk = cluster_size fs
       then fat32_read_loop fs (dst + ucast chunk) (remain - chunk) (fat_next_cluster fs c m) 0 (s\<lparr>hmem := m, hist := h\<rparr>)
       else fat32_read_loop fs (dst + ucast chunk) (remain - chunk) c (off + chunk) (s\<lparr>hmem := m, hist := h\<rparr>))"
      "disk_is D (s\<lparr>hmem := m, hist := h\<rparr>)" "cluster_chain fs m (c # cs)"
      using fat32_read_loop_step[OF assms(1) less.prems False chunk] m by blast
    have rem: "unat (remain - chunk) = unat remain - unat chunk" using piece(3) by (simp add: unat_sub word_le_nat_alt)
    have ucast: "ucast chunk = (word_of_nat (unat chunk) :: u64)" by simp
    have small: "unat remain < 4294967296" using unsigned_less[of remain] by simp
    have clear: "fat_clear fs (c # cs) (dst + ucast chunk) (unat (remain - chunk))"
      unfolding ucast rem using piece(3) less.prems(4) small by (intro fat_clear_shift) auto
    have chunk_len: "unat chunk \<le> length ?data"
      using piece(4) length_cluster_data[of D fs c, OF len] by (simp add: chain_data_Cons)
    have dd: "drop (unat chunk) ?data = drop (unat off + unat chunk) (chain_data fs D (c # cs))" by (simp add: add.commute)
    have mem: "put_mem m (dst + ucast chunk) (take (unat (remain - chunk)) (drop (unat chunk) ?data)) = put_mem (hmem s) dst (take (unat remain) ?data)"
      unfolding m ucast rem by (rule put_mem_two[OF chunk_len piece(3) small])
    have finish: ?thesis if "\<exists>h' r c' off'. fat32_read_loop fs dst remain c off s = Some (Some (r, c', off'),
        s\<lparr>hmem := put_mem m (dst + ucast chunk) (take (unat (remain - chunk)) (drop (unat chunk) ?data)), hist := h'\<rparr>)
      \<and> unat r = unat (remain - chunk) - length (drop (unat chunk) ?data) \<and> disk_is D (s\<lparr>hist := h'\<rparr>)
      \<and> stops_at fs D (c # cs) (drop (unat (remain - chunk)) (drop (unat chunk) ?data)) c' off'"
    proof -
      have "unat remain - unat chunk - length (drop (unat chunk) ?data) = unat remain - length ?data"
        unfolding length_drop[of "unat chunk" ?data] using chunk_len piece(3) by linarith
      then show ?thesis using that unfolding mem unfolding rem take_split(2)[OF piece(3)] by (simp only:)
    qed
    have less_rem: "unat (remain - chunk) < unat remain" using rem piece(2,3) by linarith
    show ?thesis
    proof (cases "unat off + unat chunk = cluster_size fs")
      case full: True
      have d: "drop (unat chunk) ?data = chain_data fs D cs" unfolding dd full by (rule drop_cluster[OF less.prems(1)])
      show ?thesis
      proof (cases cs)
        case Nil
        then have "FAT_EOF \<le> fat_next_cluster fs c m" using chain_next(2)[OF h(3)] by simp
        then show ?thesis using h(1,2) full Nil d
          by (intro finish exI[of _ h] exI[of _ "remain - chunk"] exI[of _ "fat_next_cluster fs c m"] exI[of _ "0 :: u32"])
             (simp add: fat32_read_loop_end chain_data_def stops_at_def)
      next
        case (Cons e es)
        then have e: "fat_next_cluster fs c m = e" "cluster_chain fs m (e # es)" using chain_next(1)[OF h(3)] by auto
        have "fat_clear fs (e # es) (dst + ucast chunk) (unat (remain - chunk))" using clear Cons by (rule_tac fat_clear_subset) auto
        from less.hyps[OF less_rem h(2) _ _ this, of 0] e(2) less.prems(3)
        show ?thesis using h(1) full e(1) d Cons
          by (intro finish) (fastforce intro: stops_at_Cons)
      qed
    next
      case part: False
      then have "unat (off + chunk) < cluster_size fs" using piece(4,5) by linarith
      from less.hyps[OF less_rem h(2) _ this clear, unfolded piece(5) dd[symmetric]] h(1,3) part show ?thesis
        by (intro finish) (simp del: drop_drop length_drop)
    qed
  qed
qed

lemma fat32_read_chain:
  fixes s :: "'a fat_state_scheme"
  assumes "vols s (file_fs file) = fs" "volume_ok fs" "disk_is D s" "cluster_chain fs (hmem s) (current_cluster file # cs)"
    "unat (file_offset file) < cluster_size fs" "fat_clear fs (current_cluster file # cs) buf (unat sz)" "unat sz < 2 ^ 31"
  shows "\<exists>h c off. fat32_read file buf sz s =
      Some ((int (min (unat sz) (length (drop (unat (file_offset file)) (chain_data fs D (current_cluster file # cs))))),
             file\<lparr>current_cluster := c, file_offset := off\<rparr>),
        s\<lparr>hmem := put_mem (hmem s) buf (take (unat sz) (drop (unat (file_offset file)) (chain_data fs D (current_cluster file # cs)))), hist := h\<rparr>)
    \<and> disk_is D (s\<lparr>hist := h\<rparr>)
    \<and> stops_at fs D (current_cluster file # cs) (drop (unat sz) (drop (unat (file_offset file)) (chain_data fs D (current_cluster file # cs)))) c off"
proof -
  let ?n = "length (drop (unat (file_offset file)) (chain_data fs D (current_cluster file # cs)))"
  have "sint (sz - r) = int (min (unat sz) ?n)" if "unat r = unat sz - ?n" for r :: u32
  proof -
    have "unat (sz - r) = min (unat sz) ?n" using that by (subst unat_sub) (auto simp: word_le_nat_alt)
    moreover from this have "unat (sz - r) < 2 ^ 31" using assms(7) by linarith
    ultimately show ?thesis by (simp add: sint_small)
  qed
  then show ?thesis
    using fat32_read_loop_chain[OF assms(2-6)] unfolding fat32_read_def assms(1) by fastforce
qed

section \<open>Seeking\<close>

lemma fat32_seek_loop_chain:
  assumes "cluster_chain fs m (c # cs)" "0 < csz"
  shows "fat32_seek_loop fs csz c rem m =
    Some ((c # cs) ! min (unat rem div unat csz) (length cs), rem - csz * word_of_nat (min (unat rem div unat csz) (length cs)))"
  using assms(1)
proof (induction cs arbitrary: c rem)
  case Nil
  then show ?case using chain_next(2)[OF Nil] by (subst fat32_seek_loop.simps) (simp add: Let_def)
next
  case (Cons d ds)
  have d: "fat_next_cluster fs c m = d" "cluster_chain fs m (d # ds)" "d < FAT_EOF"
    using chain_next(1)[OF Cons.prems] cluster_chain_in[OF Cons.prems, of d] by auto
  show ?case
  proof (cases "csz \<le> rem")
    case True
    then have "unat rem div unat csz = Suc (unat (rem - csz) div unat csz)"
      using assms(2) by (simp add: unat_sub word_le_nat_alt word_less_nat_alt le_div_geq)
    moreover have "\<not> FAT_EOF \<le> d" using d(3) by simp
    ultimately show ?thesis
      using True d(1) Cons.IH[OF d(2), of "rem - csz"]
      by (subst fat32_seek_loop.simps) (simp add: Let_def leD algebra_simps)
  next
    case False
    then show ?thesis by (subst fat32_seek_loop.simps) (simp add: word_le_nat_alt not_le)
  qed
qed

end
