(* ===== verification/Vfs_Properties.thy ===== *)
theory Vfs_Properties
  imports Vfs Fat32_Files
begin

text \<open>
  The virtual file system on a FAT32 volume: reading through a descriptor down to the sectors of the disk, and the
  descriptor table.
\<close>

section \<open>Positions in a file\<close>

lemma length_chain_data: "disk_is D s \<Longrightarrow> length (chain_data fs D cs) = cluster_size fs * length cs"
  unfolding chain_data_def
  by (subst length_concat_same[where k = "cluster_size fs"]) (auto simp: length_cluster_data disk_is_length)

lemma chain_position:
  assumes "disk_is D s" "n div cluster_size fs < length cs" "0 < cluster_size fs"
  shows "drop n (chain_data fs D cs) =
    drop (n mod cluster_size fs) (chain_data fs D (cs ! (n div cluster_size fs) # drop (Suc (n div cluster_size fs)) cs))"
proof -
  let ?k = "n div cluster_size fs" and ?r = "n mod cluster_size fs"
  have len: "length (cluster_data fs D c) = cluster_size fs" for c by (simp add: length_cluster_data disk_is_length[OF assms(1)])
  have r: "?r \<le> cluster_size fs" using assms(3) by (simp add: less_imp_le)
  have "drop (cluster_size fs * ?k + ?r) (concat (map (cluster_data fs D) cs)) =
      drop ?r (map (cluster_data fs D) cs ! ?k) @ concat (drop (Suc ?k) (map (cluster_data fs D) cs))"
    using assms(2) r len by (intro drop_concat_block) auto
  moreover have "cluster_size fs * ?k + ?r = n" by (rule mult_div_mod_eq)
  moreover have "drop ?r (cluster_data fs D c @ ys) = drop ?r (cluster_data fs D c) @ ys" for c ys using r by (simp add: len)
  ultimately show ?thesis using assms(2) unfolding chain_data_def by (simp add: drop_map)
qed

lemma fat32_seek_chain:
  assumes "file_fs file \<noteq> 0" "vols s (file_fs file) = fs" "volume_ok fs" "cluster_chain fs (hmem s) (start_cluster file # cs)"
    "pos \<le> file_size file"
  shows "fat32_seek file pos s = Some (file\<lparr>current_cluster := (start_cluster file # cs) ! min (unat pos div cluster_size fs) (length cs),
    file_offset := pos - cluster_bytes fs * word_of_nat (min (unat pos div cluster_size fs) (length cs))\<rparr>)"
proof -
  have b: "sectors_per_cluster fs * bytes_per_sector fs = cluster_bytes fs" using assms(3) by (simp add: volume_ok_def cluster_bytes_def)
  have "0 < cluster_bytes fs" using unat_cluster_bytes[OF assms(3)] assms(3) by (simp add: volume_ok_def word_less_nat_alt)
  then show ?thesis
    using fat32_seek_loop_chain[OF assms(4), of "cluster_bytes fs" pos] assms(1,2,5)
    by (simp add: fat32_seek_def b unat_cluster_bytes[OF assms(3)] leD)
qed

lemma seek_offset:
  assumes "volume_ok fs"
  shows "unat (pos - cluster_bytes fs * word_of_nat (unat pos div cluster_size fs)) = unat pos mod cluster_size fs"
proof -
  let ?k = "unat pos div cluster_size fs" and ?r = "unat pos mod cluster_size fs"
  have self: "word_of_nat (unat x) = x" for x :: u32 by simp
  have "pos = word_of_nat (cluster_size fs * ?k + ?r)" unfolding mult_div_mod_eq by (rule self[symmetric])
  also have "\<dots> = word_of_nat (unat (cluster_bytes fs)) * word_of_nat ?k + word_of_nat ?r"
    unfolding unat_cluster_bytes[OF assms] by (simp only: of_nat_add of_nat_mult)
  finally have "pos = cluster_bytes fs * word_of_nat ?k + word_of_nat ?r" unfolding self .
  then have "pos - cluster_bytes fs * word_of_nat ?k = word_of_nat ?r" unfolding diff_eq_eq add.commute[of "word_of_nat ?r"] .
  moreover have "unat pos < 2 ^ 32" using unsigned_less[of pos] by simp
  then have "?r < 2 ^ 32" by (rule le_less_trans[OF mod_less_eq_dividend])
  ultimately show ?thesis by (simp add: unsigned_of_nat take_bit_nat_eq_self)
qed

section \<open>Reading through a descriptor\<close>

text \<open>
  Descriptor \<open>fd\<close> is open on a file of the mounted volume \<open>fs\<close>, whose clusters are \<open>cs\<close>, at position \<open>pos\<close>; \<open>p\<close> is
  the address of its file handle.
\<close>

definition open_file :: "int \<Rightarrow> fat32_fs_t \<Rightarrow> u32 list \<Rightarrow> u64 \<Rightarrow> u32 \<Rightarrow> 'a vfs_state_scheme \<Rightarrow> bool" where
  "open_file fd fs cs p pos s \<longleftrightarrow> fd_valid fd s \<and> length (fd_table s) = MAX_FDS
     \<and> (let n = nodes s (fh_node (fd_table s ! nat fd)); f = file_objs s p
        in node_flags n = VFS_FLAG_FILE \<and> node_ops n = Some fat32_file_ops \<and> node_fs_data n = p \<and> p \<noteq> 0
           \<and> file_fs f \<noteq> 0 \<and> vols s (file_fs f) = fs \<and> volume_ok fs \<and> cluster_chain fs (hmem s) cs \<and> hd cs = start_cluster f
           \<and> fh_pos (fd_table s ! nat fd) = pos \<and> pos \<le> file_size f)"

lemma fat32_vfs_read_chain:
  fixes s :: "'a vfs_state_scheme"
  assumes "open_file fd fs cs p pos s" "disk_is D s" "unat pos < cluster_size fs * length cs"
    "fat_clear fs cs buf (unat count)" "unat count < 2 ^ 31" "node = fh_node (fd_table s ! nat fd)"
  shows "\<exists>h f. fat32_vfs_read node buf count pos s =
      Some (int (min (unat count) (length (drop (unat pos) (chain_data fs D cs)))),
        set_file p f (s\<lparr>hmem := put_mem (hmem s) buf (take (unat count) (drop (unat pos) (chain_data fs D cs))), hist := h\<rparr>))
    \<and> disk_is D (s\<lparr>hist := h\<rparr>) \<and> file_fs f = file_fs (file_objs s p) \<and> start_cluster f = hd cs \<and> file_size f = file_size (file_objs s p)"
proof -
  let ?f = "file_objs s p" and ?k = "unat pos div cluster_size fs"
  have o: "volume_ok fs" "cluster_chain fs (hmem s) cs" "vols s (file_fs ?f) = fs" "file_fs ?f \<noteq> 0" "pos \<le> file_size ?f"
      "hd cs = start_cluster ?f" "node_fs_data (nodes s node) = p" "p \<noteq> 0" "node \<noteq> 0"
    using assms(1,6) by (auto simp: open_file_def Let_def fd_valid_def)
  then obtain ds where cs: "cs = start_cluster ?f # ds" by (cases cs) auto
  have csz: "0 < cluster_size fs" using o(1) by (simp add: volume_ok_def)
  have k: "?k < length cs" using assms(3) by (simp add: less_mult_imp_div_less mult.commute)
  then have kk: "min ?k (length ds) = ?k" by (simp add: cs)
  let ?g = "?f\<lparr>current_cluster := cs ! ?k, file_offset := pos - cluster_bytes fs * word_of_nat ?k\<rparr>"
  have seek: "fat32_seek ?f pos s = Some ?g"
    using fat32_seek_chain[OF o(4,3,1) o(2)[unfolded cs] o(5)] unfolding kk cs by simp
  have suffix: "cs = take ?k cs @ cs ! ?k # drop (Suc ?k) cs" using k by (rule id_take_nth_drop)
  have chain: "cluster_chain fs (hmem s) (cs ! ?k # drop (Suc ?k) cs)" using o(2) suffix cluster_chain_suffix by metis
  have clear: "fat_clear fs (cs ! ?k # drop (Suc ?k) cs) buf (unat count)"
    using assms(4) k by (rule_tac fat_clear_subset) (auto dest: in_set_dropD)
  have pos: "unat (file_offset ?g) = unat pos mod cluster_size fs" using seek_offset[OF o(1)] by simp
  have off: "unat (file_offset ?g) < cluster_size fs" unfolding pos using csz by simp
  have data: "drop (unat (file_offset ?g)) (chain_data fs D (current_cluster ?g # drop (Suc ?k) cs)) = drop (unat pos) (chain_data fs D cs)"
    unfolding pos using chain_position[OF assms(2) k csz] by simp
  obtain h c off' where h: "fat32_read ?g buf count s =
      Some ((int (min (unat count) (length (drop (unat pos) (chain_data fs D cs)))), ?g\<lparr>current_cluster := c, file_offset := off'\<rparr>),
        s\<lparr>hmem := put_mem (hmem s) buf (take (unat count) (drop (unat pos) (chain_data fs D cs))), hist := h\<rparr>)" "disk_is D (s\<lparr>hist := h\<rparr>)"
    using fat32_read_chain[of s ?g fs D "drop (Suc ?k) cs" buf count, unfolded data] o(1,3) assms(2,5) chain clear off by auto
  have "fat32_vfs_read node buf count pos s = Some (int (min (unat count) (length (drop (unat pos) (chain_data fs D cs)))),
      set_file p (?g\<lparr>current_cluster := c, file_offset := off'\<rparr>)
        (s\<lparr>hmem := put_mem (hmem s) buf (take (unat count) (drop (unat pos) (chain_data fs D cs))), hist := h\<rparr>))"
    using o(7-9) by (simp add: fat32_vfs_read_def Let_def seek h(1))
  then show ?thesis using h(2) o(6) by fastforce
qed

lemma advance_fd_eq:
  "advance_fd fd (int n) s = s\<lparr>fd_table := (fd_table s)[nat fd := (fd_table s ! nat fd)\<lparr>fh_pos := fh_pos (fd_table s ! nat fd) + word_of_nat n\<rparr>]\<rparr>"
  by (auto simp: advance_fd_def)

lemma set_file_fd_table [simp]: "fd_table (set_file p f s) = fd_table s"
  by (simp add: set_file_def)

text \<open>
  C5: Reading \<open>count\<close> bytes through a descriptor at position \<open>pos\<close> returns, walks the cluster chain of the file over as many
  clusters as needed, and stores exactly the bytes of the chain from \<open>pos\<close> on, as the sectors of the disk hold them, in the
  caller's buffer: as many as were asked for, or as the chain has left.  The result is their number, the descriptor
  advances by it, and nothing else of memory, nodes and descriptors changes.
\<close>

theorem vfs_read_correct:
  fixes s :: "'a vfs_state_scheme"
  assumes "open_file fd fs cs p pos s" "disk_is D s" "unat pos < cluster_size fs * length cs"
    "fat_clear fs cs buf (unat count)" "unat count < 2 ^ 31"
  shows "let data = drop (unat pos) (chain_data fs D cs); n = min (unat count) (length data)
    in \<exists>h f. vfs_read fd buf count s =
         Some (int n, (set_file p f (s\<lparr>hmem := put_mem (hmem s) buf (take n data), hist := h\<rparr>))
           \<lparr>fd_table := (fd_table s)[nat fd := (fd_table s ! nat fd)\<lparr>fh_pos := pos + word_of_nat n\<rparr>]\<rparr>)
       \<and> disk_is D (s\<lparr>hist := h\<rparr>)"
proof -
  let ?node = "fh_node (fd_table s ! nat fd)" and ?data = "drop (unat pos) (chain_data fs D cs)"
  let ?n = "min (unat count) (length ?data)"
  have o: "fd_valid fd s" "node_flags (nodes s ?node) = VFS_FLAG_FILE" "node_ops (nodes s ?node) = Some fat32_file_ops"
      "fh_pos (fd_table s ! nat fd) = pos"
    using assms(1) by (auto simp: open_file_def Let_def)
  then have nz: "?node \<noteq> 0" by (simp add: fd_valid_def)
  obtain h f where h: "fat32_vfs_read ?node buf count pos s =
      Some (int ?n, set_file p f (s\<lparr>hmem := put_mem (hmem s) buf (take (unat count) ?data), hist := h\<rparr>))" "disk_is D (s\<lparr>hist := h\<rparr>)"
    using fat32_vfs_read_chain[OF assms refl] by blast
  have "take ?n ?data = take (unat count) ?data" by (cases "unat count \<le> length ?data") simp_all
  moreover have "vfs_read fd buf count s =
      Some (int ?n, advance_fd fd (int ?n) (set_file p f (s\<lparr>hmem := put_mem (hmem s) buf (take (unat count) ?data), hist := h\<rparr>)))"
    using o nz by (simp only: vfs_read_def vfs_read_node_def has_rw_def h(1)) simp
  ultimately show ?thesis using h(2) o(4) unfolding Let_def advance_fd_eq by (simp only:) auto
qed

section \<open>Reading at the end of a full file\<close>

lemma sector_behind:
  assumes "volume_ok fs" "2 \<le> c" "c < total_clusters fs + 2"
  shows "unat (cluster_to_lba fs c + cluster_bytes fs div 512) = first_sector fs c + unat (sectors_per_cluster fs)"
    "first_sector fs c + unat (sectors_per_cluster fs) \<le> 2 ^ 28"
proof -
  have l: "unat (cluster_to_lba fs c) = first_sector fs c"
    using sector_of_offset(1)[OF assms, of 0] assms(1) by (simp add: volume_ok_def)
  have d: "unat (cluster_bytes fs div 512) = unat (sectors_per_cluster fs)"
    by (simp add: unat_div unat_cluster_bytes[OF assms(1)])
  show "first_sector fs c + unat (sectors_per_cluster fs) \<le> 2 ^ 28" by (rule data_cluster(3)[OF assms])
  then show "unat (cluster_to_lba fs c + cluster_bytes fs div 512) = first_sector fs c + unat (sectors_per_cluster fs)"
    by (simp add: unat_word_ariths l unat_cluster_bytes[OF assms(1)])
qed

lemma fat32_read_loop_behind:
  fixes s :: "'a ide_state_scheme"
  assumes "volume_ok fs" "disk_is D s" "cluster_chain fs (hmem s) [c]" "first_sector fs c + unat (sectors_per_cluster fs) < 2 ^ 28"
    "fat_clear fs [c] dst (unat remain)" "remain \<noteq> 0"
  shows "\<exists>h c'. fat32_read_loop fs dst remain c (cluster_bytes fs) s = Some (Some (remain - (if remain > 512 then 512 else remain), c', 0),
      s\<lparr>hmem := put_mem (hmem s) dst (take (unat remain) (D (first_sector fs c + unat (sectors_per_cluster fs)))), hist := h\<rparr>)
    \<and> disk_is D (s\<lparr>hist := h\<rparr>)"
proof -
  let ?sec = "D (first_sector fs c + unat (sectors_per_cluster fs))"
  have c: "2 \<le> c" "c < total_clusters fs + 2" "c < FAT_EOF" using assms(3) by auto
  note sec = sector_behind[OF assms(1) c(1,2)]
  obtain h where h: "ide_read_sector (cluster_to_lba fs c + cluster_bytes fs div 512) s = Some (Some ?sec, s\<lparr>hist := h\<rparr>)" "disk_is D (s\<lparr>hist := h\<rparr>)"
    using ide_read_sector_ata[OF assms(2), of "cluster_to_lba fs c + cluster_bytes fs div 512"] sec(1) assms(4) by auto
  let ?chunk = "if remain > 512 then 512 else remain"
  have len: "length ?sec = 512" by (rule disk_is_length[OF assms(2)])
  have take: "take (unat ?chunk) ?sec = take (unat remain) ?sec"
    using len by (auto simp: word_less_nat_alt)
  have m0: "cluster_bytes fs mod 512 = 0" by (simp add: word_unat_eq_iff unat_mod unat_cluster_bytes[OF assms(1)])
  have "cluster_size fs + 512 < 2 ^ 32" using assms(1) by (simp add: volume_ok_def)
  moreover have "unat ?chunk \<le> 512" by (simp add: word_less_nat_alt)
  ultimately have ge: "cluster_bytes fs \<le> cluster_bytes fs + ?chunk"
    unfolding word_le_nat_alt unat_word_ariths(1) unat_cluster_bytes[OF assms(1)] by (subst mod_less) simp_all
  let ?m = "put_mem (hmem s) dst (take (unat remain) ?sec)"
  have "FAT_EOF \<le> fat_next_cluster fs c ?m"
    by (rule chain_next(2)[OF chain_clear[OF assms(3,5)]]) simp_all
  then have fin: "fat32_read_loop fs (dst + ucast ?chunk) (remain - ?chunk) (fat_next_cluster fs c ?m) 0 (s\<lparr>hmem := ?m, hist := h\<rparr>)
      = Some (Some (remain - ?chunk, fat_next_cluster fs c ?m, 0), s\<lparr>hmem := ?m, hist := h\<rparr>)"
    by (intro fat32_read_loop_end) simp
  have "fat32_read_loop fs dst remain c (cluster_bytes fs) s =
      fat32_read_loop fs (dst + ucast ?chunk) (remain - ?chunk) (fat_next_cluster fs c ?m) 0 (s\<lparr>hmem := ?m, hist := h\<rparr>)"
    using c assms(6) ge take by (subst fat32_read_loop.simps) (simp only: h(1) m0 Let_def hist_hmem option.case prod.case diff_zero unsigned_0 drop_0 if_True simp_thms, simp)
  then show ?thesis using fin h(2) by auto
qed

lemma word_of_unat: "word_of_nat (unat x) = (x :: u32)"
  by simp

lemma seek_behind:
  assumes "volume_ok fs" "unat pos = cluster_size fs * Suc n"
  shows "pos - cluster_bytes fs * word_of_nat n = cluster_bytes fs"
proof -
  have "pos = word_of_nat (cluster_size fs * Suc n)" unfolding assms(2)[symmetric] by (rule word_of_unat[symmetric])
  also have "\<dots> = word_of_nat (unat (cluster_bytes fs)) * (1 + word_of_nat n)"
    unfolding unat_cluster_bytes[OF assms(1)] by (simp only: of_nat_mult of_nat_Suc)
  finally show ?thesis by (simp only: word_of_unat) (simp add: algebra_simps)
qed

text \<open>
  C36: At the end of a file that fills its last cluster a read should deliver nothing.  The code delivers up to 512 bytes that do not
  belong to the file: seeking to the end leaves the offset at the size of the last cluster, and the read loop, which never
  looks at the file size, fetches the sector behind that cluster before it notices that the chain has ended.
\<close>

theorem vfs_read_overruns:
  fixes s :: "'a vfs_state_scheme"
  assumes "open_file fd fs cs p pos s" "disk_is D s" "unat pos = cluster_size fs * length cs"
    "first_sector fs (last cs) + unat (sectors_per_cluster fs) < 2 ^ 28" "fat_clear fs cs buf (unat count)" "unat count < 2 ^ 31" "count \<noteq> 0"
  shows "\<exists>h f. vfs_read fd buf count s = Some (int (min (unat count) 512),
      (set_file p f (s\<lparr>hmem := put_mem (hmem s) buf (take (unat count) (D (first_sector fs (last cs) + unat (sectors_per_cluster fs)))), hist := h\<rparr>))
        \<lparr>fd_table := (fd_table s)[nat fd := (fd_table s ! nat fd)\<lparr>fh_pos := pos + word_of_nat (min (unat count) 512)\<rparr>]\<rparr>)"
proof -
  let ?node = "fh_node (fd_table s ! nat fd)" and ?f = "file_objs s p"
  let ?m = "put_mem (hmem s) buf (take (unat count) (D (first_sector fs (last cs) + unat (sectors_per_cluster fs))))"
  have o: "volume_ok fs" "cluster_chain fs (hmem s) cs" "vols s (file_fs ?f) = fs" "file_fs ?f \<noteq> 0" "pos \<le> file_size ?f"
      "hd cs = start_cluster ?f" "node_fs_data (nodes s ?node) = p" "p \<noteq> 0" "?node \<noteq> 0" "fd_valid fd s"
      "node_flags (nodes s ?node) = VFS_FLAG_FILE" "node_ops (nodes s ?node) = Some fat32_file_ops" "fh_pos (fd_table s ! nat fd) = pos"
    using assms(1) by (auto simp: open_file_def Let_def fd_valid_def)
  then obtain ds where cs: "cs = start_cluster ?f # ds" by (cases cs) auto
  have "0 < cluster_size fs" using o(1) by (simp add: volume_ok_def)
  then have "unat pos div cluster_size fs = length cs" unfolding assms(3) by simp
  then have k: "min (unat pos div cluster_size fs) (length ds) = length ds" by (simp add: cs)
  let ?g = "?f\<lparr>current_cluster := last cs, file_offset := cluster_bytes fs\<rparr>"
  have "cs ! length ds = last cs" unfolding cs by (simp add: last_conv_nth)
  then have seek: "fat32_seek ?f pos s = Some ?g"
    using fat32_seek_chain[OF o(4,3,1) o(2)[unfolded cs] o(5)] seek_behind[OF o(1), of pos "length ds"] assms(3)
    unfolding k by (simp add: cs)
  have "cs = butlast cs @ [last cs]" unfolding cs by simp
  then have chain: "cluster_chain fs (hmem s) [last cs]" using o(2) cluster_chain_suffix by metis
  have clear: "fat_clear fs [last cs] buf (unat count)" using assms(5) by (rule fat_clear_subset) (simp add: cs)
  obtain h c' where h: "fat32_read_loop fs buf count (last cs) (cluster_bytes fs) s =
      Some (Some (count - (if count > 512 then 512 else count), c', 0), s\<lparr>hmem := ?m, hist := h\<rparr>)"
    using fat32_read_loop_behind[OF o(1) assms(2) chain assms(4) clear assms(7)] by blast
  have n: "sint (count - (count - (if count > 512 then 512 else count))) = int (min (unat count) 512)"
    using assms(6) by (auto simp: sint_small word_less_nat_alt min_def)
  have "fat32_vfs_read ?node buf count pos s = Some (int (min (unat count) 512),
      set_file p (?g\<lparr>current_cluster := c', file_offset := 0\<rparr>) (s\<lparr>hmem := ?m, hist := h\<rparr>))"
    using o(3,7-9) h n by (simp add: fat32_vfs_read_def Let_def seek fat32_read_def)
  then have "vfs_read fd buf count s = Some (int (min (unat count) 512), advance_fd fd (int (min (unat count) 512))
      (set_file p (?g\<lparr>current_cluster := c', file_offset := 0\<rparr>) (s\<lparr>hmem := ?m, hist := h\<rparr>)))"
    using o(9-13) by (simp add: vfs_read_def vfs_read_node_def has_rw_def)
  then show ?thesis unfolding advance_fd_eq using o(13) by auto
qed

section \<open>An example volume\<close>

text \<open>
  The volume of \<open>fat_example\<close> with one file in clusters 3 and 2, open as descriptor 0; sector \<open>i\<close> holds 512 copies of the
  low byte of \<open>i\<close>.
\<close>

definition sample_disk :: "nat \<Rightarrow> u8 list" where
  "sample_disk i = replicate 512 (word_of_nat i)"

definition vfs_example :: "u32 \<Rightarrow> u32 \<Rightarrow> vfs_state" where
  "vfs_example sz pos =
     (fat_state.extend (ide_state.extend (ide_example sample_disk) (fat_state.fields (\<lambda>_. fat_example)))
       (vfs_state.fields 0x500
         (\<lambda>_. \<lparr>node_name = [], node_flags = VFS_FLAG_FILE, node_permissions = 0, node_inode = 3, node_size = sz, node_fs_data = 0x700,
               node_ops = Some fat32_file_ops\<rparr>)
         (\<lambda>_. \<lparr>file_fs = 0x500, start_cluster = 3, current_cluster = 3, file_size = sz, file_offset = 0\<rparr>)
         (\<lambda>_. \<lparr>dir_node = 0, dir_internal = 0\<rparr>) (\<lambda>_. \<lparr>iter_cluster = 0, entry_offset = 0\<rparr>)
         (\<lambda>_. \<lparr>mp_device = [], mp_path = [], mp_fs_type = 1, mp_root = 0, mp_fs_data = 0, mp_next = 0\<rparr>) 0
         (\<lparr>fh_node = 0x600, fh_pos = pos, fh_flags = O_RDONLY, fh_ref_count = 1\<rparr>
            # replicate 255 \<lparr>fh_node = 0, fh_pos = 0, fh_flags = 0, fh_ref_count = 0\<rparr>)))\<lparr>hmem := fat_example_mem\<rparr>"

lemma vfs_example_simps [simp]:
  "hmem (vfs_example sz pos) = fat_example_mem" "vols (vfs_example sz pos) a = fat_example"
  "fd_table (vfs_example sz pos) ! 0 = \<lparr>fh_node = 0x600, fh_pos = pos, fh_flags = O_RDONLY, fh_ref_count = 1\<rparr>"
  "length (fd_table (vfs_example sz pos)) = 256"
  "nodes (vfs_example sz pos) n = \<lparr>node_name = [], node_flags = VFS_FLAG_FILE, node_permissions = 0, node_inode = 3, node_size = sz,
     node_fs_data = 0x700, node_ops = Some fat32_file_ops\<rparr>"
  "file_objs (vfs_example sz pos) q = \<lparr>file_fs = 0x500, start_cluster = 3, current_cluster = 3, file_size = sz, file_offset = 0\<rparr>"
  by (simp_all add: vfs_example_def ide_example_def kernel.defs ide_state.defs fat_state.defs vfs_state.defs)

lemma vfs_example_disk: "disk_is sample_disk (vfs_example sz pos)"
  using ide_example_disk[of sample_disk]
  by (auto simp: disk_is_def vfs_example_def ide_example_def kernel.defs ide_state.defs fat_state.defs vfs_state.defs sample_disk_def)

lemma fat_example_volume: "volume_ok fat_example"
  by (simp add: volume_ok_def fat_example_def)

lemma vfs_example_open: "pos \<le> sz \<Longrightarrow> open_file 0 fat_example [3, 2] 0x700 pos (vfs_example sz pos)"
  using fat_example_chain by (simp add: open_file_def Let_def fd_valid_def fat_example_volume)

lemma vfs_example_clear: "fat_clear fat_example [3, 2] 0x2000 512"
proof -
  have "512 \<le> unat (fat fat_example + 4 * ucast c + word_of_nat k - 0x2000)" if "c = 3 \<or> c = 2" "k < 4" for c :: u32 and k :: nat
  proof -
    have "k = 0 \<or> k = 1 \<or> k = 2 \<or> k = 3" using that(2) by linarith
    then show ?thesis using that(1) by (elim disjE) (simp_all add: fat_example_def)
  qed
  then show ?thesis unfolding fat_clear_def by auto
qed

theorem vfs_read_correct_witness:
  "\<exists>t. vfs_read 0 0x2000 100 (vfs_example 700 500) = Some (100, t) \<and> hmem t 0x2000 = 41 \<and> hmem t 0x200C = 40"
proof -
  have clear: "fat_clear fat_example [3, 2] 0x2000 (unat (100 :: u32))"
    using vfs_example_clear by (auto simp: fat_clear_def)
  have data: "drop (unat (500 :: u32)) (chain_data fat_example sample_disk [3, 2]) = replicate 12 41 @ replicate 512 40"
    by (simp add: chain_data_def cluster_data_def first_sector_def sample_disk_def fat_example_def)
  have n: "min (unat (100 :: u32)) (length (replicate 12 41 @ replicate 512 (40 :: u8))) = 100" by simp
  have t: "take 100 (replicate 12 41 @ replicate 512 40) = replicate 12 41 @ replicate 88 (40 :: u8)" by simp
  have m: "put_mem m 0x2000 (replicate 12 41 @ replicate 88 40) 0x2000 = 41" "put_mem m 0x2000 (replicate 12 41 @ replicate 88 40) 0x200C = 40" for m
    by (simp_all add: put_mem_def nth_append)
  show ?thesis
    using vfs_read_correct[OF vfs_example_open vfs_example_disk _ clear, of 500 700] m
    unfolding data Let_def n t by (fastforce simp: fat_example_def set_file_def)
qed

theorem vfs_read_overruns_witness:
  "\<exists>t. vfs_read 0 0x2000 100 (vfs_example 1024 1024) = Some (100, t) \<and> hmem t 0x2000 = 41"
proof -
  have "fat_clear fat_example [3, 2] 0x2000 (unat (100 :: u32))"
    using vfs_example_clear by (auto simp: fat_clear_def)
  then obtain h f where "vfs_read 0 0x2000 100 (vfs_example 1024 1024) = Some (100,
      (set_file 0x700 f (vfs_example 1024 1024\<lparr>hmem := put_mem fat_example_mem 0x2000 (take 100 (sample_disk 41)), hist := h\<rparr>))
        \<lparr>fd_table := (fd_table (vfs_example 1024 1024))[0 := (fd_table (vfs_example 1024 1024) ! 0)\<lparr>fh_pos := 1124\<rparr>]\<rparr>)"
    using vfs_read_overruns[OF vfs_example_open vfs_example_disk, of 1024 1024 "0x2000" 100]
    by (auto simp: fat_example_def first_sector_def)
  then show ?thesis by (simp add: set_file_def put_mem_def sample_disk_def)
qed

end
