(* ===== verification/Fat32_Write.thy ===== *)
theory Fat32_Write
  imports Vfs_Properties
begin

text \<open>
  Writing into the clusters of a FAT32 file: which bytes of the file and which sectors of the disk change, and that the bytes are
  read back.
\<close>

section \<open>Byte strings written at a position\<close>

lemma put_bytes_left: "i + length v \<le> length a \<Longrightarrow> put_bytes i v (a @ b) = put_bytes i v a @ b"
  by (simp add: put_bytes_def)

lemma put_bytes_right: "put_bytes (length a + i) v (a @ b) = a @ put_bytes i v b"
  by (simp add: put_bytes_def)

lemma put_bytes_Nil [simp]: "put_bytes i [] b = b"
  by (simp add: put_bytes_def)

lemma put_bytes_two:
  "i + length u + length v \<le> length b \<Longrightarrow> put_bytes (i + length u) v (put_bytes i u b) = put_bytes i (u @ v) b"
  by (simp add: put_bytes_def add.commute add.left_commute)

lemma read_put_bytes: "i + length v \<le> length b \<Longrightarrow> take (length v) (drop i (put_bytes i v b)) = v"
  by (simp add: put_bytes_def)

lemma length_get_mem [simp]: "length (get_mem m p n) = n"
  by (simp add: get_mem_def)

lemma get_mem_add: "get_mem m p (a + b) = get_mem m p a @ get_mem m (p + word_of_nat a) b"
  by (rule nth_equalityI) (auto simp: get_mem_def nth_append add.assoc simp flip: of_nat_add)

lemma concat_update:
  assumes "\<forall>x\<in>set xs. length x = k" "j < length xs" "r + length v \<le> k"
  shows "concat (xs[j := put_bytes r v (xs ! j)]) = put_bytes (k * j + r) v (concat xs)"
  using assms
proof (induction xs arbitrary: j)
  case (Cons x xs)
  show ?case
  proof (cases j)
    case 0
    then show ?thesis using Cons.prems by (simp add: put_bytes_left)
  next
    case (Suc i)
    have "put_bytes (k * j + r) v (concat (x # xs)) = x @ put_bytes (k * i + r) v (concat xs)"
      using Cons.prems(1) Suc put_bytes_right[of x "k * i + r" v "concat xs"] by (simp add: add.assoc)
    then show ?thesis using Cons Suc by simp
  qed
qed simp

section \<open>Clusters are disjoint\<close>

definition in_cluster :: "fat32_fs_t \<Rightarrow> u32 \<Rightarrow> nat \<Rightarrow> bool" where
  "in_cluster fs c k \<longleftrightarrow> first_sector fs c \<le> k \<and> k < first_sector fs c + unat (sectors_per_cluster fs)"

lemma clusters_disjoint:
  assumes "in_cluster fs c k" "in_cluster fs d k" "2 \<le> c" "2 \<le> d"
  shows "c = d"
proof -
  let ?s = "unat (sectors_per_cluster fs)" and ?x = "k - unat (first_data_sector fs)"
  have div: "unat e - 2 = ?x div ?s" if "in_cluster fs e k" for e
  proof (rule div_nat_eqI[symmetric])
    show "?s * (unat e - 2) \<le> ?x" "?x < ?s * Suc (unat e - 2)"
      using that by (auto simp: in_cluster_def first_sector_def algebra_simps)
  qed
  have "2 \<le> unat c" "2 \<le> unat d" using assms(3,4) by (simp_all add: word_le_nat_alt)
  then show ?thesis using div[OF assms(1)] div[OF assms(2)] by (simp add: word_unat_eq_iff)
qed

lemma cluster_data_cong: "(\<And>k. in_cluster fs c k \<Longrightarrow> D' k = D k) \<Longrightarrow> cluster_data fs D' c = cluster_data fs D c"
  unfolding cluster_data_def by (intro arg_cong[where f = concat]) (auto simp: in_cluster_def)

text \<open>The disk changes in sectors of the given clusters only.\<close>

definition changes_only :: "fat32_fs_t \<Rightarrow> u32 list \<Rightarrow> (nat \<Rightarrow> u8 list) \<Rightarrow> (nat \<Rightarrow> u8 list) \<Rightarrow> bool" where
  "changes_only fs cs D D' \<longleftrightarrow> (\<forall>k. D' k \<noteq> D k \<longrightarrow> (\<exists>c\<in>set cs. in_cluster fs c k))"

lemma changes_only_trans: "changes_only fs cs D D' \<Longrightarrow> changes_only fs cs D' D'' \<Longrightarrow> changes_only fs cs D D''"
  unfolding changes_only_def by metis

lemma changes_only_mono: "changes_only fs cs D D' \<Longrightarrow> set cs \<subseteq> set ds \<Longrightarrow> changes_only fs ds D D'"
  unfolding changes_only_def by blast

lemma other_cluster:
  assumes "changes_only fs cs D D'" "c \<notin> set cs" "2 \<le> c" "\<forall>d\<in>set cs. 2 \<le> d"
  shows "cluster_data fs D' c = cluster_data fs D c"
  using assms by (intro cluster_data_cong) (auto simp: changes_only_def dest: clusters_disjoint)

lemma other_clusters:
  assumes "changes_only fs [c] D D'" "c \<notin> set cs" "2 \<le> c" "\<forall>d\<in>set cs. 2 \<le> d"
  shows "chain_data fs D' cs = chain_data fs D cs"
proof -
  have "cluster_data fs D' d = cluster_data fs D d" if "d \<in> set cs" for d
    using assms that by (intro other_cluster[of fs "[c]"]) auto
  then show ?thesis unfolding chain_data_def by (intro arg_cong[where f = concat]) simp
qed

section \<open>One sector\<close>

lemma write_sector_data:
  fixes c :: u32
  assumes "\<And>i. length (D i) = 512" "unat off < cluster_size fs" "unat off mod 512 + length v \<le> 512"
  defines "k \<equiv> first_sector fs c + unat off div 512"
  shows "cluster_data fs (D(k := put_bytes (unat off mod 512) v (D k))) c = put_bytes (unat off) v (cluster_data fs D c)"
    "changes_only fs [c] D (D(k := put_bytes (unat off mod 512) v (D k)))"
proof -
  let ?j = "unat off div 512" and ?n = "unat (sectors_per_cluster fs)"
  let ?xs = "map (\<lambda>i. D (first_sector fs c + i)) [0..<?n]"
  have j: "?j < ?n" using assms(2) by (simp add: less_mult_imp_div_less mult.commute)
  have "map (\<lambda>i. (D(k := put_bytes (unat off mod 512) v (D k))) (first_sector fs c + i)) [0..<?n]
      = ?xs[?j := put_bytes (unat off mod 512) v (?xs ! ?j)]"
    using j by (intro nth_equalityI) (auto simp: k_def nth_list_update)
  moreover have "concat (?xs[?j := put_bytes (unat off mod 512) v (?xs ! ?j)]) = put_bytes (512 * ?j + unat off mod 512) v (concat ?xs)"
    using assms(1,3) j by (intro concat_update) auto
  ultimately show "cluster_data fs (D(k := put_bytes (unat off mod 512) v (D k))) c = put_bytes (unat off) v (cluster_data fs D c)"
    by (simp add: cluster_data_def)
  show "changes_only fs [c] D (D(k := put_bytes (unat off mod 512) v (D k)))"
    using j by (auto simp: changes_only_def in_cluster_def k_def)
qed

section \<open>The loop\<close>

text \<open>The step to the next cluster at the end of a full one, when the chain goes on.\<close>

lemma next_write_cluster_chain:
  "cluster_chain fs (hmem s) (c # d # ds) \<Longrightarrow> next_write_cluster fs c s = (Some d, s)"
  using chain_next(1)[of fs "hmem s" c "d # ds" d ds] cluster_chain_in[of fs "hmem s" "c # d # ds" d]
  by (auto simp: next_write_cluster_def Let_def not_le)

lemma fat32_write_loop_end: "fat32_write_loop fs src 0 c off s = Some (Some (c, off), s)"
  by (subst fat32_write_loop.simps) simp

text \<open>The bytes \<open>v\<close> have been written at a position of a chain: what happened to the disk.\<close>

definition written :: "fat32_fs_t \<Rightarrow> u32 list \<Rightarrow> nat \<Rightarrow> u8 list \<Rightarrow> (nat \<Rightarrow> u8 list) \<Rightarrow> (nat \<Rightarrow> u8 list) \<Rightarrow> bool" where
  "written fs cs pos v D D' \<longleftrightarrow> changes_only fs cs D D' \<and> chain_data fs D' cs = put_bytes pos v (chain_data fs D cs)"

lemma fat32_write_loop_step:
  assumes "volume_ok fs" "disk_is D s" "cluster_chain fs (hmem s) (c # cs)" "unat off < cluster_size fs" "remain \<noteq> 0"
    "chunk = (if remain > 512 - off mod 512 then 512 - off mod 512 else remain)"
  shows "\<exists>h D'. fat32_write_loop fs src remain c off s = fat32_write_loop fs (src + ucast chunk) (remain - chunk) c (off + chunk) (s\<lparr>hist := h\<rparr>)
    \<and> disk_is D' (s\<lparr>hist := h\<rparr>) \<and> written fs (c # cs) (unat off) (get_mem (hmem s) src (unat chunk)) D D'"
proof -
  note len = disk_is_length[OF assms(2)]
  note piece = sector_piece[OF assms(1) len assms(4) assms(6,5)]
  have c: "2 \<le> c" "c < total_clusters fs + 2" using cluster_chain_in[OF assms(3), of c] by auto
  note sec = sector_of_offset[OF assms(1) c assms(4)]
  define k where "k = first_sector fs c + unat off div 512"
  define v where "v = get_mem (hmem s) src (unat chunk)"
  define t where "t = put_bytes (unat off mod 512) v (D k)"
  have fits: "unat off mod 512 + length v \<le> 512" using piece(1) mod_less_divisor[of 512 "unat off"] by (simp add: v_def)
  have t: "length t = 512" using fits len by (simp add: t_def)
  obtain h where h: "ide_read_sector (cluster_to_lba fs c + off div 512) s = Some (Some (D k), s\<lparr>hist := h\<rparr>)" "disk_is D (s\<lparr>hist := h\<rparr>)"
    using ide_read_sector_ata[OF assms(2), of "cluster_to_lba fs c + off div 512"] sec(1,2) by (auto simp: k_def)
  obtain h' where h': "ide_write_sector (cluster_to_lba fs c + off div 512) t (s\<lparr>hist := h\<rparr>) = Some (True, s\<lparr>hist := h'\<rparr>)"
    "disk_is (D(k := t)) (s\<lparr>hist := h'\<rparr>)"
    using ide_write_sector_ata[OF h(2) _ t, of "cluster_to_lba fs c + off div 512"] sec(1,2) by (auto simp: k_def)
  have "\<not> cluster_bytes fs \<le> off" using assms(4) by (simp add: word_le_nat_alt unat_cluster_bytes[OF assms(1)])
  then have loop: "fat32_write_loop fs src remain c off s = fat32_write_loop fs (src + ucast chunk) (remain - chunk) c (off + chunk) (s\<lparr>hist := h'\<rparr>)"
    using assms(5) h'(1) by (subst fat32_write_loop.simps) (simp add: h(1) Let_def assms(6)[symmetric] unat_mod t_def v_def)
  have data: "cluster_data fs (D(k := t)) c = put_bytes (unat off) v (cluster_data fs D c)" "changes_only fs [c] D (D(k := t))"
    using write_sector_data[OF len assms(4) fits, where c = c] by (simp_all add: k_def t_def)
  have "chain_data fs (D(k := t)) cs = chain_data fs D cs"
    using data(2) cluster_chain_distinct[OF assms(3)] c cluster_chain_in[OF assms(3)] by (intro other_clusters) auto
  then have chain: "chain_data fs (D(k := t)) (c # cs) = put_bytes (unat off) v (chain_data fs D (c # cs))"
    unfolding chain_data_Cons data(1)
    using piece(4) length_cluster_data[of D fs c, OF len] by (simp add: put_bytes_left v_def)
  have "written fs (c # cs) (unat off) v D (D(k := t))"
    unfolding written_def using chain changes_only_mono[OF data(2), of "c # cs"] by simp
  then show ?thesis using loop h'(2) unfolding v_def by blast
qed

lemma written_two:
  assumes "written fs cs i u D D'" "written fs cs (i + length u) v D' D''" "i + length u + length v \<le> length (chain_data fs D cs)"
  shows "written fs cs i (u @ v) D D''"
  using assms put_bytes_two[OF assms(3)] unfolding written_def by (metis changes_only_trans)

lemma written_next:
  assumes "written fs cs 0 v D D'" "cluster_chain fs m (c # cs)" "\<And>i. length (D i) = 512"
  shows "written fs (c # cs) (cluster_size fs) v D D'"
proof -
  have "cluster_data fs D' c = cluster_data fs D c"
    using assms(1) cluster_chain_distinct[OF assms(2)] cluster_chain_in[OF assms(2)]
    by (intro other_cluster[of fs cs]) (auto simp: written_def)
  moreover have "put_bytes (cluster_size fs) v (chain_data fs D (c # cs)) = cluster_data fs D c @ put_bytes 0 v (chain_data fs D cs)"
    using put_bytes_right[of "cluster_data fs D c" 0 v "chain_data fs D cs"] length_cluster_data[of D fs c, OF assms(3)]
    by (simp add: chain_data_Cons)
  ultimately show ?thesis
    using assms(1) by (auto simp: written_def chain_data_Cons intro: changes_only_mono)
qed

lemma fat32_write_loop_full:
  assumes "volume_ok fs" "cluster_chain fs (hmem s) (c # d # ds)" "remain \<noteq> 0" "unat off = cluster_size fs"
  shows "fat32_write_loop fs src remain c off s = fat32_write_loop fs src remain d 0 s"
proof -
  have "cluster_bytes fs \<le> off" "\<not> cluster_bytes fs \<le> 0"
    using assms(1,4) by (auto simp: word_le_nat_alt unat_cluster_bytes volume_ok_def)
  then show ?thesis
    using assms(3) next_write_cluster_chain[OF assms(2)]
    by (subst (1 2) fat32_write_loop.simps) simp
qed

definition write_result ::
  "fat32_fs_t \<Rightarrow> u64 \<Rightarrow> u32 \<Rightarrow> u32 list \<Rightarrow> u32 \<Rightarrow> (nat \<Rightarrow> u8 list) \<Rightarrow> 'a ide_state_scheme \<Rightarrow> bool" where
  "write_result fs src remain cs off D s \<longleftrightarrow>
     (\<exists>h c' off' D'. fat32_write_loop fs src remain (hd cs) off s = Some (Some (c', off'), s\<lparr>hist := h\<rparr>) \<and> disk_is D' (s\<lparr>hist := h\<rparr>)
        \<and> written fs cs (unat off) (get_mem (hmem s) src (unat remain)) D D' \<and> unat off' \<le> cluster_size fs)"

lemma fat32_write_loop_chain:
  fixes s :: "'a ide_state_scheme"
  assumes "volume_ok fs" "disk_is D s" "cluster_chain fs (hmem s) (c # cs)" "unat off \<le> cluster_size fs"
    "unat off + unat remain \<le> length (chain_data fs D (c # cs))"
  shows "write_result fs src remain (c # cs) off D s"
  using assms(2-)
proof (induction "unat remain" arbitrary: remain src c cs off s D rule: less_induct)
  case less
  have part: "write_result fs src remain (e # es) o' D s"
    if e: "cluster_chain fs (hmem s) (e # es)" "unat o' < cluster_size fs" "unat o' + unat remain \<le> length (chain_data fs D (e # es))"
      and ne: "remain \<noteq> 0" for e es o'
  proof -
    define chunk where chunk: "chunk = (if remain > 512 - o' mod 512 then 512 - o' mod 512 else remain)"
    note piece = sector_piece[OF assms(1) disk_is_length[OF less.prems(1)] e(2) chunk ne]
    let ?u = "get_mem (hmem s) src (unat chunk)"
    obtain h D1 where h: "fat32_write_loop fs src remain e o' s = fat32_write_loop fs (src + ucast chunk) (remain - chunk) e (o' + chunk) (s\<lparr>hist := h\<rparr>)"
      "disk_is D1 (s\<lparr>hist := h\<rparr>)" "written fs (e # es) (unat o') ?u D D1"
      using fat32_write_loop_step[OF assms(1) less.prems(1) e(1,2) ne chunk, of src] by blast
    have rem: "unat (remain - chunk) = unat remain - unat chunk" using piece(3) by (simp add: unat_sub word_le_nat_alt)
    have "length (chain_data fs D1 (e # es)) = length (chain_data fs D (e # es))"
      using h(3) e(3) piece(3) by (simp add: written_def)
    then have room: "unat (o' + chunk) + unat (remain - chunk) \<le> length (chain_data fs D1 (e # es))"
      unfolding piece(5) rem using e(3) piece(3) by linarith
    have "write_result fs (src + ucast chunk) (remain - chunk) (e # es) (o' + chunk) D1 (s\<lparr>hist := h\<rparr>)"
    proof (rule less.hyps[OF _ h(2) _ _ room])
      show "unat (remain - chunk) < unat remain" using rem piece(2,3) by linarith
      show "cluster_chain fs (hmem (s\<lparr>hist := h\<rparr>)) (e # es)" using e(1) by simp
      show "unat (o' + chunk) \<le> cluster_size fs" using piece(4,5) by linarith
    qed
    then obtain h' c' off' D2 where r: "fat32_write_loop fs (src + ucast chunk) (remain - chunk) e (o' + chunk) (s\<lparr>hist := h\<rparr>)
        = Some (Some (c', off'), s\<lparr>hist := h'\<rparr>)" "disk_is D2 (s\<lparr>hist := h'\<rparr>)"
      "written fs (e # es) (unat o' + unat chunk) (get_mem (hmem s) (src + ucast chunk) (unat remain - unat chunk)) D1 D2" "unat off' \<le> cluster_size fs"
      by (auto simp: write_result_def piece(5) rem)
    have "?u @ get_mem (hmem s) (src + ucast chunk) (unat remain - unat chunk) = get_mem (hmem s) src (unat remain)"
      using get_mem_add[of "hmem s" src "unat chunk" "unat remain - unat chunk"] piece(3) by simp
    then have "written fs (e # es) (unat o') (get_mem (hmem s) src (unat remain)) D D2"
      using written_two[OF h(3), of "get_mem (hmem s) (src + ucast chunk) (unat remain - unat chunk)" D2] r(3) e(3) piece(3) by simp
    then show ?thesis using h(1) r by (auto simp: write_result_def)
  qed
  show ?case
  proof (cases "remain = 0")
    case True
    have "written fs (c # cs) (unat off) [] D D" by (simp add: written_def changes_only_def)
    then show ?thesis using True less.prems(1,3) unfolding write_result_def
      by (intro exI[of _ "hist s"] exI[of _ c] exI[of _ off] exI[of _ D]) (simp add: fat32_write_loop_end get_mem_def)
  next
    case ne: False
    show ?thesis
    proof (cases "unat off < cluster_size fs")
      case True
      then show ?thesis using part[OF less.prems(2) _ less.prems(4) ne] by simp
    next
      case False
      then have full: "unat off = cluster_size fs" using less.prems(3) by simp
      have len: "length (cluster_data fs D c) = cluster_size fs" using length_cluster_data[of D fs c] disk_is_length[OF less.prems(1)] by simp
      have "0 < unat remain" using ne by (simp add: unat_gt_0)
      then obtain d ds where cs: "cs = d # ds" using less.prems(4) len full by (cases cs) (auto simp: chain_data_def)
      have "cluster_chain fs (hmem s) (d # ds)" using less.prems(2) cs by simp
      then have "write_result fs src remain (d # ds) 0 D s"
        using less.prems(4) len full assms(1) cs by (intro part ne) (auto simp: chain_data_Cons volume_ok_def)
      then show ?thesis
        using fat32_write_loop_full[OF assms(1) _ ne full, of s c d ds src] less.prems(2) cs full
          written_next[OF _ less.prems(2) disk_is_length[OF less.prems(1)]]
        by (fastforce simp: write_result_def)
    qed
  qed
qed

section \<open>Writing a file\<close>

lemma fat32_write_chain:
  fixes s :: "'a fat_state_scheme"
  assumes "vols s (file_fs file) = fs" "volume_ok fs" "disk_is D s" "cluster_chain fs (hmem s) (current_cluster file # cs)"
    "unat (file_offset file) \<le> cluster_size fs"
    "unat (file_offset file) + unat sz \<le> length (chain_data fs D (current_cluster file # cs))" "unat sz < 2 ^ 31"
  obtains h f D' where "fat32_write file src sz s = Some ((int (unat sz), f), s\<lparr>hist := h\<rparr>)" "disk_is D' (s\<lparr>hist := h\<rparr>)"
    "written fs (current_cluster file # cs) (unat (file_offset file)) (get_mem (hmem s) src (unat sz)) D D'"
    "file_size f = max (file_size file) (file_offset f)" "unat (file_offset f) \<le> cluster_size fs"
proof -
  have "sint sz = int (unat sz)" using assms(7) by (simp add: sint_small)
  moreover obtain h c off D' where "fat32_write_loop fs src sz (current_cluster file) (file_offset file) s = Some (Some (c, off), s\<lparr>hist := h\<rparr>)"
    "disk_is D' (s\<lparr>hist := h\<rparr>)" "unat off \<le> cluster_size fs"
    "written fs (current_cluster file # cs) (unat (file_offset file)) (get_mem (hmem s) src (unat sz)) D D'"
    using fat32_write_loop_chain[OF assms(2-6), of src] by (auto simp: write_result_def)
  ultimately show ?thesis
    by (intro that[of "file\<lparr>current_cluster := c, file_offset := off, file_size := max (file_size file) off\<rparr>" h D'])
       (auto simp: fat32_write_def assms(1) Let_def max_def)
qed

text \<open>
  C8: Writing into a file whose clusters have room for the bytes returns their number.  The data of the file's clusters is what it was with the
  bytes put at the handle's position, no sector outside these clusters and nothing in memory changes, and reading at the same position
  delivers the bytes that were written.  The new size of the handle is compared with the offset within the last cluster, so it never
  grows beyond one cluster however much is written.
\<close>

theorem fat32_write_correct:
  fixes s :: "'a fat_state_scheme"
  assumes "vols s (file_fs file) = fs" "volume_ok fs" "disk_is D s" "cluster_chain fs (hmem s) (current_cluster file # cs)"
    "unat (file_offset file) < cluster_size fs" "fat_clear fs (current_cluster file # cs) dst (unat sz)" "unat sz < 2 ^ 31"
    "unat (file_offset file) + unat sz \<le> length (chain_data fs D (current_cluster file # cs))"
  shows "\<exists>h h' f g D'. fat32_write file src sz s = Some ((int (unat sz), f), s\<lparr>hist := h\<rparr>) \<and> disk_is D' (s\<lparr>hist := h\<rparr>)
    \<and> chain_data fs D' (current_cluster file # cs)
        = put_bytes (unat (file_offset file)) (get_mem (hmem s) src (unat sz)) (chain_data fs D (current_cluster file # cs))
    \<and> (\<forall>k. D' k \<noteq> D k \<longrightarrow> (\<exists>c\<in>set (current_cluster file # cs). in_cluster fs c k))
    \<and> fat32_read file dst sz (s\<lparr>hist := h\<rparr>)
        = Some ((int (unat sz), g), s\<lparr>hmem := put_mem (hmem s) dst (get_mem (hmem s) src (unat sz)), hist := h'\<rparr>)
    \<and> unat (file_size f) \<le> max (unat (file_size file)) (cluster_size fs)"
proof -
  let ?cs = "current_cluster file # cs" and ?i = "unat (file_offset file)" and ?v = "get_mem (hmem s) src (unat sz)"
  obtain h f D' where w: "fat32_write file src sz s = Some ((int (unat sz), f), s\<lparr>hist := h\<rparr>)" "disk_is D' (s\<lparr>hist := h\<rparr>)"
    "written fs ?cs ?i ?v D D'" "file_size f = max (file_size file) (file_offset f)" "unat (file_offset f) \<le> cluster_size fs"
    using fat32_write_chain[OF assms(1-4) order.strict_implies_order[OF assms(5)] assms(8,7)] .
  have data: "chain_data fs D' ?cs = put_bytes ?i ?v (chain_data fs D ?cs)" using w(3) by (simp add: written_def)
  then have len: "min (unat sz) (length (drop ?i (chain_data fs D' ?cs))) = unat sz" and read: "take (unat sz) (drop ?i (chain_data fs D' ?cs)) = ?v"
    using assms(8) read_put_bytes[of ?i ?v "chain_data fs D ?cs"] by simp_all
  obtain h' c off where r: "fat32_read file dst sz (s\<lparr>hist := h\<rparr>)
      = Some ((int (unat sz), file\<lparr>current_cluster := c, file_offset := off\<rparr>), s\<lparr>hmem := put_mem (hmem s) dst ?v, hist := h'\<rparr>)"
    using fat32_read_chain[of "s\<lparr>hist := h\<rparr>" "file" fs D' cs dst sz] assms(1-7) w(2) unfolding len read by (auto simp: hist_hmem)
  have "unat (file_size f) \<le> max (unat (file_size file)) (cluster_size fs)"
    using w(4,5) by (auto simp: max_def word_le_nat_alt)
  then show ?thesis using w(1,2,3) data r unfolding written_def changes_only_def by blast
qed

text \<open>Writing 600 bytes from address 0x3000 at the start of the example file of two clusters.\<close>

theorem fat32_write_correct_witness:
  "\<exists>t f. fat32_write (file_objs (vfs_example 0 0) 0x700) 0x3000 600 (vfs_example 0 0) = Some ((600, f), t) \<and> unat (file_size f) \<le> 512"
proof -
  have "fat_clear fat_example [3, 2] 0x3000 600"
  proof -
    have "600 \<le> unat (fat fat_example + 4 * ucast c + word_of_nat k - 0x3000)" if "c = 3 \<or> c = 2" "k < 4" for c :: u32 and k :: nat
    proof -
      have "k = 0 \<or> k = 1 \<or> k = 2 \<or> k = 3" using that(2) by linarith
      then show ?thesis using that(1) by (elim disjE) (simp_all add: fat_example_def)
    qed
    then show ?thesis unfolding fat_clear_def by auto
  qed
  moreover have "length (chain_data fat_example sample_disk [3, 2]) = 1024" "cluster_size fat_example = 512"
    using length_chain_data[OF vfs_example_disk, of fat_example "[3, 2]"] by (simp_all add: fat_example_def)
  ultimately show ?thesis
    using fat32_write_correct[of "vfs_example 0 0" "file_objs (vfs_example 0 0) 0x700" fat_example sample_disk "[2]" "0x3000" 600 "0x3000"]
      fat_example_chain fat_example_volume vfs_example_disk[of 0 0]
    by auto
qed

end
