(* ===== verification/Fat32_Open.thy ===== *)
theory Fat32_Open
  imports Fat32_Write Heap_Frame
begin

text \<open>
  Looking up a file in the root directory of a FAT32 volume: the search of the code, through a buffer from the kernel heap and the
  sectors of the disk, against a search in the directory's data.
\<close>

section \<open>Directories\<close>

text \<open>
  A directory is a list of 32-byte entries; a zero byte ends a cluster's entries, deleted entries and parts of long names do
  not count, and a file is found by its short name.
\<close>

definition entries :: "u8 list \<Rightarrow> u8 list list" where
  "entries data = map (\<lambda>i. take 32 (drop (32 * i) data)) [0..<length data div 32]"

fun dir_find :: "u8 list \<Rightarrow> u8 list list \<Rightarrow> u8 list option" where
  "dir_find target [] = None"
| "dir_find target (e # es) =
     (if e ! 0 = 0 then None
      else if e ! 0 \<noteq> 0xE5 \<and> e ! 11 \<noteq> 0x0F \<and> map upcase (take 11 e) = target then Some e
      else dir_find target es)"

fun dir_lookup :: "u8 list \<Rightarrow> u8 list list \<Rightarrow> u8 list option" where
  "dir_lookup target [] = None"
| "dir_lookup target (data # ds) =
     (case dir_find target (entries data) of None \<Rightarrow> dir_lookup target ds | Some e \<Rightarrow> Some e)"

definition entry_cluster :: "u8 list \<Rightarrow> u32" where
  "entry_cluster e = ucast (get16 e 26) OR push_bit 16 (ucast (get16 e 20))"

section \<open>One cluster\<close>

lemma disk_read_from_ata:
  assumes "disk_is D s" "unat lba + i + n \<le> 2 ^ 28" "(i + n) * 512 < 2 ^ 32"
  shows "\<exists>h. disk_read_from lba buf (word_of_nat i) n s = Some (0, s\<lparr>hmem := put_mem (hmem s) (buf + word_of_nat (i * 512))
      (concat (map (\<lambda>j. D (unat lba + j)) [i..<i + n])), hist := h\<rparr>) \<and> disk_is D (s\<lparr>hist := h\<rparr>)"
  using assms
proof (induction n arbitrary: i s)
  case 0
  have "s = s\<lparr>hmem := hmem s, hist := hist s\<rparr>" by simp
  then show ?case using 0 by (intro exI[of _ "hist s"]) simp
next
  case (Suc n)
  have i: "unat (word_of_nat i :: u32) = i" "unat (word_of_nat i * 512 :: u32) = i * 512"
    using Suc.prems(3) by (simp_all add: unat_word_ariths unsigned_of_nat take_bit_nat_eq_self)
  have l: "unat (lba + word_of_nat i) = unat lba + i"
    using Suc.prems(2) i by (subst unat_add_lem[THEN iffD1]) simp_all
  have off: "ucast (word_of_nat i * 512 :: u32) = (word_of_nat (i * 512) :: u64)"
    by (intro word64_eqI) (use i Suc.prems(3) in \<open>simp add: unsigned_ucast_eq unat_of_nat64 take_bit_nat_eq_self del: of_nat_mult\<close>)
  have len: "length (D (unat lba + i)) = 512" using disk_is_length[OF Suc.prems(1)] .
  obtain h where h: "ide_read_sector (lba + word_of_nat i) s = Some (Some (D (unat lba + i)), s\<lparr>hist := h\<rparr>)" "disk_is D (s\<lparr>hist := h\<rparr>)"
    using ide_read_sector_ata[OF Suc.prems(1), of "lba + word_of_nat i"] Suc.prems(2) unfolding l by auto
  define m where "m = put_mem (hmem s) (buf + word_of_nat (i * 512)) (D (unat lba + i))"
  let ?rest = "concat (map (\<lambda>j. D (unat lba + j)) [i + 1..<i + 1 + n])"
  obtain h' where h': "disk_read_from lba buf (word_of_nat (i + 1)) n (s\<lparr>hmem := m, hist := h\<rparr>)
      = Some (0, s\<lparr>hmem := put_mem m (buf + word_of_nat ((i + 1) * 512)) ?rest, hist := h'\<rparr>)" "disk_is D (s\<lparr>hist := h'\<rparr>)"
    using Suc.IH[of "s\<lparr>hmem := m, hist := h\<rparr>" "i + 1"] h(2) Suc.prems(2,3) by auto
  have "length ?rest = n * 512"
    using disk_is_length[OF Suc.prems(1)] by (subst length_concat_same[where k = 512]) (auto simp: mult.commute simp del: upt_Suc)
  then have mem: "put_mem m (buf + word_of_nat (i * 512) + word_of_nat (length (D (unat lba + i)))) ?rest
      = put_mem (hmem s) (buf + word_of_nat (i * 512)) (D (unat lba + i) @ ?rest)"
    unfolding m_def using Suc.prems(3) len by (intro put_mem_append) simp
  have addr: "buf + word_of_nat (i * 512) + word_of_nat (length (D (unat lba + i))) = buf + word_of_nat ((i + 1) * 512)"
    using len by (simp add: algebra_simps)
  have step: "disk_read_from lba buf (word_of_nat i) (Suc n) s = disk_read_from lba buf (word_of_nat (i + 1)) n (s\<lparr>hmem := m, hist := h\<rparr>)"
    using h(1) off by (simp add: m_def hist_hmem add.commute)
  have list: "map (\<lambda>j. D (unat lba + j)) [i..<i + Suc n] = D (unat lba + i) # map (\<lambda>j. D (unat lba + j)) [i + 1..<i + 1 + n]"
    by (simp add: upt_conv_Cons del: upt_Suc)
  show ?case
    unfolding step list concat.simps mem[unfolded addr, symmetric] using h' by (intro exI[of _ h'] conjI)
qed

lemma disk_read_cluster:
  assumes "volume_ok fs" "disk_is D s" "2 \<le> c" "c < total_clusters fs + 2"
  shows "\<exists>h. disk_read (cluster_to_lba fs c) (sectors_per_cluster fs) buf s = Some (0, s\<lparr>hmem := put_mem (hmem s) buf (cluster_data fs D c), hist := h\<rparr>)
    \<and> disk_is D (s\<lparr>hist := h\<rparr>)"
proof -
  have "unat (0 :: u32) < cluster_size fs" using assms(1) by (simp add: volume_ok_def)
  from sector_of_offset(1)[OF assms(1,3,4) this] have l: "unat (cluster_to_lba fs c) = first_sector fs c" by simp
  have "first_sector fs c + unat (sectors_per_cluster fs) \<le> 2 ^ 28" using data_cluster(3)[OF assms(1,3,4)] .
  then show ?thesis
    using disk_read_from_ata[OF assms(2), of "cluster_to_lba fs c" 0 "unat (sectors_per_cluster fs)" buf] assms(1)
    by (simp add: disk_read_def l cluster_data_def volume_ok_def)
qed

section \<open>The entries of a cluster\<close>

text \<open>The bytes of the buffer are those of the data.\<close>

definition holds_data :: "memory \<Rightarrow> u64 \<Rightarrow> u8 list \<Rightarrow> bool" where
  "holds_data m buf data \<longleftrightarrow> (\<forall>i < length data. m (buf + word_of_nat i) = data ! i)"

lemma holds_put_mem: "length data < 18446744073709551616 \<Longrightarrow> holds_data (put_mem m buf data) buf data"
  by (simp add: holds_data_def put_mem_at)

lemma entry_byte:
  assumes "holds_data m buf data" "i < length data div 32" "j < 32"
  shows "m (dirent buf i + word_of_nat j) = entries data ! i ! j" "length (entries data ! i) = 32"
proof -
  have "32 * i + 32 \<le> length data" using assms(2) by (simp add: less_eq_div_iff_mult_less_eq Suc_le_eq[symmetric])
  moreover have "dirent buf i + word_of_nat j = buf + word_of_nat (32 * i + j)" by (simp add: dirent_def add.assoc)
  moreover have "32 * i + j < length data" using \<open>32 * i + 32 \<le> length data\<close> assms(3) by simp
  ultimately show "m (dirent buf i + word_of_nat j) = entries data ! i ! j" "length (entries data ! i) = 32"
    using assms(1)[unfolded holds_data_def, rule_format, of "32 * i + j"] assms(2,3)
    by (simp_all add: entries_def del: of_nat_add of_nat_mult)
qed

lemma name_matches_entry:
  assumes "holds_data m buf data" "i < length data div 32" "length target = 11"
  shows "name_matches target m (dirent buf i) \<longleftrightarrow> map upcase (take 11 (entries data ! i)) = target"
proof -
  have "m (dirent buf i + word_of_nat j) = entries data ! i ! j" if "j < 11" for j using entry_byte(1)[OF assms(1,2), of j] that by simp
  then show ?thesis using entry_byte(2)[OF assms(1,2), of 0] assms(3) by (auto simp: name_matches_def list_eq_iff_nth_eq)
qed

lemma dir_scan_entries:
  assumes "holds_data m buf data" "length target = 11" "i + n = length data div 32"
  shows "map_option (\<lambda>j. entries data ! j) (dir_scan (name_matches target) m buf i n) = dir_find target (drop i (entries data))"
    "dir_scan (name_matches target) m buf i n = Some j \<Longrightarrow> j < length data div 32"
proof -
  have "map_option (\<lambda>j. entries data ! j) (dir_scan (name_matches target) m buf i n) = dir_find target (drop i (entries data))
      \<and> (\<forall>j. dir_scan (name_matches target) m buf i n = Some j \<longrightarrow> j < length data div 32)"
    using assms(3)
  proof (induction n arbitrary: i)
    case 0
    then have "drop i (entries data) = []" by (simp add: entries_def)
    then show ?case by simp
  next
    case (Suc n)
    have i: "i < length data div 32" using Suc.prems by simp
    have "i < length (entries data)" using i by (simp add: entries_def)
    then have d: "drop i (entries data) = entries data ! i # drop (i + 1) (entries data)" by (simp add: Cons_nth_drop_Suc)
    have "m (dirent buf i) = entries data ! i ! 0" "m (dirent buf i + 11) = entries data ! i ! 11"
      using entry_byte(1)[OF assms(1) i, of 0] entry_byte(1)[OF assms(1) i, of 11] by simp_all
    then show ?case
      using Suc.IH[of "i + 1"] Suc.prems i name_matches_entry[OF assms(1) i assms(2)] unfolding d by (auto simp: Let_def)
  qed
  then show "map_option (\<lambda>j. entries data ! j) (dir_scan (name_matches target) m buf i n) = dir_find target (drop i (entries data))"
    "dir_scan (name_matches target) m buf i n = Some j \<Longrightarrow> j < length data div 32" by auto
qed

section \<open>The search\<close>

lemma put_mem_again: "length xs = length ys \<Longrightarrow> put_mem (put_mem m p xs) p ys = put_mem m p ys"
  by (auto simp: put_mem_def fun_eq_iff)

lemma dir_search_end: "FAT_EOF \<le> c \<Longrightarrow> dir_search hit fs buf c s = Some (None, s)"
  by (subst dir_search.simps) (auto simp: not_less[symmetric])

text \<open>
  What a search finds: nothing, or a place whose entry, still in the buffer, is the one a search in the directory's data finds.
\<close>

definition search_result :: "u8 list option \<Rightarrow> u64 \<Rightarrow> (u32 \<times> nat) option \<Rightarrow> memory \<Rightarrow> bool" where
  "search_result found buf r m \<longleftrightarrow> (case r of None \<Rightarrow> found = None
     | Some (c, i) \<Rightarrow> (\<exists>e. found = Some e \<and> length e = 32 \<and> (\<forall>j < 32. m (dirent buf i + word_of_nat j) = e ! j)))"

text \<open>One round of the search reads a cluster into the buffer and scans its entries.\<close>

lemma dir_search_round:
  fixes s :: "'a ide_state_scheme"
  assumes "volume_ok fs" "disk_is D s" "cluster_chain fs (hmem s) (c # cs)" "fat_clear fs (c # cs) buf (cluster_size fs)" "length target = 11"
  defines "m \<equiv> put_mem (hmem s) buf (cluster_data fs D c)"
  shows "\<exists>h. disk_is D (s\<lparr>hist := h\<rparr>) \<and> cluster_chain fs m (c # cs) \<and> length (cluster_data fs D c) = cluster_size fs
    \<and> (\<forall>e. dir_find target (entries (cluster_data fs D c)) = Some e \<longrightarrow>
         (\<exists>i. dir_search (name_matches target) fs buf c s = Some (Some (c, i), s\<lparr>hmem := m, hist := h\<rparr>) \<and> search_result (Some e) buf (Some (c, i)) m))
    \<and> (dir_find target (entries (cluster_data fs D c)) = None \<longrightarrow>
         dir_search (name_matches target) fs buf c s = dir_search (name_matches target) fs buf (fat_next_cluster fs c m) (s\<lparr>hmem := m, hist := h\<rparr>))"
proof -
  let ?data = "cluster_data fs D c"
  have c: "2 \<le> c" "c < total_clusters fs + 2" "c < FAT_EOF" using cluster_chain_in[OF assms(3), of c] by auto
  obtain h where h: "disk_read (cluster_to_lba fs c) (sectors_per_cluster fs) buf s = Some (0, s\<lparr>hmem := m, hist := h\<rparr>)" "disk_is D (s\<lparr>hist := h\<rparr>)"
    using disk_read_cluster[OF assms(1,2) c(1,2), of buf] unfolding m_def by blast
  have len: "length ?data = cluster_size fs" using length_cluster_data[of D fs c] disk_is_length[OF assms(2)] by simp
  have small: "cluster_size fs \<le> 130560" using assms(1) by (simp add: volume_ok_def)
  have data: "holds_data m buf ?data" unfolding m_def using small len by (intro holds_put_mem) linarith
  have n: "dir_count fs = length ?data div 32" using len unat_cluster_bytes[OF assms(1)] by (simp add: dir_count_def)
  have chain: "cluster_chain fs m (c # cs)" unfolding m_def using len by (intro chain_clear[OF assms(3,4)]) simp
  have loop: "dir_search (name_matches target) fs buf c s = (case dir_scan (name_matches target) m buf 0 (dir_count fs) of
      Some i \<Rightarrow> Some (Some (c, i), s\<lparr>hmem := m, hist := h\<rparr>)
    | None \<Rightarrow> dir_search (name_matches target) fs buf (fat_next_cluster fs c m) (s\<lparr>hmem := m, hist := h\<rparr>))"
    using c by (subst dir_search.simps) (simp add: h(1) split: option.split)
  have scan: "map_option (\<lambda>j. entries ?data ! j) (dir_scan (name_matches target) m buf 0 (dir_count fs)) = dir_find target (entries ?data)"
    using dir_scan_entries(1)[OF data assms(5), of 0 "dir_count fs"] n by simp
  show ?thesis
  proof (intro exI[of _ h] conjI allI impI h(2) chain len)
    fix e assume "dir_find target (entries ?data) = Some e"
    then obtain i where i: "dir_scan (name_matches target) m buf 0 (dir_count fs) = Some i" "entries ?data ! i = e" using scan by auto
    have "i < length ?data div 32" using dir_scan_entries(2)[OF data assms(5) _ i(1)] n by simp
    then have "search_result (Some e) buf (Some (c, i)) m" using entry_byte(1)[OF data] entry_byte(2)[OF data, of i 0] i(2) by (auto simp: search_result_def)
    then show "\<exists>i. dir_search (name_matches target) fs buf c s = Some (Some (c, i), s\<lparr>hmem := m, hist := h\<rparr>) \<and> search_result (Some e) buf (Some (c, i)) m"
      using loop i(1) by auto
  next
    assume "dir_find target (entries ?data) = None"
    then show "dir_search (name_matches target) fs buf c s = dir_search (name_matches target) fs buf (fat_next_cluster fs c m) (s\<lparr>hmem := m, hist := h\<rparr>)"
      using loop scan by simp
  qed
qed

lemma dir_search_chain:
  fixes s :: "'a ide_state_scheme"
  assumes "volume_ok fs" "disk_is D s" "cluster_chain fs (hmem s) (c # cs)" "fat_clear fs (c # cs) buf (cluster_size fs)" "length target = 11"
  shows "\<exists>h bs r. dir_search (name_matches target) fs buf c s = Some (r, s\<lparr>hmem := put_mem (hmem s) buf bs, hist := h\<rparr>)
    \<and> length bs = cluster_size fs \<and> disk_is D (s\<lparr>hist := h\<rparr>)
    \<and> search_result (dir_lookup target (map (cluster_data fs D) (c # cs))) buf r (put_mem (hmem s) buf bs)"
  using assms(2-4)
proof (induction cs arbitrary: c s)
  case (Nil c s)
  let ?m = "put_mem (hmem s) buf (cluster_data fs D c)"
  obtain h where h: "disk_is D (s\<lparr>hist := h\<rparr>)" "cluster_chain fs ?m [c]" "length (cluster_data fs D c) = cluster_size fs"
    "\<forall>e. dir_find target (entries (cluster_data fs D c)) = Some e \<longrightarrow>
      (\<exists>i. dir_search (name_matches target) fs buf c s = Some (Some (c, i), s\<lparr>hmem := ?m, hist := h\<rparr>) \<and> search_result (Some e) buf (Some (c, i)) ?m)"
    "dir_find target (entries (cluster_data fs D c)) = None \<longrightarrow>
      dir_search (name_matches target) fs buf c s = dir_search (name_matches target) fs buf (fat_next_cluster fs c ?m) (s\<lparr>hmem := ?m, hist := h\<rparr>)"
    using dir_search_round[OF assms(1) Nil assms(5)] by (elim exE conjE)
  have eof: "FAT_EOF \<le> fat_next_cluster fs c ?m" using chain_next(2)[OF h(2)] by simp
  show ?case
  proof (cases "dir_find target (entries (cluster_data fs D c))")
    case None
    have "dir_search (name_matches target) fs buf c s = Some (None, s\<lparr>hmem := ?m, hist := h\<rparr>)" using h(5)[rule_format, OF None] unfolding dir_search_end[OF eof] .
    then show ?thesis using h(1,3) None
      by (intro exI[of _ h] exI[of _ "cluster_data fs D c"] exI[of _ None]) (simp add: search_result_def)
  next
    case (Some e)
    then show ?thesis using h(1,3) h(4)[rule_format, OF Some] by auto
  qed
next
  case (Cons d ds c s)
  let ?m = "put_mem (hmem s) buf (cluster_data fs D c)"
  obtain h where h: "disk_is D (s\<lparr>hist := h\<rparr>)" "cluster_chain fs ?m (c # d # ds)" "length (cluster_data fs D c) = cluster_size fs"
    "\<forall>e. dir_find target (entries (cluster_data fs D c)) = Some e \<longrightarrow>
      (\<exists>i. dir_search (name_matches target) fs buf c s = Some (Some (c, i), s\<lparr>hmem := ?m, hist := h\<rparr>) \<and> search_result (Some e) buf (Some (c, i)) ?m)"
    "dir_find target (entries (cluster_data fs D c)) = None \<longrightarrow>
      dir_search (name_matches target) fs buf c s = dir_search (name_matches target) fs buf (fat_next_cluster fs c ?m) (s\<lparr>hmem := ?m, hist := h\<rparr>)"
    using dir_search_round[OF assms(1) Cons.prems assms(5)] by (elim exE conjE)
  have nxt: "fat_next_cluster fs c ?m = d" "cluster_chain fs ?m (d # ds)" using chain_next(1)[OF h(2), of d ds] by auto
  show ?case
  proof (cases "dir_find target (entries (cluster_data fs D c))")
    case None
    have "fat_clear fs (d # ds) buf (cluster_size fs)" by (rule fat_clear_subset[OF Cons.prems(3)]) auto
    with Cons.IH[of "s\<lparr>hmem := ?m, hist := h\<rparr>" d] h(1) nxt(2)
    obtain h' bs r where r: "dir_search (name_matches target) fs buf d (s\<lparr>hmem := ?m, hist := h\<rparr>)
        = Some (r, s\<lparr>hmem := put_mem ?m buf bs, hist := h'\<rparr>)" "length bs = cluster_size fs" "disk_is D (s\<lparr>hist := h'\<rparr>)"
      "search_result (dir_lookup target (map (cluster_data fs D) (d # ds))) buf r (put_mem ?m buf bs)" by auto
    have "put_mem ?m buf bs = put_mem (hmem s) buf bs" using r(2) h(3) by (intro put_mem_again) simp
    then show ?thesis using r h(5)[rule_format, OF None] nxt(1) None by auto
  next
    case (Some e)
    then show ?thesis using h(1,3) h(4)[rule_format, OF Some] by auto
  qed
qed

section \<open>Opening a file\<close>

text \<open>The allocation table entries of the given clusters lie in a live block of the heap.\<close>

definition fat_live :: "blocks \<Rightarrow> fat32_fs_t \<Rightarrow> u32 list \<Rightarrow> bool" where
  "fat_live B fs cs \<longleftrightarrow> (\<exists>a w. B a = Some (w, True)
     \<and> (\<forall>c\<in>set cs. a \<le> unat (fat fs) + 4 * unat c \<and> unat (fat fs) + 4 * unat c + 4 \<le> a + w))"

text \<open>Memory that the heap hands out is apart from the table, and handing it out does not change the table.\<close>

lemma kmalloc_fat:
  assumes inv: "heap_inv s B fl" and live: "fat_live B fs cs" and r: "alloc_result s B sz p t B'" "heap_inv t B' fl'" "p \<noteq> 0"
  shows "fat_clear fs cs p (unat sz)" "c \<in> set cs \<Longrightarrow> fat_entry fs c (hmem t) = fat_entry fs c (hmem s)"
proof -
  obtain a w where a: "B a = Some (w, True)"
    and tab: "\<And>c. c \<in> set cs \<Longrightarrow> a \<le> unat (fat fs) + 4 * unat c \<and> unat (fat fs) + 4 * unat c + 4 \<le> a + w"
    using live by (auto simp: fat_live_def)
  obtain b y where b: "unat p = b + 32" "B' b = Some (y, True)" "\<forall>z. B b \<noteq> Some (z, True)" "unat sz + 48 \<le> y"
    using r(1,3) by (auto simp: alloc_result_def)
  have a': "B' a = Some (w, True)" "\<And>x. a \<le> unat x \<Longrightarrow> unat x < a + w \<Longrightarrow> hmem t x = hmem s x"
    using r(1) a by (auto simp: alloc_result_def)
  have "a \<noteq> b" using a b(3) by auto
  then have disj: "a + w \<le> b \<or> b + y \<le> a" using layout_disjoint[OF heap_invD(2)[OF r(2)] a'(1) b(2)] by simp
  have top: "a + w < 18446744073709551616" "b + y < 18446744073709551616"
    using layoutD(2)[OF heap_invD(2)[OF r(2)] a'(1)] layoutD(2)[OF heap_invD(2)[OF r(2)] b(2)] heap_boundsD(1)[OF heap_invD(1)[OF r(2)]] by linarith+
  have addr: "unat (fat fs + 4 * ucast c + word_of_nat k) = unat (fat fs) + 4 * unat c + k" if "c \<in> set cs" "k < 4" for c :: u32 and k
  proof -
    have "unat (fat fs) + unat (4 * ucast c + word_of_nat k :: u64) < 18446744073709551616"
      unfolding fat_byte_unat[OF that(2)] using tab[OF that(1)] top(1) that(2) by linarith
    then show ?thesis unfolding add.assoc by (simp only: unat_add64 fat_byte_unat[OF that(2)])
  qed
  show "fat_clear fs cs p (unat sz)"
    unfolding fat_clear_def
  proof (intro ballI allI impI)
    fix c k assume c: "c \<in> set cs" "k < (4 :: nat)"
    let ?x = "fat fs + 4 * ucast c + word_of_nat k"
    show "unat sz \<le> unat (?x - p)"
    proof (cases "p \<le> ?x")
      case True
      then have "unat (?x - p) = unat ?x - unat p" by (simp add: unat_sub)
      moreover have "b + y \<le> a" using disj addr[OF c] tab[OF c(1)] b(1) True c(2) by (auto simp: word_le_nat_alt)
      ultimately show ?thesis using addr[OF c] tab[OF c(1)] b(1,4) by linarith
    next
      case False
      then have "unat ?x < unat p" by (simp add: word_le_nat_alt)
      then have "unat (?x - p) = 18446744073709551616 + unat ?x - unat p" by (simp add: unat_sub_if')
      then show ?thesis using b(1,4) top(2) by linarith
    qed
  qed
  show "fat_entry fs c (hmem t) = fat_entry fs c (hmem s)" if "c \<in> set cs"
    unfolding fat_entry_def
  proof (rule load32_cong)
    fix k :: nat assume "k < 4"
    then show "hmem t (fat fs + 4 * ucast c + word_of_nat k) = hmem s (fat fs + 4 * ucast c + word_of_nat k)"
      using addr[OF that] tab[OF that] by (intro a'(2)) auto
  qed
qed

lemma disk_is_heap_rest: "heap_rest t = heap_rest s \<Longrightarrow> disk_is D t = disk_is D (s :: 'a ide_state_scheme)"
  by (subst heap_rest_fields[of t s]) (simp_all add: disk_is_def)

lemma entry_fields:
  assumes "\<forall>j < 32. m (p + word_of_nat j) = e ! j"
  shows "dirent_cluster m p = entry_cluster e" "load32 m (p + 28) = get32 e 28"
proof -
  have b: "m (p + 20) = e ! 20" "m (p + 21) = e ! 21" "m (p + 26) = e ! 26" "m (p + 27) = e ! 27"
    "m (p + 28) = e ! 28" "m (p + 29) = e ! 29" "m (p + 30) = e ! 30" "m (p + 31) = e ! 31"
    using assms[rule_format, of 20] assms[rule_format, of 21] assms[rule_format, of 26] assms[rule_format, of 27]
      assms[rule_format, of 28] assms[rule_format, of 29] assms[rule_format, of 30] assms[rule_format, of 31] by simp_all
  then show "dirent_cluster m p = entry_cluster e" "load32 m (p + 28) = get32 e 28"
    by (simp_all add: dirent_cluster_def entry_cluster_def load32_def load16_def get32_def get16_def add.assoc)
qed

text \<open>
  C6: On a consistent heap that holds the allocation table in a live block, opening a file returns for every name.  It fails without touching
  the handle when the root directory does not list the name, or when no buffer could be allocated; otherwise the handle
  gets the first cluster and the size of the directory entry that a search in the data of the directory's clusters finds
  first, and stands at the start of the file.  The disk is not changed.
\<close>

theorem fat32_open_correct:
  fixes s :: "'a fat_state_scheme"
  assumes "heap_inv s B fl" "vols s fsp = fs" "volume_ok fs" "disk_is D s" "cluster_chain fs (hmem s) (root_cluster fs # cs)"
    "fat_live B fs (root_cluster fs # cs)"
  shows "\<exists>r f t. fat32_open fsp name file s = Some ((r, f), t) \<and> disk_is D t
    \<and> (case dir_lookup (to_short name) (map (cluster_data fs D) (root_cluster fs # cs)) of
         None \<Rightarrow> r = -1 \<and> f = file
       | Some e \<Rightarrow> r = -1 \<and> f = file \<and> (\<exists>u. kmalloc (ucast (cluster_bytes fs)) s = Some (0, u))
           \<or> r = 0 \<and> f = file\<lparr>file_fs := fsp, start_cluster := entry_cluster e, current_cluster := entry_cluster e,
                               file_size := get32 e 28, file_offset := 0\<rparr>)"
proof -
  let ?cs = "root_cluster fs # cs" and ?n = "ucast (cluster_bytes fs) :: u64"
  obtain p u B' fl' where k: "kmalloc ?n s = Some (p, u)" "heap_inv u B' fl'" "alloc_result s B ?n p u B'"
    using kmalloc_spec[OF assms(1), of ?n] by blast
  note rest = heap_rest_kmalloc[OF k(1)]
  have u: "disk_is D u" using disk_is_heap_rest[OF rest] assms(4) by simp
  show ?thesis
  proof (cases "p = 0")
    case True
    then have "fat32_open fsp name file s = Some ((-1, file), u)" using k(1) by (simp add: fat32_open_def assms(2) Let_def)
    then show ?thesis using True k(1) u by (auto split: option.split)
  next
    case False
    have n: "unat ?n = cluster_size fs" using unat_cluster_bytes[OF assms(3)] assms(3) by (simp add: unsigned_ucast_eq take_bit_nat_eq_self volume_ok_def)
    note table = kmalloc_fat[OF assms(1,6) k(3,2) False, unfolded n]
    have "cluster_chain fs (hmem u) ?cs" using assms(5) table(2) by (subst cluster_chain_cong) auto
    then obtain h bs r where d: "dir_search (name_matches (to_short name)) fs p (root_cluster fs) u
        = Some (r, u\<lparr>hmem := put_mem (hmem u) p bs, hist := h\<rparr>)" "disk_is D (u\<lparr>hist := h\<rparr>)"
      "search_result (dir_lookup (to_short name) (map (cluster_data fs D) ?cs)) p r (put_mem (hmem u) p bs)"
      using dir_search_chain[OF assms(3) u _ table(1), of "to_short name"] to_short_correct[of name] by auto
    let ?t = "u\<lparr>hmem := put_mem (hmem u) p bs, hist := h\<rparr>"
    have t: "disk_is D (kfree p ?t)" using d(2) by (simp add: disk_is_heap_rest[OF heap_rest_kfree])
    show ?thesis
    proof (cases r)
      case None
      then have "fat32_open fsp name file s = Some ((-1, file), kfree p ?t)" using k(1) d(1) False by (simp add: fat32_open_def assms(2) Let_def)
      then show ?thesis using t d(3) None by (auto simp: search_result_def)
    next
      case (Some ci)
      obtain c i where ci: "ci = (c, i)" by (cases ci)
      obtain e where e: "dir_lookup (to_short name) (map (cluster_data fs D) ?cs) = Some e"
        "\<forall>j < 32. put_mem (hmem u) p bs (dirent p i + word_of_nat j) = e ! j"
        using d(3) Some ci by (auto simp: search_result_def)
      have "fat32_open fsp name file s = Some ((0, file\<lparr>file_fs := fsp, start_cluster := entry_cluster e, current_cluster := entry_cluster e,
          file_size := get32 e 28, file_offset := 0\<rparr>), kfree p ?t)"
        using k(1) d(1) False Some ci entry_fields[OF e(2)] by (simp add: fat32_open_def assms(2) Let_def)
      then show ?thesis using t e(1) by auto
    qed
  qed
qed

text \<open>
  An example: the table of \<open>fat_example\<close> in a block of the example heap, with cluster 2 as the only cluster of the root directory;
  its sector is full of entries with the name of eight and three opening parentheses.
\<close>

definition open_example :: "u64 \<Rightarrow> heap_state \<Rightarrow> vfs_state" where
  "open_example p s = (vfs_example 0 0)\<lparr>hmem := put_mem (hmem s) (p + 4 * ucast (2 :: u32)) (bytes32 0x0FFFFFFF), heap_start := heap_start s,
     heap_max_size := heap_max_size s, heap_mapped_size := heap_mapped_size s, free_list_head := free_list_head s,
     vols := (\<lambda>_. fat_example\<lparr>fat := p\<rparr>)\<rparr>"

lemma open_example_inv:
  assumes "heap_inv s B fl" "B a = Some (w, True)" "unat p = a + 32" "148 \<le> w"
  shows "heap_inv (open_example p s) B fl" "fat_live B (fat_example\<lparr>fat := p\<rparr>) [2]"
proof -
  have top: "a + w < 18446744073709551616"
    using layoutD(2)[OF heap_invD(2)[OF assms(1)] assms(2)] heap_boundsD(1)[OF heap_invD(1)[OF assms(1)]] by linarith
  have e: "unat (p + 4 * ucast (2 :: u32)) = a + 40" using assms(3,4) top by (subst unat_add64) simp_all
  have "heap_inv (s\<lparr>hmem := put_mem (hmem s) (p + 4 * ucast (2 :: u32)) (bytes32 0x0FFFFFFF)\<rparr>) B fl"
  proof (rule payload_write_inv[OF assms(1,2)])
    fix x :: u64 assume x: "\<not> (a + 32 \<le> unat x \<and> unat x < a + w - 16)"
    have "\<not> unat (x - (p + 4 * ucast (2 :: u32))) < 4"
    proof
      assume near: "unat (x - (p + 4 * ucast (2 :: u32))) < 4"
      then have "unat (p + 4 * ucast (2 :: u32)) + unat (x - (p + 4 * ucast (2 :: u32))) < 18446744073709551616" using e top assms(4) by linarith
      then have "unat x = a + 40 + unat (x - (p + 4 * ucast (2 :: u32)))" using unat_add64[of "p + 4 * ucast (2 :: u32)" "x - (p + 4 * ucast (2 :: u32))"] e by simp
      then show False using x near assms(4) by linarith
    qed
    then show "put_mem (hmem s) (p + 4 * ucast (2 :: u32)) (bytes32 0x0FFFFFFF) x = hmem s x" by (intro put_mem_other) simp
  qed
  then show "heap_inv (open_example p s) B fl"
    by (subst heap_inv_cong[of _ "s\<lparr>hmem := put_mem (hmem s) (p + 4 * ucast (2 :: u32)) (bytes32 0x0FFFFFFF)\<rparr>"]) (simp_all add: open_example_def)
  show "fat_live B (fat_example\<lparr>fat := p\<rparr>) [2]"
    unfolding fat_live_def using assms by (intro exI[of _ a] exI[of _ w]) simp
qed

theorem fat32_open_correct_witness:
  "\<exists>(s :: vfs_state) r f t. fat32_open 0x500 (replicate 8 0x28 @ 0x2E # replicate 3 0x28) (file_objs s 0) s = Some ((r, f), t)
    \<and> (r = 0 \<and> file_size f = 0x28282828 \<or> r = -1)"
proof -
  obtain p u B fl where k: "heap_inv u B fl" "alloc_result heap_example [unat VMM_HEAP_BASE \<mapsto> (4096, False)] 100 p u B" "p \<noteq> 0"
  proof -
    have "block_total 100 = 160" by (simp add: block_total_def)
    then show thesis using kmalloc_spec[OF heap_example_inv, of 100] that by auto
  qed
  then obtain a w where a: "unat p = a + 32" "B a = Some (w, True)" "148 \<le> w" by (auto simp: alloc_result_def)
  let ?s = "open_example p u" and ?fs = "fat_example\<lparr>fat := p\<rparr>"
  let ?name = "replicate 8 0x28 @ 0x2E # replicate 3 0x28 :: u8 list"
  note inv = open_example_inv[OF k(1) a(2,1,3)]
  have ok: "volume_ok ?fs" and root: "root_cluster ?fs = 2" by (simp_all add: volume_ok_def fat_example_def)
  have disk: "disk_is sample_disk ?s" using vfs_example_disk[of 0 0] by (simp add: open_example_def disk_is_def)
  have chain: "cluster_chain ?fs (hmem ?s) [2]"
    by (simp add: fat_entry_def open_example_def load32_put_same[of "hmem u" "p + 8", simplified]) (simp add: fat_example_def)
  have vol: "vols ?s 0x500 = ?fs" by (simp add: open_example_def)
  have found: "dir_lookup (to_short ?name) (map (cluster_data ?fs sample_disk) [2]) = Some (replicate 32 0x28)"
  proof -
    have up: "upcase 0x28 = 0x28" by (simp add: upcase_def)
    have "0x2E \<notin> set (replicate 8 0x28 :: u8 list) \<and> length (replicate 8 0x28 :: u8 list) \<le> 8 \<and> length (replicate 3 0x28 :: u8 list) \<le> 3" by simp
    then have "to_short ?name = pad 8 (map upcase (replicate 8 0x28)) @ pad 3 (map upcase (replicate 3 0x28))"
      using to_short_correct[of ?name] by blast
    then have short: "to_short ?name = replicate 11 0x28" by (simp add: pad_def up replicate_add[symmetric])
    have data: "cluster_data ?fs sample_disk 2 = replicate 512 0x28"
      by (simp add: cluster_data_def first_sector_def sample_disk_def fat_example_def)
    have "entries (replicate 512 0x28) = map (\<lambda>i. take 32 (drop (32 * i) (replicate 512 0x28))) (0 # [1..<16])"
      by (simp add: entries_def upt_conv_Cons)
    then have "dir_find (replicate 11 0x28) (entries (replicate 512 0x28)) = Some (replicate 32 (0x28 :: u8))"
      by (simp add: up del: upt_Suc)
    then show ?thesis unfolding short by (simp add: data)
  qed
  have "get32 (replicate 32 0x28) 28 = 0x28282828" by (simp add: get32_def get16_def)
  moreover obtain r f t where o: "fat32_open 0x500 ?name (file_objs ?s 0) ?s = Some ((r, f), t)"
    "r = -1 \<or> r = 0 \<and> f = (file_objs ?s 0)\<lparr>file_fs := 0x500, start_cluster := entry_cluster (replicate 32 0x28),
       current_cluster := entry_cluster (replicate 32 0x28), file_size := get32 (replicate 32 0x28) 28, file_offset := 0\<rparr>"
    using fat32_open_correct[OF inv(1) vol ok disk, of "[]" ?name "file_objs ?s 0", unfolded root, OF chain inv(2), unfolded found option.case]
    by blast
  ultimately have "r = 0 \<and> file_size f = 0x28282828 \<or> r = -1" by auto
  then show ?thesis using o(1) by blast
qed

end
