(* ===== verification/File_Frame.thy ===== *)
theory File_Frame
  imports Syscall
begin

text \<open>
  What the file operations leave alone.  The disk driver, the clock and the file system change memory, the heap, the
  console and the history of device accesses; everything the state is extended with above the machine, in particular
  processes, the ready queue, mounted volumes and descriptors, is the same afterwards.
\<close>

abbreviation upper :: "'a machine_scheme \<Rightarrow> 'a" where
  "upper \<equiv> machine.more"

lemma upper_simps [simp]:
  "upper (s\<lparr>hist := h\<rparr>) = upper s" "upper (s\<lparr>hmem := m\<rparr>) = upper s" "upper (say str s) = upper s" "upper (say_hex x s) = upper s"
  "upper (say_dec n s) = upper s" "upper (say_char c s) = upper s" "upper (paint fg bg s) = upper s" "upper (say_bytes bs s) = upper s"
  by (cases s; simp add: io_defs say_bytes_def)+

lemma upper_heap_rest: "heap_rest t = heap_rest s \<Longrightarrow> upper t = upper s"
  by (cases s; cases t; simp add: heap_rest_def)

lemma upper_kmalloc: "kmalloc sz s = Some (p, t) \<Longrightarrow> upper t = upper s"
  by (rule upper_heap_rest[OF heap_rest_kmalloc])

lemma upper_kfree [simp]: "upper (kfree p s) = upper s"
  by (rule upper_heap_rest[OF heap_rest_kfree])

section \<open>Ports, clock and disk\<close>

lemma upper_ports [simp]:
  "upper (outb p b s) = upper s" "upper (outw p w s) = upper s" "upper (snd (inb p s)) = upper s" "upper (snd (inw p s)) = upper s"
  "upper (io_wait s) = upper s"
  by (cases s; simp add: io_defs Let_def)+

lemma upper_reads [simp]: "upper (reads8 n p s) = upper s" "upper (reads16 n p s) = upper s"
  by (induction n arbitrary: s) simp_all

lemma upper_poll8: "poll8 p ok s = Some r \<Longrightarrow> upper (snd r) = upper s"
proof (induction rule: poll8.raw_induct[rotated, consumes 1])
  case (1 f p ok s r)
  then show ?case using upper_ports(3)[of p s] by (auto simp: case_prod_beta Let_def split: if_splits)
qed

lemma upper_waits:
  "ide_wait_ready s = Some r \<Longrightarrow> upper (snd r) = upper s" "ide_wait_drq s = Some r \<Longrightarrow> upper (snd r) = upper s"
  by (auto simp: ide_wait_ready_def ide_wait_drq_def dest!: upper_poll8)

lemma upper_cmos [simp]: "upper (snd (cmos_read r s)) = upper s" "upper (snd (rtc_is_updating s)) = upper s"
  by (simp_all add: cmos_read_def rtc_is_updating_def case_prod_beta Let_def)

lemma upper_rtc_wait: "rtc_wait s = Some t \<Longrightarrow> upper t = upper s"
proof (induction rule: rtc_wait.raw_induct[rotated, consumes 1])
  case (1 f s r)
  then show ?case using upper_cmos(2)[of s] by (auto simp: case_prod_beta Let_def split: if_splits)
qed

lemma upper_rtc: "rtc_read_time s = Some r \<Longrightarrow> upper (snd r) = upper s"
  by (auto simp: rtc_read_time_def case_prod_beta Let_def split: option.splits dest: upper_rtc_wait)

lemma upper_ide_command [simp]: "upper (ide_command lba c s) = upper s"
  by (simp add: ide_command_def ide_select_drive_def Let_def)

lemma upper_words [simp]: "upper (snd (ide_read_words n s)) = upper s" "upper (ide_write_words n b s) = upper s"
  by (induction n) (simp_all add: case_prod_beta Let_def)

lemma upper_ide:
  "ide_read_sector lba s = Some r \<Longrightarrow> upper (snd r) = upper s" "ide_write_sector lba b s = Some r' \<Longrightarrow> upper (snd r') = upper s"
  by (fastforce simp: ide_read_sector_def ide_write_sector_def case_prod_beta Let_def split: if_splits option.splits dest: upper_waits)+

lemma upper_disk_read_from: "disk_read_from lba buf i n s = Some r \<Longrightarrow> upper (snd r) = upper s"
  by (induction lba buf i n s rule: disk_read_from.induct) (fastforce split: option.splits dest: upper_ide)+

lemma upper_disk_write_from: "disk_write_from lba buf i n s = Some r \<Longrightarrow> upper (snd r) = upper s"
  by (induction lba buf i n s rule: disk_write_from.induct) (fastforce split: option.splits if_splits dest: upper_ide)+

lemma upper_disk:
  "disk_read lba n buf s = Some r \<Longrightarrow> upper (snd r) = upper s" "disk_write lba n buf s = Some r' \<Longrightarrow> upper (snd r') = upper s"
  by (auto simp: disk_read_def disk_write_def dest: upper_disk_read_from upper_disk_write_from)

section \<open>The file system\<close>

lemma upper_dir_search: "dir_search hit fs buf c s = Some r \<Longrightarrow> upper (snd r) = upper s"
proof (induction rule: dir_search.raw_induct[rotated, consumes 1])
  case (1 f hit fs buf c s r)
  from 1(2) show ?case by (auto split: if_splits option.splits prod.splits dest!: upper_disk 1(1))
qed

lemma upper_create_search: "create_search fs buf c s = Some r \<Longrightarrow> upper (snd r) = upper s"
proof (induction rule: create_search.raw_induct[rotated, consumes 1])
  case (1 f fs buf c s r)
  from 1(2) show ?case by (auto simp: Let_def split: if_splits option.splits prod.splits dest!: upper_disk 1(1))
qed

lemma upper_set_fat [simp]: "upper (set_fat_entry fs c v s) = upper s"
  by (simp add: set_fat_entry_def)

lemma upper_free_chain: "free_chain_loop fs c s = Some t \<Longrightarrow> upper t = upper s"
proof (induction rule: free_chain_loop.raw_induct[rotated, consumes 1])
  case (1 f fs c s t)
  then show ?case by (fastforce simp: Let_def split: if_splits)
qed

lemma upper_read_loop: "fat32_read_loop fs dst n c off s = Some r \<Longrightarrow> upper (snd r) = upper s"
proof (induction rule: fat32_read_loop.raw_induct[rotated, consumes 1])
  case (1 f fs dst n c off s r)
  from 1(2) show ?case by (auto simp: Let_def split: if_splits option.splits prod.splits dest!: upper_ide 1(1))
qed

lemma upper_flush: "fat32_flush fsp s = Some t \<Longrightarrow> upper t = upper s"
  by (auto simp: fat32_flush_def Let_def split: if_splits option.splits prod.splits dest!: upper_disk)

lemma upper_update_entry: "fat32_update_dir_entry file s = Some r \<Longrightarrow> upper (snd r) = upper s"
  by (auto simp: fat32_update_dir_entry_def Let_def split: if_splits option.splits prod.splits
      dest!: upper_disk upper_kmalloc upper_rtc upper_dir_search)

lemma upper_close: "fat32_close file s = Some t \<Longrightarrow> upper t = upper s"
  by (auto simp: fat32_close_def split: if_splits option.splits prod.splits dest!: upper_flush upper_update_entry)

lemma upper_open: "fat32_open fsp name file s = Some r \<Longrightarrow> upper (snd r) = upper s"
  by (auto simp: fat32_open_def Let_def split: if_splits option.splits prod.splits dest!: upper_kmalloc upper_dir_search)

end
