(* ===== verification/Vfs_Descriptors.thy ===== *)
theory Vfs_Descriptors
  imports Vfs_Properties File_Frame
begin

text \<open>
  The descriptor table of the virtual file system refines a finite map from descriptors to open files: opening adds the
  lowest free key, closing removes a key, reading and writing move a position.
\<close>

section \<open>The interface of a descriptor table\<close>

locale descriptor_table =
  fixes fds :: "'s \<Rightarrow> int \<rightharpoonup> 'e"
    and ok :: "'s \<Rightarrow> bool"
    and opn :: "'p \<Rightarrow> 's \<Rightarrow> (int \<times> 's) option"
    and cls :: "int \<Rightarrow> 's \<Rightarrow> (int \<times> 's) option"
  assumes opn_ok: "ok s \<Longrightarrow> opn p s = Some (fd, t) \<Longrightarrow> ok t"
    and opn_fails: "ok s \<Longrightarrow> opn p s = Some (fd, t) \<Longrightarrow> fd < 0 \<Longrightarrow> fds t = fds s"
    and opn_lowest: "ok s \<Longrightarrow> opn p s = Some (fd, t) \<Longrightarrow> 0 \<le> fd \<Longrightarrow>
      fds s fd = None \<and> (\<forall>i. 0 \<le> i \<and> i < fd \<longrightarrow> fds s i \<noteq> None) \<and> (\<exists>e. fds t = (fds s)(fd \<mapsto> e))"
    and cls_ok: "ok s \<Longrightarrow> cls fd s = Some (r, t) \<Longrightarrow> ok t"
    and cls_removes: "ok s \<Longrightarrow> cls fd s = Some (r, t) \<Longrightarrow> fds t = (fds s)(fd := None) \<and> (r = 0 \<longleftrightarrow> fds s fd \<noteq> None)"
begin

lemma open_close:
  assumes "ok s" "opn p s = Some (fd, t)" "0 \<le> fd" "cls fd t = Some (r, u)"
  shows "r = 0 \<and> fds u = fds s"
proof -
  obtain e where "fds s fd = None" "fds t = (fds s)(fd \<mapsto> e)" using opn_lowest[OF assms(1-3)] by blast
  then show ?thesis using cls_removes[OF opn_ok[OF assms(1,2)] assms(4)] by auto
qed

lemma reopen_same:
  assumes "ok s" "opn p s = Some (fd, t)" "0 \<le> fd" "cls fd t = Some (r, u)" "opn q u = Some (fd', v)" "0 \<le> fd'"
  shows "fd' = fd"
proof -
  have u: "fds u = fds s" using open_close[OF assms(1-4)] by simp
  have "ok u" using cls_ok[OF opn_ok[OF assms(1,2)] assms(4)] .
  then show ?thesis
    using opn_lowest[OF assms(1-3)] opn_lowest[OF _ assms(5,6)] assms(3,6) unfolding u by (metis linorder_neqE)
qed

lemma opens_increase:
  assumes "ok s" "opn p s = Some (fd, t)" "0 \<le> fd" "opn q t = Some (fd', u)" "0 \<le> fd'"
  shows "fd < fd'"
proof (rule ccontr)
  assume "\<not> fd < fd'"
  obtain e where l: "fds s fd = None" "\<forall>i. 0 \<le> i \<and> i < fd \<longrightarrow> fds s i \<noteq> None" "fds t = (fds s)(fd \<mapsto> e)"
    using opn_lowest[OF assms(1-3)] by blast
  have "fds t fd' = None" using opn_lowest[OF opn_ok[OF assms(1,2)] assms(4,5)] by blast
  then show False using \<open>\<not> fd < fd'\<close> l assms(5) by (cases "fd' = fd") auto
qed

end

section \<open>What opening a path leaves alone\<close>

lemma upper_vfs: "upper t = upper s \<Longrightarrow> fd_table t = fd_table s \<and> nodes t = nodes s \<and> file_objs t = file_objs s"
  for s t :: "'a vfs_state_scheme"
  by (cases s; cases t; simp)

lemma fd_table_stores [simp]: "fd_table (set_node n f s) = fd_table s" "fd_table (kfree p s) = fd_table s"
  using upper_vfs[OF upper_kfree, of p s] by (simp_all add: set_node_def)

lemma fd_table_kmalloc: "kmalloc sz s = Some (p, t) \<Longrightarrow> fd_table t = fd_table s"
  using upper_vfs[OF upper_kmalloc] by blast

lemma fd_table_fat:
  "fat32_open fsp name file s = Some (r, t) \<Longrightarrow> fd_table t = fd_table s" "fat32_close file s = Some t \<Longrightarrow> fd_table t = fd_table s"
  using upper_open[of fsp name "file" s "(r, t)"] upper_close[of "file" s t] upper_vfs[of t s] by simp_all

lemma fd_table_finddir: "fat32_vfs_finddir_dir dir name s = Some (n, t) \<Longrightarrow> fd_table t = fd_table s"
  by (auto simp: fat32_vfs_finddir_dir_def Let_def split: if_splits option.splits prod.splits dest!: fd_table_kmalloc fd_table_fat)

declare resolve_from.simps [simp del]

lemma fd_table_resolve_from: "resolve_from c p s = Some (n, t) \<Longrightarrow> fd_table t = fd_table s"
proof (induction c p s rule: resolve_from.induct)
  case (1 c p s)
  from 1(2) show ?case
    unfolding resolve_from.simps[of c p s]
    by (auto simp: Let_def split: if_splits option.splits prod.splits dest: fd_table_finddir)
       (metis 1(1) fd_table_finddir)
qed

lemma fd_table_resolve: "resolve_path path s = Some (n, t) \<Longrightarrow> fd_table t = fd_table s"
  by (auto simp: resolve_path_def split: list.splits if_splits option.splits dest: fd_table_resolve_from)

lemma fd_table_close_node: "vfs_close_node node s = Some (r, t) \<Longrightarrow> fd_table t = fd_table s"
  by (auto simp: vfs_close_node_def fat32_vfs_close_def Let_def split: if_splits dest: fd_table_fat)

lemma upper_write_loop: "fat32_write_loop fs src n c off s = Some r \<Longrightarrow> upper (snd r) = upper s"
proof (induction rule: fat32_write_loop.raw_induct[rotated, consumes 1])
  case (1 f fs src n c off s r)
  have nxt: "upper (snd (next_write_cluster fs c s)) = upper s" by (simp add: next_write_cluster_def Let_def)
  from 1(2) nxt show ?case
    by (auto simp: Let_def split: if_splits option.splits prod.splits dest!: upper_ide 1(1))
qed

lemma upper_read_write:
  "fat32_read f buf n s = Some (r, t) \<Longrightarrow> upper t = upper s" "fat32_write f buf n s = Some (r, t) \<Longrightarrow> upper t = upper s"
  by (cases "fat32_read_loop (vols s (file_fs f)) buf n (current_cluster f) (file_offset f) s",
      auto simp: fat32_read_def split: option.splits dest!: upper_read_loop)
     (cases "fat32_write_loop (vols s (file_fs f)) buf n (current_cluster f) (file_offset f) s",
      auto simp: fat32_write_def Let_def split: option.splits dest!: upper_write_loop)

lemma fd_table_read_node: "vfs_read_node node buf count off s = Some (r, t) \<Longrightarrow> fd_table t = fd_table s"
  by (auto simp: vfs_read_node_def fat32_vfs_read_def Let_def split: if_splits option.splits
      dest!: upper_read_write upper_vfs)

lemma fd_table_write_node: "vfs_write_node node buf count off s = Some (r, t) \<Longrightarrow> fd_table t = fd_table s"
  by (auto simp: vfs_write_node_def fat32_vfs_write_def Let_def split: if_splits option.splits
      dest!: upper_read_write upper_vfs)

section \<open>The table as a map\<close>

definition open_fds :: "'a vfs_state_scheme \<Rightarrow> int \<rightharpoonup> u64 \<times> u32 \<times> u32" where
  "open_fds s fd = (if fd_valid fd s
     then let h = fd_table s ! nat fd in Some (fh_node h, fh_pos h, fh_flags h) else None)"

definition table_ok :: "'a vfs_state_scheme \<Rightarrow> bool" where
  "table_ok s \<longleftrightarrow> length (fd_table s) = MAX_FDS"

lemma open_fds_cong: "fd_table t = fd_table s \<Longrightarrow> open_fds t = open_fds s" "fd_table t = fd_table s \<Longrightarrow> table_ok t = table_ok s"
  by (auto simp: open_fds_def fd_valid_def table_ok_def fun_eq_iff)

lemma open_fds_upd:
  assumes "table_ok s" "0 \<le> fd" "fd < 256"
  shows "open_fds (s\<lparr>fd_table := (fd_table s)[nat fd := h]\<rparr>) =
    (open_fds s)(fd := if fh_node h = 0 then None else Some (fh_node h, fh_pos h, fh_flags h))"
  using assms by (auto simp: open_fds_def fd_valid_def table_ok_def nth_list_update fun_eq_iff)

lemma vfs_open_cases:
  assumes "vfs_open path flags s = Some (fd, t)"
  obtains "fd = -1" "fd_table t = fd_table s"
  | i node where "fd = int i" "i < 256" "fh_node (fd_table s ! i) = 0" "\<And>j. j < i \<Longrightarrow> fh_node (fd_table s ! j) \<noteq> 0" "node \<noteq> 0"
      "fd_table t = (fd_table s)[i := \<lparr>fh_node = node, fh_pos = 0, fh_flags = flags, fh_ref_count = 1\<rparr>]"
proof -
  obtain node u where u: "vfs_open_node path s = Some (node, u)" using assms by (auto simp: vfs_open_def split: option.splits)
  then have f: "fd_table u = fd_table s" by (simp add: vfs_open_node_def fd_table_resolve)
  define free where free: "free = find (\<lambda>i. fh_node (fd_table u ! i) = 0) [0..<MAX_FDS]"
  have open_eq: "(if node = 0 \<or> node_flags (nodes u node) AND VFS_FLAG_FILE = 0 then Some (-1, u)
      else case free of None \<Rightarrow> Some (-1, u) | Some i \<Rightarrow>
        Some (int i, u\<lparr>fd_table := (fd_table u)[i := \<lparr>fh_node = node, fh_pos = 0, fh_flags = flags, fh_ref_count = 1\<rparr>]\<rparr>)) = Some (fd, t)"
    using assms unfolding vfs_open_def u free by (simp only: option.case prod.case)
  show ?thesis
  proof (cases "fd = -1")
    case True
    then show ?thesis using open_eq f that(1) by (auto split: if_splits option.splits)
  next
    case False
    then obtain i where i: "free = Some i" "fd = int i" "node \<noteq> 0"
      "t = u\<lparr>fd_table := (fd_table u)[i := \<lparr>fh_node = node, fh_pos = 0, fh_flags = flags, fh_ref_count = 1\<rparr>]\<rparr>"
      using open_eq by (auto split: if_splits option.splits)
    then have "i < 256" "fh_node (fd_table u ! i) = 0" "\<And>j. j < i \<Longrightarrow> fh_node (fd_table u ! j) \<noteq> 0"
      unfolding free find_Some_iff by (auto simp del: upt_rec_numeral)
    then show ?thesis using i f by (intro that(2)[of i node]) simp_all
  qed
qed

lemma vfs_open_table:
  assumes "table_ok s" "vfs_open path flags s = Some (fd, t)"
  shows "table_ok t \<and> (if fd < 0 then fd = -1 \<and> open_fds t = open_fds s
    else open_fds s fd = None \<and> (\<forall>i. 0 \<le> i \<and> i < fd \<longrightarrow> open_fds s i \<noteq> None) \<and> (\<exists>node. open_fds t = (open_fds s)(fd \<mapsto> (node, 0, flags))))"
  using assms(2)
proof (cases rule: vfs_open_cases)
  case 1
  then show ?thesis using open_fds_cong[OF 1(2)] assms(1) by simp
next
  case (2 i node)
  have "open_fds t = (open_fds s)(fd \<mapsto> (node, 0, flags))"
    using open_fds_upd[OF assms(1), of fd "\<lparr>fh_node = node, fh_pos = 0, fh_flags = flags, fh_ref_count = 1\<rparr>"] 2
      open_fds_cong(1)[of t "s\<lparr>fd_table := fd_table t\<rparr>"] by simp
  moreover have "open_fds s j \<noteq> None" if "0 \<le> j" "j < fd" for j
    using 2(1,2) 2(4)[of "nat j"] that by (auto simp: open_fds_def fd_valid_def Let_def nat_less_iff)
  moreover have "table_ok t" "open_fds s fd = None" using assms(1) 2 by (simp_all add: table_ok_def open_fds_def fd_valid_def)
  ultimately show ?thesis using 2(1) by auto
qed

lemma vfs_close_table:
  assumes "table_ok s" "vfs_close fd s = Some (r, t)"
  shows "table_ok t \<and> open_fds t = (open_fds s)(fd := None) \<and> r = (if open_fds s fd = None then -1 else 0)"
proof (cases "fd_valid fd s")
  case True
  then obtain r' u where u: "vfs_close_node (fh_node (fd_table s ! nat fd)) s = Some (r', u)" "r = 0"
    "t = u\<lparr>fd_table := (fd_table u)[nat fd := (fd_table u ! nat fd)\<lparr>fh_node := 0, fh_ref_count := 0\<rparr>]\<rparr>"
    using assms(2) by (auto simp: vfs_close_def)
  note f = fd_table_close_node[OF u(1)]
  have "open_fds t = (open_fds u)(fd := None)"
    using open_fds_upd[of u fd] True open_fds_cong(2)[OF f] assms(1) u(3) by (auto simp: fd_valid_def)
  moreover have "table_ok t" using open_fds_cong(2)[OF f] assms(1) u(3) by (simp add: table_ok_def)
  ultimately show ?thesis using True u(2) open_fds_cong(1)[OF f] by (simp add: open_fds_def Let_def)
next
  case False
  then show ?thesis using assms by (auto simp: vfs_close_def open_fds_def fun_eq_iff)
qed

lemma vfs_transfer_table:
  assumes "table_ok s" "vfs_read fd buf n s = Some (r, t) \<or> vfs_write fd buf n s = Some (r, t)"
  shows "table_ok t \<and> (case open_fds s fd of None \<Rightarrow> r = -1 \<and> open_fds t = open_fds s
    | Some (node, pos, flags) \<Rightarrow> open_fds t = (open_fds s)(fd \<mapsto> (node, if r > 0 then pos + word_of_int r else pos, flags)))"
proof (cases "fd_valid fd s")
  case True
  then obtain u where u: "t = advance_fd fd r u" "fd_table u = fd_table s"
    using assms(2) by (auto simp: vfs_read_def vfs_write_def dest: fd_table_read_node fd_table_write_node)
  have ok: "table_ok u" using open_fds_cong(2)[OF u(2)] assms(1) by simp
  then have "table_ok t" by (simp add: u(1) advance_fd_def table_ok_def)
  moreover have "open_fds t = (open_fds u)(fd \<mapsto> (fh_node (fd_table s ! nat fd),
      if r > 0 then fh_pos (fd_table s ! nat fd) + word_of_int r else fh_pos (fd_table s ! nat fd), fh_flags (fd_table s ! nat fd)))"
  proof (cases "r > 0")
    case pos: True
    then show ?thesis
      using open_fds_upd[OF ok, of fd "(fd_table u ! nat fd)\<lparr>fh_pos := fh_pos (fd_table u ! nat fd) + word_of_int r\<rparr>"] True u
      by (auto simp: advance_fd_def fd_valid_def)
  next
    case False
    moreover have "open_fds u fd = Some (fh_node (fd_table s ! nat fd), fh_pos (fd_table s ! nat fd), fh_flags (fd_table s ! nat fd))"
      using True u(2) by (simp add: open_fds_def fd_valid_def Let_def)
    ultimately show ?thesis by (simp add: u(1) advance_fd_def fun_upd_idem)
  qed
  ultimately show ?thesis using True open_fds_cong(1)[OF u(2)] by (simp add: open_fds_def Let_def)
next
  case False
  then show ?thesis using assms by (auto simp: vfs_read_def vfs_write_def open_fds_def)
qed

interpretation vfs_fds: descriptor_table open_fds table_ok "\<lambda>(path, flags). vfs_open path flags" vfs_close
proof (unfold_locales, goal_cases)
  case (1 s p fd t) then show ?case using vfs_open_table[of s "fst p" "snd p" fd t] by (cases p) auto
next
  case (2 s p fd t) then show ?case using vfs_open_table[of s "fst p" "snd p" fd t] by (cases p) auto
next
  case (3 s p fd t)
  then show ?case using vfs_open_table[of s "fst p" "snd p" fd t] by (cases p) auto
next
  case (4 s fd r t) then show ?case using vfs_close_table[OF 4] by simp
next
  case (5 s fd r t) then show ?case using vfs_close_table[OF 5] by simp
qed

text \<open>
  C7: The descriptor table is a finite map.  Opening a path either fails with -1 and leaves the map alone, or adds the lowest
  free descriptor at position 0; closing removes the descriptor and fails exactly for one that is not open; reading and
  writing only move the position, forward by a positive result, and fail with -1 on a descriptor that is not open.
  A file that is opened and closed again leaves the map as it was, and its number is the next to be used.
\<close>

theorem vfs_descriptors_refine:
  assumes "table_ok s"
  shows "(vfs_open path flags s = Some (fd, t) \<longrightarrow> table_ok t \<and> (if fd < 0 then fd = -1 \<and> open_fds t = open_fds s
      else open_fds s fd = None \<and> (\<forall>i. 0 \<le> i \<and> i < fd \<longrightarrow> open_fds s i \<noteq> None) \<and> (\<exists>node. open_fds t = (open_fds s)(fd \<mapsto> (node, 0, flags)))
        \<and> (\<forall>r u. vfs_close fd t = Some (r, u) \<longrightarrow> r = 0 \<and> open_fds u = open_fds s
             \<and> (\<forall>path' flags' fd' v. vfs_open path' flags' u = Some (fd', v) \<and> fd' \<ge> 0 \<longrightarrow> fd' = fd))))
    \<and> (vfs_close fd s = Some (r, t) \<longrightarrow>
         table_ok t \<and> open_fds t = (open_fds s)(fd := None) \<and> r = (if open_fds s fd = None then -1 else 0))
    \<and> (vfs_read fd buf n s = Some (r, t) \<or> vfs_write fd buf n s = Some (r, t) \<longrightarrow>
         table_ok t \<and> (case open_fds s fd of None \<Rightarrow> r = -1 \<and> open_fds t = open_fds s
           | Some (node, pos, fl) \<Rightarrow> open_fds t = (open_fds s)(fd \<mapsto> (node, if r > 0 then pos + word_of_int r else pos, fl))))"
proof (intro conjI impI)
  assume o: "vfs_open path flags s = Some (fd, t)"
  show "table_ok t" using vfs_open_table[OF assms o] by blast
  show "if fd < 0 then fd = -1 \<and> open_fds t = open_fds s
      else open_fds s fd = None \<and> (\<forall>i. 0 \<le> i \<and> i < fd \<longrightarrow> open_fds s i \<noteq> None) \<and> (\<exists>node. open_fds t = (open_fds s)(fd \<mapsto> (node, 0, flags)))
        \<and> (\<forall>r u. vfs_close fd t = Some (r, u) \<longrightarrow> r = 0 \<and> open_fds u = open_fds s
             \<and> (\<forall>path' flags' fd' v. vfs_open path' flags' u = Some (fd', v) \<and> fd' \<ge> 0 \<longrightarrow> fd' = fd))"
    using vfs_open_table[OF assms o] vfs_fds.open_close[of s "(path, flags)" fd t] vfs_fds.reopen_same[of s "(path, flags)" fd t] assms o
    by (auto split: if_splits)
qed (use vfs_close_table[OF assms] vfs_transfer_table[OF assms] in blast)+

theorem vfs_descriptors_refine_witness:
  "\<exists>t. vfs_read 0 0x2000 100 (vfs_example 700 500) = Some (100, t) \<and> open_fds t 0 = Some (0x600, 600, O_RDONLY)"
proof -
  let ?s = "vfs_example 700 500"
  have "fat_clear fat_example [3, 2] 0x2000 (unat (100 :: u32))" using vfs_example_clear by (auto simp: fat_clear_def)
  moreover have "length (chain_data fat_example sample_disk [3, 2]) = 1024"
    using length_chain_data[OF vfs_example_disk, of fat_example "[3, 2]"] by (simp add: fat_example_def)
  ultimately obtain h f where "fat32_vfs_read 0x600 0x2000 100 500 ?s = Some (100, set_file 0x700 f (?s\<lparr>hmem := put_mem (hmem ?s) 0x2000
      (take (unat (100 :: u32)) (drop (unat (500 :: u32)) (chain_data fat_example sample_disk [3, 2]))), hist := h\<rparr>))"
    using fat32_vfs_read_chain[OF vfs_example_open[of 500 700] vfs_example_disk, of "0x2000" 100 "0x600"] by (auto simp: fat_example_def)
  then obtain t where t: "vfs_read 0 0x2000 100 ?s = Some (100, t)"
    by (simp add: vfs_read_def fd_valid_def vfs_read_node_def has_rw_def)
  moreover have "table_ok ?s" by (simp add: table_ok_def)
  moreover have "open_fds ?s 0 = Some (0x600, 500, O_RDONLY)" by (simp add: open_fds_def fd_valid_def Let_def)
  ultimately show ?thesis using vfs_descriptors_refine[of ?s "[]" 0 0 t 100 "0x2000" 100] by auto
qed

end
