(* ===== verification/Elf64_Access.thy ===== *)
theory Elf64_Access
  imports Elf64 Heap_Properties
begin

text \<open>
  Groundwork for the ELF loader: when its accesses fault, that the chunked copy is a plain copy, and that mapping the pages of a
  segment ends, makes them accessible, takes no access away and touches no byte outside of them.
\<close>

section \<open>Copying\<close>

lemma accessible_range_add:
  "accessible_range s a (k + l) \<longleftrightarrow> accessible_range s a k \<and> accessible_range s (a + word_of_nat k) l"
proof -
  have "(\<forall>i < k + l. P i) \<longleftrightarrow> (\<forall>i < k. P i) \<and> (\<forall>i < l. P (k + i))" for P :: "nat \<Rightarrow> bool"
    by (auto, metis add_diff_inverse_nat nat_add_left_cancel_less)
  then show ?thesis by (simp add: accessible_range_def add.assoc)
qed

lemma accessible_range_sub: "accessible_range s a n \<Longrightarrow> k + l \<le> n \<Longrightarrow> accessible_range s (a + word_of_nat k) l"
  using accessible_range_add[of s a k "n - k"] accessible_range_add[of s "a + word_of_nat k" l "n - k - l"] by simp

lemma copy8_add: "copy8 m d p (a + b) = copy8 (copy8 m d p a) (d + word_of_nat a) (p + word_of_nat a) b"
  by (induction b) (simp_all add: Let_def add.assoc)

lemma copy_chunk_bounds:
  assumes "0 < left"
  shows "0 < copy_chunk va off left" "copy_chunk va off left \<le> left"
proof -
  let ?po = "(va + off) AND (VMM_PAGE_SIZE - 1)"
  have po: "?po < 4096" by (rule le_less_trans[OF word_and_le1]) simp
  let ?chunk = "if left > VMM_PAGE_SIZE then VMM_PAGE_SIZE else left"
  have c: "0 < ?chunk" "?chunk \<le> 4096" "?chunk \<le> left" using assms by auto
  show "0 < copy_chunk va off left"
    using po c(1) by (auto simp: copy_chunk_def Let_def word_less_nat_alt unat_sub_if')
  have "VMM_PAGE_SIZE - ?po < ?chunk" if "?chunk + ?po > VMM_PAGE_SIZE"
    using that po c(2) by unat_arith
  then show "copy_chunk va off left \<le> left" using c(3) by (auto simp: copy_chunk_def Let_def)
qed

lemma copy_segment_copies:
  "copy_segment s va src off left m =
     (if accessible_range s (va + off) (unat left) \<and> accessible_range s (src + off) (unat left)
      then Some (copy8 m (va + off) (src + off) (unat left)) else None)"
proof (induction "unat left" arbitrary: left off m rule: less_induct)
  case less
  show ?case
  proof (cases "left = 0")
    case True
    then show ?thesis by (subst copy_segment.simps) (simp add: accessible_range_def)
  next
    case False
    then have pos: "0 < left" by (simp add: word_neq_0_conv)
    let ?k = "copy_chunk va off left"
    note k = copy_chunk_bounds[OF pos, of va off]
    have u: "unat (left - ?k) = unat left - unat ?k" and le: "unat left = unat ?k + (unat left - unat ?k)"
      using k(2) by (simp_all add: unat_sub word_le_nat_alt)
    then have "unat (left - ?k) < unat left" using k pos by (simp add: word_less_nat_alt word_le_nat_alt)
    note ih = less[OF this, of "off + ?k" "copy8 m (va + off) (src + off) (unat ?k)", unfolded u]
    have shift: "x + (off + ?k) = x + off + word_of_nat (unat ?k)" for x by (simp add: add.assoc)
    have split: "accessible_range s (x + off) (unat left)
        \<longleftrightarrow> accessible_range s (x + off) (unat ?k) \<and> accessible_range s (x + (off + ?k)) (unat left - unat ?k)" for x
      unfolding shift using accessible_range_add[of s "x + off" "unat ?k" "unat left - unat ?k"] le by simp
    have "copy8 m (va + off) (src + off) (unat left)
        = copy8 (copy8 m (va + off) (src + off) (unat ?k)) (va + (off + ?k)) (src + (off + ?k)) (unat left - unat ?k)"
      unfolding shift using copy8_add[of m "va + off" "src + off" "unat ?k" "unat left - unat ?k"] le by simp
    then show ?thesis using pos ih split by (subst copy_segment.simps) (simp add: Let_def)
  qed
qed

lemma copy8_outside: "\<not> unat (x - d) < n \<Longrightarrow> n \<le> 18446744073709551616 \<Longrightarrow> copy8 m d p n x = m x"
proof (induction n)
  case (Suc n)
  have "x \<noteq> d + word_of_nat n"
  proof
    assume "x = d + word_of_nat n"
    then have "unat (x - d) = n" using Suc.prems(2) by (simp add: unat_of_nat64)
    then show False using Suc.prems(1) by simp
  qed
  then show ?case using Suc by (simp add: Let_def)
qed simp

section \<open>Mapping pages\<close>

lemma aligned_step:
  assumes "aligned 12 va" "aligned 12 e" "va < e"
  shows "unat (va + VMM_PAGE_SIZE) = unat va + 4096" "unat va + 4096 \<le> unat e" "aligned 12 (va + VMM_PAGE_SIZE)"
proof -
  obtain a b where a: "unat va = 4096 * a" and b: "unat e = 4096 * b" using assms(1,2) by (auto simp: aligned_def elim!: dvdE)
  have "a < b" using assms(3) a b by (simp add: word_less_nat_alt)
  then show le: "unat va + 4096 \<le> unat e" using a b by simp
  have "unat e < 18446744073709551616" using unsigned_less[of e] by simp
  then show u: "unat (va + VMM_PAGE_SIZE) = unat va + 4096" using le by (simp add: unat_word_ariths)
  show "aligned 12 (va + VMM_PAGE_SIZE)" unfolding aligned_def u a by simp
qed

lemma map_segment_returns:
  assumes "aligned 12 va" "aligned 12 e"
  shows "\<exists>r. map_segment p va e s = Some r"
  using assms
proof (induction "unat e - unat va" arbitrary: va s rule: less_induct)
  case less
  show ?case
  proof (cases "va < e")
    case True
    note st = aligned_step[OF less.prems True]
    have "unat e - unat (va + VMM_PAGE_SIZE) < unat e - unat va" using st by linarith
    note ih = less(1)[OF this st(3) less.prems(2)]
    show ?thesis using True ih by (subst map_segment.simps) (auto simp: Let_def)
  next
    case False
    then show ?thesis by (subst map_segment.simps) auto
  qed
qed

lemma aligned_page_mask: "aligned 12 (x AND PAGE_MASK)"
proof -
  have "x AND PAGE_MASK = push_bit 12 (drop_bit 12 x)"
    by (rule bit_word_eqI) (simp only: bit_and_iff bit_PAGE_MASK bit_push_bit_iff bit_drop_bit_eq comp_def, auto)
  then have "x AND PAGE_MASK = 2 ^ 12 * drop_bit 12 x" by (simp add: push_bit_eq_mult mult.commute)
  then show ?thesis by (simp only:) (intro aligned_mult, simp_all add: aligned_def)
qed

lemma phdr_at_cong:
  assumes "\<And>i. i < 56 \<Longrightarrow> m (p + word_of_nat i) = m' (p + word_of_nat i)"
  shows "phdr_at m p = phdr_at m' p"
proof -
  have l4: "load32 m (p + word_of_nat k) = load32 m' (p + word_of_nat k)" if "k + 4 \<le> 56" for k
  proof (rule load32_cong)
    fix i :: nat assume "i < 4"
    then show "m (p + word_of_nat k + word_of_nat i) = m' (p + word_of_nat k + word_of_nat i)"
      using assms[of "k + i"] that by (simp add: add.assoc)
  qed
  have l8: "load64 m (p + word_of_nat k) = load64 m' (p + word_of_nat k)" if "k + 8 \<le> 56" for k
  proof (rule load64_cong)
    fix i :: nat assume "i < 8"
    then show "m (p + word_of_nat k + word_of_nat i) = m' (p + word_of_nat k + word_of_nat i)"
      using assms[of "k + i"] that by (simp add: add.assoc)
  qed
  show ?thesis
    using l4[of 0] l4[of 4] l8[of 8] l8[of 16] l8[of 32] l8[of 40] by (simp add: phdr_at_def)
qed

lemma map_user_page_mem: "hmem (snd (map_user_page va perm s)) x = hmem s x" if "\<not> unat (x - (va AND PAGE_MASK)) < 4096"
proof -
  obtain m q where "snd (vmm_alloc_map va perm s) = s\<lparr>mem := m, pmm := q\<rparr>"
    using vmm_rest_fields[OF vmm_rest_alloc_map[of va perm s]] by blast
  then show ?thesis using that by (auto simp: map_user_page_def case_prod_beta Let_def memset8_apply)
qed

lemma map_segment_mem:
  assumes "map_segment p va e s = Some (ok, u)" "aligned 12 va" "aligned 12 e" "\<not> (va \<le> x \<and> x < e)"
  shows "hmem u x = hmem s x"
  using assms(1,2,4)
proof (induction "unat e - unat va" arbitrary: va s rule: less_induct)
  case less
  show ?case
  proof (cases "va < e")
    case True
    note st = aligned_step[OF less.prems(2) assms(3) True]
    have l: "unat e - unat (va + VMM_PAGE_SIZE) < unat e - unat va" using st by linarith
    have out: "\<not> (va + VMM_PAGE_SIZE \<le> x \<and> x < e)" using less.prems(3) st(1) by (auto simp: word_le_nat_alt)
    have "va AND PAGE_MASK = va"
      using page_mask_aligned[of "unat va"] less.prems(2) unat64_less[of va] by (simp add: aligned_def)
    moreover have "\<not> unat (x - va) < 4096"
    proof
      assume d: "unat (x - va) < 4096"
      have "unat va + unat (x - va) < 18446744073709551616" using d st(2) unat64_less[of e] by linarith
      then have "unat x = unat va + unat (x - va)" using unat_word_ariths(1)[of va "x - va"] by simp
      then show False using less.prems(3) d st(2) by (simp add: word_le_nat_alt word_less_nat_alt)
    qed
    ultimately have page: "hmem (snd (map_user_page va perm s)) x = hmem s x" for perm by (intro map_user_page_mem) simp
    show ?thesis
      using less.prems(1) less.hyps[OF l _ st(3) out] True page
      by (subst (asm) map_segment.simps) (auto simp: Let_def split: if_splits)
  next
    case False
    then show ?thesis using less.prems(1) by (subst (asm) map_segment.simps) simp
  qed
qed

definition in_segment :: "Elf64_Phdr \<Rightarrow> u64 \<Rightarrow> bool" where
  "in_segment ph x \<longleftrightarrow> p_vaddr ph AND PAGE_MASK \<le> x \<and> x < (p_vaddr ph + p_memsz ph + VMM_PAGE_SIZE - 1) AND PAGE_MASK"

lemma canonical_low: "unat x < 140737488355328 \<Longrightarrow> canonical x"
proof -
  assume "unat x < 140737488355328"
  then have "unat (drop_bit 47 x) = 0" by (simp add: drop_bit_eq_div unat_div)
  then show ?thesis by (simp add: canonical_def unat_eq_zero)
qed

lemma xlate_same_page: "same_page va x \<Longrightarrow> xlate m root va = None \<longleftrightarrow> xlate m root x = None"
  by (auto simp: same_page_def xlate_def Let_def)

lemma page_same_page:
  assumes "aligned 12 va" "unat (x - va) < 4096" "unat va + 4096 \<le> 18446744073709551616"
  shows "same_page va x"
proof -
  have "unat x = unat va + unat (x - va)" using unat_word_ariths(1)[of va "x - va"] assms(2,3) by simp
  moreover obtain a where "unat va = 4096 * a" using assms(1) by (auto simp: aligned_def elim!: dvdE)
  ultimately have "page_no x = page_no va" using assms(2) by simp
  then show ?thesis by (simp add: same_page_def idx_nat)
qed

text \<open>What a step of the loader does to the address space: the tables stay well-formed and every accessible address stays accessible.\<close>

definition keeps_access :: "'a vmm_state_scheme \<Rightarrow> 'a vmm_state_scheme \<Rightarrow> bool" where
  "keeps_access s t \<longleftrightarrow> vmm_wf t \<and> (\<forall>x. accessible s x \<longrightarrow> accessible t x)"

lemma keeps_access_refl: "vmm_wf s \<Longrightarrow> keeps_access s s"
  by (simp add: keeps_access_def)

lemma keeps_access_trans: "keeps_access s t \<Longrightarrow> keeps_access t u \<Longrightarrow> keeps_access s u"
  by (simp add: keeps_access_def)

lemma keeps_access_range: "keeps_access s t \<Longrightarrow> accessible_range s a n \<Longrightarrow> accessible_range t a n"
  by (simp add: keeps_access_def accessible_range_def)

lemma keeps_access_hmem [simp]: "keeps_access s (t\<lparr>hmem := m\<rparr>) \<longleftrightarrow> keeps_access s t"
  by (simp add: keeps_access_def accessible_def)

lemma map_user_page_access:
  assumes "vmm_wf s" "bit perm 0" "map_user_page va perm s = (r, t)"
  shows "keeps_access s t" "r = 0 \<Longrightarrow> same_page va x \<Longrightarrow> canonical x \<Longrightarrow> accessible t x"
proof -
  obtain r' u where a: "vmm_alloc_map va perm s = (r', u)" by fastforce
  note v = vmm_alloc_map_correct_aux[OF assms(1,2) a]
  have same: "accessible t x = accessible u x" "vmm_wf t = vmm_wf u" "r = r'" for x
    using assms(3) by (auto simp: map_user_page_def a accessible_def split: if_splits)
  have new: "accessible u x" if "r' = 0" "same_page va x" "canonical x" for x
    using v that unfolding accessible_def by (metis map_option_is_None option.distinct(1))
  have "accessible u x" if "accessible s x" for x
    using v that new[of x] unfolding accessible_def by metis
  then show "keeps_access s t" using v same by (simp add: keeps_access_def)
  show "r = 0 \<Longrightarrow> same_page va x \<Longrightarrow> canonical x \<Longrightarrow> accessible t x" using new same by simp
qed

lemma segment_perm_present: "bit (segment_perm ph va) 0"
  by (simp add: segment_perm_def)

lemma map_segment_access:
  assumes "map_segment p va e s = Some (ok, u)" "aligned 12 va" "aligned 12 e" "vmm_wf s"
  shows "keeps_access s u \<and> (ok \<longrightarrow> (\<forall>x. va \<le> x \<and> x < e \<and> canonical x \<longrightarrow> accessible u x))"
  using assms(1,2,4)
proof (induction "unat e - unat va" arbitrary: va s rule: less_induct)
  case less
  show ?case
  proof (cases "va < e")
    case False
    then have "u = s" using less.prems(1) by (subst (asm) map_segment.simps) simp
    then show ?thesis using False less.prems(3) keeps_access_refl[of s] by (auto dest: le_less_trans)
  next
    case True
    note st = aligned_step[OF less.prems(2) assms(3) True]
    have l: "unat e - unat (va + VMM_PAGE_SIZE) < unat e - unat va" using st by linarith
    have page: "same_page va x" if "va \<le> x" "\<not> va + VMM_PAGE_SIZE \<le> x" for x
    proof (rule page_same_page[OF less.prems(2)])
      show "unat (x - va) < 4096" using that st(1) by (simp add: unat_sub word_le_nat_alt)
      show "unat va + 4096 \<le> 18446744073709551616" using st(2) unat64_less[of e] by linarith
    qed
    have rest: "keeps_access s u \<and> (ok \<longrightarrow> (\<forall>x. va \<le> x \<and> x < e \<and> canonical x \<longrightarrow> accessible u x))"
      if "map_segment p (va + VMM_PAGE_SIZE) e t = Some (ok, u)" "keeps_access s t"
        "\<And>x. same_page va x \<Longrightarrow> canonical x \<Longrightarrow> accessible t x" for t
    proof -
      have wf: "vmm_wf t" using that(2) by (simp add: keeps_access_def)
      note ih = less.hyps[OF l that(1) st(3) wf]
      then have "keeps_access s u" using keeps_access_trans[OF that(2)] by blast
      moreover have "accessible u x" if "ok" "va \<le> x" "x < e" "canonical x" for x
        using ih that page[of x] \<open>\<And>x. same_page va x \<Longrightarrow> canonical x \<Longrightarrow> accessible t x\<close> by (auto simp: keeps_access_def)
      ultimately show ?thesis by blast
    qed
    show ?thesis
    proof (cases "vmm_is_mapped va s")
      case mapped: True
      have "accessible s x" if "same_page va x" "canonical x" for x
        using vmm_lookup_correct[OF less.prems(3), of va] mapped xlate_same_page[OF that(1)] that(2) by (simp add: accessible_def)
      then show ?thesis
        using less.prems(1,3) True mapped rest[of s] keeps_access_refl[of s] by (subst (asm) map_segment.simps) simp
    next
      case unmapped: False
      obtain r t where m: "map_user_page va (segment_perm (phdr_at (hmem s) p) va) s = (r, t)" by fastforce
      note acc = map_user_page_access[OF less.prems(3) segment_perm_present m]
      show ?thesis
        using less.prems(1) True unmapped rest[of t] acc
        by (subst (asm) map_segment.simps) (auto simp: Let_def m split: if_splits)
    qed
  qed
qed

lemma in_segmentI:
  assumes "unat (p_vaddr ph) + unat (p_memsz ph) + 4095 < 18446744073709551616" "unat (x - p_vaddr ph) < unat (p_memsz ph)"
  shows "in_segment ph x"
proof -
  let ?v = "p_vaddr ph" and ?y = "p_vaddr ph + p_memsz ph + VMM_PAGE_SIZE - 1"
  have x: "unat x = unat ?v + unat (x - ?v)" using unat_word_ariths(1)[of ?v "x - ?v"] assms by simp
  have "?v AND PAGE_MASK \<le> ?v" by (rule word_and_le2)
  moreover have "?v \<le> x" using x by (simp add: word_le_nat_alt)
  ultimately have lo: "?v AND PAGE_MASK \<le> x" by (rule order_trans)
  have "?y = ?v + p_memsz ph + 4095" by simp
  then have y: "unat ?y = unat ?v + unat (p_memsz ph) + 4095" using assms(1) by (simp only:) (simp add: unat_word_ariths)
  have off: "unat (?y AND 0xFFF) \<le> 4095" using word_and_le1[of ?y "0xFFF"] by (simp add: word_le_nat_alt)
  have "unat ?y \<le> unat (?y AND PAGE_MASK) + unat (?y AND 0xFFF)"
    using unat_word_ariths(1)[of "?y AND PAGE_MASK" "?y AND 0xFFF"] unfolding page_mask_offset by (metis mod_less_eq_dividend)
  then have "unat x < unat (?y AND PAGE_MASK)" using y off x assms(2) by linarith
  then show ?thesis unfolding in_segment_def using lo by (simp only: word_less_nat_alt simp_thms)
qed

section \<open>Frames and large pages\<close>

lemma alloc_map_frames:
  assumes "vmm_wf s" "vmm_alloc_map virt flags s = (r, s')"
  shows "card (free_frames (pmm s)) \<le> card (free_frames (pmm s')) + 4"
proof -
  have inv: "pmm_inv (pmm s)" using assms(1) by (simp add: pt_wf_def)
  obtain f s1 where a: "frame_alloc s = (f, s1)" by fastforce
  from inv a show ?thesis
  proof (cases rule: frame_alloc_cases)
    case 1
    then show ?thesis using assms(2) a by (simp add: vmm_alloc_map_def)
  next
    case (2 pm)
    let ?s2 = "clear_page f s1"
    have s2: "mem ?s2 = memset8 (mem s) f 0 4096" "s_pml4_virt ?s2 = s_pml4_virt s" "pmm ?s2 = pm"
      by (simp_all add: clear_page_def 2(2))
    have "vmm_wf ?s2" using clear_free_frame(1)[OF assms(1) 2(3,6,5)] 2(4) s2 by auto
    moreover have "vmm_map_page f (virt AND PAGE_MASK) flags ?s2 = (r, s')"
      using assms(2) a 2(1) by (simp only: vmm_alloc_map_def Let_def prod.case if_False)
    ultimately obtain u where "tables_step 3 ?s2 u" "pmm s' = pmm u"
      using vmm_map_page_steps by (fastforce simp: poke64_def)
    then have "card (free_frames pm) \<le> card (free_frames (pmm s')) + 3" using tables_stepD(6) s2(3) by metis
    moreover have "card (free_frames (pmm s)) = card (free_frames pm) + 1"
      using card_Suc_Diff1[OF pa.frames_finite 2(3)] 2(4) by simp
    ultimately show ?thesis by simp
  qed
qed

lemma untranslated_not_huge: "vmm_wf s \<Longrightarrow> xlate (mem s) (s_pml4_virt s) va = None \<Longrightarrow> \<not> in_huge_page s va"
  unfolding in_huge_page_def using xlate_pte[of "mem s" "s_pml4_virt s" "pmm s" va] unfolding walk_def by (metis option.distinct(1))

lemma canonical_high: "18446603336221196288 \<le> unat x \<Longrightarrow> canonical x"
proof -
  assume "18446603336221196288 \<le> unat x"
  then have "unat x div 140737488355328 = 131071" using unat64_less[of x] by (intro div_nat_eqI) simp_all
  then have "unat (drop_bit 47 x) = unat (0x1FFFF :: u64)" by (simp add: drop_bit_eq_div unat_div)
  then show ?thesis by (simp add: canonical_def word_unat_eq_iff)
qed

text \<open>The first page of the example heap is accessible, and a page elsewhere can still be mapped.\<close>

lemma heap_example_vmm:
  "vmm_wf heap_example" "i < 4096 \<Longrightarrow> accessible heap_example (VMM_HEAP_BASE + word_of_nat i)"
  "4 \<le> card (free_frames (pmm heap_example))" "\<not> in_huge_page heap_example 0x40000000"
proof -
  let ?s0 = "heap_example0\<lparr>heap_start := VMM_HEAP_BASE, heap_max_size := VMM_HEAP_SIZE, heap_mapped_size := 0,
      heap_allocated_bytes := 0, free_list_head := 0\<rparr>"
  have eq: "mem ?s0 = mem vmm_example" "s_pml4_virt ?s0 = s_pml4_virt vmm_example" "pmm ?s0 = pmm vmm_example"
    by (simp_all add: heap_example0_def)
  obtain r u where a: "vmm_alloc_map VMM_HEAP_BASE VMM_KERN_RW ?s0 = (r, u)" by fastforce
  note h = heap_init_vmm[OF a, folded heap_example_def]
  have wf: "vmm_wf ?s0" using vmm_example_wf eq by simp
  have "bit VMM_KERN_RW 0" by (simp flip: flags_bits)
  note v = vmm_alloc_map_correct_aux[OF wf this a]
  have "\<not> in_huge_page ?s0 VMM_HEAP_BASE" using vmm_example_not_large(1)[of VMM_HEAP_BASE] eq unfolding in_huge_page_def by simp
  then have r: "r = 0" using v vmm_example_frames eq by auto
  show wf': "vmm_wf heap_example" using v unfolding h by blast
  show "4 \<le> card (free_frames (pmm heap_example))" using alloc_map_frames[OF wf a] vmm_example_frames unfolding h eq by simp
  have "\<not> same_page VMM_HEAP_BASE 0x40000000" by (simp add: same_page_def idx_nat)
  moreover have "xlate (mem vmm_example) (s_pml4_virt vmm_example) 0x40000000 = None"
    by (simp add: xlate_def vmm_example_def ent_zero Let_def)
  ultimately have "xlate (mem heap_example) (s_pml4_virt heap_example) 0x40000000 = None" using v unfolding h eq by metis
  then show "\<not> in_huge_page heap_example 0x40000000" by (rule untranslated_not_huge[OF wf'])
  assume i: "i < 4096"
  let ?x = "VMM_HEAP_BASE + word_of_nat i"
  have off: "unat (?x - VMM_HEAP_BASE) = i" using i by (simp add: unat_of_nat64)
  have "same_page VMM_HEAP_BASE ?x"
    by (rule page_same_page) (use off i in \<open>simp_all add: aligned_def\<close>)
  then have "xlate (mem heap_example) (s_pml4_virt heap_example) ?x \<noteq> None"
    using v r unfolding h by (metis map_option_is_None option.distinct(1))
  moreover have "canonical ?x"
  proof (rule canonical_high)
    have "unat ?x = unat VMM_HEAP_BASE + i" using i unat_add64[of VMM_HEAP_BASE "word_of_nat i"] by (simp add: unat_of_nat64)
    then show "18446603336221196288 \<le> unat ?x" by simp
  qed
  ultimately show "accessible heap_example ?x" by (simp add: accessible_def)
qed

end
