(* ===== verification/Elf64_Properties.thy ===== *)
theory Elf64_Properties
  imports Elf64_Access
begin

text \<open>
  The ELF loader: what a loaded segment holds, which images are rejected, and that loading a well-formed image returns.
\<close>

section \<open>One segment\<close>

text \<open>The memory after the file's bytes have been copied and the rest of the segment has been cleared.\<close>

definition segment_mem :: "Elf64_Phdr \<Rightarrow> u64 \<Rightarrow> memory \<Rightarrow> memory" where
  "segment_mem ph src m =
     (let m = copy8 m (p_vaddr ph) src (unat (p_filesz ph))
      in if p_memsz ph > p_filesz ph then memset8 m (p_vaddr ph + p_filesz ph) 0 (unat (p_memsz ph - p_filesz ph)) else m)"

definition segment_fits :: "Elf64_Phdr \<Rightarrow> bool" where
  "segment_fits ph \<longleftrightarrow> p_filesz ph \<le> p_memsz ph \<and> unat (p_vaddr ph) + unat (p_memsz ph) + 4095 < 18446744073709551616"

lemma in_bss:
  assumes "segment_fits ph"
  shows "unat (x - (p_vaddr ph + p_filesz ph)) < unat (p_memsz ph - p_filesz ph)
    \<longleftrightarrow> unat (p_filesz ph) \<le> unat (x - p_vaddr ph) \<and> unat (x - p_vaddr ph) < unat (p_memsz ph)"
proof -
  have le: "unat (p_filesz ph) \<le> unat (p_memsz ph)" "unat (p_memsz ph - p_filesz ph) = unat (p_memsz ph) - unat (p_filesz ph)"
    using assms by (simp_all add: segment_fits_def unat_sub word_le_nat_alt)
  then show ?thesis
    using unat_minus_shift[of "unat (p_filesz ph)" x "p_vaddr ph"] unat64_less[of "p_filesz ph"] unat64_less[of "p_memsz ph"]
    by (auto split: if_splits)
qed

lemma copy_outside_segment:
  assumes "segment_fits ph" "\<not> in_segment ph x"
  shows "copy8 m (p_vaddr ph) src (unat (p_filesz ph)) x = m x" "segment_mem ph src m x = m x"
proof -
  have out: "\<not> unat (x - p_vaddr ph) < unat (p_memsz ph)" using in_segmentI[of ph x] assms by (auto simp: segment_fits_def)
  then have "\<not> unat (x - p_vaddr ph) < unat (p_filesz ph)" using assms(1) by (simp add: segment_fits_def word_le_nat_alt)
  then show c: "copy8 m (p_vaddr ph) src (unat (p_filesz ph)) x = m x"
    using unat64_less[of "p_filesz ph"] by (intro copy8_outside) simp_all
  show "segment_mem ph src m x = m x"
    using c out in_bss[OF assms(1), of x] unat64_less[of "p_memsz ph - p_filesz ph"]
    by (simp add: segment_mem_def Let_def memset8_apply)
qed

text \<open>
  The three steps of loading a segment whose header is not overwritten: all its pages are mapped, and then either an access faults or
  the segment is filled.
\<close>

lemma load_segment_steps:
  assumes "phdr_at (hmem s) p = ph" "p_type ph = PT_LOAD" "segment_fits ph" "\<forall>i < 56. \<not> in_segment ph (p + word_of_nat i)"
    "map_segment p (p_vaddr ph AND PAGE_MASK) ((p_vaddr ph + p_memsz ph + VMM_PAGE_SIZE - 1) AND PAGE_MASK) s = Some (ok, u)"
  shows "load_segment f p s =
    (if \<not> ok then Some (False, u)
     else if accessible_range u (p_vaddr ph) (unat (p_filesz ph)) \<and> accessible_range u (f + p_offset ph) (unat (p_filesz ph))
       \<and> (p_memsz ph > p_filesz ph \<longrightarrow> accessible_range u (p_vaddr ph + p_filesz ph) (unat (p_memsz ph - p_filesz ph)))
     then Some (True, u\<lparr>hmem := segment_mem ph (f + p_offset ph) (hmem u)\<rparr>) else None)"
proof -
  define m where m: "m = copy8 (hmem u) (p_vaddr ph) (f + p_offset ph) (unat (p_filesz ph))"
  have frame: "hmem u x = hmem s x" if "\<not> in_segment ph x" for x
    using map_segment_mem[OF assms(5) aligned_page_mask aligned_page_mask] that unfolding in_segment_def by blast
  have hdr: "phdr_at (hmem u) p = ph"
    using assms(1,4) frame phdr_at_cong[of "hmem u" p "hmem s"] by metis
  have hdr2: "phdr_at m p = ph"
    using assms(4) hdr copy_outside_segment(1)[OF assms(3)] phdr_at_cong[of m p "hmem u"] unfolding m by metis
  have m': "segment_mem ph (f + p_offset ph) (hmem u)
      = (if p_memsz ph > p_filesz ph then memset8 m (p_vaddr ph + p_filesz ph) 0 (unat (p_memsz ph - p_filesz ph)) else m)"
    by (simp add: segment_mem_def m Let_def)
  show ?thesis
    unfolding load_segment_def Let_def assms(1) assms(5) option.case prod.case hdr copy_segment_copies m'
    using assms(2) hdr2 by (auto simp: m[symmetric] clear_bss_def)
qed

text \<open>
  C16: Loading a segment copies the file's bytes to the segment's address and clears the rest of its memory size; outside the pages
  of the segment no byte changes.  The image and the program header must not lie in the pages being filled, and the
  segment must not wrap around the address space.
\<close>

theorem load_segment_correct:
  assumes "load_segment f p s = Some (True, t)" "phdr_at (hmem s) p = ph" "p_type ph = PT_LOAD" "p_filesz ph \<le> p_memsz ph"
    "unat (p_vaddr ph) + unat (p_memsz ph) + 4095 < 18446744073709551616"
    "\<forall>i < 56. \<not> in_segment ph (p + word_of_nat i)"
    "\<forall>i < unat (p_filesz ph). \<not> in_segment ph (f + p_offset ph + word_of_nat i)"
  shows "(\<forall>i < unat (p_filesz ph). hmem t (p_vaddr ph + word_of_nat i) = hmem s (f + p_offset ph + word_of_nat i))
    \<and> (\<forall>i. unat (p_filesz ph) \<le> i \<and> i < unat (p_memsz ph) \<longrightarrow> hmem t (p_vaddr ph + word_of_nat i) = 0)
    \<and> (\<forall>x. \<not> in_segment ph x \<longrightarrow> hmem t x = hmem s x)"
proof -
  let ?v = "p_vaddr ph" and ?src = "f + p_offset ph" and ?n = "unat (p_filesz ph)" and ?k = "unat (p_memsz ph)"
  have fits: "segment_fits ph" using assms(4,5) by (simp add: segment_fits_def)
  obtain ok u where u: "map_segment p (?v AND PAGE_MASK) ((?v + p_memsz ph + VMM_PAGE_SIZE - 1) AND PAGE_MASK) s = Some (ok, u)"
    using map_segment_returns[OF aligned_page_mask aligned_page_mask] by (metis surj_pair)
  have frame: "hmem u x = hmem s x" if "\<not> in_segment ph x" for x
    using map_segment_mem[OF u aligned_page_mask aligned_page_mask] that unfolding in_segment_def by blast
  have nk: "?n \<le> ?k" using assms(4) by (simp add: word_le_nat_alt)
  have t: "hmem t = segment_mem ph ?src (hmem u)"
    using assms(1) unfolding load_segment_steps[OF assms(2,3) fits assms(6) u] by (auto split: if_splits)
  have inside: "in_segment ph (?v + word_of_nat i)" if "i < ?k" for i
    using in_segmentI[OF assms(5)] that unat64_less[of "p_memsz ph"] by (simp add: unat_of_nat64)
  have copy: "copy8 (hmem u) ?v ?src ?n x = (if unat (x - ?v) < ?n then hmem u (?src + (x - ?v)) else hmem u x)" for x
    using inside assms(7) nk unat64_less[of "p_filesz ph"] by (intro copy8_apply) (auto, metis order_less_le_trans)
  have final: "hmem t x = (if ?n \<le> unat (x - ?v) \<and> unat (x - ?v) < ?k then 0 else copy8 (hmem u) ?v ?src ?n x)" for x
    using in_bss[OF fits, of x] unat64_less[of "p_memsz ph - p_filesz ph"] nk
    unfolding t segment_mem_def Let_def by (auto simp: memset8_apply word_less_nat_alt)
  have at: "unat (?v + word_of_nat i - ?v) = i" if "i < ?k" for i
    using that unat64_less[of "p_memsz ph"] by (simp add: unat_of_nat64)
  show ?thesis
  proof (intro conjI allI impI)
    fix i assume i: "i < ?n"
    then have "hmem t (?v + word_of_nat i) = hmem u (?src + word_of_nat i)" using final at[of i] copy nk by simp
    then show "hmem t (?v + word_of_nat i) = hmem s (?src + word_of_nat i)" using frame assms(7) i by simp
  next
    fix i assume "?n \<le> i \<and> i < ?k"
    then show "hmem t (?v + word_of_nat i) = 0" using final at[of i] by simp
  next
    fix x assume x: "\<not> in_segment ph x"
    then show "hmem t x = hmem s x" unfolding t using copy_outside_segment(2)[OF fits x] frame by simp
  qed
qed

section \<open>All segments\<close>

text \<open>
  A segment the image at \<open>f\<close> with \<open>n\<close> bytes may have: its data lies in the image, its file size does not exceed its memory size, it
  lies in the lower half of the address space, and none of its pages holds a byte of the image.
\<close>

definition segment_ok :: "u64 \<Rightarrow> nat \<Rightarrow> Elf64_Phdr \<Rightarrow> bool" where
  "segment_ok f n ph \<longleftrightarrow> p_filesz ph \<le> p_memsz ph \<and> unat (p_offset ph) + unat (p_filesz ph) \<le> n
     \<and> unat (p_vaddr ph) + unat (p_memsz ph) + 4095 < 140737488355328 \<and> (\<forall>i < n. \<not> in_segment ph (f + word_of_nat i))"

definition in_image :: "u64 \<Rightarrow> nat \<Rightarrow> u64 \<Rightarrow> nat \<Rightarrow> bool" where
  "in_image f n p k \<longleftrightarrow> (\<exists>a. p = f + word_of_nat a \<and> a + k \<le> n)"

text \<open>What loading keeps: access, and the bytes of the image.\<close>

definition keeps_image :: "u64 \<Rightarrow> nat \<Rightarrow> 'a heap_state_scheme \<Rightarrow> 'a heap_state_scheme \<Rightarrow> bool" where
  "keeps_image f n s t \<longleftrightarrow> keeps_access s t \<and> (\<forall>i < n. hmem t (f + word_of_nat i) = hmem s (f + word_of_nat i))"

lemma keeps_image_trans: "keeps_image f n s t \<Longrightarrow> keeps_image f n t u \<Longrightarrow> keeps_image f n s u"
  using keeps_access_trans by (auto simp: keeps_image_def)

lemma keeps_image_phdr: "keeps_image f n s t \<Longrightarrow> in_image f n p 56 \<Longrightarrow> phdr_at (hmem t) p = phdr_at (hmem s) p"
  by (rule phdr_at_cong) (auto simp: keeps_image_def in_image_def add.assoc simp flip: of_nat_add)

lemma segment_bytes_access:
  assumes "segment_ok f n ph" "\<And>x. in_segment ph x \<Longrightarrow> canonical x \<Longrightarrow> accessible u x" "a + k \<le> unat (p_memsz ph)"
  shows "accessible_range u (p_vaddr ph + word_of_nat a) k"
  unfolding accessible_range_def
proof (intro allI impI)
  fix i assume "i < k"
  then have i: "a + i < unat (p_memsz ph)" using assms(3) by simp
  let ?x = "p_vaddr ph + word_of_nat (a + i)"
  have ok: "unat (p_vaddr ph) + unat (p_memsz ph) + 4095 < 140737488355328" using assms(1) by (simp add: segment_ok_def)
  have u: "unat (word_of_nat (a + i) :: u64) = a + i" using i unat64_less[of "p_memsz ph"] by (intro unat_of_nat64) simp
  have "unat ?x = unat (p_vaddr ph) + (a + i)" using unat_add64[of "p_vaddr ph" "word_of_nat (a + i)"] u i ok by simp
  then have "canonical ?x" using i ok by (intro canonical_low) simp
  moreover have "in_segment ph ?x" by (rule in_segmentI) (use ok u i in simp_all)
  ultimately show "accessible u (p_vaddr ph + word_of_nat a + word_of_nat i)" using assms(2)[of ?x] by (simp add: add.assoc)
qed

lemma load_segment_ok:
  assumes "vmm_wf s" "accessible_range s f n" "in_image f n p 56"
    "p_type (phdr_at (hmem s) p) = PT_LOAD \<Longrightarrow> segment_ok f n (phdr_at (hmem s) p)"
  shows "\<exists>ok t. load_segment f p s = Some (ok, t) \<and> keeps_image f n s t"
proof (cases "p_type (phdr_at (hmem s) p) = PT_LOAD")
  case False
  then show ?thesis using keeps_access_refl[OF assms(1)] by (auto simp: load_segment_def Let_def keeps_image_def)
next
  case True
  define ph where ph: "ph = phdr_at (hmem s) p"
  have ok: "segment_ok f n ph" and load: "p_type ph = PT_LOAD" using assms(4) True by (simp_all add: ph)
  have fits: "segment_fits ph" and le: "unat (p_filesz ph) \<le> unat (p_memsz ph)"
    and out: "\<And>i. i < n \<Longrightarrow> \<not> in_segment ph (f + word_of_nat i)"
    using ok by (auto simp: segment_ok_def segment_fits_def word_le_nat_alt)
  have hdr: "\<forall>i < 56. \<not> in_segment ph (p + word_of_nat i)"
    using assms(3) out by (auto simp: in_image_def add.assoc simp flip: of_nat_add)
  obtain mapped u where u: "map_segment p (p_vaddr ph AND PAGE_MASK) ((p_vaddr ph + p_memsz ph + VMM_PAGE_SIZE - 1) AND PAGE_MASK) s = Some (mapped, u)"
    using map_segment_returns[OF aligned_page_mask aligned_page_mask] by (metis surj_pair)
  note acc = map_segment_access[OF u aligned_page_mask aligned_page_mask assms(1)]
  have frame: "hmem u x = hmem s x" if "\<not> in_segment ph x" for x
    using map_segment_mem[OF u aligned_page_mask aligned_page_mask] that unfolding in_segment_def by blast
  have image: "keeps_image f n s u" using acc frame out by (simp add: keeps_image_def)
  note steps = load_segment_steps[OF ph[symmetric] load fits hdr u]
  show ?thesis
  proof (cases mapped)
    case False
    then show ?thesis using steps image by auto
  next
    case True
    then have seg: "accessible u x" if "in_segment ph x" "canonical x" for x using acc that unfolding in_segment_def by blast
    have "accessible_range u (f + p_offset ph) (unat (p_filesz ph))"
      using accessible_range_sub[OF keeps_access_range[OF acc[THEN conjunct1] assms(2)], of "unat (p_offset ph)"] ok by (simp add: segment_ok_def)
    moreover have "accessible_range u (p_vaddr ph) (unat (p_filesz ph))"
      using segment_bytes_access[OF ok seg, of 0] le by simp
    moreover have "accessible_range u (p_vaddr ph + p_filesz ph) (unat (p_memsz ph - p_filesz ph))"
      using segment_bytes_access[OF ok seg, of "unat (p_filesz ph)"] le fits by (simp add: segment_fits_def unat_sub)
    ultimately have "load_segment f p s = Some (True, u\<lparr>hmem := segment_mem ph (f + p_offset ph) (hmem u)\<rparr>)"
      using steps True by simp
    moreover have "keeps_image f n s (u\<lparr>hmem := segment_mem ph (f + p_offset ph) (hmem u)\<rparr>)"
      using image copy_outside_segment(2)[OF fits out] by (simp add: keeps_image_def)
    ultimately show ?thesis by blast
  qed
qed

lemma load_segments_ok:
  assumes "vmm_wf s" "accessible_range s f n"
    "\<And>j. j < k \<Longrightarrow> in_image f n (phdr_addr phdr (i + j)) 56"
    "\<And>j. j < k \<Longrightarrow> p_type (phdr_at (hmem s) (phdr_addr phdr (i + j))) = PT_LOAD \<Longrightarrow> segment_ok f n (phdr_at (hmem s) (phdr_addr phdr (i + j)))"
  shows "\<exists>ok t. load_segments f phdr i k s = Some (ok, t) \<and> keeps_image f n s t"
  using assms
proof (induction k arbitrary: i s)
  case 0
  then show ?case using keeps_access_refl by (auto simp: keeps_image_def)
next
  case (Suc k)
  obtain ok t where t: "load_segment f (phdr_addr phdr i) s = Some (ok, t)" "keeps_image f n s t"
    using load_segment_ok[OF Suc.prems(1,2) Suc.prems(3)[of 0]] Suc.prems(4)[of 0] by auto
  show ?case
  proof (cases ok)
    case False
    then show ?thesis using t by auto
  next
    case True
    have "vmm_wf t" "accessible_range t f n" using t(2) keeps_access_range[OF _ Suc.prems(2)] by (auto simp: keeps_image_def keeps_access_def)
    moreover have "in_image f n (phdr_addr phdr (Suc i + j)) 56" if "j < k" for j using Suc.prems(3)[of "Suc j"] that by simp
    moreover have "segment_ok f n (phdr_at (hmem t) (phdr_addr phdr (Suc i + j)))"
      if "j < k" "p_type (phdr_at (hmem t) (phdr_addr phdr (Suc i + j))) = PT_LOAD" for j
      using Suc.prems(3)[of "Suc j"] Suc.prems(4)[of "Suc j"] keeps_image_phdr[OF t(2)] that by simp
    ultimately obtain ok' u where "load_segments f phdr (Suc i) k t = Some (ok', u)" "keeps_image f n t u"
      using Suc.IH[of t "Suc i"] by blast
    then show ?thesis using t True keeps_image_trans by auto
  qed
qed

section \<open>The extent of an image\<close>

definition load_headers :: "memory \<Rightarrow> u64 \<Rightarrow> nat \<Rightarrow> Elf64_Phdr list" where
  "load_headers m phdr n = filter (\<lambda>p. p_type p = PT_LOAD) (map (\<lambda>i. phdr_at m (phdr_addr phdr i)) [0..<n])"

lemma elf_extent_eq:
  "elf_extent m phdr n = (Min (insert UINT64_MAX (p_vaddr ` set (load_headers m phdr n))),
     Max (insert 0 ((\<lambda>p. p_vaddr p + p_memsz p) ` set (load_headers m phdr n))))"
proof (induction n)
  case (Suc n)
  let ?p = "phdr_at m (phdr_addr phdr n)" and ?S = "set (load_headers m phdr n)" and ?fin = "\<lambda>p. p_vaddr p + p_memsz p"
  show ?case
  proof (cases "p_type ?p = PT_LOAD")
    case True
    then have S: "set (load_headers m phdr (Suc n)) = insert ?p ?S" by (auto simp: load_headers_def)
    have lo: "Min (insert UINT64_MAX (p_vaddr ` insert ?p ?S)) = min (p_vaddr ?p) (Min (insert UINT64_MAX (p_vaddr ` ?S)))"
      unfolding image_insert insert_commute[of UINT64_MAX] by (rule Min_insert) simp_all
    have hi: "Max (insert 0 (?fin ` insert ?p ?S)) = max (?fin ?p) (Max (insert 0 (?fin ` ?S)))"
      unfolding image_insert insert_commute[of 0] by (rule Max_insert) simp_all
    have step: "elf_extent m phdr (Suc n) = (min (p_vaddr ?p) a, max (?fin ?p) b)" if "elf_extent m phdr n = (a, b)" for a b
      using that True by (auto simp: Let_def min_def max_def)
    show ?thesis unfolding S lo hi by (rule step[OF Suc])
  next
    case False
    then have "load_headers m phdr (Suc n) = load_headers m phdr n" by (simp add: load_headers_def)
    then show ?thesis using False Suc by (simp add: Let_def)
  qed
qed (simp add: load_headers_def)

section \<open>The whole image\<close>

text \<open>The file header by its byte offsets: magic number, class, machine, and a program header table that ends in the file.\<close>

definition valid_header :: "memory \<Rightarrow> u64 \<Rightarrow> u64 \<Rightarrow> bool" where
  "valid_header m f sz \<longleftrightarrow> 64 \<le> sz \<and> map (\<lambda>i. m (f + i)) [0, 1, 2, 3] = [0x7F, 0x45, 0x4C, 0x46] \<and> m (f + 4) = 2 \<and> load16 m (f + 18) = 62
     \<and> load64 m (f + 32) + scast (ucast (load16 m (f + 54)) * ucast (load16 m (f + 56)) :: u32) \<le> sz"

abbreviation image_segments :: "memory \<Rightarrow> u64 \<Rightarrow> Elf64_Phdr list" where
  "image_segments m f \<equiv> load_headers m (f + load64 m (f + 32)) (unat (load16 m (f + 56)))"

lemma valid_header_error: "elf_header_error m f sz = None \<longleftrightarrow> valid_header m f sz"
  by (auto simp: elf_header_error_def valid_header_def e_machine_def phdr_table_end_def e_phoff_def e_phentsize_def e_phnum_def)

lemma elf64_load_valid:
  assumes "valid_header (hmem s) f sz"
  shows "elf64_load f sz s =
    (let phdr = f + load64 (hmem s) (f + 32); n = unat (load16 (hmem s) (f + 56)); segs = image_segments (hmem s) f;
         base = Min (insert UINT64_MAX (p_vaddr ` set segs)); top = Max (insert 0 ((\<lambda>p. p_vaddr p + p_memsz p) ` set segs))
     in if \<not> accessible_range s f 64 \<or> \<not> phdrs_accessible s phdr n then None
        else if base = UINT64_MAX then Some (elf_failed ''No PT_LOAD segments found'', s)
        else map_option (\<lambda>(ok, t). (if ok then \<lparr>elf_entry_point = load64 (hmem t) (f + 24), elf_size = top - base, elf_base_vaddr = base,
               elf_max_vaddr = top, elf_success = True, elf_error = []\<rparr> else elf_failed ''Failed to map page'', t)) (load_segments f phdr 0 n s))"
proof -
  have sz: "SIZEOF_Elf64_Ehdr \<le> sz" using assms by (simp add: valid_header_def)
  show ?thesis
    using assms sz unfolding elf64_load_def valid_header_error[symmetric] elf_extent_eq Let_def e_phoff_def e_phnum_def e_entry_def
    by (simp split: option.split)
qed

lemma extent_nonempty:
  fixes segs :: "Elf64_Phdr list"
  assumes "Min (insert UINT64_MAX (p_vaddr ` set segs)) \<noteq> UINT64_MAX"
  shows "segs \<noteq> []" "Min (insert UINT64_MAX (p_vaddr ` set segs)) = Min (p_vaddr ` set segs)"
    "Max (insert 0 ((\<lambda>p. p_vaddr p + p_memsz p) ` set segs)) = Max ((\<lambda>p. p_vaddr p + p_memsz p) ` set segs)"
proof -
  show ne: "segs \<noteq> []" using assms by auto
  have "Min (insert UINT64_MAX (p_vaddr ` set segs)) = min UINT64_MAX (Min (p_vaddr ` set segs))" by (rule Min_insert) (simp_all add: ne)
  then show "Min (insert UINT64_MAX (p_vaddr ` set segs)) = Min (p_vaddr ` set segs)" using assms by (simp add: min_def split: if_splits)
  show "Max (insert 0 ((\<lambda>p. p_vaddr p + p_memsz p) ` set segs)) = Max ((\<lambda>p. p_vaddr p + p_memsz p) ` set segs)"
    by (subst Max_insert) (simp_all add: ne max_def)
qed

lemma phdr_in_image:
  assumes "unat off + 56 * n \<le> sz" "i < n"
  shows "in_image f sz (phdr_addr (f + off) i) 56"
  unfolding in_image_def
proof (intro exI conjI)
  show "phdr_addr (f + off) i = f + word_of_nat (unat off + 56 * i)" by (simp add: phdr_addr_def)
  show "unat off + 56 * i + 56 \<le> sz" using assms by simp
qed

lemma image_phdrs_accessible:
  assumes "accessible_range s f n" "\<And>i. i < k \<Longrightarrow> in_image f n (phdr_addr phdr i) 56"
  shows "phdrs_accessible s phdr k"
  unfolding phdrs_accessible_def
proof (intro allI impI conjI)
  fix i assume i: "i < k"
  then obtain a where "phdr_addr phdr i = f + word_of_nat a" "a + 56 \<le> n" using assms(2) by (auto simp: in_image_def)
  then show "accessible_range s (phdr_addr phdr i) 4" "accessible_range s (phdr_addr phdr i) 48"
    using accessible_range_sub[OF assms(1), of a] by simp_all
qed

lemma elf64_load_success_valid: "elf64_load f sz s = Some (res, t) \<and> elf_success res \<Longrightarrow> valid_header (hmem s) f sz"
  by (cases "elf_header_error (hmem s) f sz") (auto simp: elf64_load_def valid_header_error[symmetric] elf_failed_def split: if_splits)

text \<open>
  C15: An image whose header is too short, or has the wrong magic number, class or machine, or a program header table beyond the end of the file,
  is rejected without any change.  When the loader reports success, the header was valid and there was a loadable segment; the result holds
  the entry point, the lowest start and the highest end of the loadable segments, and their distance.  And on well-formed page tables the
  loader returns, without a fault and with the image as it was, for every image that lies in accessible memory, has a valid header with all program
  headers in the file, and whose loadable segments have their data in the file, no file size beyond their memory size and
  pages in the lower half apart from the image; it then fails only for want of loadable segments or of frames to map.
\<close>

theorem elf64_load_correct:
  "(\<not> valid_header (hmem s) f sz \<and> (sz < 64 \<or> accessible_range s f 64) \<longrightarrow> (\<exists>msg. elf64_load f sz s = Some (elf_failed msg, s)))
   \<and> (\<forall>res t. elf64_load f sz s = Some (res, t) \<and> elf_success res \<longrightarrow> valid_header (hmem s) f sz
        \<and> (let segs = image_segments (hmem s) f
           in segs \<noteq> [] \<and> elf_entry_point res = load64 (hmem t) (f + 24)
              \<and> elf_base_vaddr res = Min (p_vaddr ` set segs) \<and> elf_max_vaddr res = Max ((\<lambda>p. p_vaddr p + p_memsz p) ` set segs)
              \<and> elf_size res = elf_max_vaddr res - elf_base_vaddr res))
   \<and> (vmm_wf s \<and> accessible_range s f (unat sz) \<and> valid_header (hmem s) f sz
        \<and> unat (load64 (hmem s) (f + 32)) + 56 * unat (load16 (hmem s) (f + 56)) \<le> unat sz
        \<and> (\<forall>ph \<in> set (image_segments (hmem s) f). segment_ok f (unat sz) ph) \<longrightarrow>
        (\<exists>res t. elf64_load f sz s = Some (res, t) \<and> vmm_wf t \<and> (\<forall>i < unat sz. hmem t (f + word_of_nat i) = hmem s (f + word_of_nat i))
          \<and> (elf_success res \<or> elf_error res \<in> {''No PT_LOAD segments found'', ''Failed to map page''})))"
proof (intro conjI allI impI, goal_cases)
  case 1
  then show ?case by (auto simp: elf64_load_def valid_header_error[symmetric])
next
  case (2 res t)
  then show ?case by (rule elf64_load_success_valid)
next
  case (3 res t)
  then have v: "valid_header (hmem s) f sz" by (rule elf64_load_success_valid)
  define segs where segs: "segs = image_segments (hmem s) f"
  define base where base: "base = Min (insert UINT64_MAX (p_vaddr ` set segs))"
  define top where top: "top = Max (insert 0 ((\<lambda>p. p_vaddr p + p_memsz p) ` set segs))"
  have "base \<noteq> UINT64_MAX \<and> elf_entry_point res = load64 (hmem t) (f + 24) \<and> elf_base_vaddr res = base \<and> elf_max_vaddr res = top
      \<and> elf_size res = top - base"
    using 3 unfolding elf64_load_valid[OF v] Let_def segs[symmetric] base[symmetric] top[symmetric]
    by (auto simp: elf_failed_def split: if_splits)
  then show ?case using extent_nonempty[of segs, folded base top] unfolding segs[symmetric] Let_def by simp
next
  case 4
  let ?phdr = "f + load64 (hmem s) (f + 32)" and ?n = "unat (load16 (hmem s) (f + 56))"
  have v: "valid_header (hmem s) f sz" and acc: "accessible_range s f (unat sz)" using 4 by blast+
  have hdrs: "in_image f (unat sz) (phdr_addr ?phdr i) 56" if "i < ?n" for i using 4 that by (intro phdr_in_image) blast+
  have segs: "segment_ok f (unat sz) (phdr_at (hmem s) (phdr_addr ?phdr i))"
    if "i < ?n" "p_type (phdr_at (hmem s) (phdr_addr ?phdr i)) = PT_LOAD" for i
    using 4 that unfolding load_headers_def by auto
  have a: "accessible_range s f 64" using accessible_range_sub[OF acc, of 0 64] v by (simp add: valid_header_def word_le_nat_alt)
  have b: "phdrs_accessible s ?phdr ?n" using acc hdrs by (rule image_phdrs_accessible)
  have wf: "vmm_wf s" using 4 by blast
  obtain ok t where t: "load_segments f ?phdr 0 ?n s = Some (ok, t)" "keeps_image f (unat sz) s t"
    using load_segments_ok[OF wf acc, of ?n ?phdr 0] hdrs segs by auto
  show ?case
    using a b t wf unfolding elf64_load_valid[OF v] Let_def
    by (auto simp: elf_failed_def keeps_image_def keeps_access_def)
qed

section \<open>An example image\<close>

text \<open>
  An image of 128 bytes at the start of the heap: the file header, one program header for a writable segment of two bytes and two
  more to clear at 0x40000000, and its data at offset 120.  All other bytes are 0x5A.
\<close>

definition elf_bytes :: "u8 list" where
  "elf_bytes = [0x7F, 0x45, 0x4C, 0x46, 2, 1, 1, 0] @ replicate 8 0 @ [2, 0, 62, 0, 1, 0, 0, 0] @ [0, 0, 0, 0x40, 0, 0, 0, 0]
     @ [64, 0, 0, 0, 0, 0, 0, 0] @ replicate 8 0 @ [0, 0, 0, 0, 64, 0, 56, 0] @ [1, 0, 0, 0, 0, 0, 0, 0]
     @ [1, 0, 0, 0, 2, 0, 0, 0] @ [120, 0, 0, 0, 0, 0, 0, 0] @ [0, 0, 0, 0x40, 0, 0, 0, 0] @ replicate 8 0
     @ [2, 0, 0, 0, 0, 0, 0, 0] @ [4, 0, 0, 0, 0, 0, 0, 0] @ replicate 8 0"

definition elf_image :: memory where
  "elf_image x = (let i = unat (x - VMM_HEAP_BASE) in if i < length elf_bytes then elf_bytes ! i else 0x5A)"

definition elf_example :: heap_state where
  "elf_example = heap_example\<lparr>hmem := elf_image\<rparr>"

abbreviation elf_segment :: Elf64_Phdr where
  "elf_segment \<equiv> \<lparr>p_type = 1, p_flags = 2, p_offset = 120, p_vaddr = 0x40000000, p_filesz = 2, p_memsz = 4\<rparr>"

lemma elf_image_header: "valid_header elf_image VMM_HEAP_BASE 128" "load64 elf_image (VMM_HEAP_BASE + 32) = 64" "load16 elf_image (VMM_HEAP_BASE + 56) = 1"
  by (simp_all add: valid_header_def elf_image_def elf_bytes_def load64_def load32_def load16_def upt_rec word_rcat_def nth_append)

lemma elf_image_phdr: "phdr_at elf_image (VMM_HEAP_BASE + 64) = elf_segment"
  by (simp add: phdr_at_def elf_image_def elf_bytes_def load64_def load32_def load16_def upt_rec word_rcat_def nth_append)

lemma elf_example_access: "vmm_wf elf_example" "accessible_range elf_example VMM_HEAP_BASE 128"
  using heap_example_vmm(1,2) by (simp_all add: elf_example_def accessible_range_def accessible_def)

lemma elf_image_outside:
  assumes "i < 4096"
  shows "\<not> in_segment elf_segment (VMM_HEAP_BASE + word_of_nat i)"
proof -
  have "unat (VMM_HEAP_BASE + word_of_nat i) = unat VMM_HEAP_BASE + i"
    using assms unat_add64[of VMM_HEAP_BASE "word_of_nat i"] by (simp add: unat_of_nat64)
  then show ?thesis by (simp add: in_segment_def word_less_nat_alt)
qed

lemma elf_segment_ok: "segment_ok VMM_HEAP_BASE 128 elf_segment"
  using elf_image_outside by (simp add: segment_ok_def)

lemma elf_example_maps: "\<exists>u. map_segment (VMM_HEAP_BASE + 64) 0x40000000 0x40001000 elf_example = Some (True, u)"
proof -
  let ?perm = "VMM_PRESENT OR VMM_USER OR VMM_WRITE"
  have hm: "hmem elf_example = elf_image" by (simp add: elf_example_def)
  have "\<not> in_huge_page elf_example 0x40000000" "4 \<le> card (free_frames (pmm elf_example))"
    using heap_example_vmm(3,4) by (simp_all add: elf_example_def in_huge_page_def)
  moreover have "bit ?perm 0" by simp
  ultimately have "fst (vmm_alloc_map 0x40000000 ?perm elf_example) = 0"
    using vmm_alloc_map_correct_aux[OF elf_example_access(1) _ surjective_pairing, of ?perm "0x40000000"] by auto
  then have page: "fst (map_user_page 0x40000000 ?perm elf_example) = 0" by (simp add: map_user_page_def case_prod_beta Let_def)
  have stop: "map_segment q 0x40001000 0x40001000 u = Some (True, u)" for q and u :: heap_state
    by (subst map_segment.simps) simp
  have perm: "segment_perm (phdr_at (hmem elf_example) (VMM_HEAP_BASE + 64)) 0x40000000 = ?perm"
    unfolding hm elf_image_phdr by (simp add: segment_perm_def)
  have "(0x40000000 :: u64) < 0x40001000" "(0x40000000 :: u64) + VMM_PAGE_SIZE = 0x40001000" by simp_all
  then show ?thesis
    using page stop by (subst map_segment.simps) (simp only: Let_def perm if_True if_False not_False_eq_True simp_thms split: if_split, auto)
qed

lemma elf_example_loads: "\<exists>t. load_segment VMM_HEAP_BASE (VMM_HEAP_BASE + 64) elf_example = Some (True, t)"
proof -
  let ?p = "VMM_HEAP_BASE + 64"
  have hm: "hmem elf_example = elf_image" by (simp add: elf_example_def)
  have ph: "phdr_at (hmem elf_example) ?p = elf_segment" unfolding hm elf_image_phdr ..
  obtain u where u: "map_segment ?p 0x40000000 0x40001000 elf_example = Some (True, u)" using elf_example_maps by blast
  have "in_image VMM_HEAP_BASE 128 ?p 56" unfolding in_image_def by (intro exI[of _ 64]) simp
  then obtain ok t where t: "load_segment VMM_HEAP_BASE ?p elf_example = Some (ok, t)"
    using load_segment_ok[OF elf_example_access, of ?p] elf_segment_ok ph by auto
  have out: "\<forall>i < 56. \<not> in_segment elf_segment (?p + word_of_nat i)"
    using elf_image_outside[of "64 + _"] by (simp add: add.assoc)
  have fits: "segment_fits elf_segment" by (simp add: segment_fits_def)
  have "ok" using t load_segment_steps[OF ph _ fits out, of True u VMM_HEAP_BASE] u by (simp split: if_splits)
  then show ?thesis using t by simp
qed

theorem elf64_load_correct_witness:
  "\<exists>res t. elf64_load VMM_HEAP_BASE 128 elf_example = Some (res, t) \<and> elf_success res \<and> elf_base_vaddr res = 0x40000000
    \<and> elf_max_vaddr res = 0x40000004 \<and> vmm_wf t"
proof -
  have hm: "hmem elf_example = elf_image" by (simp add: elf_example_def)
  have v: "valid_header (hmem elf_example) VMM_HEAP_BASE 128" unfolding hm by (rule elf_image_header)
  have segs: "image_segments (hmem elf_example) VMM_HEAP_BASE = [elf_segment]"
    unfolding hm elf_image_header(2,3) using elf_image_phdr by (simp add: load_headers_def phdr_addr_def)
  note c = elf64_load_correct[of elf_example VMM_HEAP_BASE 128]
  have "unat (load64 (hmem elf_example) (VMM_HEAP_BASE + 32)) + 56 * unat (load16 (hmem elf_example) (VMM_HEAP_BASE + 56)) \<le> unat (128 :: u64)"
    unfolding hm elf_image_header(2,3) by simp
  then obtain res t where t: "elf64_load VMM_HEAP_BASE 128 elf_example = Some (res, t)" "vmm_wf t"
    using c[THEN conjunct2, THEN conjunct2] elf_example_access elf_segment_ok v unfolding segs by auto
  obtain u where u: "load_segment VMM_HEAP_BASE (VMM_HEAP_BASE + 64) elf_example = Some (True, u)" using elf_example_loads by blast
  have "load_segments VMM_HEAP_BASE (VMM_HEAP_BASE + 64) 0 1 elf_example = Some (True, u)"
    using u by (simp add: phdr_addr_def One_nat_def)
  then have "elf_success res"
    using t(1) unfolding elf64_load_valid[OF v] segs unfolding Let_def hm elf_image_header(2,3) by (auto split: if_splits)
  then show ?thesis using t c[THEN conjunct2, THEN conjunct1, rule_format, of res t] unfolding segs Let_def by simp
qed

theorem load_segment_correct_witness:
  "\<exists>t. load_segment VMM_HEAP_BASE (VMM_HEAP_BASE + 64) elf_example = Some (True, t) \<and> hmem t 0x40000001 = 0x5A \<and> hmem t 0x40000002 = 0"
proof -
  have hm: "hmem elf_example = elf_image" by (simp add: elf_example_def)
  have ph: "phdr_at (hmem elf_example) (VMM_HEAP_BASE + 64) = elf_segment" unfolding hm elf_image_phdr ..
  obtain t where t: "load_segment VMM_HEAP_BASE (VMM_HEAP_BASE + 64) elf_example = Some (True, t)" using elf_example_loads by blast
  have out: "\<not> in_segment elf_segment (VMM_HEAP_BASE + 64 + word_of_nat i)" "\<not> in_segment elf_segment (VMM_HEAP_BASE + 120 + word_of_nat i)"
    if "i < 56" for i
    using elf_image_outside[of "64 + i"] elf_image_outside[of "120 + i"] that by (simp_all add: add.assoc)
  have seg: "(\<forall>i < 2. hmem t (0x40000000 + word_of_nat i) = elf_image (VMM_HEAP_BASE + 120 + word_of_nat i))
      \<and> (\<forall>i. 2 \<le> i \<and> i < 4 \<longrightarrow> hmem t (0x40000000 + word_of_nat i) = 0)"
    using load_segment_correct[OF t ph] out hm by simp
  have "hmem t (0x40000000 + word_of_nat 1) = elf_image (VMM_HEAP_BASE + 120 + word_of_nat 1)" "hmem t (0x40000000 + word_of_nat 2) = 0"
    by (rule seg[THEN conjunct1, rule_format], simp) (rule seg[THEN conjunct2, rule_format], simp)
  then show ?thesis using t by (auto simp: elf_image_def elf_bytes_def)
qed

end
