(* ===== verification/Syscall_Properties.thy ===== *)
theory Syscall_Properties
  imports Vfs_Descriptors Elf64_Properties Sched_Properties
begin

text \<open>
  System calls and the processes they act on: what a call may change in the caller's frame, the end of a process, the
  replacement of a process by \<^verbatim>\<open>execve\<close>, and the first frame of a new process.
\<close>

section \<open>The caller's frame\<close>

lemma syscall_frame_rax:
  "syscall_handler frame s = Some ((sw, frame'), t) \<Longrightarrow> frame' = frame\<lparr>sf_rax := sf_rax frame'\<rparr>"
  by (auto simp: syscall_handler_def Let_def split: if_splits prod.splits)

text \<open>
  C17: A system call that returns to its caller changes no register but rax, whatever the number and the arguments are: the program
  counter, the code and stack segment, the flags and the stack pointer of user mode are restored as they were.  A number that
  stands for no call gives -1 in rax and leaves the kernel's state alone.
\<close>

theorem syscall_preserves_frame:
  assumes "fr_int_no frame = 0x80"
  shows "(exception_handler cr2 frame s = Some (Resume frame', t) \<longrightarrow> frame' = frame\<lparr>fr_rax := fr_rax frame'\<rparr>)
    \<and> (fr_rax frame \<notin> {1, 2, 3, 59, 60} \<longrightarrow> exception_handler cr2 frame s = Some (Resume (frame\<lparr>fr_rax := -1\<rparr>), s))"
proof
  show "exception_handler cr2 frame s = Some (Resume frame', t) \<longrightarrow> frame' = frame\<lparr>fr_rax := fr_rax frame'\<rparr>"
    using assms by (auto simp: exception_handler_def int80_handler_def split: option.splits)
  show "fr_rax frame \<notin> {1, 2, 3, 59, 60} \<longrightarrow> exception_handler cr2 frame s = Some (Resume (frame\<lparr>fr_rax := -1\<rparr>), s)"
    using assms by (simp add: exception_handler_def int80_handler_def syscall_handler_def Let_def)
qed

definition user_frame_example :: interrupt_frame where
  "user_frame_example = \<lparr>fr_r15 = 0, fr_r14 = 0, fr_r13 = 0, fr_r12 = 0, fr_r11 = 0, fr_r10 = 0, fr_r9 = 0, fr_r8 = 0, fr_rbp = 0,
     fr_rdi = 0, fr_rsi = 0, fr_rdx = 0, fr_rcx = 0, fr_rbx = 0, fr_rax = 7, fr_int_no = 0x80, fr_err_code = 0, fr_rip = 0x400000,
     fr_cs = 0x1B, fr_rflags = 0x202, fr_rsp = 0x7FFFE000, fr_ss = 0x23\<rparr>"

theorem syscall_preserves_frame_witness:
  "exception_handler 0 user_frame_example (vfs_example 700 0) = Some (Resume (user_frame_example\<lparr>fr_rax := -1\<rparr>), vfs_example 700 0)"
  using syscall_preserves_frame[of user_frame_example 0 "vfs_example 700 0"] by (simp add: user_frame_example_def)

section \<open>The end of a process\<close>

lemma sched_inv_say [simp]: "sched_inv (say str s) xs = sched_inv s xs" "sched_inv (say_dec n s) xs = sched_inv s xs"
  by (simp_all add: sched_inv_def ready_list_def say_def say_dec_def)

lemma sched_inv_zombie:
  assumes "sched_inv s xs" "p = g_current_proc s" "p \<noteq> idle_proc s"
  shows "sched_inv (set_pcb p (\<lambda>b. b\<lparr>pcb_state := st\<rparr>) s) xs"
  using assms by (simp add: sched_inv_def set_pcb_ready_list)

lemma schedule_state:
  assumes "sched_inv s (x # xs)" "pcb_state (pcbs s (g_current_proc s)) \<noteq> PROC_RUNNING"
  shows "pcb_state (pcbs (snd (schedule s)) (g_current_proc s)) = pcb_state (pcbs s (g_current_proc s))"
proof -
  have i: "ready_list s (x # xs)" "scheduler_ready s" "g_current_proc s \<noteq> x" "x \<noteq> 0"
    using assms(1) by (auto simp: sched_inv_def ready_list_def)
  note d = dequeue_ready_list[OF i(1)]
  show ?thesis
    using i(2-4) d(1,3) assms(2) by (cases "dequeue s") (simp add: schedule_def Let_def set_pcb_def)
qed

text \<open>
  C12: A process that calls exit, and is not the idle process, never returns to user mode: the handler switches to the first process of the
  ready queue, the caller is a zombie, and it is neither current nor queued afterwards, so by the round-robin rule it is never chosen again.
\<close>

theorem exit_ends_process:
  fixes s :: "'a vfs_state_scheme"
  assumes "sched_inv s (x # ys)" "g_current_proc s \<noteq> idle_proc s" "sf_rax frame = 60"
  shows "\<exists>t. syscall_handler frame s = Some ((Some x, frame), t) \<and> sched_inv t ys \<and> g_current_proc t = x
    \<and> pcb_state (pcbs t (g_current_proc s)) = PROC_ZOMBIE \<and> g_current_proc s \<notin> set (x # ys)"
proof -
  let ?p = "g_current_proc s"
  let ?u = "say ''\<newline>'' (say_dec (ucast (sf_rdi frame)) (say '' exited with '' (say_dec (ucast (pcb_pid (pcbs s ?p))) (say ''[exit] PID '' s))))"
  let ?v = "set_pcb ?p (\<lambda>b. b\<lparr>pcb_state := PROC_ZOMBIE\<rparr>) ?u"
  have p: "?p \<noteq> 0" "?p \<notin> set (x # ys)" using assms(1) by (auto simp: sched_inv_def)
  have same: "g_current_proc ?u = ?p" "idle_proc ?u = idle_proc s" "pcbs (say str t) = pcbs t" for str and t :: "'a vfs_state_scheme"
    by (simp_all add: say_def say_dec_def)
  have inv: "sched_inv ?v (x # ys)" using assms(1,2) same by (intro sched_inv_zombie) simp_all
  have z: "pcb_state (pcbs ?v (g_current_proc ?v)) = PROC_ZOMBIE" using same(1) by (simp add: set_pcb_def)
  have cur: "g_current_proc ?v = ?p" using same(1) by (simp add: set_pcb_def)
  note sch = schedule_step[OF inv] and st = schedule_state[OF inv]
  have "syscall_handler frame s = Some ((fst (schedule ?v), frame), snd (schedule ?v))"
    using assms(3) p(1) by (simp add: syscall_handler_def sys_exit_def Let_def case_prod_beta same(3))
  then show ?thesis using sch st z cur p(2) by auto
qed

definition exit_example :: vfs_state where
  "exit_example = vfs_example 700 0\<lparr>pcbs := \<lambda>p. (pcbs proc_example p)\<lparr>pcb_fds := replicate MAX_FD \<lparr>fd_vnode = 0, fd_mode = 0, fd_offset = 0\<rparr>\<rparr>,
     g_current_proc := 16, ready_queue_head := 8, ready_queue_tail := 8,
     idle_proc := 8, scheduler_ready := True\<rparr>"

definition exit_call :: syscall_frame where
  "exit_call = \<lparr>sf_rax = 60, sf_rdi = 0, sf_rsi = 0, sf_rdx = 0, sf_r10 = 0, sf_r8 = 0, sf_r9 = 0, sf_rcx = 0, sf_r11 = 0, sf_rip = 0\<rparr>"

lemma exit_example_inv: "sched_inv exit_example [8]"
  by (simp add: sched_inv_def ready_list_def exit_example_def proc_example_def keyboard.defs proc_state.defs)

theorem exit_ends_process_witness:
  "\<exists>t. syscall_handler exit_call exit_example = Some ((Some 8, exit_call), t) \<and> sched_inv t []"
  using exit_ends_process[OF exit_example_inv, of exit_call] by (auto simp: exit_example_def exit_call_def)

section \<open>Replacing a process\<close>

lemma upper_proc: "upper t = upper s \<Longrightarrow> pcbs t = pcbs s \<and> ready_queue_tail t = ready_queue_tail s \<and> ready_queue_head t = ready_queue_head s"
  for s t :: "'a proc_state_scheme"
  by (cases s; cases t; simp)

lemma tail_simps [simp]: "ready_queue_tail (kfree p s) = ready_queue_tail s" "ready_queue_tail (set_pcb q f s) = ready_queue_tail s"
  using upper_proc[OF upper_kfree, of p s] by (simp_all add: set_pcb_def)

lemma tail_close_node: "vfs_close_node node s = Some (r, t) \<Longrightarrow> ready_queue_tail t = ready_queue_tail s"
proof -
  have "ready_queue_tail u = ready_queue_tail s" if "fat32_close f s = Some u" for f u
    using upper_proc[OF upper_close[OF that]] by simp
  then show "vfs_close_node node s = Some (r, t) \<Longrightarrow> ready_queue_tail t = ready_queue_tail s"
    by (auto simp: vfs_close_node_def fat32_vfs_close_def Let_def set_node_def split: if_splits)
qed

lemma tail_close_fds: "close_fds p i n s = Some t \<Longrightarrow> ready_queue_tail t = ready_queue_tail s"
  by (induction p i n s rule: close_fds.induct) (auto split: if_splits option.splits dest!: tail_close_node)

lemma close_fds_none: "(\<And>j. i \<le> j \<Longrightarrow> j < i + n \<Longrightarrow> fd_vnode (pcb_fds (pcbs s p) ! j) = 0) \<Longrightarrow> close_fds p i n s = Some s"
  by (induction p i n s rule: close_fds.induct) simp_all

lemma tail_retire: "retire_process cur s = Some t \<Longrightarrow> ready_queue_tail t = ready_queue_tail s"
  by (auto simp: retire_process_def Let_def split: if_splits dest!: tail_close_fds)

lemma created_is_queued:
  "proc_create_from_elf buf n s = Some (p, u) \<Longrightarrow> p \<noteq> 0 \<Longrightarrow> ready_queue_tail u = p"
  by (auto simp: proc_create_from_elf_def Let_def enqueue_def split: option.splits if_splits)

text \<open>A process that runs although it is the last of the ready queue: no list of processes satisfies the scheduler's invariant.\<close>

definition runs_while_queued :: "u64 \<Rightarrow> 'a proc_state_scheme \<Rightarrow> bool" where
  "runs_while_queued p t \<longleftrightarrow> p \<noteq> 0 \<and> g_current_proc t = p \<and> pcb_state (pcbs t p) = PROC_RUNNING \<and> ready_queue_tail t = p \<and> (\<forall>xs. \<not> sched_inv t xs)"

lemma replace_created:
  assumes "proc_create_from_elf buf n s = Some (p, u)" "p \<noteq> 0" "replace_process cur p (kfree buf u) = Some t"
  shows "runs_while_queued p t"
proof -
  obtain v where v: "retire_process cur (kfree buf u) = Some v"
    "t = set_pcb p (\<lambda>b. b\<lparr>pcb_state := PROC_RUNNING\<rparr>) (v\<lparr>g_current_proc := p\<rparr>)"
    using assms(3) by (auto simp: replace_process_def)
  have t: "g_current_proc t = p" "ready_queue_tail t = p" "pcb_state (pcbs t p) = PROC_RUNNING"
    using tail_retire[OF v(1)] created_is_queued[OF assms(1,2)] v(2) by (simp_all add: set_pcb_def)
  moreover have "\<not> sched_inv t xs" for xs using t(1,2) assms(2) by (auto simp: sched_inv_def ready_list_def split: if_splits)
  ultimately show ?thesis using assms(2) by (simp add: runs_while_queued_def)
qed

lemma execve_replaces:
  assumes "sys_execve cur path s = Some (0, t)"
  shows "\<exists>buf n v p u. proc_create_from_elf buf n v = Some (p, u) \<and> p \<noteq> 0 \<and> replace_process cur p (kfree buf u) = Some t"
  using assms by (auto simp: sys_execve_def Let_def split: if_splits option.splits) blast

text \<open>
  C37: A successful execve breaks the scheduler's invariant.  Creating the process has put it at the end of the ready queue; the call then
  makes it the current process without taking it out, so that it is running and queued at once, and no list of
  processes satisfies the invariant any more.  This holds for every process that is created from an image and then replaces the caller, and
  so after every call of execve that returns 0.
\<close>

theorem execve_queues_running_process:
  fixes s :: "'a vfs_state_scheme"
  shows "(proc_create_from_elf buf n s = Some (p, u) \<and> p \<noteq> 0 \<and> replace_process cur p (kfree buf u) = Some t \<longrightarrow> runs_while_queued p t)
    \<and> (sys_execve cur path s = Some (0, t) \<longrightarrow> runs_while_queued (g_current_proc t) t)"
proof (intro conjI impI)
  assume "sys_execve cur path s = Some (0, t)"
  then obtain p where "runs_while_queued p t" using execve_replaces replace_created by metis
  then show "runs_while_queued (g_current_proc t) t" by (simp add: runs_while_queued_def)
qed (use replace_created in blast)

text \<open>The heap is not touched by bytes that are written outside of it, in particular by the pages of a user stack.\<close>

lemma heap_inv_outside:
  assumes inv: "heap_inv s B fl" and same: "\<And>x. heap_lo s \<le> unat x \<Longrightarrow> unat x < heap_hi s \<Longrightarrow> m x = hmem s x"
  shows "heap_inv (s\<lparr>hmem := m\<rparr>) B fl"
proof -
  note hb = heap_invD(1,2)[OF inv]
  have blocks: "blk_ok m b y bl \<and> rd m (b + 8) = rd (hmem s) (b + 8) \<and> rd m (b + 16) = rd (hmem s) (b + 16)"
    if b: "B b = Some (y, bl)" for b y bl
  proof -
    note l = layoutD[OF hb(2) b]
    have "rd m c = rd (hmem s) c" if c: "c \<in> {b, b + 8, b + 16, b + 24, b + y - 8, b + y - 16}" for c
    proof (rule load64_cong)
      fix i :: nat assume i: "i < 8"
      have "unat (word_of_nat c + word_of_nat i :: u64) = c + i"
        using i unat_of_nat64[of "c + i"] block_in_space[OF inv b] c l(5) by auto
      then show "m (word_of_nat c + word_of_nat i) = hmem s (word_of_nat c + word_of_nat i)"
        using c i l by (intro same) auto
    qed
    then show ?thesis using heap_invD(3)[OF inv b] unfolding blk_ok_def by (simp del: of_nat_add of_nat_diff)
  qed
  have "free_links m 0 fl 0 = free_links (hmem s) 0 fl 0"
    using blocks heap_invD(5)[OF inv] by (intro seg_cong) blast
  then show ?thesis using inv blocks unfolding heap_inv_def by (auto simp: heap_bounds_def)
qed

lemma map_user_page_state:
  "snd (map_user_page va perm s) = s\<lparr>mem := mem (snd (map_user_page va perm s)), pmm := pmm (snd (map_user_page va perm s)),
     hmem := hmem (snd (map_user_page va perm s))\<rparr>"
proof -
  obtain m q where "snd (vmm_alloc_map va perm s) = s\<lparr>mem := m, pmm := q\<rparr>"
    using vmm_rest_fields[OF vmm_rest_alloc_map[of va perm s]] by blast
  then show ?thesis by (simp add: map_user_page_def case_prod_beta Let_def)
qed

lemma map_user_page_inv:
  assumes "heap_inv s B fl" "unat va + 4096 \<le> heap_lo s" "va AND PAGE_MASK = va"
  shows "heap_inv (snd (map_user_page va perm s)) B fl"
proof -
  obtain m q h where e: "snd (map_user_page va perm s) = s\<lparr>mem := m, pmm := q, hmem := h\<rparr>" using map_user_page_state by blast
  have "heap_inv (s\<lparr>hmem := h\<rparr>) B fl"
  proof (rule heap_inv_outside[OF assms(1)])
    fix x :: u64 assume "heap_lo s \<le> unat x"
    then have "\<not> unat (x - va) < 4096" using assms(2) by (subst unat_sub64) (auto simp: word_le_nat_alt)
    then show "h x = hmem s x" using map_user_page_mem[of x va perm s] unfolding e assms(3) by simp
  qed
  then show ?thesis unfolding e by (subst heap_inv_cong[of _ "s\<lparr>hmem := h\<rparr>"]) simp_all
qed

lemma map_user_stack_state:
  "\<exists>m q h. map_user_stack n va s = s\<lparr>mem := m, pmm := q, hmem := h\<rparr>"
proof (induction n arbitrary: va s)
  case 0
  show ?case by (intro exI[of _ "mem s"] exI[of _ "pmm s"] exI[of _ "hmem s"]) simp
next
  case (Suc n)
  let ?t = "snd (map_user_page va (VMM_PRESENT OR VMM_USER OR VMM_WRITE) s)"
  obtain m q h where t: "?t = s\<lparr>mem := m, pmm := q, hmem := h\<rparr>" using map_user_page_state by blast
  obtain m' q' h' where "map_user_stack n (va + VMM_PAGE_SIZE) ?t = ?t\<lparr>mem := m', pmm := q', hmem := h'\<rparr>" using Suc by blast
  then have "map_user_stack n (va + VMM_PAGE_SIZE) ?t = s\<lparr>mem := m', pmm := q', hmem := h'\<rparr>" unfolding t by simp
  then show ?case using Suc[of "va + VMM_PAGE_SIZE" s] by (cases "vmm_is_mapped va s") auto
qed

lemma map_user_stack_inv:
  assumes "heap_inv s B fl" "unat va + 4096 * n \<le> heap_lo s" "4096 dvd unat va"
  shows "heap_inv (map_user_stack n va s) B fl"
  using assms
proof (induction n arbitrary: va s)
  case (Suc n)
  let ?t = "if \<not> vmm_is_mapped va s then snd (map_user_page va (VMM_PRESENT OR VMM_USER OR VMM_WRITE) s) else s"
  have start: "heap_start ?t = heap_start s" by (subst map_user_page_state) simp
  have "va AND PAGE_MASK = va" using page_mask_aligned[of "unat va"] Suc.prems(3) unat64_less[of va] by simp
  then have inv: "heap_inv ?t B fl" using map_user_page_inv[of s B fl va] Suc.prems by simp
  have "unat (heap_start s) < 18446744073709551616" by (rule unat64_less)
  then have "unat (va + 4096) = unat va + 4096" using Suc.prems(2) unat_add64[of va 4096] by simp
  then show ?case using Suc.IH[OF inv, of "va + VMM_PAGE_SIZE"] Suc.prems(2,3) start by simp
qed simp

text \<open>An image with one empty segment in a page that the example's tables map, and a heap of four pages above it.\<close>

definition exec_heap :: heap_state where
  "exec_heap = list_insert_head (VMM_HEAP_BASE + 0x1000) (format_block (VMM_HEAP_BASE + 0x1000) 16384 False
     (heap_example\<lparr>hmem := elf_image(VMM_HEAP_BASE + 96 := 0, VMM_HEAP_BASE + 104 := 0), heap_start := VMM_HEAP_BASE + 0x1000,
        heap_max_size := VMM_HEAP_SIZE, heap_mapped_size := 16384, free_list_head := 0\<rparr>))"

definition exec_example :: vfs_state where
  "exec_example = exit_example\<lparr>mem := mem heap_example, pmm := pmm heap_example, s_pml4_virt := s_pml4_virt heap_example,
     hmem := hmem exec_heap, heap_start := heap_start exec_heap, heap_max_size := heap_max_size exec_heap,
     heap_mapped_size := heap_mapped_size exec_heap, free_list_head := free_list_head exec_heap\<rparr>"

lemma exec_heap_inv:
  "heap_inv exec_heap [unat VMM_HEAP_BASE + 4096 \<mapsto> (16384, False)] [unat VMM_HEAP_BASE + 4096]"
  "unat x < unat VMM_HEAP_BASE + 4096 \<Longrightarrow> hmem exec_heap x = (elf_image(VMM_HEAP_BASE + 96 := 0, VMM_HEAP_BASE + 104 := 0)) x"
  "heap_start exec_heap = VMM_HEAP_BASE + 0x1000"
proof -
  let ?m = "elf_image(VMM_HEAP_BASE + 96 := 0, VMM_HEAP_BASE + 104 := 0)" and ?a = "unat VMM_HEAP_BASE + 4096"
  define s where s: "s = heap_example\<lparr>hmem := ?m, heap_start := VMM_HEAP_BASE + 0x1000,
        heap_max_size := VMM_HEAP_SIZE, heap_mapped_size := 16384, free_list_head := 0\<rparr>"
  have "heap_bounds s" by (simp add: heap_bounds_def s)
  then have inv: "heap_inv s Map.empty []" by (intro heap_inv_empty) (simp_all add: s)
  have d: "16 dvd ?a" by simp
  have w: "word_of_nat ?a = VMM_HEAP_BASE + 0x1000" "word_of_nat 16384 = (16384 :: u64)" by simp_all
  have h: "exec_heap = list_insert_head (word_of_nat ?a) (format_block (word_of_nat ?a) (word_of_nat 16384) False s)"
    unfolding exec_heap_def s w ..
  note ab = add_block[OF inv d, of 16384]
  show "heap_inv exec_heap [?a \<mapsto> (16384, False)] [?a]"
    unfolding h by (rule ab(1)) (simp_all add: s)
  show "unat x < ?a \<Longrightarrow> hmem exec_heap x = ?m x"
    unfolding h using ab(2)[of x] by (simp add: s)
  have "\<exists>m k. exec_heap = s\<lparr>hmem := m, free_list_head := k\<rparr>" unfolding h by (rule ab(3)) (simp_all add: s)
  then obtain m k where e: "exec_heap = s\<lparr>hmem := m, free_list_head := k\<rparr>" by blast
  show "heap_start exec_heap = VMM_HEAP_BASE + 0x1000" unfolding e by (simp add: s)
qed

lemma exec_example_inv: "heap_inv exec_example [unat VMM_HEAP_BASE + 4096 \<mapsto> (16384, False)] [unat VMM_HEAP_BASE + 4096]"
  using exec_heap_inv(1) by (subst heap_inv_cong[of _ exec_heap]) (simp_all add: exec_example_def)

lemma exec_image:
  "valid_header (hmem exec_example) VMM_HEAP_BASE 128" "load64 (hmem exec_example) (VMM_HEAP_BASE + 32) = 64"
  "load16 (hmem exec_example) (VMM_HEAP_BASE + 56) = 1"
  "phdr_at (hmem exec_example) (VMM_HEAP_BASE + 64) = elf_segment\<lparr>p_filesz := 0, p_memsz := 0\<rparr>"
proof -
  have hm: "hmem exec_example = hmem exec_heap" by (simp add: exec_example_def)
  show "valid_header (hmem exec_example) VMM_HEAP_BASE 128" "load64 (hmem exec_example) (VMM_HEAP_BASE + 32) = 64"
    "load16 (hmem exec_example) (VMM_HEAP_BASE + 56) = 1"
    "phdr_at (hmem exec_example) (VMM_HEAP_BASE + 64) = elf_segment\<lparr>p_filesz := 0, p_memsz := 0\<rparr>"
    by (simp_all add: hm exec_heap_inv(2) phdr_at_def valid_header_def elf_image_def elf_bytes_def load64_def load32_def load16_def upt_rec word_rcat_def nth_append)
qed

lemma exec_example_access: "accessible_range exec_example VMM_HEAP_BASE 128"
  using heap_example_vmm(2) by (simp add: exec_example_def accessible_range_def accessible_def)

lemma exec_example_loads: "\<exists>res. elf64_load VMM_HEAP_BASE 128 exec_example = Some (res, exec_example) \<and> elf_success res"
proof -
  let ?s = exec_example and ?p = "VMM_HEAP_BASE + 64"
  note im = exec_image
  have segs: "image_segments (hmem ?s) VMM_HEAP_BASE = [elf_segment\<lparr>p_filesz := 0, p_memsz := 0\<rparr>]"
    unfolding im(2,3) using im(4) by (simp add: load_headers_def phdr_addr_def)
  have "accessible_range ?s (VMM_HEAP_BASE + word_of_nat k) l" if "k + l \<le> 128" for k l
    using accessible_range_sub[OF exec_example_access that] .
  from this[of 0 64] this[of 64 4] this[of 64 48]
  have acc: "accessible_range ?s VMM_HEAP_BASE 64" "phdrs_accessible ?s ?p 1"
    by (simp_all add: phdrs_accessible_def phdr_addr_def)
  have ph: "phdr_at (hmem ?s) 18446744072098938944 = elf_segment\<lparr>p_filesz := 0, p_memsz := 0\<rparr>" using im(4) by simp
  have "map_segment q va va ?s = Some (True, ?s)" "copy_segment ?s d e i 0 m = Some m" for q va d e i m
    by (subst map_segment.simps copy_segment.simps, simp)+
  then have "load_segment VMM_HEAP_BASE ?p ?s = Some (True, ?s)" by (simp add: load_segment_def ph Let_def clear_bss_def)
  then have "load_segments VMM_HEAP_BASE ?p 0 1 ?s = Some (True, ?s)" by (simp add: phdr_addr_def One_nat_def)
  then show ?thesis
    unfolding elf64_load_valid[OF im(1)] segs unfolding Let_def im(2,3) using acc by simp
qed

lemma prepare_user_stack_pcbs:
  assumes "prepare_user_stack p entry ustack s = Some t"
  shows "q \<noteq> p \<Longrightarrow> pcbs t q = pcbs s q" "ready_queue_tail t = ready_queue_tail s"
  using assms by (auto simp: prepare_user_stack_def Let_def set_pcb_def kmalloc_proc_fields split: option.splits if_splits)

lemma prepare_user_stack_returns: "heap_inv s B fl \<Longrightarrow> \<exists>t. prepare_user_stack p entry ustack s = Some t"
  using kmalloc_spec[of s B fl KERNEL_STACK_SIZE] by (auto simp: prepare_user_stack_def Let_def split: if_splits)

lemma created_pcbs:
  assumes inv: "heap_inv s B fl" and fits: "\<exists>b \<in> set fl. \<exists>z. B b = Some (z, False) \<and> 368 \<le> z"
    and low: "unat USER_STACK_TOP \<le> heap_lo s"
    and load: "elf64_load buf n s = Some (res, s)" "elf_success res"
  shows "\<exists>p u. proc_create_from_elf buf n s = Some (p, u) \<and> heap_lo s \<le> unat p
    \<and> (\<forall>q. q \<noteq> p \<and> q \<noteq> ready_queue_tail s \<longrightarrow> pcbs u q = pcbs s q)"
proof -
  obtain p s1 B' fl' where k: "kmalloc SIZEOF_pcb_t s = Some (p, s1)" "heap_inv s1 B' fl'" "alloc_result s B SIZEOF_pcb_t p s1 B'"
    and fit: "p = 0 \<Longrightarrow> \<forall>a \<in> set fl. \<forall>z. B a = Some (z, False) \<longrightarrow> z < unat (block_total SIZEOF_pcb_t)"
    using kmalloc_spec[OF inv, of SIZEOF_pcb_t] by (auto simp: alloc_result_def)
  have "unat (block_total SIZEOF_pcb_t) = 368" by (simp add: block_total_def)
  then have p0: "p \<noteq> 0" using fit fits by fastforce
  have start: "heap_start s1 = heap_start s" using arg_cong[OF heap_rest_fields[OF heap_rest_kmalloc[OF k(1)]], of heap_start] by simp
  obtain a w where a: "unat p = a + 32" "B' a = Some (w, True)" using k(3) p0 by (auto simp: alloc_result_def)
  have lo: "heap_lo s \<le> unat p" using layoutD(1)[OF heap_invD(2)[OF k(2)] a(2)] a(1) start by simp
  define s2 where s2: "s2 = set_pcb p (\<lambda>b. b\<lparr>pcb_state := PROC_READY, pcb_next := 0, pcb_user_stack := USER_STACK_TOP\<rparr>)
    ((set_pcb p (\<lambda>b. b\<lparr>pcb_pid := next_pid s1\<rparr>) (set_pcb p (\<lambda>b. b\<lparr>pcb_fds := map (\<lambda>i. (pcb_fds b ! i)\<lparr>fd_vnode := 0\<rparr>) [0..<MAX_FD]\<rparr>) s1))\<lparr>next_pid := next_pid s1 + 1\<rparr>)"
  define s3 where s3: "s3 = set_pcb p (\<lambda>b. b\<lparr>pcb_entry_point := elf_entry_point res, pcb_cr3 := 0\<rparr>) (map_user_stack 4 (USER_STACK_TOP - USER_STACK_SIZE) s2)"
  have "heap_inv s2 B' fl' = heap_inv s1 B' fl'" by (rule heap_inv_cong) (simp_all add: s2 set_pcb_def)
  moreover have "heap_start s2 = heap_start s" using start by (simp add: s2 set_pcb_def)
  ultimately have "heap_inv (map_user_stack 4 (USER_STACK_TOP - USER_STACK_SIZE) s2) B' fl'"
    using k(2) low by (intro map_user_stack_inv) simp_all
  moreover have "heap_inv s3 B' fl' = heap_inv (map_user_stack 4 (USER_STACK_TOP - USER_STACK_SIZE) s2) B' fl'"
    by (rule heap_inv_cong) (simp_all add: s3 set_pcb_def)
  ultimately have inv3: "heap_inv s3 B' fl'" by simp
  obtain t where t: "prepare_user_stack p (elf_entry_point res) USER_STACK_TOP s3 = Some t" using prepare_user_stack_returns[OF inv3] by blast
  obtain m q h where "map_user_stack 4 (USER_STACK_TOP - USER_STACK_SIZE) s2 = s2\<lparr>mem := m, pmm := q, hmem := h\<rparr>"
    using map_user_stack_state by blast
  then have "\<And>q. q \<noteq> p \<Longrightarrow> pcbs s3 q = pcbs s q" "ready_queue_tail s3 = ready_queue_tail s"
    using kmalloc_proc_fields[OF k(1)] by (simp_all add: s3 s2)
  moreover have "proc_create_from_elf buf n s = Some (p, enqueue p t)"
    using load p0 t by (simp add: proc_create_from_elf_def k(1) Let_def s3 s2 set_pcb_def)
  ultimately show ?thesis using prepare_user_stack_pcbs[OF t] lo by (auto simp: enqueue_def Let_def)
qed

theorem execve_queues_running_process_witness:
  "\<exists>p u t. proc_create_from_elf VMM_HEAP_BASE 128 exec_example = Some (p, u) \<and> p \<noteq> 0
    \<and> replace_process 16 p (kfree VMM_HEAP_BASE u) = Some t \<and> runs_while_queued p t"
proof -
  let ?z = "\<lambda>b. b\<lparr>pcb_state := PROC_ZOMBIE\<rparr> :: pcb_t"
  obtain res where "elf64_load VMM_HEAP_BASE 128 exec_example = Some (res, exec_example)" "elf_success res" using exec_example_loads by blast
  moreover have lo: "heap_lo exec_example = unat VMM_HEAP_BASE + 4096" by (simp add: exec_example_def exec_heap_inv(3))
  ultimately obtain p u where u: "proc_create_from_elf VMM_HEAP_BASE 128 exec_example = Some (p, u)" "heap_lo exec_example \<le> unat p"
    "\<And>q. q \<noteq> p \<Longrightarrow> q \<noteq> ready_queue_tail exec_example \<Longrightarrow> pcbs u q = pcbs exec_example q"
    using created_pcbs[OF exec_example_inv, of VMM_HEAP_BASE 128 res] by auto
  have p: "p \<noteq> 0" "16 \<noteq> p" using u(2) lo by auto
  have "ready_queue_tail exec_example = 8" by (simp add: exec_example_def exit_example_def)
  then have pcb: "pcbs (kfree VMM_HEAP_BASE u) 16 = pcbs exit_example 16"
    using u(3)[of 16] p(2) upper_proc[OF upper_kfree, of VMM_HEAP_BASE u] by (simp add: exec_example_def)
  have ex: "pcb_fds (pcbs exit_example 16) = replicate MAX_FD \<lparr>fd_vnode = 0, fd_mode = 0, fd_offset = 0\<rparr>" "pcb_kernel_stack (pcbs exit_example 16) = 0"
    by (simp_all add: exit_example_def proc_example_def keyboard.defs proc_state.defs)
  let ?v = "set_pcb 16 ?z (kfree VMM_HEAP_BASE u)"
  have "close_fds 16 0 MAX_FD ?v = Some ?v" by (rule close_fds_none) (simp add: pcb ex)
  then have "retire_process 16 (kfree VMM_HEAP_BASE u) = Some ?v" by (simp add: retire_process_def Let_def pcb ex)
  then obtain t where "replace_process 16 p (kfree VMM_HEAP_BASE u) = Some t" by (simp add: replace_process_def)
  then show ?thesis using u(1) p(1) execve_queues_running_process by blast
qed

section \<open>The first frame of a process\<close>

lemma user_frame_words:
  "i < 17 \<Longrightarrow> user_frame entry ustack ! i = 0" "user_frame entry ustack ! 17 = entry" "user_frame entry ustack ! 18 = 0x1B"
  "user_frame entry ustack ! 19 = 0x202" "user_frame entry ustack ! 20 = ustack" "user_frame entry ustack ! 21 = 0x23"
  by (simp_all add: user_frame_def nth_append)

lemma prepare_user_stack_frame:
  assumes k: "kmalloc KERNEL_STACK_SIZE s = Some (k, u)" "heap_inv u B' fl'" "k \<noteq> 0"
    and a: "unat k = a + 32" "B' a = Some (w, True)" "8192 + 48 \<le> w"
  shows "\<exists>t. prepare_user_stack p entry ustack s = Some t \<and> heap_inv t B' fl' \<and> pcb_kernel_stack (pcbs t p) = k
    \<and> (\<forall>q. q \<noteq> p \<longrightarrow> pcbs t q = pcbs s q) \<and> unat (pcb_rsp (pcbs t p)) = a + 32 + 8192 - 176
    \<and> (\<forall>i < 22. load64 (hmem t) (pcb_rsp (pcbs t p) + 8 * word_of_nat i) = user_frame entry ustack ! i)"
proof -
  define sp where sp: "sp = ((k + KERNEL_STACK_SIZE) AND NOT 0xF) - 8 * 22"
  define m where m: "m = fill64 (hmem u) sp (\<lambda>i. user_frame entry ustack ! i) 22"
  have n22: "8 * word_of_nat 22 = (8 * 22 :: u64)" by simp
  note f = stack_frame(1,3)[OF k(2) a(2,1,3), where n = 22 and g = "\<lambda>i. user_frame entry ustack ! i", unfolded n22 sp[symmetric] m[symmetric]]
    and f2 = stack_frame(2)[OF k(2) a(2,1,3), where n = 22, unfolded n22 sp[symmetric]]
  define t where t: "t = set_pcb p (\<lambda>b. b\<lparr>pcb_rsp := sp, pcb_cr3 := 0\<rparr>) ((set_pcb p (\<lambda>b. b\<lparr>pcb_kernel_stack := k\<rparr>) u)\<lparr>hmem := m\<rparr>)"
  have eq: "prepare_user_stack p entry ustack s = Some t"
    using k(3) by (simp add: prepare_user_stack_def k(1) Let_def t m sp set_pcb_def)
  have "heap_inv t B' fl' = heap_inv (u\<lparr>hmem := m\<rparr>) B' fl'" by (rule heap_inv_cong) (simp_all add: t set_pcb_def)
  then have inv: "heap_inv t B' fl'" using f(1) by simp
  have hm: "hmem t = m" and pcb: "pcb_rsp (pcbs t p) = sp" "pcb_kernel_stack (pcbs t p) = k" "\<forall>q. q \<noteq> p \<longrightarrow> pcbs t q = pcbs s q"
    using kmalloc_proc_fields(2)[OF k(1)] by (simp_all add: t set_pcb_def)
  have words: "\<forall>i < 22. load64 (hmem t) (sp + 8 * word_of_nat i) = user_frame entry ustack ! i"
    unfolding hm using f(2) by simp
  show ?thesis using eq inv pcb words f2 by auto
qed

text \<open>
  C38: Preparing the kernel stack of a new process returns on a consistent heap and keeps the heap consistent.  When the allocation of the
  stack fails, which takes that no free block of 8240 bytes exists, the process block is left as it was.  Otherwise the stack
  is a block of its own, recorded in the process block, no other process changes, and the frame at the top of the stack, where the
  process is first resumed, makes the interrupt return enter the program's entry point in user mode: code segment 0x1B
  and stack segment 0x23 with privilege 3, interrupts enabled, the given stack pointer, and zero in all other registers.
\<close>

theorem prepare_user_stack_correct:
  assumes inv: "heap_inv s B fl"
  shows "\<exists>k u t B' fl'. kmalloc KERNEL_STACK_SIZE s = Some (k, u) \<and> prepare_user_stack p entry ustack s = Some t \<and> heap_inv t B' fl'
    \<and> (if k = 0 then t = u \<and> pcbs t = pcbs s \<and> (\<forall>b \<in> set fl. \<forall>z. B b = Some (z, False) \<longrightarrow> z < 8240)
       else (\<exists>a w sp. unat k = a + 32 \<and> B' a = Some (w, True) \<and> (\<forall>y. B a \<noteq> Some (y, True)) \<and> pcb_kernel_stack (pcbs t p) = k
         \<and> (\<forall>q. q \<noteq> p \<longrightarrow> pcbs t q = pcbs s q)
         \<and> pcb_rsp (pcbs t p) = sp \<and> unat sp + 176 = a + 32 + 8192 \<and> a + 32 + 8192 \<le> a + w - 16
         \<and> (\<forall>i < 17. load64 (hmem t) (sp + 8 * word_of_nat i) = 0) \<and> load64 (hmem t) (sp + 8 * 17) = entry
         \<and> load64 (hmem t) (sp + 8 * 18) = 0x1B \<and> load64 (hmem t) (sp + 8 * 19) = 0x202
         \<and> load64 (hmem t) (sp + 8 * 20) = ustack \<and> load64 (hmem t) (sp + 8 * 21) = 0x23))"
proof -
  obtain k u B' fl' where k: "kmalloc KERNEL_STACK_SIZE s = Some (k, u)" "heap_inv u B' fl'" "alloc_result s B KERNEL_STACK_SIZE k u B'"
    and fit: "k = 0 \<Longrightarrow> \<forall>a \<in> set fl. \<forall>z. B a = Some (z, False) \<longrightarrow> z < unat (block_total KERNEL_STACK_SIZE)"
    using kmalloc_spec[OF inv, of KERNEL_STACK_SIZE] by (auto simp: alloc_result_def)
  have total: "unat (block_total KERNEL_STACK_SIZE) = 8240" by (simp add: block_total_def)
  show ?thesis
  proof (cases "k = 0")
    case True
    then have "prepare_user_stack p entry ustack s = Some u" by (simp add: prepare_user_stack_def k(1))
    then show ?thesis using k(1,2) True fit kmalloc_proc_fields(2)[OF k(1)] unfolding total by auto
  next
    case False
    then obtain a w where a: "unat k = a + 32" "B' a = Some (w, True)" "\<forall>y. B a \<noteq> Some (y, True)" "8192 + 48 \<le> w"
      using k(3) by (auto simp: alloc_result_def)
    obtain t where t: "prepare_user_stack p entry ustack s = Some t" "heap_inv t B' fl'" "pcb_kernel_stack (pcbs t p) = k"
      "\<forall>q. q \<noteq> p \<longrightarrow> pcbs t q = pcbs s q" "unat (pcb_rsp (pcbs t p)) = a + 32 + 8192 - 176"
      and words: "\<And>i. i < 22 \<Longrightarrow> load64 (hmem t) (pcb_rsp (pcbs t p) + 8 * word_of_nat i) = user_frame entry ustack ! i"
      using prepare_user_stack_frame[OF k(1,2) False a(1,2,4), of p entry ustack] by blast
    have range: "unat (pcb_rsp (pcbs t p)) + 176 = a + 32 + 8192" "a + 32 + 8192 \<le> a + w - 16" using t(5) a(4) by simp_all
    have "\<forall>i < 17. load64 (hmem t) (pcb_rsp (pcbs t p) + 8 * word_of_nat i) = 0" using words by (simp add: user_frame_words)
    then show ?thesis
      using k(1) False t(1-4) a(1-3) range words[of 17] words[of 18] words[of 19] words[of 20] words[of 21]
      by (intro exI[of _ k] exI[of _ u] exI[of _ t] exI[of _ B'] exI[of _ fl']) (auto simp: user_frame_words)
  qed
qed

theorem prepare_user_stack_correct_witness:
  "\<exists>t. prepare_user_stack 16 0x400000 USER_STACK_TOP proc_example_heap = Some t
    \<and> load64 (hmem t) (pcb_rsp (pcbs t 16) + 8 * 17) = 0x400000 \<and> load64 (hmem t) (pcb_rsp (pcbs t 16) + 8 * 20) = USER_STACK_TOP"
  using prepare_user_stack_correct[OF proc_example_heap_inv, of 16 "0x400000" USER_STACK_TOP]
  by (auto split: if_splits)

end
