(* ===== verification/Ishell.thy ===== *)
theory Ishell
  imports Prelude
begin

text \<open>
  The user-mode shell (\<^verbatim>\<open>app/ishell/main.c\<close>) and the program \<^verbatim>\<open>app/uname/main.c\<close>.  They see the kernel through four system
  calls: characters written are appended to \<open>sh_out\<close>, characters read are taken from \<open>sh_in\<close> (None: the
  program waits for a key for ever), \<open>execve\<close> is a parameter, the kernel's answer to a path and
  to where the arguments start in the buffer (none for a null \<^verbatim>\<open>argv\<close>), and exit is
  recorded in a flag because the program goes on when the kernel returns to it.  The line buffer is its 256 bytes;
  a pointer into it is an index.
\<close>

record shell =
  sh_buf :: "u8 list"
  sh_idx :: nat
  sh_in :: "u8 list"
  sh_out :: "u8 list"
  sh_exited :: bool

definition bytes_of :: "string \<Rightarrow> u8 list" where
  "bytes_of str = map of_char str"

section \<open>Output, input and strings\<close>

definition putchar :: "u8 \<Rightarrow> shell \<Rightarrow> shell" where
  "putchar c s = s\<lparr>sh_out := sh_out s @ [c]\<rparr>"

text \<open>A string is the list of the bytes from its address on; it ends at the first zero byte or with the list.\<close>

fun print :: "u8 list \<Rightarrow> shell \<Rightarrow> shell" where
  "print [] s = s"
| "print (c # cs) s = (if c = 0 then s else print cs (putchar c s))"

definition print_lit :: "string \<Rightarrow> shell \<Rightarrow> shell" where
  "print_lit str s = print (bytes_of str) s"

definition getchar :: "shell \<Rightarrow> (u8 \<times> shell) option" where
  "getchar s = (case sh_in s of [] \<Rightarrow> None | c # cs \<Rightarrow> Some (c, s\<lparr>sh_in := cs\<rparr>))"

definition hd0 :: "u8 list \<Rightarrow> u8" where
  "hd0 cs = (case cs of [] \<Rightarrow> 0 | c # _ \<Rightarrow> c)"

function strcmp :: "u8 list \<Rightarrow> u8 list \<Rightarrow> int" where
  "strcmp s1 s2 =
     (if hd0 s1 \<noteq> 0 \<and> hd0 s2 \<noteq> 0 \<and> hd0 s1 = hd0 s2 then strcmp (tl s1) (tl s2) else sint (hd0 s1) - sint (hd0 s2))"
  by pat_completeness auto
termination
  by (relation "measure (\<lambda>(s1, s2). length s1)") (auto simp: hd0_def split: list.splits)

fun strchr :: "u8 list \<Rightarrow> u8 \<Rightarrow> nat option" where
  "strchr [] c = None"
| "strchr (x # xs) c = (if x = 0 then None else if x = c then Some 0 else map_option Suc (strchr xs c))"

fun strlen :: "u8 list \<Rightarrow> nat" where
  "strlen [] = 0"
| "strlen (x # xs) = (if x = 0 then 0 else Suc (strlen xs))"

text \<open>The bytes of the buffer after a copy of a string to its start.\<close>

fun strcpy :: "u8 list \<Rightarrow> u8 list \<Rightarrow> u8 list" where
  "strcpy (d # ds) [] = 0 # ds"
| "strcpy (d # ds) (x # xs) = (if x = 0 then 0 # ds else x # strcpy ds xs)"
| "strcpy [] xs = []"

definition skip_spaces :: "u8 list \<Rightarrow> nat \<Rightarrow> nat" where
  "skip_spaces buf i = i + length (takeWhile (\<lambda>c. c = 0x20) (drop i buf))"

section \<open>Reading a line\<close>

definition edit_char :: "u8 \<Rightarrow> shell \<Rightarrow> shell" where
  "edit_char c s =
     (if c = 0x08 then if sh_idx s > 0 then putchar 0x08 (s\<lparr>sh_idx := sh_idx s - 1\<rparr>) else s
      else if sh_idx s < 255 then putchar c (s\<lparr>sh_buf := (sh_buf s)[sh_idx s := c], sh_idx := sh_idx s + 1\<rparr>)
      else s)"

function read_line :: "shell \<Rightarrow> shell option" where
  "read_line s =
     (case getchar s of None \<Rightarrow> None
      | Some (c, s') \<Rightarrow> if c = 0x0A \<or> c = 0x0D then Some (putchar 0x0A s') else read_line (edit_char c s'))"
  by pat_completeness auto
termination
  by (relation "measure (\<lambda>s. length (sh_in s))") (auto simp: getchar_def edit_char_def putchar_def split: list.splits)

section \<open>echo\<close>

text \<open>
  The loop that prints the argument: \<open>prev\<close> is the byte before \<^verbatim>\<open>p\<close>, or None at \<^verbatim>\<open>arg_start\<close>.
\<close>

fun drop_quoted :: "u8 list \<Rightarrow> u8 list \<times> u8 list" where
  "drop_quoted [] = ([], [])"
| "drop_quoted (c # cs) = (if c \<noteq> 0 \<and> c \<noteq> 0x22 then let (out, rest) = drop_quoted cs in (c # out, rest) else ([], c # cs))"

lemma drop_quoted_length: "length (snd (drop_quoted cs)) \<le> length cs"
  by (induction cs) (auto simp: case_prod_beta)

definition skip_char :: "u8 \<Rightarrow> u8 option \<times> u8 list \<Rightarrow> u8 option \<times> u8 list" where
  "skip_char c = (\<lambda>(prev, cs). case cs of [] \<Rightarrow> (prev, cs) | x # xs \<Rightarrow> if x = c then (Some x, xs) else (prev, cs))"

definition last_or :: "u8 option \<Rightarrow> u8 list \<Rightarrow> u8 option" where
  "last_or prev cs = (if cs = [] then prev else Some (last cs))"

lemma skip_char_length: "length (snd (skip_char c x)) \<le> length (snd x)"
  by (auto simp: skip_char_def split: prod.split list.split)

function echo_loop :: "u8 option \<Rightarrow> u8 list \<Rightarrow> shell \<Rightarrow> shell" where
  "echo_loop prev cs s =
     (case cs of [] \<Rightarrow> s
      | c # rest \<Rightarrow>
          if c = 0 then s
          else if c = 0x22 then
            let (quoted, rest') = drop_quoted rest;
                s = s\<lparr>sh_out := sh_out s @ quoted\<rparr>;
                after = skip_char 0x20 (skip_char 0x22 (last_or (Some c) quoted, rest'))
            in echo_loop (fst after) (snd after) s
          else if c = 0x20 \<and> prev \<noteq> None \<and> prev \<noteq> Some 0x20 then
            echo_loop (Some 0x20) (dropWhile (\<lambda>x. x = 0x20) rest) (putchar 0x20 s)
          else if c \<noteq> 0x20 then echo_loop (Some c) rest (putchar c s)
          else echo_loop (Some c) rest s)"
  by pat_completeness auto
termination
proof (relation "measure (\<lambda>(prev, cs, s). length cs)")
  fix prev :: "u8 option" and cs rest quoted rest' :: "u8 list" and c :: u8 and s t after x
  assume "cs = c # rest" "x = drop_quoted rest" "(quoted, rest') = x"
    "after = skip_char 0x20 (skip_char 0x22 (last_or (Some c) quoted, rest'))"
  then show "((fst after, snd after, t), prev, cs, s) \<in> measure (\<lambda>(prev, cs, s). length cs)"
    using skip_char_length[of "0x20" "skip_char 0x22 (last_or (Some c) quoted, rest')"]
      skip_char_length[of "0x22" "(last_or (Some c) quoted, rest')"] drop_quoted_length[of rest]
    by (auto dest: arg_cong[of _ _ snd])
qed (auto simp: le_imp_less_Suc length_dropWhile_le)

definition cmd_echo :: "nat option \<Rightarrow> shell \<Rightarrow> shell" where
  "cmd_echo space s =
     (case space of None \<Rightarrow> putchar 0x0A s
      | Some sp \<Rightarrow>
          let (newline, arg_start, s) =
                (case strchr (drop (sp + 1) (sh_buf s)) 0x20 of None \<Rightarrow> (True, sp + 1, s)
                 | Some k \<Rightarrow>
                     let next_space = sp + 1 + k;
                         s = s\<lparr>sh_buf := (sh_buf s)[next_space := 0]\<rparr>
                     in if strcmp (drop (sp + 1) (sh_buf s)) (bytes_of ''-n'') = 0
                        then (False, next_space + 1, s\<lparr>sh_buf := (sh_buf s)[next_space := 0x20]\<rparr>)
                        else (True, sp + 1, s));
              arg_start = skip_spaces (sh_buf s) arg_start
          in if hd0 (drop arg_start (sh_buf s)) \<noteq> 0 then echo_loop None (drop arg_start (sh_buf s)) s
             else if newline then putchar 0x0A s else s)"

section \<open>exec\<close>

text \<open>
  The loop that splits the arguments: it turns spaces of the buffer into terminators and collects where the
  arguments start.
\<close>

function split_args :: "nat \<Rightarrow> nat list \<Rightarrow> u8 list \<Rightarrow> nat list \<times> u8 list" where
  "split_args p args buf =
     (if p < length buf \<and> buf ! p \<noteq> 0 \<and> length args < 7 then
        if buf ! p = 0x20 then
          let buf' = buf[p := 0];
              q = skip_spaces buf' (p + 1)
          in split_args q (if hd0 (drop q buf') \<noteq> 0 then args @ [q] else args) buf'
        else split_args (p + 1) args buf
      else (args, buf))"
  by pat_completeness auto
termination
  by (relation "measure (\<lambda>(p, args, buf). length buf - p)") (auto simp: skip_spaces_def)

definition exec_error :: "int \<Rightarrow> shell \<Rightarrow> shell" where
  "exec_error ret s =
     (let s = print_lit ''exec failed: '' s
      in if ret = -2 then print_lit ''No such file\<newline>'' s
         else if ret = -12 then print_lit ''Out of memory\<newline>'' s
         else if ret = -1 then print_lit ''Invalid ELF format\<newline>'' s
         else print_lit ''Unknown error\<newline>'' s)"

definition cstr :: "u8 list \<Rightarrow> u8 list" where
  "cstr cs = takeWhile (\<lambda>c. c \<noteq> 0) cs"

definition say_trying :: "u8 list \<Rightarrow> shell \<Rightarrow> shell" where
  "say_trying path s = print_lit ([CHR 0x22] @ ''\<newline>'') (print path (print_lit (''exec: trying '' @ [CHR 0x22]) s))"

definition cmd_exec :: "(u8 list \<Rightarrow> nat list \<Rightarrow> int) \<Rightarrow> nat option \<Rightarrow> shell \<Rightarrow> shell" where
  "cmd_exec execve space s =
     (case space of None \<Rightarrow> print_lit ''exec: no program specified\<newline>'' s
      | Some sp \<Rightarrow>
          let program = skip_spaces (sh_buf s) (sp + 1)
          in if hd0 (drop program (sh_buf s)) = 0 then print_lit ''exec: no program specified\<newline>'' s
             else
               let (args, buf) = split_args program [program] (sh_buf s);
                   s = s\<lparr>sh_buf := buf\<rparr>;
                   name = cstr (drop program (sh_buf s));
                   s = say_trying name s;
                   ret = execve name args
               in if ret = 0 then s
                  else if hd0 name \<noteq> 0x2F then
                    let full_path = 0x2F # take 254 name;
                        s = say_trying full_path s;
                        ret = execve full_path args
                    in if ret = 0 then s else exec_error ret s
                  else exec_error ret s)"

section \<open>The shell\<close>

definition cmd_help :: "shell \<Rightarrow> shell" where
  "cmd_help s =
     (let s = print_lit ''Available commands:\<newline>'' s;
          s = print_lit ''  help     - Show the help\<newline>'' s;
          s = print_lit ''  exit     - Exit shell\<newline>'' s;
          s = print_lit ''  ls       - List the file in the root dir\<newline>'' s;
          s = print_lit ''  cat      - Show README.TXT\<newline>'' s;
          s = print_lit ''  echo     - Echo text\<newline>'' s;
          s = print_lit ''  exec     - Run application\<newline>'' s
      in print_lit ''  [cmd]    - Run application\<newline>'' s)"

definition command_is :: "string \<Rightarrow> shell \<Rightarrow> bool" where
  "command_is str s \<longleftrightarrow> strcmp (sh_buf s) (bytes_of str) = 0"

definition run_command :: "(u8 list \<Rightarrow> nat list \<Rightarrow> int) \<Rightarrow> shell \<Rightarrow> shell" where
  "run_command execve s =
     (let s = s\<lparr>sh_buf := (sh_buf s)[sh_idx s := 0]\<rparr>;
          space = strchr (sh_buf s) 0x20;
          s = (case space of None \<Rightarrow> s | Some sp \<Rightarrow> s\<lparr>sh_buf := (sh_buf s)[sp := 0]\<rparr>)
      in if command_is ''help'' s then cmd_help s
         else
           let s = (if command_is ''exit'' s then (print_lit ''Bye!\<newline>'' s)\<lparr>sh_exited := True\<rparr> else s)
           in if command_is ''ls'' s then print_lit ''/ISHELL\<newline>/README.TXT\<newline>'' s
              else if command_is ''cat'' s then
                print_lit ''--- end ---\<newline>'' (print_lit ''SukiOS is a from-scratch x86_64 monolithic kernel.\<newline>''
                  (print_lit ''--- README.TXT ---\<newline>'' s))
              else if command_is ''echo'' s then cmd_echo space s
              else if command_is ''exec'' s then cmd_exec execve space s
              else if execve (cstr (sh_buf s)) [] = 0 then s
              else putchar 0x0A ((print_lit ''Command not found: '' s)\<lparr>sh_out := sh_out (print_lit ''Command not found: '' s) @ take (sh_idx s) (sh_buf s)\<rparr>))"

text \<open>One round of the shell's loop; \<open>_start\<close> prints the banner and repeats it \<open>n\<close> times.\<close>

definition shell_round :: "(u8 list \<Rightarrow> nat list \<Rightarrow> int) \<Rightarrow> shell \<Rightarrow> shell option" where
  "shell_round execve s =
     (case read_line (putchar 0x20 (putchar 0x3E (s\<lparr>sh_idx := 0\<rparr>))) of None \<Rightarrow> None
      | Some s \<Rightarrow> Some (if sh_idx s = 0 then s else run_command execve s))"

primrec shell_rounds :: "(u8 list \<Rightarrow> nat list \<Rightarrow> int) \<Rightarrow> nat \<Rightarrow> shell \<Rightarrow> shell option" where
  "shell_rounds execve 0 s = Some s"
| "shell_rounds execve (Suc n) s =
     (case shell_round execve s of None \<Rightarrow> None | Some s \<Rightarrow> shell_rounds execve n s)"

definition shell_start :: "(u8 list \<Rightarrow> nat list \<Rightarrow> int) \<Rightarrow> nat \<Rightarrow> shell \<Rightarrow> shell option" where
  "shell_start execve n s =
     shell_rounds execve n (print_lit ''SukiOS [v0.0.8.0 iShell v0.4]\<newline>(c) 2026 CaraLiwa. Licensed under GPL-3.0\<newline>'' s)"

definition uname_start :: "shell \<Rightarrow> shell" where
  "uname_start s = print_lit ''SukiOS 0.0.8.0\<newline>'' s"

end
