(* ===== verification/Ishell_Properties.thy ===== *)
theory Ishell_Properties
  imports Ishell Console
begin

text \<open>
  The shell: the line it reads, what the kernel's console shows of it while it is typed, and what \<^verbatim>\<open>echo\<close> prints.
\<close>

section \<open>Line editing\<close>

text \<open>The line after a key, and the characters echoed for it.\<close>

definition edit_key :: "u8 \<Rightarrow> u8 list \<Rightarrow> u8 list" where
  "edit_key c l = (if c = 0x08 then butlast l else if length l < 255 then l @ [c] else l)"

definition echo_key :: "u8 \<Rightarrow> u8 list \<Rightarrow> u8 list" where
  "echo_key c l = (if c = 0x08 \<and> l = [] \<or> c \<noteq> 0x08 \<and> 255 \<le> length l then [] else [c])"

definition line_of :: "u8 list \<Rightarrow> u8 list" where
  "line_of keys = fold edit_key keys []"

fun echo_of :: "u8 list \<Rightarrow> u8 list \<Rightarrow> u8 list" where
  "echo_of [] l = []"
| "echo_of (k # ks) l = echo_key k l @ echo_of ks (edit_key k l)"

text \<open>The line buffer holds \<open>l\<close>.\<close>

definition holds_line :: "u8 list \<Rightarrow> shell \<Rightarrow> bool" where
  "holds_line l s \<longleftrightarrow> length (sh_buf s) = 256 \<and> sh_idx s = length l \<and> length l \<le> 255 \<and> take (length l) (sh_buf s) = l"

lemma edit_char_line:
  assumes "holds_line l s"
  shows "holds_line (edit_key c l) (edit_char c s)"
    and "sh_out (edit_char c s) = sh_out s @ echo_key c l"
    and "sh_in (edit_char c s) = sh_in s" "sh_exited (edit_char c s) = sh_exited s"
proof -
  show "holds_line (edit_key c l) (edit_char c s)"
    using assms
    by (cases "l = []") (auto simp: holds_line_def edit_char_def edit_key_def putchar_def take_Suc_conv_app_nth butlast_conv_take
        take_take min_absorb1 dest: arg_cong[of _ _ "take (length l - 1)"])
  show "sh_out (edit_char c s) = sh_out s @ echo_key c l"
    using assms by (auto simp: holds_line_def edit_char_def echo_key_def putchar_def)
  show "sh_in (edit_char c s) = sh_in s" "sh_exited (edit_char c s) = sh_exited s"
    by (auto simp: edit_char_def putchar_def)
qed

declare read_line.simps [simp del]

lemma read_line_keys:
  assumes "sh_in s = keys @ nl # rest" "nl \<in> {0x0A, 0x0D}" "\<forall>k\<in>set keys. k \<notin> {0x0A, 0x0D}" "holds_line l s"
  shows "\<exists>s'. read_line s = Some s' \<and> holds_line (fold edit_key keys l) s' \<and> sh_in s' = rest
    \<and> sh_exited s' = sh_exited s \<and> sh_out s' = sh_out s @ echo_of keys l @ [0x0A]"
  using assms
proof (induction keys arbitrary: s l)
  case Nil
  then show ?case
    by (subst read_line.simps) (auto simp: getchar_def putchar_def holds_line_def)
next
  case (Cons k keys)
  let ?s = "edit_char k (s\<lparr>sh_in := keys @ nl # rest\<rparr>)"
  have l: "holds_line l (s\<lparr>sh_in := keys @ nl # rest\<rparr>)" using Cons.prems(4) by (simp add: holds_line_def)
  note e = edit_char_line[OF l, of k]
  obtain s' where r: "read_line ?s = Some s'" "holds_line (fold edit_key keys (edit_key k l)) s'" "sh_in s' = rest"
    "sh_exited s' = sh_exited ?s" "sh_out s' = sh_out ?s @ echo_of keys (edit_key k l) @ [0x0A]"
    using Cons.IH[OF _ Cons.prems(2) _ e(1)] Cons.prems(3) e(3) by auto
  have "read_line s = read_line ?s"
    using Cons.prems(1,3) by (subst read_line.simps) (simp add: getchar_def)
  then show ?case using r e(2,4) by auto
qed

lemma read_line_waits:
  assumes "\<forall>k\<in>set (sh_in s). k \<notin> {0x0A, 0x0D}"
  shows "read_line s = None"
  using assms
proof (induction "length (sh_in s)" arbitrary: s)
  case 0
  then show ?case by (subst read_line.simps) (simp add: getchar_def)
next
  case (Suc n)
  then obtain k ks where k: "sh_in s = k # ks" by (cases "sh_in s") auto
  have i: "sh_in (edit_char k (s\<lparr>sh_in := ks\<rparr>)) = ks" by (auto simp: edit_char_def putchar_def)
  have "read_line (edit_char k (s\<lparr>sh_in := ks\<rparr>)) = None"
    using Suc.hyps(2) Suc.prems k i by (intro Suc.hyps(1)) auto
  then show ?case using k Suc.prems by (subst read_line.simps) (simp add: getchar_def)
qed

section \<open>The line on the screen\<close>

text \<open>
  What the console shows of a line that starts at the cursor of \<open>c\<close> and stays in its row: the characters of the line in the
  cells from there on, the cursor behind them, no cell before the line and none of another row changed, and behind the line
  only cells that are as before or blank.
\<close>

definition shows_line :: "console \<Rightarrow> u8 list \<Rightarrow> console \<Rightarrow> bool" where
  "shows_line c l d \<longleftrightarrow> term_row d = term_row c \<and> term_col d = term_col c + length l \<and> term_color d = term_color c
     \<and> (let start = term_row c * VGA_WIDTH + term_col c
        in (\<forall>i < length l. term_buffer d (start + i) = vga_entry (l ! i) (term_color c))
          \<and> (\<forall>x. x < start \<or> term_row c * VGA_WIDTH + VGA_WIDTH \<le> x \<longrightarrow> term_buffer d x = term_buffer c x)
          \<and> (\<forall>x \<ge> start + length l. term_buffer d x = term_buffer c x \<or> term_buffer d x = vga_entry 32 (term_color c)))"

lemma shows_line_key:
  assumes "shows_line c l d" "k \<noteq> 0x0A" "term_col c + length (edit_key k l) < VGA_WIDTH" "term_col c + length l < VGA_WIDTH"
  shows "shows_line c (edit_key k l) (fold tty_putchar (echo_key k l) d)"
proof -
  consider "k = 0x08" "l = []" | "k = 0x08" "l \<noteq> []" | "k \<noteq> 0x08" "255 \<le> length l" | "k \<noteq> 0x08" "length l < 255" by linarith
  then show ?thesis
  proof cases
    case 2
    then obtain l' x where "l = l' @ [x]" by (metis append_butlast_last_id)
    then show ?thesis using 2 assms by (auto simp: shows_line_def echo_key_def edit_key_def tty_putchar_def uart_putchar_def Let_def nth_append)
  next
    case 4
    then show ?thesis
      using assms by (auto simp: shows_line_def echo_key_def edit_key_def tty_putchar_def uart_putchar_def Let_def nth_append less_Suc_eq)
  qed (use assms(1) in \<open>simp_all add: echo_key_def edit_key_def\<close>)
qed

lemma shows_line_keys:
  assumes "shows_line c l d" "\<forall>k\<in>set keys. k \<noteq> 0x0A" "\<forall>i \<le> length keys. term_col c + length (fold edit_key (take i keys) l) < VGA_WIDTH"
  shows "shows_line c (fold edit_key keys l) (fold tty_putchar (echo_of keys l) d)"
  using assms
proof (induction keys arbitrary: l d)
  case (Cons k keys)
  have len: "term_col c + length (fold edit_key (take i keys) (edit_key k l)) < VGA_WIDTH" if "i \<le> length keys" for i
    using Cons.prems(3)[rule_format, of "Suc i"] that by simp
  have "shows_line c (edit_key k l) (fold tty_putchar (echo_key k l) d)"
    using Cons.prems(1,2) Cons.prems(3)[rule_format, of 0] len[of 0] by (intro shows_line_key) simp_all
  from Cons.IH[OF this] show ?case using Cons.prems(2) len by simp
qed simp

text \<open>
  C22: Reading a line returns exactly when a line end is typed.  The buffer then holds the typed keys with every
  backspace applied and everything beyond 255 characters dropped, the index is the length of that line and
  never exceeds 255, and the characters echoed are the accepted ones.  As long as the line never reaches the right edge of the screen while it is typed, the
  echo leaves exactly that line on the kernel's console, from the cursor on.  (Once the line has wrapped, it may not: the console ignores a
  backspace in column 0.)
\<close>

theorem read_line_correct:
  assumes "sh_in s = keys @ typed" "\<forall>k\<in>set keys. k \<notin> {0x0A, 0x0D}" "length (sh_buf s) = 256" "sh_idx s = 0"
  shows "(typed = [] \<longrightarrow> read_line s = None)
    \<and> (\<forall>nl rest. typed = nl # rest \<and> nl \<in> {0x0A, 0x0D} \<longrightarrow>
        (\<exists>s'. read_line s = Some s' \<and> sh_idx s' = length (line_of keys) \<and> sh_idx s' \<le> 255
          \<and> length (sh_buf s') = 256 \<and> take (sh_idx s') (sh_buf s') = line_of keys
          \<and> sh_out s' = sh_out s @ echo_of keys [] @ [0x0A] \<and> sh_in s' = rest))
    \<and> ((\<forall>i \<le> length keys. term_col c + length (line_of (take i keys)) < VGA_WIDTH) \<longrightarrow>
        shows_line c (line_of keys) (fold tty_putchar (echo_of keys []) c))"
proof (intro conjI allI impI, goal_cases)
  case 1
  then show ?case using assms(1,2) by (intro read_line_waits) simp
next
  case (2 nl rest)
  have "holds_line [] s" using assms(3,4) by (simp add: holds_line_def)
  from read_line_keys[OF _ _ assms(2) this, of nl rest] 2 assms(1)
  obtain s' where "read_line s = Some s'" "holds_line (line_of keys) s'" "sh_in s' = rest" "sh_out s' = sh_out s @ echo_of keys [] @ [0x0A]"
    by (auto simp: line_of_def)
  then show ?case by (intro exI[of _ s']) (simp add: holds_line_def)
next
  case 3
  have "shows_line c [] c" by (simp add: shows_line_def)
  then show ?case using shows_line_keys[of c "[]" c keys] 3 assms(2) by (auto simp: line_of_def)
qed

definition shell_example :: "u8 list \<Rightarrow> shell" where
  "shell_example inp = \<lparr>sh_buf = replicate 256 0, sh_idx = 0, sh_in = inp, sh_out = [], sh_exited = False\<rparr>"

lemma shell_example_simps [simp]: "sh_in (shell_example i) = i" "sh_out (shell_example i) = []" "sh_idx (shell_example i) = 0"
  "length (sh_buf (shell_example i)) = 256"
  by (simp_all add: shell_example_def)

definition console_example :: console where
  "console_example = \<lparr>term_row = 24, term_col = 2, term_color = 7, term_buffer = \<lambda>_. 0x0720, port_log = []\<rparr>"

theorem read_line_correct_witness:
  "(\<exists>s'. read_line (shell_example [0x6C, 0x78, 0x08, 0x73, 0x0A]) = Some s' \<and> take (sh_idx s') (sh_buf s') = bytes_of ''ls'')
   \<and> shows_line console_example (bytes_of ''ls'') (fold tty_putchar [0x6C, 0x78, 0x08, 0x73] console_example)"
proof -
  let ?keys = "[0x6C, 0x78, 0x08, 0x73] :: u8 list"
  have line: "line_of ?keys = bytes_of ''ls''"
    by (simp add: line_of_def edit_key_def bytes_of_def of_char_def)
  have echo: "echo_of ?keys [] = ?keys" by (simp add: echo_key_def edit_key_def)
  have len: "length (fold edit_key ks l) \<le> length l + length ks" for ks l
    by (induction ks rule: rev_induct) (auto simp: edit_key_def)
  have "length (line_of (take i ?keys)) \<le> 4" for i
    using len[of "take i ?keys" "[]"] unfolding line_of_def by (simp add: min_def split: if_splits)
  then have "term_col console_example + length (line_of (take i ?keys)) < VGA_WIDTH" for i
    by (rule le_less_trans[OF add_left_mono]) (simp add: console_example_def)
  then show ?thesis
    using read_line_correct[of "shell_example [0x6C, 0x78, 0x08, 0x73, 0x0A]" ?keys "[0x0A]" console_example]
    unfolding line echo by auto
qed

section \<open>Commands\<close>

lemma hd0_simps [simp]: "hd0 [] = 0" "hd0 (c # cs) = c"
  by (simp_all add: hd0_def)

lemma hd0_append [simp]: "hd0 (xs @ ys) = (if xs = [] then hd0 ys else hd xs)"
  by (cases xs) simp_all

lemma cstr_simps [simp]: "cstr [] = []" "cstr (c # cs) = (if c = 0 then [] else c # cstr cs)"
  by (simp_all add: cstr_def)

lemma cstr_append: "0 \<notin> set xs \<Longrightarrow> cstr (xs @ ys) = xs @ cstr ys"
  by (induction xs) auto

declare strcmp.simps [simp del]

lemma strcmp_equal: "strcmp xs ys = 0 \<longleftrightarrow> cstr xs = cstr ys"
proof (induction xs ys rule: strcmp.induct)
  case (1 xs ys)
  have "sint (hd0 xs) - sint (hd0 ys) = 0 \<longleftrightarrow> hd0 xs = hd0 ys" by (auto intro: signed_word_eqI)
  then show ?case using 1 by (subst strcmp.simps; cases xs; cases ys) auto
qed

lemma command_is_builtin:
  "sh_buf s = [0x65, 0x63, 0x68, 0x6F] @ 0 # x \<Longrightarrow>
    \<not> command_is ''help'' s \<and> \<not> command_is ''exit'' s \<and> \<not> command_is ''ls'' s \<and> \<not> command_is ''cat'' s \<and> command_is ''echo'' s"
  by (simp add: command_is_def strcmp_equal bytes_of_def of_char_def)

lemma run_command_echo:
  assumes b: "(sh_buf s)[sh_idx s := 0] = b" "strchr b 0x20 = Some sp" "b[sp := 0] = sh_buf t"
    and t: "t = s\<lparr>sh_buf := [0x65, 0x63, 0x68, 0x6F] @ 0 # x\<rparr>"
  shows "run_command execve s = cmd_echo (Some sp) t"
proof -
  have u: "s\<lparr>sh_buf := b\<rparr>\<lparr>sh_buf := b[sp := 0]\<rparr> = t" using b(3) by (simp add: t)
  have c: "\<not> command_is ''help'' t" "\<not> command_is ''exit'' t" "\<not> command_is ''ls'' t" "\<not> command_is ''cat'' t"
    "command_is ''echo'' t" using command_is_builtin[of t x] by (simp_all add: t)
  have "sh_buf (s\<lparr>sh_buf := b\<rparr>) = b" by simp
  then show ?thesis unfolding run_command_def Let_def b(1) by (simp only: b(2) option.case u c if_True if_False simp_thms)
qed

lemma strchr_append:
  assumes "c \<notin> set xs" "0 \<notin> set xs"
  shows "strchr (xs @ c # ys) c = (if c = 0 then None else Some (length xs))" "strchr (xs @ 0 # ys) c = None"
  using assms by (induction xs) auto

declare echo_loop.simps [simp del]

lemma echo_loop_word:
  assumes "\<forall>c\<in>set w. c \<notin> {0, 0x20, 0x22}"
  shows "echo_loop prev (w @ 0 # x) s = s\<lparr>sh_out := sh_out s @ w\<rparr>"
  using assms
proof (induction w arbitrary: prev s)
  case (Cons c w)
  then show ?case by (subst echo_loop.simps) (simp add: putchar_def)
qed (subst echo_loop.simps; simp)

text \<open>The arguments follow the terminator that replaced the first space.\<close>

lemma cmd_echo_word:
  assumes buf: "sh_buf s = pre @ 0 # w @ x" "length pre = sp" and x: "x = 0 # y \<or> x = 0x20 # y"
    and w: "w \<noteq> []" "\<forall>c\<in>set w. c \<notin> {0, 0x20, 0x22}" "w \<noteq> bytes_of ''-n''"
  shows "sh_out (cmd_echo (Some sp) s) = sh_out s @ w"
proof -
  let ?t = "s\<lparr>sh_buf := pre @ 0 # w @ 0 # y\<rparr>"
  have n: "cstr (bytes_of ''-n'') = bytes_of ''-n''" by (simp add: bytes_of_def of_char_def)
  have set: "0x20 \<notin> set w" "0 \<notin> set w" using w(2) by auto
  have args: "drop (sp + 1) (sh_buf s) = w @ x" "drop (sp + 1) (sh_buf ?t) = w @ 0 # y" using buf by auto
  have option: "strcmp (w @ 0 # y) (bytes_of ''-n'') \<noteq> 0"
    using set(2) w(3) n by (simp add: strcmp_equal cstr_append)
  have start: "skip_spaces (sh_buf ?t) (sp + 1) = sp + 1"
    using args(2) w(1) set(1) by (cases w) (auto simp: skip_spaces_def)
  have shown: "sh_out (echo_loop None (w @ 0 # y) ?t) = sh_out s @ w" "hd0 (w @ 0 # y) \<noteq> 0"
    using echo_loop_word[OF w(2)] w(1) set(2) by (auto simp del: hd0_append) (cases w; simp)
  from x show ?thesis
  proof
    assume x: "x = 0 # y"
    then have "s = ?t" using buf(1) by simp
    moreover have "strchr (w @ 0 # y) 0x20 = None" using strchr_append(2)[OF set(1,2)] .
    ultimately show ?thesis using args start shown
      by (simp only: cmd_echo_def option.case Let_def prod.case if_True simp_thms)
  next
    assume x: "x = 0x20 # y"
    then have u: "s\<lparr>sh_buf := (sh_buf s)[sp + 1 + length w := 0]\<rparr> = ?t" using buf by (simp add: list_update_append)
    have "strchr (w @ x) 0x20 = Some (length w)" using strchr_append(1)[OF set(1,2)] x by simp
    then show ?thesis unfolding cmd_echo_def Let_def option.case args(1)
      by (simp only: u option.case args(2) option start shown prod.case if_True if_False simp_thms)
  qed
qed

lemma line_of_plain:
  assumes "8 \<notin> set keys" "length keys \<le> 255"
  shows "line_of keys = keys" "echo_of keys [] = keys"
proof -
  have "fold edit_key keys l = l @ keys \<and> echo_of keys l = keys" if "length l + length keys \<le> 255" for l
    using that assms(1) by (induction keys arbitrary: l) (auto simp: edit_key_def echo_key_def)
  from this[of "[]"] show "line_of keys = keys" "echo_of keys [] = keys" using assms(2) by (simp_all add: line_of_def)
qed

text \<open>A round on a plain line: the command sees the line, its first space and everything after it terminated.\<close>

lemma shell_round_plain:
  assumes "sh_in s = line @ nl # rest" "nl \<in> {0x0A, 0x0D}" "\<forall>k\<in>set line. k \<notin> {0x08, 0x0A, 0x0D}" "length line \<le> 255"
    "line \<noteq> []" "length (sh_buf s) = 256"
  shows "\<exists>s' x. shell_round execve s = Some (run_command execve s') \<and> sh_idx s' = length line \<and> sh_in s' = rest
    \<and> (sh_buf s')[length line := 0] = line @ 0 # x \<and> sh_out s' = sh_out s @ bytes_of ''> '' @ line @ [0x0A]"
proof -
  let ?s = "putchar 0x20 (putchar 0x3E (s\<lparr>sh_idx := 0\<rparr>))"
  have i: "sh_in ?s = line @ nl # rest" and h: "holds_line [] ?s"
    using assms(1,6) by (simp_all add: putchar_def holds_line_def)
  have k: "\<forall>k\<in>set line. k \<notin> {0x0A, 0x0D}" using assms(3) by auto
  have l: "fold edit_key line [] = line" "echo_of line [] = line" using line_of_plain[of line] assms(3,4) by (auto simp: line_of_def)
  obtain s' where r: "read_line ?s = Some s'" "holds_line line s'" "sh_in s' = rest" "sh_out s' = sh_out ?s @ line @ [0x0A]"
    using read_line_keys[OF i assms(2) k h] unfolding l by auto
  have len: "length (sh_buf s') = 256" "take (length line) (sh_buf s') = line" "sh_idx s' = length line"
    using r(2) by (auto simp: holds_line_def)
  have "(sh_buf s')[length line := 0] = take (length line) (sh_buf s') @ 0 # drop (Suc (length line)) (sh_buf s')"
    using len(1) assms(4) by (intro upd_conv_take_nth_drop) simp
  then have b: "(sh_buf s')[length line := 0] = line @ 0 # drop (Suc (length line)) (sh_buf s')" unfolding len(2) .
  have "sh_out ?s = sh_out s @ bytes_of ''> ''" by (simp add: putchar_def bytes_of_def of_char_def)
  then show ?thesis
    using r b len(3) assms(5)
    by (intro exI[of _ s'] exI[of _ "drop (Suc (length line)) (sh_buf s')"]) (simp add: shell_round_def)
qed

text \<open>
  C40: A round in which \<^verbatim>\<open>echo\<close> and some plain words are typed prints the first of the words only, and no line feed
  after it: the second space is overwritten by the terminator that the test for \<^verbatim>\<open>-n\<close> puts there and is
  not restored, and the line feed is printed only when there is no argument.
\<close>

theorem echo_prints_first_word:
  assumes "sh_in s = bytes_of ''echo '' @ w @ words @ nl # rest" "nl \<in> {0x0A, 0x0D}" "words = [] \<or> words = 0x20 # ws"
    "w \<noteq> []" "w \<noteq> bytes_of ''-n''" "\<forall>c\<in>set w. c \<notin> {0, 0x08, 0x0A, 0x0D, 0x20, 0x22}"
    "\<forall>c\<in>set words. c \<notin> {0, 0x08, 0x0A, 0x0D}" "length w + length words \<le> 250" "length (sh_buf s) = 256"
  shows "\<exists>s'. shell_round execve s = Some s'
    \<and> sh_out s' = sh_out s @ bytes_of ''> '' @ (bytes_of ''echo '' @ w @ words) @ [0x0A] @ w"
proof -
  let ?line = "bytes_of ''echo '' @ w @ words"
  have e: "bytes_of ''echo '' = [0x65, 0x63, 0x68, 0x6F, 0x20]" by (simp add: bytes_of_def of_char_def)
  have plain: "\<forall>k\<in>set ?line. k \<notin> {0x08, 0x0A, 0x0D}" using assms(6,7) by (auto simp: e)
  have len: "length ?line \<le> 255" "?line \<noteq> []" using assms(8) by (simp_all add: e)
  obtain s' x where r: "shell_round execve s = Some (run_command execve s')" "sh_idx s' = length ?line"
    "(sh_buf s')[length ?line := 0] = ?line @ 0 # x" "sh_out s' = sh_out s @ bytes_of ''> '' @ ?line @ [0x0A]"
    using shell_round_plain[OF _ assms(2) plain len assms(9), of rest execve] assms(1) by auto
  let ?t = "s'\<lparr>sh_buf := [0x65, 0x63, 0x68, 0x6F] @ 0 # w @ words @ 0 # x\<rparr>"
  have space: "strchr (?line @ 0 # x) 0x20 = Some 4" "(?line @ 0 # x)[4 := 0] = sh_buf ?t" by (simp_all add: e)
  have "run_command execve s' = cmd_echo (Some 4) ?t"
    by (rule run_command_echo[OF r(3)[folded r(2)] space refl])
  moreover have "sh_out (cmd_echo (Some 4) ?t) = sh_out ?t @ w"
  proof (rule cmd_echo_word)
    show "sh_buf ?t = [0x65, 0x63, 0x68, 0x6F] @ 0 # w @ words @ 0 # x" "length [0x65, 0x63, 0x68, 0x6F :: u8] = 4" by simp_all
    show "words @ 0 # x = 0 # (if words = [] then x else ws @ 0 # x) \<or> words @ 0 # x = 0x20 # (if words = [] then x else ws @ 0 # x)"
      using assms(3) by (cases words) simp_all
    show "\<forall>c\<in>set w. c \<notin> {0, 0x20, 0x22}" using assms(6) by simp
  qed (use assms(4,5) in simp_all)
  ultimately show ?thesis using r(1,4) by (intro exI[of _ "run_command execve s'"]) simp
qed

theorem echo_prints_first_word_witness:
  "\<exists>s'. shell_round (\<lambda>_ _. -2) (shell_example (bytes_of ''echo hi you'' @ [0x0A])) = Some s'
    \<and> sh_out s' = bytes_of ''> '' @ bytes_of ''echo hi you'' @ [0x0A] @ bytes_of ''hi''"
proof -
  have line: "bytes_of ''echo hi you'' = bytes_of ''echo '' @ bytes_of ''hi'' @ bytes_of '' you''" by (simp add: bytes_of_def)
  have words: "bytes_of ''hi'' = [0x68, 0x69]" "bytes_of '' you'' = [0x20, 0x79, 0x6F, 0x75]" "bytes_of ''-n'' = [0x2D, 0x6E]"
    by (simp_all add: bytes_of_def of_char_def)
  show ?thesis
    using echo_prints_first_word[of "shell_example (bytes_of ''echo hi you'' @ [0x0A])" "[0x68, 0x69]" "[0x20, 0x79, 0x6F, 0x75]"
        "0x0A" "[]" "[0x79, 0x6F, 0x75]" "\<lambda>_ _. -2"]
    unfolding line words by simp
qed

end
