(* ===== verification/Spec2Isabelle.thy ===== *)
theory Spec2Isabelle
  imports Heap_Properties Keyboard_Driver Rtc Sched_Properties Interrupts_Properties
    Boot_Properties Pci_Properties Ide_Sectors Fat32_Open Vfs_Descriptors Elf64_Properties Syscall_Properties Ishell_Properties
begin

text \<open>
  A verification of SukiOS, a monolithic x86-64 kernel in C with a small user land (all paths below are under
  \<^verbatim>\<open>src/\<close>).

  \<^bold>\<open>The program.\<close>  \<^verbatim>\<open>kernel/EarlyKernel/main.c\<close> is entered from the boot code with the Multiboot2 information: it sets up
  console, descriptor tables and the physical frame allocator and hands over to
  \<^verbatim>\<open>kernel/InitKernel/main.c\<close>, which brings up paging, heap, interrupt controllers, PCI, the IDE disk, the clock, FAT32 below the virtual
  file system, the scheduler, timer and keyboard, creates the first process from an ELF image and starts it.  From then on the
  kernel runs in response to timer and keyboard interrupts and to the system calls of the programs, the shell among them.

  \<^bold>\<open>State.\<close>  The state is one record, extended along the layers: \<open>vmm_state\<close> (console, frame allocator, physical memory, page tables),
  \<open>heap_state\<close> (the kernel's virtual memory \<open>hmem\<close> and the heap's variables), \<open>machine\<close> (devices), \<open>apic_state\<close>,
  \<open>keyboard\<close>, \<open>proc_state\<close>, \<open>kernel\<close>, \<open>ide_state\<close>, \<open>fat_state\<close>, \<open>vfs_state\<close>.  An operation of a component is
  polymorphic in the extension, so that it applies unchanged in the layers above.  Integers are words of the C width and wrap as in C;
  a pointer is a 64-bit word; memory is a function from addresses to bytes.  Page tables are read and written in physical memory \<open>mem\<close>,
  everything the kernel reaches through mapped addresses (heap blocks, file buffers, stacks) in \<open>hmem\<close>.  Structures that
  the code reaches only through typed pointers (process blocks, VFS nodes, file handles, mounted volumes) are stores from addresses
  to records; their addresses come from the model of \<^verbatim>\<open>kmalloc\<close>.

  \<^bold>\<open>Devices.\<close>  Port, register and MSR accesses are appended to a history, and a read is answered by \<open>dev\<close>, an arbitrary
  function of that history: theorems hold for every device, or name the device they are about (an ATA disk in \<open>Ide_Disk\<close>, a PCI
  configuration space in \<open>Pci_Properties\<close>, a CMOS clock in \<open>Rtc\<close>, a pending queue of scan codes in \<open>Keyboard_Driver\<close>).

  \<^bold>\<open>Loops.\<close>  A loop whose end depends on a device or on the contents of memory is a \<open>partial_function (option)\<close>: the value None means that
  the code does not return.  The same value stands for a halt: \<^verbatim>\<open>scheduler_init\<close> when no stack can be allocated, and the ELF loader when it accesses an address
  that the processor does not translate (canonical form and the hardware walk decide, in \<open>Elf64\<close>), since the page fault handler halts.  No fuel is used.  Where the text says that something returns, the theorem states that the result is
  Some.  All other loops are structural recursions or have a termination proof.

  \<^bold>\<open>Theories.\<close>

  \<^item> \<open>Prelude\<close>, \<open>Bytes\<close>, \<open>Queues\<close>: words, alignment, memory accesses of 16, 32 and 64 bits, byte buffers; the locale of bounded queues.
  \<^item> \<open>Pmm\<close> (\<^verbatim>\<open>pmm.c\<close>): the bitmap allocator.  Allocation takes the lowest free frame, a locale states the contract of a frame allocator
    and its clients' facts.
  \<^item> \<open>Console\<close> (\<^verbatim>\<open>tty.c\<close>, \<^verbatim>\<open>uart.c\<close>): screen, cursor, scrolling, printing of numbers, the serial mirror.
  \<^item> \<open>Vmm\<close> (\<^verbatim>\<open>vmm.c\<close>, \<^verbatim>\<open>vmm.h\<close>); \<open>Vmm_Tables\<close>, \<open>Vmm_Walk\<close>, \<open>Vmm_Correct\<close>, \<open>Vmm_Properties\<close>: four-level page tables against the
    translation the hardware makes; mapping, unmapping, splitting of large pages, device ranges.
  \<^item> \<open>Heap\<close> (\<^verbatim>\<open>heap.c\<close>); \<open>Heap_Inv\<close>, \<open>Heap_Alloc\<close>, \<open>Heap_Grow\<close>, \<open>Heap_Malloc\<close>, \<open>Heap_Frame\<close>, \<open>Heap_Properties\<close>: the block layout and
    free list as an invariant, and that initialisation establishes and allocation preserves it, with live blocks disjoint and untouched.
  \<^item> \<open>Ports\<close> (\<^verbatim>\<open>io.h\<close>), \<open>Acpi\<close> (\<^verbatim>\<open>acpi.c\<close>), \<open>Apic\<close> (\<^verbatim>\<open>pic.c\<close>, \<^verbatim>\<open>apic.c\<close>), \<open>Pci\<close> and \<open>Pci_Properties\<close> (\<^verbatim>\<open>pci.c\<close>), \<open>Rtc\<close> (\<^verbatim>\<open>rtc.c\<close>).
  \<^item> \<open>Keyboard_Tables\<close>, \<open>Keyboard_Ring\<close>, \<open>Keyboard\<close>, \<open>Keyboard_Properties\<close>, \<open>Keyboard_Driver\<close> (\<^verbatim>\<open>keyboard.c\<close>, \<^verbatim>\<open>keyboard.h\<close>): the ring buffer refines a
    queue, the scan code machine agrees with the events of whole key strokes (PrintScreen, Pause and fake shifts included, with the spurious events they give),
    an invariant and a typing of all reachable states, blocking reads return.
  \<^item> \<open>Sched\<close>, \<open>Sched_Properties\<close> (\<^verbatim>\<open>proc.c\<close>): the ready queue as a linked list refines a list; scheduling is round robin and fair; the start-up returns
    exactly when it gets a stack, and the words of the first idle frame are stated one by one.
  \<^item> \<open>Interrupts\<close>, \<open>Interrupts_Properties\<close> (\<^verbatim>\<open>gdt.c\<close>, \<^verbatim>\<open>idt.c\<close>, \<^verbatim>\<open>apic_timer.c\<close>): descriptors, gates, dispatch, timer.
  \<^item> \<open>Ide\<close>, \<open>Ide_Disk\<close>, \<open>Ide_Sectors\<close> (\<^verbatim>\<open>ide.c\<close>, \<^verbatim>\<open>ide.h\<close>): sector transfers against an ATA disk.
  \<^item> \<open>Fat32\<close>, \<open>Fat32_Table\<close>, \<open>Fat32_Files\<close>, \<open>Fat32_Write\<close>, \<open>Fat32_Open\<close> (\<^verbatim>\<open>fat32.c\<close>): allocation table, names, reading and
    writing along cluster chains, the search of the root directory.
  \<^item> \<open>Fat32_Vfs\<close>, \<open>Vfs\<close>, \<open>Vfs_Properties\<close>, \<open>File_Frame\<close>, \<open>Vfs_Descriptors\<close> (\<^verbatim>\<open>fat32_vfs.c\<close>, \<^verbatim>\<open>vfs.c\<close>): reading through a
    descriptor down to the port accesses; the descriptor table refines a finite map (a locale, interpreted on the code's operations).
  \<^item> \<open>Elf64\<close>, \<open>Elf64_Access\<close>, \<open>Elf64_Properties\<close> (\<^verbatim>\<open>elf64.c\<close>): which images are rejected, what a successful load reports, that well-formed images load
    without a fault; what a loaded segment holds.
  \<^item> \<open>Syscall\<close>, \<open>Syscall_Properties\<close> (\<^verbatim>\<open>idt.c\<close>, \<^verbatim>\<open>proc.c\<close>): the system calls, exit and execve, the first frame of a process.
  \<^item> \<open>Boot\<close>, \<open>Boot_Properties\<close> (both \<^verbatim>\<open>main.c\<close>): the start-up sequence; from the boot loader's memory map to the free frames,
    which are specified byte by byte (\<open>frames_of\<close>, \<open>frames_below\<close>); why the tables of the boot code are not well-formed.
  \<^item> \<open>Ishell\<close>, \<open>Ishell_Properties\<close> (\<^verbatim>\<open>app/ishell/main.c\<close>, \<^verbatim>\<open>app/uname/main.c\<close>): line editing and commands of the shell; what
    the console shows of a line that stays left of the right edge.

  \<^bold>\<open>Interfaces.\<close>  Contracts between components are locales, each interpreted on the model's own operations where they are
  defined: the frame allocator, bounded queues (keyboard buffer), the ready queue, the descriptor table.

  \<^bold>\<open>What does not hold.\<close>  Some theorems prove that the code does something it should not do, with the exact circumstances:
  releasing heap memory has no effect, reading behind the end of a file, the process queue after execve, the missing end of
  interrupt after a switch, fake shifts and the spurious events of PrintScreen and Pause, a constant timer calibration, the shell's echo.

  \<^bold>\<open>Limits.\<close>  The theorems about page tables, and those that rest on them, assume well-formed tables (\<open>vmm_wf\<close>): distinct page-aligned frames that the frame allocator
  does not count as free.  The tables that \<^verbatim>\<open>boot.asm\<close> leaves do not meet this when the frame at 0x3FF000 is free, because its loop for the identity map
  overruns a table (\<open>Boot_Properties.boot_tables_overrun\<close>).  The memories \<open>mem\<close> and \<open>hmem\<close> are separate: a frame that is
  reached both through a mapped page and through the identity map is not seen under both addresses.  The disk of \<open>Ide_Disk\<close> never reports that it is busy or an
  error, transfers one sector per command (the driver always asks for one) and does not distinguish the two drives of the channel.  The UART is always ready to transmit.

  \<^bold>\<open>Not modelled.\<close>  Assembly (\<^verbatim>\<open>boot.asm\<close>, \<^verbatim>\<open>idt_stubs.asm\<close>, \<^verbatim>\<open>proc_switch.asm\<close>, \<^verbatim>\<open>userland.asm\<close>): the saving and
  restoring of registers and the first page tables; a switch is the address of the process that is switched to.  The linker
  scripts and the build.  The translation cache and CR3: \<^verbatim>\<open>invlpg\<close> and reloads have no effect in the model.  Interrupts
  arriving between two statements of kernel code: handlers run as whole operations.  Uninitialised local variables are parameters.
\<close>

end
